(* ===== verification/Prelude.thy ===== *)
theory Prelude
  imports Main "HOL-Library.AList" "HOL-Library.List_Lexorder" "HOL-Library.Char_ord"
    "HOL-Library.Sublist"
begin

text \<open>
  What the components share: results that may fail, the pieces of the JavaScript standard
  library the sources use (strings, arrays, \<open>Set\<close>, \<open>Map\<close>, \<open>JSON.stringify\<close> of a string), and
  the lemmas about them that carry the component proofs.

  Strings are byte sequences (the UTF-8 encoding of the program's text), so \<open>string\<close> is
  \<open>char list\<close> and its order is the lexicographic one of \<open>List_Lexorder\<close> and \<open>Char_ord\<close>.
  Where the source counts UTF-16 code units (\<open>s.length\<close>), the model counts them with
  \<open>js_length\<close>.
  Arrays are lists; a JavaScript \<open>Set\<close> is a list without duplicates in order of first
  insertion; a \<open>Map\<close> is an association list in order of first insertion, updated with
  \<open>AList.update\<close>.
\<close>

named_theorems js_simps \<open>unfolding rules of the library functions used by the sources\<close>

section \<open>Results\<close>

type_synonym ('e, 'a) res = "'e + 'a"

fun res_bind :: "('e, 'a) res \<Rightarrow> ('a \<Rightarrow> ('e, 'b) res) \<Rightarrow> ('e, 'b) res" where
  "res_bind (Inl e) f = Inl e"
| "res_bind (Inr a) f = f a"

fun res_map_list :: "('a \<Rightarrow> ('e, 'b) res) \<Rightarrow> 'a list \<Rightarrow> ('e, 'b list) res" where
  "res_map_list f [] = Inr []"
| "res_map_list f (x # xs) =
     (case f x of Inl e \<Rightarrow> Inl e
      | Inr y \<Rightarrow> (case res_map_list f xs of Inl e \<Rightarrow> Inl e | Inr ys \<Rightarrow> Inr (y # ys)))"

lemma res_map_list_Inr:
  "(\<And>x. x \<in> set xs \<Longrightarrow> f x = Inr (g x)) \<Longrightarrow> res_map_list f xs = Inr (map g xs)"
  by (induction xs) auto

lemma res_bind_Inr_iff: "res_bind r f = Inr b \<longleftrightarrow> (\<exists>a. r = Inr a \<and> f a = Inr b)"
  by (cases r) auto

section \<open>Optional fields\<close>

definition opt_list :: "'a list option \<Rightarrow> 'a list" where
  "opt_list x = (case x of None \<Rightarrow> [] | Some l \<Rightarrow> l)"

lemma opt_list_simps [simp, js_simps]: "opt_list None = []" "opt_list (Some l) = l"
  by (simp_all add: opt_list_def)

section \<open>Strings\<close>

definition cmp :: "string \<Rightarrow> string \<Rightarrow> int" where
  "cmp a b = (if a < b then - 1 else if b < a then 1 else 0)"

lemma cmp_zero_iff: "cmp a b = 0 \<longleftrightarrow> a = b"
  by (auto simp: cmp_def)

lemma cmp_swap: "cmp b a = - cmp a b"
  by (auto simp: cmp_def)

lemma cmp_less_iff: "cmp a b < 0 \<longleftrightarrow> a < b"
  by (auto simp: cmp_def)

definition is_upper :: "char \<Rightarrow> bool" where
  "is_upper c \<longleftrightarrow> 65 \<le> (of_char c :: nat) \<and> (of_char c :: nat) \<le> 90"

definition is_lower :: "char \<Rightarrow> bool" where
  "is_lower c \<longleftrightarrow> 97 \<le> (of_char c :: nat) \<and> (of_char c :: nat) \<le> 122"

definition is_digit :: "char \<Rightarrow> bool" where
  "is_digit c \<longleftrightarrow> 48 \<le> (of_char c :: nat) \<and> (of_char c :: nat) \<le> 57"

definition is_alpha :: "char \<Rightarrow> bool" where
  "is_alpha c \<longleftrightarrow> is_upper c \<or> is_lower c"

definition is_space :: "char \<Rightarrow> bool" where
  "is_space c \<longleftrightarrow> (of_char c :: nat) \<in> {9, 10, 11, 12, 13, 32}"

text \<open>Closed character codes evaluate in the simplifier.\<close>

lemma char_of_numeral [simp]:
  "char_of (numeral k :: nat) =
     Char (odd (numeral k :: nat)) (bit (numeral k :: nat) 1) (bit (numeral k :: nat) 2)
       (bit (numeral k :: nat) 3) (bit (numeral k :: nat) 4) (bit (numeral k :: nat) 5)
       (bit (numeral k :: nat) 6) (bit (numeral k :: nat) 7)"
  by (simp only: char_of_def bit_0)

lemma bit_Suc0_0 [simp]: "bit (Suc 0) 0"
  by (simp add: bit_0)

definition is_hex :: "char \<Rightarrow> bool" where
  "is_hex c \<longleftrightarrow> is_digit c \<or> c \<in> set ''abcdef''"

definition SHA_RE :: "string \<Rightarrow> bool" where
  "SHA_RE s \<longleftrightarrow> length s = 40 \<and> list_all is_hex s"

definition lower_char :: "char \<Rightarrow> char" where
  "lower_char c = (if is_upper c then char_of ((of_char c :: nat) + 32) else c)"

definition upper_char :: "char \<Rightarrow> char" where
  "upper_char c = (if is_lower c then char_of ((of_char c :: nat) - 32) else c)"

definition to_lower :: "string \<Rightarrow> string" where
  "to_lower s = map lower_char s"

definition to_upper :: "string \<Rightarrow> string" where
  "to_upper s = map upper_char s"

lemma of_char_lt_256 [simp]: "(of_char (c :: char) :: nat) < 256"
  by (cases c) (simp add: of_char_def horner_sum_simps)

lemma of_char_lower_char:
  "(of_char (lower_char c) :: nat) = (if is_upper c then of_char c + 32 else of_char c)"
  by (auto simp: lower_char_def is_upper_def)

lemma is_upper_lower_char [simp]: "\<not> is_upper (lower_char c)"
  by (auto simp: is_upper_def of_char_lower_char)

lemma lower_char_idem [simp]: "lower_char (lower_char c) = lower_char c"
  by (simp add: lower_char_def [of "lower_char c"])

lemma to_lower_idem [simp]: "to_lower (to_lower s) = to_lower s"
  by (simp add: to_lower_def)

text \<open>UTF-16 length of a UTF-8 byte sequence: continuation bytes count nothing, the first
  byte of a four-byte sequence counts as a surrogate pair.\<close>

definition unit_count :: "char \<Rightarrow> nat" where
  "unit_count c =
     (let n = (of_char c :: nat)
      in if n < 128 then 1 else if n < 192 then 0 else if n < 240 then 1 else 2)"

definition js_length :: "string \<Rightarrow> nat" where
  "js_length s = sum_list (map unit_count s)"

lemma js_length_ascii: "(\<And>c. c \<in> set s \<Longrightarrow> (of_char c :: nat) < 128) \<Longrightarrow> js_length s = length s"
  by (induction s) (auto simp: js_length_def unit_count_def Let_def)

fun join :: "string \<Rightarrow> string list \<Rightarrow> string" where
  "join sep [] = []"
| "join sep [x] = x"
| "join sep (x # y # zs) = x @ sep @ join sep (y # zs)"

fun split_on :: "char \<Rightarrow> string \<Rightarrow> string list" where
  "split_on c [] = [[]]"
| "split_on c (x # xs) =
     (if x = c then [] # split_on c xs
      else (case split_on c xs of [] \<Rightarrow> [[x]] | p # ps \<Rightarrow> (x # p) # ps))"

lemma split_on_nonempty [simp]: "split_on c s \<noteq> []"
  by (induction s) (auto split: list.splits)

lemma split_on_no_sep: "c \<notin> set s \<Longrightarrow> split_on c s = [s]"
  by (induction s) auto

lemma split_on_append: "c \<notin> set s \<Longrightarrow> split_on c (s @ c # t) = s # split_on c t"
  by (induction s) auto

lemma split_on_parts: "p \<in> set (split_on c s) \<Longrightarrow> c \<notin> set p"
  by (induction s arbitrary: p) (auto split: list.splits if_splits)

lemma join_split_on: "join [c] (split_on c s) = s"
proof (induction s)
  case (Cons x xs)
  then show ?case by (cases "split_on c xs"; cases "tl (split_on c xs)") (auto split: list.splits)
qed simp

lemma join_snoc: "xs \<noteq> [] \<Longrightarrow> join sep (xs @ [y]) = join sep xs @ sep @ y"
  by (induction sep xs rule: join.induct) auto

lemma split_on_join:
  "xs \<noteq> [] \<Longrightarrow> (\<And>x. x \<in> set xs \<Longrightarrow> c \<notin> set x) \<Longrightarrow> split_on c (join [c] xs) = xs"
proof (induction "[c]" xs rule: join.induct)
  case (3 x y zs)
  then have "split_on c (join [c] (y # zs)) = y # zs" by simp
  moreover have "c \<notin> set x" using 3 by simp
  ultimately show ?case by (simp add: split_on_append)
qed (auto simp: split_on_no_sep)

text \<open>The list can be read back from the joined text when no element holds the separator
  and the list is not the one empty string.\<close>

lemma join_inject:
  assumes "join [c] xs = join [c] ys" and "xs \<noteq> []" and "ys \<noteq> []"
    and "\<And>x. x \<in> set xs \<Longrightarrow> c \<notin> set x" and "\<And>y. y \<in> set ys \<Longrightarrow> c \<notin> set y"
  shows "xs = ys"
  using assms split_on_join by metis

definition starts_with :: "string \<Rightarrow> string \<Rightarrow> bool" where
  "starts_with p s \<longleftrightarrow> take (length p) s = p"

lemma starts_with_append [simp]: "starts_with p (p @ s)"
  by (simp add: starts_with_def)

lemma starts_with_iff: "starts_with p s \<longleftrightarrow> (\<exists>t. s = p @ t)"
  by (metis append_take_drop_id starts_with_append starts_with_def)

definition trim :: "string \<Rightarrow> string" where
  "trim s = rev (dropWhile is_space (rev (dropWhile is_space s)))"

lemma trim_no_space:
  assumes "s = [] \<or> (\<not> is_space (hd s) \<and> \<not> is_space (last s))"
  shows "trim s = s"
proof -
  have "dropWhile is_space s = s" and "dropWhile is_space (rev s) = rev s"
    using assms by (auto simp: dropWhile_eq_self_iff hd_rev)
  then show ?thesis by (simp add: trim_def)
qed

text \<open>Decimal rendering of a number in a template literal.\<close>

fun show_nat :: "nat \<Rightarrow> string" where
  "show_nat n =
     (if n < 10 then [''0123456789'' ! n] else show_nat (n div 10) @ [''0123456789'' ! (n mod 10)])"

declare show_nat.simps [simp del]

text \<open>All pairs of positions \<open>i < j\<close>, in the order of two nested loops.\<close>

fun pairs :: "'a list \<Rightarrow> ('a \<times> 'a) list" where
  "pairs [] = []"
| "pairs (x # xs) = map (Pair x) xs @ pairs xs"

lemma pairs_cover:
  "a \<in> set xs \<Longrightarrow> b \<in> set xs \<Longrightarrow> a \<noteq> b \<Longrightarrow> (a, b) \<in> set (pairs xs) \<or> (b, a) \<in> set (pairs xs)"
  by (induction xs) auto

lemma pairs_mem: "(a, b) \<in> set (pairs xs) \<Longrightarrow> a \<in> set xs \<and> b \<in> set xs"
  by (induction xs) auto

section \<open>Sets, maps and counters in insertion order\<close>

fun js_set :: "'a list \<Rightarrow> 'a list" where
  "js_set [] = []"
| "js_set (x # xs) = x # removeAll x (js_set xs)"

lemma set_js_set [simp]: "set (js_set xs) = set xs"
  by (induction xs) auto

lemma distinct_js_set [simp]: "distinct (js_set xs)"
  by (induction xs) (auto simp: distinct_removeAll)

lemma js_set_distinct: "distinct xs \<Longrightarrow> js_set xs = xs"
  by (induction xs) auto

lemma length_js_set_iff: "length (js_set xs) = length xs \<longleftrightarrow> distinct xs"
  by (metis card_distinct distinct_card distinct_js_set set_js_set js_set_distinct)

text \<open>\<open>new Map(entries)\<close>: a repeated key keeps its place and takes the last value.\<close>

definition js_map :: "('k \<times> 'v) list \<Rightarrow> ('k \<times> 'v) list" where
  "js_map entries = fold (\<lambda>(k, v) m. AList.update k v m) entries []"

lemma map_of_fold_update:
  "map_of (fold (\<lambda>(k, v) m. AList.update k v m) entries m) = map_of m ++ map_of (rev entries)"
  by (induction entries arbitrary: m)
    (auto simp: update_conv' fun_eq_iff map_add_def split: option.splits)

lemma map_of_js_map: "map_of (js_map entries) = map_of (rev entries)"
  by (simp add: js_map_def map_of_fold_update)

text \<open>Grouping: \<open>m.set(k, [...(m.get(k) ?? []), x])\<close> for every element.\<close>

definition group_add :: "'k \<Rightarrow> 'v \<Rightarrow> ('k \<times> 'v list) list \<Rightarrow> ('k \<times> 'v list) list" where
  "group_add k v m = AList.update k (opt_list (map_of m k) @ [v]) m"

definition group_by :: "('a \<Rightarrow> 'k) \<Rightarrow> ('a \<Rightarrow> 'v) \<Rightarrow> 'a list \<Rightarrow> ('k \<times> 'v list) list" where
  "group_by f g xs = fold (\<lambda>x. group_add (f x) (g x)) xs []"

definition group_of :: "('a \<Rightarrow> 'k) \<Rightarrow> ('a \<Rightarrow> 'v) \<Rightarrow> 'a list \<Rightarrow> 'k \<Rightarrow> 'v list" where
  "group_of f g xs k = map g (filter (\<lambda>x. f x = k) xs)"

lemma map_of_group_add:
  "map_of (group_add k v m) = (map_of m)(k \<mapsto> opt_list (map_of m k) @ [v])"
  by (simp add: group_add_def update_conv')

lemma distinct_group_add: "distinct (map fst m) \<Longrightarrow> distinct (map fst (group_add k v m))"
  by (simp add: group_add_def distinct_update)

lemma map_of_group_fold:
  "map_of (fold (\<lambda>x. group_add (f x) (g x)) xs m) k =
     (if group_of f g xs k = [] then map_of m k
      else Some (opt_list (map_of m k) @ group_of f g xs k))"
  by (induction xs arbitrary: m) (auto simp: map_of_group_add group_of_def opt_list_def)

lemma map_of_group_by:
  "map_of (group_by f g xs) k = (if group_of f g xs k = [] then None else Some (group_of f g xs k))"
  by (simp add: group_by_def map_of_group_fold)

lemma distinct_group_fold:
  "distinct (map fst m) \<Longrightarrow> distinct (map fst (fold (\<lambda>x. group_add (f x) (g x)) xs m))"
  by (induction xs arbitrary: m) (auto intro: distinct_group_add)

lemma distinct_group_by: "distinct (map fst (group_by f g xs))"
  unfolding group_by_def by (rule distinct_group_fold) simp

lemma group_by_entries:
  "(k, vs) \<in> set (group_by f g xs) \<longleftrightarrow> vs = group_of f g xs k \<and> vs \<noteq> []"
  using map_of_eq_Some_iff [OF distinct_group_by, of f g xs k vs]
  by (auto simp: map_of_group_by split: if_splits)

lemma group_of_nonempty_iff: "group_of f g xs k \<noteq> [] \<longleftrightarrow> (\<exists>x \<in> set xs. f x = k)"
  by (auto simp: group_of_def filter_empty_conv)

text \<open>Two elements with one key are found as a group of more than one member.\<close>

lemma no_big_group_inj:
  assumes "\<And>k. length (group_of f g xs k) \<le> 1"
  shows "distinct (map f xs)"
  using assms
proof (induction xs)
  case (Cons x xs)
  have "length (group_of f g xs k) \<le> 1" for k
    using Cons.prems [of k] by (auto simp: group_of_def split: if_splits)
  then have "distinct (map f xs)" by (rule Cons.IH)
  moreover have "f x \<notin> f ` set xs"
  proof
    assume "f x \<in> f ` set xs"
    then obtain y where "y \<in> set xs" "f y = f x" by force
    then have "filter (\<lambda>z. f z = f x) xs \<noteq> []" by (auto simp: filter_empty_conv)
    with Cons.prems [of "f x"] show False by (simp add: group_of_def)
  qed
  ultimately show ?case by simp
qed simp

lemma distinct_map_filter: "distinct (map f xs) \<Longrightarrow> length (filter (\<lambda>x. f x = k) xs) \<le> 1"
  by (induction xs) (auto simp: filter_empty_conv image_iff)

text \<open>Counting: \<open>m.set(k, (m.get(k) ?? 0) + 1)\<close> for every element.\<close>

definition count_add :: "'k \<Rightarrow> ('k \<times> nat) list \<Rightarrow> ('k \<times> nat) list" where
  "count_add k m = AList.update k (case map_of m k of None \<Rightarrow> 1 | Some n \<Rightarrow> n + 1) m"

definition count_by :: "('a \<Rightarrow> 'k) \<Rightarrow> 'a list \<Rightarrow> ('k \<times> nat) list" where
  "count_by f xs = fold (\<lambda>x. count_add (f x)) xs []"

lemma map_of_count_fold:
  "map_of (fold (\<lambda>x. count_add (f x)) xs m) k =
     (let n = length (filter (\<lambda>x. f x = k) xs)
      in if n = 0 then map_of m k else Some ((case map_of m k of None \<Rightarrow> 0 | Some c \<Rightarrow> c) + n))"
  by (induction xs arbitrary: m)
    (auto simp: count_add_def update_conv' Let_def split: option.splits)

lemma distinct_count_fold:
  "distinct (map fst m) \<Longrightarrow> distinct (map fst (fold (\<lambda>x. count_add (f x)) xs m))"
  by (induction xs arbitrary: m) (auto simp: count_add_def intro: distinct_update)

lemma count_by_entries:
  "(k, n) \<in> set (count_by f xs) \<longleftrightarrow> n = length (filter (\<lambda>x. f x = k) xs) \<and> n \<noteq> 0"
proof -
  have "distinct (map fst (count_by f xs))"
    unfolding count_by_def by (rule distinct_count_fold) simp
  from map_of_eq_Some_iff [OF this, of k n] show ?thesis
    by (auto simp: count_by_def map_of_count_fold Let_def split: if_splits)
qed

text \<open>No count above one means no repeated key.\<close>

lemma count_by_distinct:
  "(\<forall>(k, n) \<in> set (count_by f xs). n \<le> 1) \<longleftrightarrow> distinct (map f xs)"
proof
  assume le: "\<forall>(k, n) \<in> set (count_by f xs). n \<le> 1"
  have "length (group_of f f xs k) \<le> 1" for k
    using le count_by_entries [of k "length (filter (\<lambda>x. f x = k) xs)" f xs]
    by (fastforce simp: group_of_def)
  then show "distinct (map f xs)" by (rule no_big_group_inj)
next
  assume "distinct (map f xs)"
  then have "length (filter (\<lambda>x. f x = k) xs) \<le> 1" for k by (rule distinct_map_filter)
  then show "\<forall>(k, n) \<in> set (count_by f xs). n \<le> 1" by (auto simp: count_by_entries)
qed

lemma group_by_distinct:
  "(\<forall>(k, vs) \<in> set (group_by f g xs). length vs \<le> 1) \<longleftrightarrow> distinct (map f xs)"
proof
  assume le: "\<forall>(k, vs) \<in> set (group_by f g xs). length vs \<le> 1"
  have "length (group_of f g xs k) \<le> 1" for k
    using le group_by_entries [of k "group_of f g xs k" f g xs] by fastforce
  then show "distinct (map f xs)" by (rule no_big_group_inj)
next
  assume "distinct (map f xs)"
  then have "length (filter (\<lambda>x. f x = k) xs) \<le> 1" for k by (rule distinct_map_filter)
  then show "\<forall>(k, vs) \<in> set (group_by f g xs). length vs \<le> 1"
    by (auto simp: group_by_entries group_of_def)
qed

section \<open>JSON string literals\<close>

definition hex_digit :: "nat \<Rightarrow> char" where
  "hex_digit n = ''0123456789abcdef'' ! n"

definition json_char :: "char \<Rightarrow> string" where
  "json_char c =
     (let n = (of_char c :: nat)
      in if n = 34 then [CHR 0x5C, CHR 0x22]
         else if n = 92 then [CHR 0x5C, CHR 0x5C]
         else if n = 8 then [CHR 0x5C, CHR ''b'']
         else if n = 9 then [CHR 0x5C, CHR ''t'']
         else if n = 10 then [CHR 0x5C, CHR ''n'']
         else if n = 12 then [CHR 0x5C, CHR ''f'']
         else if n = 13 then [CHR 0x5C, CHR ''r'']
         else if n < 32 then [CHR 0x5C, CHR ''u'', CHR ''0'', CHR ''0'', hex_digit (n div 16), hex_digit (n mod 16)]
         else [c])"

definition json_stringify :: "string \<Rightarrow> string" where
  "json_stringify s = CHR 0x22 # concat (map json_char s) @ [CHR 0x22]"

text \<open>Reading a JSON string body back: the quote that ends the literal is the first one not
  preceded by an escaping backslash. \<open>json_body\<close> returns the body and the rest of the text.\<close>

fun json_body :: "string \<Rightarrow> (string \<times> string) option" where
  "json_body [] = None"
| "json_body (c # s) =
     (if c = CHR 0x22 then Some ([], s)
      else if c = CHR 0x5C then
        (case s of [] \<Rightarrow> None
         | d # s' \<Rightarrow> map_option (\<lambda>(b, r). (c # d # b, r)) (json_body s'))
      else map_option (\<lambda>(b, r). (c # b, r)) (json_body s))"

lemma hex_digit_range: "n < 16 \<Longrightarrow> hex_digit n \<in> set ''0123456789abcdef''"
  unfolding hex_digit_def by (rule nth_mem) simp

lemma hex_digit_plain:
  "n < 16 \<Longrightarrow> hex_digit n \<noteq> CHR 0x0A \<and> hex_digit n \<noteq> CHR 0x0D \<and> hex_digit n \<noteq> CHR 0x22 \<and> hex_digit n \<noteq> CHR 0x5C"
  using hex_digit_range [of n] by auto

lemma json_char_no_newline:
  assumes "d \<in> set (json_char c)"
  shows "d \<noteq> CHR 0x0A \<and> d \<noteq> CHR 0x0D"
proof (cases "(of_char c :: nat) < 32")
  case True
  then have "of_char c div 16 < (16 :: nat)" by simp
  then show ?thesis
    using assms hex_digit_plain [of "of_char c div 16"] hex_digit_plain [of "of_char c mod 16"]
    by (auto simp: json_char_def Let_def split: if_splits)
next
  case False
  then show ?thesis using assms by (auto simp: json_char_def Let_def split: if_splits)
qed

lemma json_stringify_one_line:
  "d \<in> set (json_stringify s) \<Longrightarrow> d \<noteq> CHR 0x0A \<and> d \<noteq> CHR 0x0D"
  using json_char_no_newline by (fastforce simp: json_stringify_def)

text \<open>The end of the literal is where \<open>JSON.stringify\<close> put it: no value closes it early.\<close>

lemma json_body_char:
  "json_body (json_char c @ t) = map_option (\<lambda>(b, r). (json_char c @ b, r)) (json_body t)"
proof (cases "(of_char c :: nat) < 32")
  case True
  then have "of_char c div 16 < (16 :: nat)" by simp
  then show ?thesis
    using hex_digit_plain [of "of_char c div 16"] hex_digit_plain [of "of_char c mod 16"]
    by (cases "json_body t") (auto simp: json_char_def Let_def)
next
  case False
  show ?thesis
  proof (cases "(of_char c :: nat) = 34 \<or> (of_char c :: nat) = 92")
    case True
    then show ?thesis by (auto simp: json_char_def Let_def)
  next
    case other: False
    then have "c \<noteq> CHR 0x22" "c \<noteq> CHR 0x5C" by auto
    with False other show ?thesis by (simp add: json_char_def Let_def)
  qed
qed

lemma json_body_roundtrip:
  "json_body (concat (map json_char s) @ CHR 0x22 # rest) = Some (concat (map json_char s), rest)"
  by (induction s) (simp_all add: json_body_char)

text \<open>Reading one character of a literal back, and with it the whole literal.\<close>

definition hex_val :: "char \<Rightarrow> nat" where
  "hex_val c = (if is_digit c then of_char c - 48 else of_char c - 87)"

fun json_read :: "string \<Rightarrow> (char \<times> string) option" where
  "json_read [] = None"
| "json_read (c # s) =
     (if c \<noteq> CHR 0x5C then Some (c, s)
      else (case s of [] \<Rightarrow> None
        | e # s' \<Rightarrow>
            if e = CHR ''b'' then Some (CHR 0x08, s') else if e = CHR ''t'' then Some (CHR 0x09, s')
            else if e = CHR ''n'' then Some (CHR 0x0A, s') else if e = CHR ''f'' then Some (CHR 0x0C, s')
            else if e = CHR ''r'' then Some (CHR 0x0D, s')
            else if e = CHR ''u'' then Some (char_of (hex_val (s' ! 2) * 16 + hex_val (s' ! 3)), drop 4 s')
            else Some (e, s')))"

lemma hex_val_digit: "n < 16 \<Longrightarrow> hex_val (hex_digit n) = n"
  by (auto simp: hex_digit_def hex_val_def is_digit_def less_Suc_eq numeral_eq_Suc)

lemma json_read_char: "json_read (json_char c @ t) = Some (c, t)"
proof -
  let ?n = "of_char c :: nat"
  have eqs: "?n = 34 \<Longrightarrow> c = CHR 0x22" "?n = 92 \<Longrightarrow> c = CHR 0x5C" "?n = 8 \<Longrightarrow> c = CHR 0x08"
    "?n = 9 \<Longrightarrow> c = CHR 0x09" "?n = 10 \<Longrightarrow> c = CHR 0x0A" "?n = 12 \<Longrightarrow> c = CHR 0x0C"
    "?n = 13 \<Longrightarrow> c = CHR 0x0D"
    by (rule of_char_eq_iff [where 'a = nat, THEN iffD1], simp)+
  show ?thesis
  proof (cases "?n = 34 \<or> ?n = 92 \<or> ?n = 8 \<or> ?n = 9 \<or> ?n = 10 \<or> ?n = 12 \<or> ?n = 13")
    case True
    then show ?thesis by (elim disjE) (drule eqs, simp add: json_char_def Let_def)+
  next
    case plain: False
    show ?thesis
    proof (cases "?n < 32")
      case True
      then have "?n div 16 < 16" by simp
      then have "hex_val (hex_digit (?n div 16)) * 16 + hex_val (hex_digit (?n mod 16)) = ?n"
        by (simp add: hex_val_digit)
      moreover have "json_char c =
          [CHR 0x5C, CHR ''u'', CHR ''0'', CHR ''0'', hex_digit (?n div 16), hex_digit (?n mod 16)]"
        using True plain by (simp add: json_char_def Let_def)
      ultimately show ?thesis by (simp only: json_read.simps append.simps) simp
    next
      case False
      then have "json_char c = [c]" using plain by (simp add: json_char_def Let_def)
      moreover have "c \<noteq> CHR 0x5C" using plain by auto
      ultimately show ?thesis by simp
    qed
  qed
qed

lemma json_char_nonempty: "json_char c \<noteq> []"
  using json_read_char [of c "[]"] by auto

lemma json_chars_inject: "concat (map json_char s) = concat (map json_char t) \<Longrightarrow> s = t"
proof (induction s arbitrary: t)
  case Nil
  then show ?case using json_char_nonempty by (cases t) simp_all
next
  case (Cons c s)
  show ?case
  proof (cases t)
    case Nil
    then show ?thesis using Cons.prems json_char_nonempty by simp
  next
    case (Cons d t')
    then have "(c, concat (map json_char s)) = (d, concat (map json_char t'))"
      using Cons.prems json_read_char [of c] json_read_char [of d]
      by (metis concat.simps(2) list.simps(9) option.inject)
    then show ?thesis using Cons.IH \<open>t = d # t'\<close> by simp
  qed
qed

text \<open>A literal followed by other text determines both.\<close>

lemma json_stringify_inject:
  assumes "json_stringify s @ u = json_stringify t @ v"
  shows "s = t \<and> u = v"
proof -
  have "concat (map json_char s) @ CHR 0x22 # u = concat (map json_char t) @ CHR 0x22 # v"
    using assms by (simp add: json_stringify_def)
  then have "concat (map json_char s) = concat (map json_char t) \<and> u = v"
    using json_body_roundtrip [of s u] json_body_roundtrip [of t v] by (metis option.inject prod.inject)
  then show ?thesis using json_chars_inject by blast
qed

section \<open>JSON values\<close>

text \<open>A parsed JSON or YAML value; an object is the list of its entries, with distinct keys.\<close>

datatype json = JNull | JBool bool | JNum int | JStr string | JArr "json list" | JObj "(string \<times> json) list"

fun json_str :: "json \<Rightarrow> string option" where
  "json_str (JStr s) = Some s"
| "json_str _ = None"

fun json_arr :: "json \<Rightarrow> json list option" where
  "json_arr (JArr xs) = Some xs"
| "json_arr _ = None"

text \<open>\<open>json.key\<close>, \<open>undefined\<close> (\<open>None\<close>) for a missing key or a value that is not an object.\<close>

fun json_field :: "json \<Rightarrow> string \<Rightarrow> json option" where
  "json_field (JObj entries) k = map_of entries k"
| "json_field _ _ = None"

fun opt_map_list :: "('a \<Rightarrow> 'b option) \<Rightarrow> 'a list \<Rightarrow> 'b list option" where
  "opt_map_list f [] = Some []"
| "opt_map_list f (x # xs) = (case f x of None \<Rightarrow> None | Some y \<Rightarrow>
     (case opt_map_list f xs of None \<Rightarrow> None | Some ys \<Rightarrow> Some (y # ys)))"

lemma opt_map_list_map: "(\<And>x. x \<in> set xs \<Longrightarrow> f (g x) = Some x) \<Longrightarrow> opt_map_list f (map g xs) = Some xs"
  by (induction xs) auto

lemma opt_map_list_set:
  "opt_map_list f xs = Some ys \<Longrightarrow> y \<in> set ys \<Longrightarrow> \<exists>x \<in> set xs. f x = Some y"
  by (induction xs arbitrary: ys) (auto split: option.splits)

end
