(* ===== verification/PolicySchema.thy ===== *)
theory PolicySchema
  imports Prelude
begin

text \<open>
  The declaration that the policy compiler reads (\<open>policy-compiler/src/schema.ts\<close>): the enums
  as datatypes, the strict objects as records, an optional field as an \<open>option\<close>, a
  \<open>z.record\<close> as the association list of \<open>Object.entries\<close>. \<open>declaration_shape\<close> is what the zod
  schemas guarantee beyond the types (the \<open>min(1)\<close> checks, one entry per key of a record).
  Also here: \<open>accessType.ts\<close> and \<open>pgrole.ts\<close>.
\<close>

datatype privilege = Select | Insert | Update | Delete
datatype mask_kind = Hash | Partial | Null
datatype engine = Trino | Postgres
datatype classification = Public | Internal | Pii

datatype query_operation =
    ExecuteQuery | AccessCatalog | ShowSchemas | ShowTables | ShowColumns | ShowCreateTable
  | ShowFunctions | SetCatalogSessionProperty | FilterCatalogs | FilterSchemas | FilterTables
  | FilterColumns

record grant =
  g_roles :: "string list"
  privileges :: "privilege list"
  columnMask :: "(string \<times> mask_kind) list option"
  rowFilter :: "string option"
  allowUnmasked :: "bool option"

record resource =
  resource :: string
  classification :: classification
  grants :: "grant list"
  sensitiveColumns :: "string list option"
  engine :: "engine option"

record role =
  r_name :: string
  r_includes :: "string list option"

record group =
  gr_name :: string
  gr_roles :: "string list"

record catalog_grant =
  catalog :: string
  cg_roles :: "string list"
  operations :: "query_operation list"

record pg_login =
  l_name :: string
  memberOf :: "string list"
  database :: string

record decl =
  d_roles :: "role list"
  d_groups :: "group list"
  d_resources :: "resource list"
  d_catalogGrants :: "catalog_grant list option"
  d_logins :: "pg_login list option"

definition DEPLOYED_CATALOG :: string where
  "DEPLOYED_CATALOG = ''iceberg''"

section \<open>What the schemas check\<close>

definition grant_shape :: "grant \<Rightarrow> bool" where
  "grant_shape g \<longleftrightarrow> g_roles g \<noteq> [] \<and> privileges g \<noteq> [] \<and> distinct (map fst (opt_list (columnMask g)))"

definition resource_shape :: "resource \<Rightarrow> bool" where
  "resource_shape r \<longleftrightarrow>
     resource r \<noteq> [] \<and> list_all grant_shape (grants r) \<and>
     list_all (\<lambda>c. c \<noteq> []) (opt_list (sensitiveColumns r))"

definition role_shape :: "role \<Rightarrow> bool" where
  "role_shape r \<longleftrightarrow> r_name r \<noteq> []"

definition group_shape :: "group \<Rightarrow> bool" where
  "group_shape g \<longleftrightarrow> gr_name g \<noteq> [] \<and> gr_roles g \<noteq> []"

definition catalog_grant_shape :: "catalog_grant \<Rightarrow> bool" where
  "catalog_grant_shape cg \<longleftrightarrow> catalog cg \<noteq> [] \<and> cg_roles cg \<noteq> [] \<and> operations cg \<noteq> []"

definition pg_login_shape :: "pg_login \<Rightarrow> bool" where
  "pg_login_shape l \<longleftrightarrow> l_name l \<noteq> [] \<and> memberOf l \<noteq> [] \<and> database l \<noteq> []"

definition declaration_shape :: "decl \<Rightarrow> bool" where
  "declaration_shape d \<longleftrightarrow>
     list_all role_shape (d_roles d) \<and> list_all group_shape (d_groups d) \<and>
     list_all resource_shape (d_resources d) \<and>
     list_all catalog_grant_shape (opt_list (d_catalogGrants d)) \<and>
     list_all pg_login_shape (opt_list (d_logins d))"

section \<open>Operation names\<close>

fun operation_name :: "query_operation \<Rightarrow> string" where
  "operation_name ExecuteQuery = ''ExecuteQuery''"
| "operation_name AccessCatalog = ''AccessCatalog''"
| "operation_name ShowSchemas = ''ShowSchemas''"
| "operation_name ShowTables = ''ShowTables''"
| "operation_name ShowColumns = ''ShowColumns''"
| "operation_name ShowCreateTable = ''ShowCreateTable''"
| "operation_name ShowFunctions = ''ShowFunctions''"
| "operation_name SetCatalogSessionProperty = ''SetCatalogSessionProperty''"
| "operation_name FilterCatalogs = ''FilterCatalogs''"
| "operation_name FilterSchemas = ''FilterSchemas''"
| "operation_name FilterTables = ''FilterTables''"
| "operation_name FilterColumns = ''FilterColumns''"

fun privilege_name :: "privilege \<Rightarrow> string" where
  "privilege_name Select = ''select''"
| "privilege_name Insert = ''insert''"
| "privilege_name Update = ''update''"
| "privilege_name Delete = ''delete''"

fun mask_name :: "mask_kind \<Rightarrow> string" where
  "mask_name Hash = ''hash''"
| "mask_name Partial = ''partial''"
| "mask_name Null = ''null''"

lemma operation_name_inj: "operation_name a = operation_name b \<longleftrightarrow> a = b"
  by (cases a; cases b) simp_all

lemma privilege_name_inj: "privilege_name a = privilege_name b \<longleftrightarrow> a = b"
  by (cases a; cases b) simp_all

lemma mask_name_inj: "mask_name a = mask_name b \<longleftrightarrow> a = b"
  by (cases a; cases b) simp_all

datatype policy_access_type = ReadOnly | Mutating

fun privilege_access_type :: "privilege \<Rightarrow> policy_access_type" where
  "privilege_access_type Select = ReadOnly"
| "privilege_access_type Insert = Mutating"
| "privilege_access_type Update = Mutating"
| "privilege_access_type Delete = Mutating"

fun query_access_type :: "query_operation \<Rightarrow> policy_access_type" where
  "query_access_type SetCatalogSessionProperty = Mutating"
| "query_access_type _ = ReadOnly"

section \<open>PostgreSQL role names\<close>

definition toPgRole :: "string \<Rightarrow> string" where
  "toPgRole name = to_lower (map (\<lambda>c. if c = CHR ''-'' then CHR ''_'' else c) name)"

definition toPgLoginIdentifier :: "string \<Rightarrow> string" where
  "toPgLoginIdentifier name = CHR 0x22 # name @ [CHR 0x22]"

text \<open>Normalisation is idempotent: the name it produces is the one PostgreSQL keeps.\<close>

lemma lower_char_hyphen: "lower_char c = CHR ''-'' \<longleftrightarrow> c = CHR ''-''"
proof
  assume "lower_char c = CHR ''-''"
  then have "(of_char (lower_char c) :: nat) = 45" by simp
  then have "\<not> is_upper c" by (auto simp: of_char_lower_char is_upper_def split: if_splits)
  then show "c = CHR ''-''" using \<open>lower_char c = CHR ''-''\<close> by (simp add: lower_char_def)
qed (simp add: lower_char_def is_upper_def)

lemma toPgRole_no_hyphen: "CHR ''-'' \<notin> set (toPgRole name)"
  by (auto simp: toPgRole_def to_lower_def dest!: lower_char_hyphen [THEN iffD1, OF sym] split: if_splits)

lemma toPgRole_idem: "toPgRole (toPgRole name) = toPgRole name"
proof -
  have "map (\<lambda>c. if c = CHR ''-'' then CHR ''_'' else c) (toPgRole name) = toPgRole name"
    using toPgRole_no_hyphen [of name] by (intro map_idI) auto
  then show ?thesis unfolding toPgRole_def [of "toPgRole name"] by (simp add: toPgRole_def)
qed

end
