(* ===== verification/RoleGraph.thy ===== *)
theory RoleGraph
  imports PolicySchema
begin

text \<open>
  Role inheritance (\<open>policy-compiler/src/validate.ts\<close>): \<open>expandRoles\<close> and the functions built on
  it, and \<open>findCycle\<close>. The closures that mutate a captured set or map become functions that
  take it and return it; \<open>walk_all\<close> and \<open>cycle_walk\<close> run the recursive \<open>walk\<close> over a list of
  names, which is what the \<open>for\<close> loop inside \<open>walk\<close> does. The lemmas show that expansion
  computes the reflexive-transitive closure of \<open>includes\<close>, and that \<open>findCycle\<close> answers null
  exactly for an acyclic declaration.
\<close>

section \<open>Definitions\<close>

definition role_by_name :: "decl \<Rightarrow> string \<Rightarrow> role option" where
  "role_by_name d n = map_of (js_map (map (\<lambda>r. (r_name r, r)) (d_roles d))) n"

definition role_parents :: "decl \<Rightarrow> string \<Rightarrow> string list" where
  "role_parents d n = (case role_by_name d n of None \<Rightarrow> [] | Some r \<Rightarrow> opt_list (r_includes r))"

definition role_names :: "decl \<Rightarrow> string list" where
  "role_names d = map r_name (d_roles d)"

function walk_all :: "decl \<Rightarrow> string list \<Rightarrow> string list \<Rightarrow> string list" where
  "walk_all d [] seen = seen"
| "walk_all d (n # ns) seen =
     (if n \<in> set seen then walk_all d ns seen
      else walk_all d ns (walk_all d (role_parents d n) (seen @ [n])))"
  by pat_completeness auto

lemma role_by_name_SomeD: "role_by_name d n = Some r \<Longrightarrow> r \<in> set (d_roles d) \<and> r_name r = n"
  by (auto simp: role_by_name_def map_of_js_map dest!: map_of_SomeD)

lemma role_by_name_NoneD: "role_by_name d n = None \<Longrightarrow> n \<notin> set (role_names d)"
  by (auto simp: role_by_name_def map_of_js_map map_of_eq_None_iff role_names_def image_image)

lemma role_parents_unknown: "n \<notin> set (role_names d) \<Longrightarrow> role_parents d n = []"
  by (auto simp: role_parents_def role_names_def dest: role_by_name_SomeD split: option.splits)

lemma walk_all_dom_grows: "walk_all_dom (d, ns, seen) \<Longrightarrow> set seen \<subseteq> set (walk_all d ns seen)"
  by (induction d ns seen rule: walk_all.pinduct) (auto simp: walk_all.psimps)

definition unseen :: "decl \<Rightarrow> string list \<Rightarrow> nat" where
  "unseen d seen = card (set (role_names d) - set seen)"

lemma unseen_mono: "set seen \<subseteq> set seen' \<Longrightarrow> unseen d seen' \<le> unseen d seen"
  unfolding unseen_def by (intro card_mono) auto

lemma unseen_less:
  "n \<in> set (role_names d) \<Longrightarrow> n \<notin> set seen \<Longrightarrow> unseen d (seen @ [n]) < unseen d seen"
  unfolding unseen_def by (intro psubset_card_mono) auto

termination walk_all
proof (relation "measures [\<lambda>(d, ns, seen). unseen d seen, \<lambda>(d, ns, seen). length ns]", goal_cases)
  case (3 d n ns seen)
  show ?case
  proof (cases "n \<in> set (role_names d)")
    case True
    then show ?thesis using 3 unseen_less [of n d seen] by simp
  next
    case False
    then have "unseen d (seen @ [n]) = unseen d seen" unfolding unseen_def by (metis Diff_insert0 Un_insert_right append_Nil2 list.simps(15) set_append empty_set)
    then show ?thesis using False by (simp add: role_parents_unknown)
  qed
next
  case (4 d n ns seen)
  then have "set seen \<subseteq> set (walk_all d (role_parents d n) (seen @ [n]))"
    using walk_all_dom_grows by fastforce
  then show ?case using unseen_mono [of seen _ d] by (auto simp: le_less)
qed auto

definition expandRoles :: "decl \<Rightarrow> string \<Rightarrow> string list" where
  "expandRoles d roleName = sort (walk_all d [roleName] [])"

definition holdersOf :: "decl \<Rightarrow> string \<Rightarrow> string list" where
  "holdersOf d role = map r_name (filter (\<lambda>r. role \<in> set (expandRoles d (r_name r))) (d_roles d))"

definition groupEffectiveRoles :: "decl \<Rightarrow> group \<Rightarrow> string list" where
  "groupEffectiveRoles d g = js_set (concat (map (expandRoles d) (gr_roles g)))"

definition taggedGroupHolders :: "decl \<Rightarrow> string \<Rightarrow> string list" where
  "taggedGroupHolders d role =
     map (\<lambda>g. ''group:'' @ gr_name g) (filter (\<lambda>g. role \<in> set (groupEffectiveRoles d g)) (d_groups d))"

definition holdersOfIncludingGroups :: "decl \<Rightarrow> string \<Rightarrow> string list" where
  "holdersOfIncludingGroups d role = js_set (holdersOf d role @ taggedGroupHolders d role)"

datatype mark = Visiting | Done

type_synonym cycle_state = "(string \<Rightarrow> mark option) \<times> string list option"

function cycle_walk :: "decl \<Rightarrow> string list \<Rightarrow> string list \<Rightarrow> cycle_state \<Rightarrow> cycle_state" where
  "cycle_walk d [] path s = s"
| "cycle_walk d (n # ns) path (st, cycle) =
     (if cycle \<noteq> None then cycle_walk d ns path (st, cycle)
      else (case st n of
              Some Visiting \<Rightarrow> cycle_walk d ns path (st, Some (path @ [n]))
            | Some Done \<Rightarrow> cycle_walk d ns path (st, cycle)
            | None \<Rightarrow>
                (case cycle_walk d (role_parents d n) (path @ [n]) (st(n \<mapsto> Visiting), cycle) of
                   (st', cycle') \<Rightarrow> cycle_walk d ns path (st'(n \<mapsto> Done), cycle'))))"
  by pat_completeness auto

definition unmarked :: "decl \<Rightarrow> (string \<Rightarrow> mark option) \<Rightarrow> nat" where
  "unmarked d st = card (set (role_names d) - dom st)"

lemma cycle_walk_dom_grows:
  "cycle_walk_dom (d, ns, path, s) \<Longrightarrow> dom (fst s) \<subseteq> dom (fst (cycle_walk d ns path s))"
proof (induction d ns path s rule: cycle_walk.pinduct)
  case (2 d n ns path st cycle)
  show ?case
  proof (cases "cycle \<noteq> None \<or> st n \<noteq> None")
    case True
    with 2 show ?thesis by (auto simp: cycle_walk.psimps split: option.splits mark.splits)
  next
    case False
    obtain st' cycle' where inner:
      "cycle_walk d (role_parents d n) (path @ [n]) (st(n \<mapsto> Visiting), cycle) = (st', cycle')"
      by fastforce
    from False have new: "\<not> cycle \<noteq> None" "st n = None" by auto
    have "dom (st(n \<mapsto> Visiting)) \<subseteq> dom st'"
      using "2.IH"(2) [OF new] unfolding inner by (simp only: fst_conv)
    moreover have "dom (st'(n \<mapsto> Done)) \<subseteq> dom (fst (cycle_walk d ns path (st'(n \<mapsto> Done), cycle')))"
      using "2.IH"(3) [OF new inner [symmetric]] by (simp only: fst_conv)
    moreover have "cycle_walk d (n # ns) path (st, cycle) = cycle_walk d ns path (st'(n \<mapsto> Done), cycle')"
      using False inner "2.hyps" by (simp add: cycle_walk.psimps)
    ultimately show ?thesis by auto
  qed
qed (simp add: cycle_walk.psimps)

lemma unmarked_mono: "dom st \<subseteq> dom st' \<Longrightarrow> unmarked d st' \<le> unmarked d st"
  unfolding unmarked_def by (intro card_mono) auto

lemma unmarked_less:
  "n \<in> set (role_names d) \<Longrightarrow> st n = None \<Longrightarrow> unmarked d (st(n \<mapsto> m)) < unmarked d st"
  unfolding unmarked_def by (intro psubset_card_mono) auto

termination cycle_walk
proof (relation "measures [\<lambda>(d, ns, path, s). unmarked d (fst s), \<lambda>(d, ns, path, s). length ns]",
    goal_cases)
  case (3 d n ns path st cycle)
  show ?case
  proof (cases "n \<in> set (role_names d)")
    case True
    then show ?thesis using 3 unmarked_less [of n d st] by simp
  next
    case False
    then have "unmarked d (st(n \<mapsto> Visiting)) = unmarked d st"
      unfolding unmarked_def by (simp add: Diff_insert0)
    then show ?thesis using False by (simp add: role_parents_unknown)
  qed
next
  case (4 d n ns path st cycle st' cycle')
  have "dom (st(n \<mapsto> Visiting)) \<subseteq> dom st'"
    using cycle_walk_dom_grows [OF 4(4)] unfolding 4(3) [symmetric] by (simp only: fst_conv)
  then have "dom st \<subseteq> dom (st'(n \<mapsto> Done))" by auto
  then show ?case using unmarked_mono [of st _ d] by (auto simp: le_less)
qed auto

definition findCycle :: "decl \<Rightarrow> string list option" where
  "findCycle d = snd (cycle_walk d (role_names d) [] (\<lambda>_. None, None))"

section \<open>Expansion is the closure of inheritance\<close>

definition inherits :: "decl \<Rightarrow> (string \<times> string) set" where
  "inherits d = {(a, b). b \<in> set (role_parents d a)}"

lemma inherits_iff [simp]: "(a, b) \<in> inherits d \<longleftrightarrow> b \<in> set (role_parents d a)"
  by (simp add: inherits_def)

lemma walk_all_grows: "set seen \<subseteq> set (walk_all d ns seen)"
  by (induction d ns seen rule: walk_all.induct) auto

lemma walk_all_visits: "set ns \<subseteq> set (walk_all d ns seen)"
proof (induction d ns seen rule: walk_all.induct)
  case (2 d n ns seen)
  have "n \<in> set (walk_all d (n # ns) seen)"
    using walk_all_grows [of seen d ns]
      walk_all_grows [of "walk_all d (role_parents d n) (seen @ [n])" d ns]
      walk_all_grows [of "seen @ [n]" d "role_parents d n"]
    by auto
  with 2 show ?case by auto
qed simp

lemma walk_all_distinct: "distinct seen \<Longrightarrow> distinct (walk_all d ns seen)"
  by (induction d ns seen rule: walk_all.induct) auto

lemma walk_all_sound:
  "set (walk_all d ns seen) \<subseteq> set seen \<union> (inherits d)\<^sup>* `` set ns"
proof (induction d ns seen rule: walk_all.induct)
  case (2 d n ns seen)
  have parents: "(inherits d)\<^sup>* `` set (role_parents d n) \<subseteq> (inherits d)\<^sup>* `` {n}"
    by (auto intro: converse_rtrancl_into_rtrancl)
  show ?case
  proof (cases "n \<in> set seen")
    case True
    then show ?thesis using 2 by auto
  next
    case False
    then have "set (walk_all d (n # ns) seen) \<subseteq>
        set (walk_all d (role_parents d n) (seen @ [n])) \<union> (inherits d)\<^sup>* `` set ns"
      using "2.IH"(3) by simp
    also have "\<dots> \<subseteq> set (seen @ [n]) \<union> (inherits d)\<^sup>* `` set (role_parents d n) \<union> (inherits d)\<^sup>* `` set ns"
      using "2.IH"(2) False by blast
    also have "\<dots> \<subseteq> set seen \<union> (inherits d)\<^sup>* `` set (n # ns)"
      using parents by auto
    finally show ?thesis .
  qed
qed simp

text \<open>A node enters the result only together with its parents, except nodes that were
  already seen: the set of visited nodes stays closed relative to them.\<close>

lemma walk_all_closed:
  assumes "\<And>a. a \<in> set seen \<Longrightarrow> a \<notin> S \<Longrightarrow> set (role_parents d a) \<subseteq> set seen"
    and "a \<in> set (walk_all d ns seen)" and "a \<notin> S"
  shows "set (role_parents d a) \<subseteq> set (walk_all d ns seen)"
  using assms
proof (induction d ns seen arbitrary: S a rule: walk_all.induct)
  case (2 d n ns seen)
  show ?case
  proof (cases "n \<in> set seen")
    case True
    have "set (role_parents d a) \<subseteq> set (walk_all d ns seen)"
      by (rule "2.IH"(1) [OF True, of S]) (use "2.prems" True in auto)
    then show ?thesis using True by simp
  next
    case False
    let ?inner = "walk_all d (role_parents d n) (seen @ [n])"
    have inner: "set (role_parents d b) \<subseteq> set ?inner" if "b \<in> set ?inner" "b \<notin> S" for b
    proof (cases "b = n")
      case True
      then show ?thesis by (simp add: walk_all_visits)
    next
      case False
      have "set (role_parents d c) \<subseteq> set (seen @ [n])"
        if "c \<in> set (seen @ [n])" "c \<notin> insert n S" for c
        using "2.prems"(1) [of c] that by auto
      then show ?thesis
        using "2.IH"(2) [of "insert n S" b] \<open>n \<notin> set seen\<close> that False by auto
    qed
    then show ?thesis using "2.IH"(3) [of S a] False "2.prems" by simp
  qed
qed auto

lemma set_expandRoles: "set (expandRoles d r) = (inherits d)\<^sup>* `` {r}"
proof
  show "set (expandRoles d r) \<subseteq> (inherits d)\<^sup>* `` {r}"
    using walk_all_sound [of d "[r]" "[]"] by (auto simp: expandRoles_def)
  show "(inherits d)\<^sup>* `` {r} \<subseteq> set (expandRoles d r)"
  proof
    fix x
    assume "x \<in> (inherits d)\<^sup>* `` {r}"
    then have "(r, x) \<in> (inherits d)\<^sup>*" by simp
    then show "x \<in> set (expandRoles d r)"
    proof (induction rule: rtrancl_induct)
      case base
      show ?case using walk_all_visits [of "[r]" d "[]"] by (simp add: expandRoles_def)
    next
      case (step y z)
      then show ?case
        using walk_all_closed [of "[]" "{}" d y "[r]"] by (auto simp: expandRoles_def)
    qed
  qed
qed

lemma expandRoles_refl [simp]: "r \<in> set (expandRoles d r)"
  by (simp add: set_expandRoles)

lemma expandRoles_trans: "b \<in> set (expandRoles d a) \<Longrightarrow> set (expandRoles d b) \<subseteq> set (expandRoles d a)"
  by (auto simp: set_expandRoles)

lemma distinct_expandRoles: "distinct (expandRoles d r)"
  by (simp add: expandRoles_def walk_all_distinct)

lemma sorted_expandRoles: "sorted (expandRoles d r)"
  by (simp add: expandRoles_def)

lemma holdersOf_iff:
  "h \<in> set (holdersOf d r) \<longleftrightarrow> h \<in> set (role_names d) \<and> r \<in> set (expandRoles d h)"
  by (auto simp: holdersOf_def role_names_def)

lemma groupEffectiveRoles_iff:
  "r \<in> set (groupEffectiveRoles d g) \<longleftrightarrow> (\<exists>s \<in> set (gr_roles g). r \<in> set (expandRoles d s))"
  by (simp add: groupEffectiveRoles_def)

lemma taggedGroupHolders_iff:
  "h \<in> set (taggedGroupHolders d r) \<longleftrightarrow>
     (\<exists>g \<in> set (d_groups d). h = ''group:'' @ gr_name g \<and> r \<in> set (groupEffectiveRoles d g))"
  by (auto simp: taggedGroupHolders_def)

lemma holdersOfIncludingGroups_iff:
  "h \<in> set (holdersOfIncludingGroups d r) \<longleftrightarrow>
     h \<in> set (holdersOf d r) \<or> h \<in> set (taggedGroupHolders d r)"
  by (simp add: holdersOfIncludingGroups_def)

section \<open>Cycle search\<close>

definition visiting :: "(string \<Rightarrow> mark option) \<Rightarrow> string set" where
  "visiting st = {n. st n = Some Visiting}"

definition finished :: "(string \<Rightarrow> mark option) \<Rightarrow> string set" where
  "finished st = {n. st n = Some Done}"

definition cycle_inv :: "decl \<Rightarrow> string list \<Rightarrow> (string \<Rightarrow> mark option) \<Rightarrow> bool" where
  "cycle_inv d path st \<longleftrightarrow>
     visiting st = set path \<and>
     (\<forall>n \<in> finished st. set (role_parents d n) \<subseteq> finished st) \<and>
     acyclic (inherits d \<inter> (finished st \<times> UNIV))"

lemma cycle_walk_keeps_cycle: "snd s = Some c \<Longrightarrow> cycle_walk d ns path s = s"
proof (induction ns)
  case (Cons n ns)
  then show ?case by (cases s) simp
qed simp

lemma acyclic_extend:
  assumes acyc: "acyclic (R \<inter> (F \<times> UNIV))" and closed: "R `` F \<subseteq> F"
    and new: "n \<notin> F" "R `` {n} \<subseteq> F"
  shows "acyclic (R \<inter> (insert n F \<times> UNIV))"
proof (rule acyclicI, intro allI notI)
  fix x
  assume loop: "(x, x) \<in> (R \<inter> (insert n F \<times> UNIV))\<^sup>+"
  have target: "b \<in> F" if "(a, b) \<in> (R \<inter> (insert n F \<times> UNIV))\<^sup>+" for a b
    using that by (induction rule: trancl_induct) (use closed new in auto)
  have "(x, b) \<in> (R \<inter> (F \<times> UNIV))\<^sup>+" if "(x, b) \<in> (R \<inter> (insert n F \<times> UNIV))\<^sup>+" for b
    using that
  proof (induction rule: trancl_induct)
    case (base y)
    then show ?case using target [OF loop] new by auto
  next
    case (step y z)
    have "y \<in> F" using target step.hyps(1) by blast
    then show ?case using step new by (auto intro: trancl_into_trancl)
  qed
  then show False using acyc loop by (auto simp: acyclic_def)
qed

lemma cycle_inv_start:
  assumes inv: "cycle_inv d path st" and new: "st n = None"
  shows "cycle_inv d (path @ [n]) (st(n \<mapsto> Visiting))"
proof -
  have "visiting (st(n \<mapsto> Visiting)) = insert n (visiting st)"
    by (auto simp: visiting_def)
  moreover have "finished (st(n \<mapsto> Visiting)) = finished st"
    using new by (auto simp: finished_def)
  ultimately show ?thesis using inv by (simp add: cycle_inv_def)
qed

lemma cycle_inv_unmarked:
  assumes "cycle_inv d path st" and "st n = None"
  shows "n \<notin> set path"
proof
  assume "n \<in> set path"
  then have "n \<in> visiting st" using assms by (simp add: cycle_inv_def)
  then show False using assms by (simp add: visiting_def)
qed

lemma cycle_inv_finish:
  assumes inv: "cycle_inv d (path @ [n]) st" and parents: "set (role_parents d n) \<subseteq> finished st"
    and new: "n \<notin> set path"
  shows "cycle_inv d path (st(n \<mapsto> Done)) \<and> finished (st(n \<mapsto> Done)) = insert n (finished st)"
proof -
  have fin: "finished (st(n \<mapsto> Done)) = insert n (finished st)"
    by (auto simp: finished_def)
  have "n \<in> visiting st" using inv by (simp add: cycle_inv_def)
  then have notin: "n \<notin> finished st" by (simp add: visiting_def finished_def)
  have "acyclic (inherits d \<inter> (insert n (finished st) \<times> UNIV))"
    by (rule acyclic_extend) (use inv parents notin in \<open>auto simp: cycle_inv_def subset_iff\<close>)
  moreover have "visiting (st(n \<mapsto> Done)) = set path"
    using inv new by (auto simp: cycle_inv_def visiting_def)
  ultimately show ?thesis
    using inv parents fin by (auto simp: cycle_inv_def)
qed

lemma cycle_walk_none:
  "cycle_walk d ns path s = (st', None) \<Longrightarrow> cycle_inv d path (fst s) \<Longrightarrow>
     cycle_inv d path st' \<and> finished (fst s) \<union> set ns \<subseteq> finished st'"
proof (induction d ns path s arbitrary: st' rule: cycle_walk.induct)
  case (2 d n ns path st cycle)
  have c: "cycle = None"
    using "2.prems"(1) cycle_walk_keeps_cycle [of "(st, cycle)" _ d "n # ns" path] by (cases cycle) auto
  consider "st n = Some Visiting" | "st n = Some Done" | "st n = None"
    by (metis mark.exhaust option.exhaust)
  then show ?case
  proof cases
    case 1
    then show ?thesis
      using "2.prems"(1) c cycle_walk_keeps_cycle [of "(st, Some (path @ [n]))" _ d ns path] by auto
  next
    case 2
    then show ?thesis using "2.IH"(5) "2.prems" c by (auto simp: finished_def)
  next
    case 3
    obtain st1 c1 where inner:
      "cycle_walk d (role_parents d n) (path @ [n]) (st(n \<mapsto> Visiting), cycle) = (st1, c1)"
      by fastforce
    have rest: "cycle_walk d ns path (st1(n \<mapsto> Done), c1) = (st', None)"
      using "2.prems"(1) c 3 inner by simp
    then have "c1 = None"
      using cycle_walk_keeps_cycle [of "(st1(n \<mapsto> Done), c1)" _ d ns path] by (cases c1) auto
    then have one: "cycle_inv d (path @ [n]) st1 \<and>
        finished (st(n \<mapsto> Visiting)) \<union> set (role_parents d n) \<subseteq> finished st1"
      using "2.IH"(2) c 3 inner cycle_inv_start [of d path st n] "2.prems"(2)
      by (simp del: fun_upd_apply)
    have "n \<notin> set path" using "2.prems"(2) 3 cycle_inv_unmarked by simp
    with one have two: "cycle_inv d path (st1(n \<mapsto> Done))"
        "finished (st1(n \<mapsto> Done)) = insert n (finished st1)"
      using cycle_inv_finish by blast+
    have "cycle_inv d path st' \<and> finished (st1(n \<mapsto> Done)) \<union> set ns \<subseteq> finished st'"
      using "2.IH"(3) [OF _ 3 inner [symmetric]] c rest \<open>c1 = None\<close> two by (simp del: fun_upd_apply)
    moreover have "finished (st(n \<mapsto> Visiting)) = finished st"
      using 3 by (auto simp: finished_def)
    then have "finished st \<subseteq> finished st1" using one by simp
    ultimately show ?thesis using two by auto
  qed
qed auto

lemma inherits_source: "inherits d \<subseteq> set (role_names d) \<times> UNIV"
  using role_parents_unknown by (fastforce simp: inherits_def)

lemma findCycle_None_acyclic: "findCycle d = None \<Longrightarrow> acyclic (inherits d)"
proof -
  assume none: "findCycle d = None"
  obtain st where st: "cycle_walk d (role_names d) [] (\<lambda>_. None, None) = (st, None)"
    using none by (metis findCycle_def prod.collapse)
  have "cycle_inv d [] (\<lambda>_. None)"
    by (auto simp: cycle_inv_def visiting_def finished_def acyclic_def)
  then have inv: "cycle_inv d [] st" "set (role_names d) \<subseteq> finished st"
    using cycle_walk_none [OF st] by auto
  then have "inherits d \<inter> (finished st \<times> UNIV) = inherits d"
    using inherits_source [of d] by blast
  then show ?thesis using inv by (simp add: cycle_inv_def)
qed

text \<open>What it returns otherwise is a walk along \<open>includes\<close> whose last role occurs before.\<close>

definition is_cycle_path :: "decl \<Rightarrow> string list \<Rightarrow> bool" where
  "is_cycle_path d c \<longleftrightarrow>
     c \<noteq> [] \<and> successively (\<lambda>a b. b \<in> set (role_parents d a)) c \<and> last c \<in> set (butlast c)"

lemma cycle_walk_some:
  "cycle_walk d ns path s = (st', Some c) \<Longrightarrow> snd s = None \<Longrightarrow> cycle_inv d path (fst s) \<Longrightarrow>
     successively (\<lambda>a b. b \<in> set (role_parents d a)) path \<Longrightarrow>
     (path \<noteq> [] \<Longrightarrow> set ns \<subseteq> set (role_parents d (last path))) \<Longrightarrow> is_cycle_path d c"
proof (induction d ns path s arbitrary: st' rule: cycle_walk.induct)
  case (2 d n ns path st cycle)
  have c: "cycle = None" using "2.prems" by simp
  have snoc: "successively (\<lambda>a b. b \<in> set (role_parents d a)) (path @ [n])"
    using "2.prems"(4,5) by (cases "path = []") (auto simp: successively_append_iff)
  consider "st n = Some Visiting" | "st n = Some Done" | "st n = None"
    by (metis mark.exhaust option.exhaust)
  then show ?case
  proof cases
    case 1
    then have "c = path @ [n]"
      using "2.prems"(1) c cycle_walk_keeps_cycle [of "(st, Some (path @ [n]))" _ d ns path] by auto
    moreover have "n \<in> set path" using 1 "2.prems"(3) by (auto simp: cycle_inv_def visiting_def)
    ultimately show ?thesis using snoc by (simp add: is_cycle_path_def)
  next
    case 2
    then show ?thesis using "2.IH"(5) "2.prems" c by auto
  next
    case 3
    obtain st1 c1 where inner:
      "cycle_walk d (role_parents d n) (path @ [n]) (st(n \<mapsto> Visiting), cycle) = (st1, c1)"
      by fastforce
    have rest: "cycle_walk d ns path (st1(n \<mapsto> Done), c1) = (st', Some c)"
      using "2.prems"(1) c 3 inner by simp
    have inv: "cycle_inv d (path @ [n]) (st(n \<mapsto> Visiting))"
      using cycle_inv_start [of d path st n] 3 "2.prems"(3) by simp
    show ?thesis
    proof (cases c1)
      case None
      have "cycle_inv d (path @ [n]) st1 \<and> set (role_parents d n) \<subseteq> finished st1"
        using cycle_walk_none [OF inner [unfolded None]] inv by simp
      moreover have "n \<notin> set path" using "2.prems"(3) 3 cycle_inv_unmarked by simp
      ultimately have "cycle_inv d path (st1(n \<mapsto> Done))" using cycle_inv_finish by blast
      then show ?thesis
        using "2.IH"(3) [OF _ 3 inner [symmetric]] c rest None "2.prems"(4,5)
        by (simp del: fun_upd_apply)
    next
      case (Some c')
      then have "c' = c"
        using rest cycle_walk_keeps_cycle [of "(st1(n \<mapsto> Done), c1)" c' d ns path] by simp
      then show ?thesis
        using "2.IH"(2) [OF _ 3, of st1] c inner Some inv snoc by (simp del: fun_upd_apply)
    qed
  qed
qed auto

lemma findCycle_Some_path: "findCycle d = Some c \<Longrightarrow> is_cycle_path d c"
proof -
  assume some: "findCycle d = Some c"
  obtain st where st: "cycle_walk d (role_names d) [] (\<lambda>_. None, None) = (st, Some c)"
    using some by (metis findCycle_def prod.collapse)
  show ?thesis
    by (rule cycle_walk_some [OF st])
      (auto simp: cycle_inv_def visiting_def finished_def acyclic_def)
qed

lemma successively_trancl:
  "successively (\<lambda>a b. (a, b) \<in> R) (x # xs) \<Longrightarrow> xs \<noteq> [] \<Longrightarrow> (x, last xs) \<in> R\<^sup>+"
proof (induction xs arbitrary: x)
  case (Cons y ys)
  then show ?case by (cases "ys = []") (auto intro: trancl_into_trancl2)
qed simp

lemma is_cycle_path_not_acyclic: "is_cycle_path d c \<Longrightarrow> \<not> acyclic (inherits d)"
proof -
  assume c: "is_cycle_path d c"
  then obtain pre mid where "butlast c = pre @ last c # mid"
    unfolding is_cycle_path_def by (meson split_list)
  with c have eq: "c = pre @ last c # mid @ [last c]"
    by (metis append_Cons append_assoc append_butlast_last_id is_cycle_path_def)
  have "successively (\<lambda>a b. (a, b) \<in> inherits d) (last c # mid @ [last c])"
    using c eq unfolding is_cycle_path_def inherits_iff by (metis successively_append_iff)
  then have "(last c, last c) \<in> (inherits d)\<^sup>+"
    using successively_trancl by fastforce
  then show ?thesis by (auto simp: acyclic_def)
qed

lemma findCycle_iff: "findCycle d = None \<longleftrightarrow> acyclic (inherits d)"
  using findCycle_None_acyclic findCycle_Some_path is_cycle_path_not_acyclic by (metis option.exhaust)

end
