(* ===== verification/Regex.thy ===== *)
theory Regex
  imports Prelude
begin

text \<open>
  JavaScript regular expressions as the sources use them: character classes, sequence,
  alternative, greedy and lazy repetition, capture groups, all anchored at both ends.
  \<open>rx_match\<close> is the backtracking matcher: the list of all ways to match a prefix, in the order
  the engine tries them (a repetition may not iterate on the empty string, as in ECMAScript).
  \<open>rx_exec\<close> is \<open>re.exec(s)\<close> of an anchored expression, \<open>rx_test\<close> its boolean form by
  derivatives.
\<close>

datatype rx =
    RZero
  | ROne
  | RCls "char \<Rightarrow> bool"
  | RSeq rx rx
  | RAlt rx rx
  | RStar bool rx
  | RGroup nat rx

type_synonym captures = "(nat \<times> string) list"

section \<open>The language of an expression\<close>

inductive rx_lang :: "rx \<Rightarrow> string \<Rightarrow> bool" where
  one: "rx_lang ROne []"
| cls: "p c \<Longrightarrow> rx_lang (RCls p) [c]"
| seq: "rx_lang a u \<Longrightarrow> rx_lang b v \<Longrightarrow> rx_lang (RSeq a b) (u @ v)"
| alt_left: "rx_lang a u \<Longrightarrow> rx_lang (RAlt a b) u"
| alt_right: "rx_lang b u \<Longrightarrow> rx_lang (RAlt a b) u"
| star_nil: "rx_lang (RStar g r) []"
| star_cons: "u \<noteq> [] \<Longrightarrow> rx_lang r u \<Longrightarrow> rx_lang (RStar g r) v \<Longrightarrow> rx_lang (RStar g r) (u @ v)"
| group: "rx_lang r u \<Longrightarrow> rx_lang (RGroup n r) u"

inductive_simps rx_lang_simps [simp]:
  "rx_lang RZero u"
  "rx_lang ROne u"
  "rx_lang (RCls p) u"
  "rx_lang (RSeq a b) u"
  "rx_lang (RAlt a b) u"
  "rx_lang (RGroup n r) u"

inductive_cases rx_lang_StarE: "rx_lang (RStar g r) u"

section \<open>Testing by derivatives\<close>

fun rx_nullable :: "rx \<Rightarrow> bool" where
  "rx_nullable RZero = False"
| "rx_nullable ROne = True"
| "rx_nullable (RCls p) = False"
| "rx_nullable (RSeq a b) = (rx_nullable a \<and> rx_nullable b)"
| "rx_nullable (RAlt a b) = (rx_nullable a \<or> rx_nullable b)"
| "rx_nullable (RStar g r) = True"
| "rx_nullable (RGroup n r) = rx_nullable r"

text \<open>Smart constructors keep derivatives small when a closed input is evaluated.\<close>

fun mk_seq :: "rx \<Rightarrow> rx \<Rightarrow> rx" where
  "mk_seq RZero b = RZero"
| "mk_seq ROne b = b"
| "mk_seq a b = RSeq a b"

fun mk_alt :: "rx \<Rightarrow> rx \<Rightarrow> rx" where
  "mk_alt RZero b = b"
| "mk_alt a RZero = a"
| "mk_alt a b = RAlt a b"

fun rx_deriv :: "char \<Rightarrow> rx \<Rightarrow> rx" where
  "rx_deriv c RZero = RZero"
| "rx_deriv c ROne = RZero"
| "rx_deriv c (RCls p) = (if p c then ROne else RZero)"
| "rx_deriv c (RSeq a b) =
     (if rx_nullable a then mk_alt (mk_seq (rx_deriv c a) b) (rx_deriv c b)
      else mk_seq (rx_deriv c a) b)"
| "rx_deriv c (RAlt a b) = mk_alt (rx_deriv c a) (rx_deriv c b)"
| "rx_deriv c (RStar g r) = mk_seq (rx_deriv c r) (RStar g r)"
| "rx_deriv c (RGroup n r) = rx_deriv c r"

fun rx_test :: "rx \<Rightarrow> string \<Rightarrow> bool" where
  "rx_test r [] = rx_nullable r"
| "rx_test r (c # s) = rx_test (rx_deriv c r) s"

lemma rx_nullable_iff: "rx_nullable r \<longleftrightarrow> rx_lang r []"
  by (induction r) (auto intro: rx_lang.star_nil)

lemma mk_seq_lang: "rx_lang (mk_seq a b) u \<longleftrightarrow> rx_lang (RSeq a b) u"
  by (cases a) auto

lemma mk_alt_lang: "rx_lang (mk_alt a b) u \<longleftrightarrow> rx_lang (RAlt a b) u"
  by (cases a; cases b) auto

lemma rx_lang_Seq_Cons:
  "rx_lang (RSeq a b) (c # s) \<longleftrightarrow>
     (rx_lang a [] \<and> rx_lang b (c # s)) \<or> (\<exists>u v. s = u @ v \<and> rx_lang a (c # u) \<and> rx_lang b v)"
  by (auto simp: Cons_eq_append_conv)

lemma rx_lang_Star_Cons:
  "rx_lang (RStar g r) (c # s) \<longleftrightarrow>
     (\<exists>u v. s = u @ v \<and> rx_lang r (c # u) \<and> rx_lang (RStar g r) v)"
proof
  assume "rx_lang (RStar g r) (c # s)"
  then show "\<exists>u v. s = u @ v \<and> rx_lang r (c # u) \<and> rx_lang (RStar g r) v"
    by (rule rx_lang_StarE) (auto simp: Cons_eq_append_conv)
next
  assume "\<exists>u v. s = u @ v \<and> rx_lang r (c # u) \<and> rx_lang (RStar g r) v"
  then show "rx_lang (RStar g r) (c # s)"
    using rx_lang.star_cons [of "c # _" r g] by auto
qed

lemma rx_deriv_lang: "rx_lang (rx_deriv c r) u \<longleftrightarrow> rx_lang r (c # u)"
proof (induction r arbitrary: u)
  case (RSeq a b)
  have "rx_lang (rx_deriv c (RSeq a b)) u \<longleftrightarrow>
      (rx_lang a [] \<and> rx_lang b (c # u)) \<or> (\<exists>v w. u = v @ w \<and> rx_lang a (c # v) \<and> rx_lang b w)"
    using RSeq by (auto simp: mk_seq_lang mk_alt_lang rx_nullable_iff)
  then show ?case by (simp only: rx_lang_Seq_Cons)
next
  case (RStar g r)
  then show ?case by (auto simp: mk_seq_lang rx_lang_Star_Cons)
qed (auto simp: mk_alt_lang)

theorem rx_test_lang: "rx_test r s \<longleftrightarrow> rx_lang r s"
  by (induction s arbitrary: r) (auto simp: rx_nullable_iff rx_deriv_lang)

section \<open>Backtracking with captures\<close>

function rx_match :: "rx \<Rightarrow> string \<Rightarrow> (captures \<times> string) list" where
  "rx_match RZero s = []"
| "rx_match ROne s = [([], s)]"
| "rx_match (RCls p) s = (case s of [] \<Rightarrow> [] | c # t \<Rightarrow> if p c then [([], t)] else [])"
| "rx_match (RSeq a b) s =
     concat (map (\<lambda>(c1, t). map (\<lambda>(c2, t'). (c1 @ c2, t')) (rx_match b t)) (rx_match a s))"
| "rx_match (RAlt a b) s = rx_match a s @ rx_match b s"
| "rx_match (RStar greedy r) s =
     (let more = concat (map (\<lambda>(c1, t).
              if length t < length s then map (\<lambda>(c2, t'). (c1 @ c2, t')) (rx_match (RStar greedy r) t)
              else []) (rx_match r s))
      in if greedy then more @ [([], s)] else ([], s) # more)"
| "rx_match (RGroup n r) s =
     map (\<lambda>(c, t). (c @ [(n, take (length s - length t) s)], t)) (rx_match r s)"
  by pat_completeness auto
termination
  by (relation "measures [\<lambda>(r, s). size r, \<lambda>(r, s). length s]") auto

declare rx_match.simps(6) [simp del]

definition rx_exec :: "rx \<Rightarrow> string \<Rightarrow> captures option" where
  "rx_exec r s = map_option fst (List.find (\<lambda>p. snd p = []) (rx_match r s))"

lemma rx_match_sound: "(c, t) \<in> set (rx_match r s) \<Longrightarrow> \<exists>u. s = u @ t \<and> rx_lang r u"
proof (induction r s arbitrary: c t rule: rx_match.induct)
  case (4 a b s)
  then obtain c1 t1 c2 where 1: "(c1, t1) \<in> set (rx_match a s)" and 2: "(c2, t) \<in> set (rx_match b t1)"
    by auto
  obtain u v where "s = u @ t1" "rx_lang a u" "t1 = v @ t" "rx_lang b v"
    using "4.IH"(1) [OF 1] "4.IH"(2) [OF 1 refl 2] by blast
  then show ?case by auto
next
  case (5 a b s)
  then consider "(c, t) \<in> set (rx_match a s)" | "(c, t) \<in> set (rx_match b s)" by auto
  then show ?case
  proof cases
    case 1
    then show ?thesis using "5.IH"(1) [OF 1] by auto
  next
    case 2
    then show ?thesis using "5.IH"(2) [OF 2] by auto
  qed
next
  case (6 g r s)
  show ?case
  proof (cases "c = [] \<and> t = s")
    case True
    then show ?thesis by (auto intro: rx_lang.star_nil)
  next
    case False
    then obtain c1 t1 c2 where 1: "(c1, t1) \<in> set (rx_match r s)" "length t1 < length s"
      and 2: "(c2, t) \<in> set (rx_match (RStar g r) t1)"
      using 6(3) by (auto simp: rx_match.simps(6) [of g r s] Let_def split: if_splits)
    obtain u1 where u1: "s = u1 @ t1" "rx_lang r u1" using 6(1) [OF 1(1)] by blast
    obtain u2 where u2: "t1 = u2 @ t" "rx_lang (RStar g r) u2"
      using 6(2) [OF 1(1) refl 1(2) 2] by blast
    have "u1 \<noteq> []" using u1 1(2) by auto
    then have "rx_lang (RStar g r) (u1 @ u2)" using u1 u2 by (intro rx_lang.star_cons)
    then show ?thesis using u1 u2 by auto
  qed
qed (auto split: list.splits if_splits)

lemma rx_match_complete: "rx_lang r u \<Longrightarrow> \<exists>c. (c, t) \<in> set (rx_match r (u @ t))"
proof (induction arbitrary: t rule: rx_lang.induct)
  case (seq a u b v)
  obtain c1 where "(c1, v @ t) \<in> set (rx_match a (u @ v @ t))" using seq.IH(1) by blast
  moreover obtain c2 where "(c2, t) \<in> set (rx_match b (v @ t))" using seq.IH(2) by blast
  ultimately show ?case by force
next
  case (star_nil g r)
  have "([], t) \<in> set (rx_match (RStar g r) t)"
    by (simp add: rx_match.simps(6) [of g r t] Let_def)
  then show ?case by auto
next
  case (star_cons u r g v)
  obtain c1 where 1: "(c1, v @ t) \<in> set (rx_match r (u @ v @ t))" using star_cons.IH(1) by blast
  obtain c2 where 2: "(c2, t) \<in> set (rx_match (RStar g r) (v @ t))" using star_cons.IH(2) by blast
  have "length (v @ t) < length (u @ v @ t)" using star_cons by simp
  with 1 2 show ?case by (force simp: rx_match.simps(6) [of g r "u @ v @ t"] Let_def)
next
  case (group r u n)
  obtain c where "(c, t) \<in> set (rx_match r (u @ t))" using group.IH by blast
  then show ?case by force
next
  case (alt_left a u b)
  then show ?case by (metis Un_iff rx_match.simps(5) set_append)
next
  case (alt_right b u a)
  then show ?case by (metis Un_iff rx_match.simps(5) set_append)
qed auto

text \<open>The backtracking engine accepts exactly what the derivative test accepts.\<close>

theorem rx_exec_iff_test: "rx_exec r s \<noteq> None \<longleftrightarrow> rx_test r s"
proof -
  have "rx_exec r s \<noteq> None \<longleftrightarrow> (\<exists>c. (c, []) \<in> set (rx_match r s))"
    unfolding rx_exec_def by (force simp: find_None_iff)
  also have "\<dots> \<longleftrightarrow> rx_lang r s"
    using rx_match_sound [of _ "[]" r s] rx_match_complete [of r s "[]"] by auto
  finally show ?thesis by (simp add: rx_test_lang)
qed

end
