(* ===== verification/Grammar.thy ===== *)
theory Grammar
  imports Regex
begin

text \<open>
  The whitelists of \<open>policy-compiler/src/validate.ts\<close>: the row-filter grammar (\<open>IDENT\<close> to
  \<open>OR_CHAIN\<close>, matched with the \<open>i\<close> flag), \<open>IDENTIFIER\<close>, \<open>ROLE_NAME\<close> and \<open>LOGIN_NAME\<close>. The
  locale \<open>name_whitelist\<close> is what the code generators rely on
  when they write a tested name into SQL or Rego; the lemmas about \<open>filter_safe\<close> show what an
  accepted row filter can hold, those about \<open>only_lists\<close> where it can have parentheses. The locale
  \<open>closed_text\<close> lifts a property of texts that concatenation keeps from the parts of an expression to the expression.
\<close>

section \<open>Expressions\<close>

definition rx_opt :: "rx \<Rightarrow> rx" where "rx_opt r = RAlt r ROne"
definition rx_plus :: "rx \<Rightarrow> rx" where "rx_plus r = RSeq r (RStar True r)"
definition rx_char :: "char \<Rightarrow> rx" where "rx_char c = RCls (\<lambda>d. d = c)"

text \<open>\<open>\s\<close>: ASCII white space, or one of the Unicode spaces and line ends, by its UTF-8 bytes.\<close>

fun rx_bytes :: "(nat \<times> nat) list \<Rightarrow> rx" where
  "rx_bytes [] = ROne"
| "rx_bytes ((lo, hi) # bs) = RSeq (RCls (\<lambda>c. lo \<le> of_char c \<and> of_char c \<le> hi)) (rx_bytes bs)"

definition unicode_spaces :: "(nat \<times> nat) list list" where
  "unicode_spaces =
     [[(0xC2, 0xC2), (0xA0, 0xA0)], [(0xE1, 0xE1), (0x9A, 0x9A), (0x80, 0x80)],
      [(0xE2, 0xE2), (0x80, 0x80), (0x80, 0x8A)], [(0xE2, 0xE2), (0x80, 0x80), (0xA8, 0xA9)],
      [(0xE2, 0xE2), (0x80, 0x80), (0xAF, 0xAF)], [(0xE2, 0xE2), (0x81, 0x81), (0x9F, 0x9F)],
      [(0xE3, 0xE3), (0x80, 0x80), (0x80, 0x80)], [(0xEF, 0xEF), (0xBB, 0xBB), (0xBF, 0xBF)]]"

definition rx_space :: rx where
  "rx_space = foldr (\<lambda>bs r. RAlt (rx_bytes bs) r) unicode_spaces (RCls is_space)"

fun rx_lit :: "string \<Rightarrow> rx" where
  "rx_lit [] = ROne"
| "rx_lit [c] = rx_char c"
| "rx_lit (c # s) = RSeq (rx_char c) (rx_lit s)"

text \<open>A literal under the \<open>i\<close> flag.\<close>

fun rx_lit_ci :: "string \<Rightarrow> rx" where
  "rx_lit_ci [] = ROne"
| "rx_lit_ci (c # s) = RSeq (RCls (\<lambda>d. lower_char d = lower_char c)) (rx_lit_ci s)"

definition ident_start :: "char \<Rightarrow> bool" where
  "ident_start c \<longleftrightarrow> is_alpha c \<or> c = CHR ''_''"

definition ident_part :: "char \<Rightarrow> bool" where
  "ident_part c \<longleftrightarrow> is_alpha c \<or> is_digit c \<or> c = CHR ''_''"

definition role_part :: "char \<Rightarrow> bool" where
  "role_part c \<longleftrightarrow> ident_part c \<or> c = CHR ''-''"

definition rx_word :: rx where
  "rx_word = RSeq (RCls ident_start) (RStar True (RCls ident_part))"

definition IDENT :: rx where
  "IDENT = RSeq rx_word (rx_opt (RSeq (rx_char CHR ''.'') rx_word))"

definition NUMBER :: rx where
  "NUMBER = RSeq (rx_opt (rx_char CHR ''-''))
     (RSeq (rx_plus (RCls is_digit)) (rx_opt (RSeq (rx_char CHR ''.'') (rx_plus (RCls is_digit)))))"

definition STRING :: rx where
  "STRING = RSeq (rx_char CHR 0x27)
     (RSeq (RStar True (RCls (\<lambda>c. c \<noteq> CHR 0x27 \<and> c \<noteq> CHR 0x5C))) (rx_char CHR 0x27))"

definition SESSION :: rx where
  "SESSION = rx_lit_ci ''current_user''"

definition VALUE :: rx where
  "VALUE = RAlt NUMBER (RAlt STRING SESSION)"

definition spaces :: rx where "spaces = RStar True rx_space"

definition IN_LIST :: rx where
  "IN_LIST = RSeq (rx_char CHR ''('') (RSeq spaces (RSeq VALUE
     (RSeq (RStar True (RSeq spaces (RSeq (rx_char CHR '','') (RSeq spaces VALUE))))
       (RSeq spaces (rx_char CHR '')'')))))"

definition COMPARISON :: rx where
  "COMPARISON = RAlt (rx_lit ''<>'') (RAlt (rx_lit ''!='') (RAlt (rx_lit ''<='') (RAlt (rx_lit ''>='')
     (RAlt (rx_lit ''='') (RAlt (rx_lit ''<'') (rx_lit ''>''))))))"

definition FILTER_TERM :: rx where
  "FILTER_TERM = RAlt (RSeq IDENT (RSeq spaces (RSeq COMPARISON (RSeq spaces VALUE))))
     (RSeq IDENT (RSeq (rx_plus rx_space) (RSeq (rx_lit_ci ''IN'') (RSeq spaces IN_LIST))))"

definition chain_of :: "string \<Rightarrow> rx" where
  "chain_of op = RSeq spaces (RSeq FILTER_TERM
     (RSeq (RStar True (RSeq (rx_plus rx_space) (RSeq (rx_lit_ci op) (RSeq (rx_plus rx_space) FILTER_TERM))))
       spaces))"

definition AND_CHAIN :: rx where "AND_CHAIN = chain_of ''AND''"
definition OR_CHAIN :: rx where "OR_CHAIN = chain_of ''OR''"

definition ROW_FILTER_MAX_LENGTH :: nat where "ROW_FILTER_MAX_LENGTH = 200"

definition row_filter_valid :: "string \<Rightarrow> bool" where
  "row_filter_valid f \<longleftrightarrow>
     (rx_test AND_CHAIN f \<or> rx_test OR_CHAIN f) \<and> js_length f \<le> ROW_FILTER_MAX_LENGTH"

definition IDENTIFIER :: rx where "IDENTIFIER = rx_word"

definition ROLE_NAME :: rx where
  "ROLE_NAME = RSeq (RCls ident_start) (RStar True (RCls role_part))"

definition LOGIN_NAME :: rx where
  "LOGIN_NAME = RSeq (RCls ident_start) (RStar True (RCls role_part))"

section \<open>Names\<close>

lemma rx_lang_star_cls: "rx_lang (RStar g (RCls p)) u \<longleftrightarrow> (\<forall>c \<in> set u. p c)"
proof (induction u)
  case Nil
  then show ?case by (simp add: rx_lang.star_nil)
next
  case (Cons c u)
  then show ?case by (simp add: rx_lang_Star_Cons)
qed

lemma rx_test_name:
  "rx_test (RSeq (RCls p) (RStar g (RCls q))) s \<longleftrightarrow> (\<exists>c t. s = c # t \<and> p c \<and> (\<forall>d \<in> set t. q d))"
  unfolding rx_test_lang rx_lang_simps rx_lang_star_cls
  by (metis append_Cons append_Nil)

text \<open>What a code generator relies on: an accepted name is not empty, starts with a letter or
  underscore and holds letters, digits, underscores and hyphens only.\<close>

locale name_whitelist =
  fixes ok :: "string \<Rightarrow> bool"
  assumes ok_start: "ok s \<Longrightarrow> \<exists>c t. s = c # t \<and> ident_start c"
    and ok_part: "ok s \<Longrightarrow> c \<in> set s \<Longrightarrow> role_part c"
begin

lemma ok_nonempty: "ok s \<Longrightarrow> s \<noteq> []"
  using ok_start by fastforce

lemma ok_code_range:
  assumes "ok s" and "c \<in> set s"
  shows "(of_char c :: nat) \<in> {48..57} \<union> {65..90} \<union> {97..122} \<union> {45, 95}"
proof -
  have "role_part c" using assms by (rule ok_part)
  then consider "is_upper c" | "is_lower c" | "is_digit c" | "c = CHR ''_''" | "c = CHR ''-''"
    by (auto simp: role_part_def ident_part_def is_alpha_def)
  then show ?thesis by cases (simp_all add: is_upper_def is_lower_def is_digit_def)
qed

text \<open>So it cannot end a literal, a line, an identifier or a statement.\<close>

lemma ok_avoids:
  assumes "ok s" and "c \<in> set s"
  shows "\<not> is_space c" and "c \<noteq> CHR 0x22" and "c \<noteq> CHR 0x27" and "c \<noteq> CHR 0x5C"
    and "c \<noteq> CHR '';''" and "c \<noteq> CHR '',''" and "c \<noteq> CHR ''.''" and "c \<noteq> CHR '':''"
    and "c \<noteq> CHR 0x0A" and "c \<noteq> CHR 0x0D" and "c \<noteq> CHR ''/''"
  using ok_code_range [OF assms] by (auto simp: is_space_def)

lemma ok_ascii: "ok s \<Longrightarrow> js_length s = length s"
  using ok_code_range by (intro js_length_ascii) fastforce

end

interpretation ident_name: name_whitelist "rx_test IDENTIFIER"
  by unfold_locales (auto simp: IDENTIFIER_def rx_word_def rx_test_name role_part_def
      ident_start_def ident_part_def)

interpretation role_name: name_whitelist "rx_test ROLE_NAME"
  by unfold_locales (auto simp: ROLE_NAME_def rx_test_name role_part_def ident_start_def ident_part_def)

interpretation login_name: name_whitelist "rx_test LOGIN_NAME"
  by unfold_locales (auto simp: LOGIN_NAME_def rx_test_name role_part_def ident_start_def ident_part_def)

lemma IDENTIFIER_no_hyphen: "rx_test IDENTIFIER s \<Longrightarrow> CHR ''-'' \<notin> set s"
proof -
  assume "rx_test IDENTIFIER s"
  then have "ident_part c" if "c \<in> set s" for c
    using that by (auto simp: IDENTIFIER_def rx_word_def rx_test_name ident_start_def ident_part_def)
  then have "CHR ''-'' \<in> set s \<Longrightarrow> ident_part CHR ''-''" by blast
  then show ?thesis by (auto simp: ident_part_def is_alpha_def is_upper_def is_lower_def is_digit_def)
qed

section \<open>Row filters\<close>

text \<open>\<open>outside q f\<close> is the text of \<open>f\<close> outside its SQL string literals (\<open>q\<close>: inside one now).\<close>

fun outside :: "bool \<Rightarrow> string \<Rightarrow> string" where
  "outside q [] = []"
| "outside q (c # s) =
     (if c = CHR 0x27 then outside (\<not> q) s else if q then outside q s else c # outside q s)"

definition quotes :: "string \<Rightarrow> nat" where
  "quotes s = count_list s CHR 0x27"

fun dashes_signed :: "string \<Rightarrow> bool" where
  "dashes_signed [] = True"
| "dashes_signed (c # s) =
     ((c = CHR ''-'' \<longrightarrow> s \<noteq> [] \<and> is_digit (hd s)) \<and> dashes_signed s)"

definition filter_char :: "char \<Rightarrow> bool" where
  "filter_char c \<longleftrightarrow> ident_part c \<or> is_space c \<or> 128 \<le> (of_char c :: nat) \<or> c \<in> set ''.-,()<>=!''"

definition filter_safe :: "string \<Rightarrow> bool" where
  "filter_safe f \<longleftrightarrow>
     even (quotes f) \<and> CHR 0x5C \<notin> set f \<and> list_all filter_char (outside False f) \<and>
     dashes_signed (outside False f)"

lemma outside_append:
  "outside q (u @ v) = outside q u @ outside (if even (quotes u) then q else \<not> q) v"
  by (induction u arbitrary: q) (auto simp: quotes_def)

lemma dashes_signed_append: "dashes_signed u \<Longrightarrow> dashes_signed v \<Longrightarrow> dashes_signed (u @ v)"
  by (induction u) (auto simp: hd_append)

lemma filter_safe_append: "filter_safe u \<Longrightarrow> filter_safe v \<Longrightarrow> filter_safe (u @ v)"
  by (auto simp: filter_safe_def outside_append dashes_signed_append quotes_def)

lemma filter_safe_Nil: "filter_safe []"
  by (simp add: filter_safe_def quotes_def)

lemma outside_no_quote: "CHR 0x27 \<notin> set s \<Longrightarrow> outside False s = s"
  by (induction s) auto

lemma dashes_signed_no_dash: "CHR ''-'' \<notin> set s \<Longrightarrow> dashes_signed s"
  by (induction s) auto

lemma filter_safe_plain:
  assumes "\<And>c. c \<in> set s \<Longrightarrow> filter_char c \<and> c \<noteq> CHR ''-'' \<and> c \<noteq> CHR 0x27 \<and> c \<noteq> CHR 0x5C"
  shows "filter_safe s"
proof -
  have "CHR 0x27 \<notin> set s" "CHR ''-'' \<notin> set s" "CHR 0x5C \<notin> set s" using assms by blast+
  then show ?thesis
    using assms
    by (auto simp: filter_safe_def outside_no_quote dashes_signed_no_dash quotes_def
        count_list_0_iff list_all_iff)
qed

text \<open>What holds of the texts of two expressions and of their concatenation holds of the texts of the composed ones.\<close>

definition rx_all :: "(string \<Rightarrow> bool) \<Rightarrow> rx \<Rightarrow> bool" where
  "rx_all P r \<longleftrightarrow> (\<forall>s. rx_lang r s \<longrightarrow> P s)"

locale closed_text =
  fixes P :: "string \<Rightarrow> bool"
  assumes P_Nil: "P []" and P_append: "P u \<Longrightarrow> P v \<Longrightarrow> P (u @ v)"
begin

lemma all_One: "rx_all P ROne"
  by (simp add: rx_all_def P_Nil)

lemma all_Seq: "rx_all P a \<Longrightarrow> rx_all P b \<Longrightarrow> rx_all P (RSeq a b)"
  by (auto simp: rx_all_def P_append)

lemma all_Alt: "rx_all P a \<Longrightarrow> rx_all P b \<Longrightarrow> rx_all P (RAlt a b)"
  by (auto simp: rx_all_def)

lemma all_Star:
  assumes "rx_all P r"
  shows "rx_all P (RStar g r)"
proof -
  have "P s" if "rx_lang (RStar g r) s" for s
    using that
    by (induction "RStar g r" s rule: rx_lang.induct) (use assms in \<open>auto simp: rx_all_def P_Nil P_append\<close>)
  then show ?thesis by (simp add: rx_all_def)
qed

lemma all_opt: "rx_all P r \<Longrightarrow> rx_all P (rx_opt r)"
  by (simp add: rx_opt_def all_Alt all_One)

lemma all_plus: "rx_all P r \<Longrightarrow> rx_all P (rx_plus r)"
  by (simp add: rx_plus_def all_Seq all_Star)

lemmas all_rules = all_Seq all_Alt all_Star all_opt all_plus

end

abbreviation rx_safe :: "rx \<Rightarrow> bool" where
  "rx_safe \<equiv> rx_all filter_safe"

interpretation safe: closed_text filter_safe
  by unfold_locales (simp_all add: filter_safe_Nil filter_safe_append)

lemmas rx_safe_One = safe.all_One and rx_safe_Seq = safe.all_Seq and rx_safe_Alt = safe.all_Alt

lemma rx_safe_Cls:
  assumes "\<And>c. p c \<Longrightarrow> filter_char c \<and> c \<noteq> CHR ''-'' \<and> c \<noteq> CHR 0x27 \<and> c \<noteq> CHR 0x5C"
  shows "rx_safe (RCls p)"
proof -
  have "filter_safe s" if "rx_lang (RCls p) s" for s
  proof (rule filter_safe_plain)
    fix c
    assume "c \<in> set s"
    with that have "p c" by auto
    then show "filter_char c \<and> c \<noteq> CHR ''-'' \<and> c \<noteq> CHR 0x27 \<and> c \<noteq> CHR 0x5C" by (rule assms)
  qed
  then show ?thesis by (simp add: rx_all_def)
qed

lemma char_eqI: "(of_char c :: nat) = of_char d \<Longrightarrow> c = d"
  by simp

lemma letters_safe:
  assumes "ident_part c"
  shows "filter_char c \<and> c \<noteq> CHR ''-'' \<and> c \<noteq> CHR 0x27 \<and> c \<noteq> CHR 0x5C"
  using assms
  by (auto simp: filter_char_def ident_part_def is_alpha_def is_upper_def is_lower_def is_digit_def)

lemma ident_start_part: "ident_start c \<Longrightarrow> ident_part c"
  by (auto simp: ident_start_def ident_part_def)

lemma digit_ident_part: "is_digit c \<Longrightarrow> ident_part c"
  by (simp add: ident_part_def)

lemma spaces_safe:
  assumes "is_space c"
  shows "filter_char c \<and> c \<noteq> CHR ''-'' \<and> c \<noteq> CHR 0x27 \<and> c \<noteq> CHR 0x5C"
  using assms by (auto simp: filter_char_def is_space_def)

lemma lower_char_letter:
  assumes "lower_char d = lower_char c" and "is_alpha c \<or> c = CHR ''_''"
  shows "ident_part d"
proof -
  have "(of_char (lower_char d) :: nat) = of_char (lower_char c)" using assms by simp
  moreover have "(of_char (lower_char c) :: nat) \<in> {97..122} \<union> {95}"
    using assms(2) by (auto simp: of_char_lower_char is_alpha_def is_upper_def is_lower_def)
  ultimately have range: "(of_char (lower_char d) :: nat) \<in> {97..122} \<union> {95}" by simp
  show ?thesis
  proof (cases "is_upper d")
    case True
    then show ?thesis by (simp add: ident_part_def is_alpha_def)
  next
    case False
    then have "(of_char d :: nat) \<in> {97..122} \<union> {95}" using range by (simp add: of_char_lower_char)
    then show ?thesis
      using char_eqI [of d "CHR ''_''"] by (auto simp: ident_part_def is_alpha_def is_lower_def)
  qed
qed

text \<open>White space is made of ASCII spaces and of bytes outside ASCII.\<close>

definition space_byte :: "char \<Rightarrow> bool" where
  "space_byte c \<longleftrightarrow> is_space c \<or> 128 \<le> (of_char c :: nat)"

interpretation spacing: closed_text "list_all space_byte"
  by unfold_locales simp_all

lemma spacing_bytes: "(\<And>lo hi. (lo, hi) \<in> set bs \<Longrightarrow> 128 \<le> lo) \<Longrightarrow> rx_all (list_all space_byte) (rx_bytes bs)"
proof (induction bs rule: rx_bytes.induct)
  case (2 lo hi bs)
  have "128 \<le> lo" by (rule "2.prems" [of lo hi]) simp
  then have "rx_all (list_all space_byte) (RCls (\<lambda>c. lo \<le> of_char c \<and> of_char c \<le> hi))"
    by (auto simp: rx_all_def space_byte_def)
  moreover have "rx_all (list_all space_byte) (rx_bytes bs)" by (rule "2.IH") (rule "2.prems", rule list.set_intros(2))
  ultimately show ?case by (simp add: spacing.all_Seq)
qed (simp add: spacing.all_One)

lemma spacing_space: "rx_all (list_all space_byte) rx_space"
proof -
  have "rx_all (list_all space_byte) (rx_bytes bs)" if "bs \<in> set unicode_spaces" for bs
    by (rule spacing_bytes) (use that in \<open>auto simp: unicode_spaces_def\<close>)
  moreover have "rx_all (list_all space_byte) (RCls is_space)" by (auto simp: rx_all_def space_byte_def)
  ultimately have "rx_all (list_all space_byte) (foldr (\<lambda>bs r. RAlt (rx_bytes bs) r) bss (RCls is_space))"
    if "set bss \<subseteq> set unicode_spaces" for bss
    using that by (induction bss) (auto simp: spacing.all_Alt)
  then show ?thesis by (simp add: rx_space_def)
qed

lemma space_byte_avoids:
  "space_byte c \<Longrightarrow> c \<noteq> CHR 0x27 \<and> c \<noteq> CHR ''('' \<and> c \<noteq> CHR '')'' \<and> c \<noteq> CHR ''-'' \<and> c \<noteq> CHR 0x5C"
  by (auto simp: space_byte_def is_space_def)

lemma rx_safe_space: "rx_safe rx_space"
proof -
  have "filter_safe s" if "list_all space_byte s" for s
    using that space_byte_avoids
    by (intro filter_safe_plain) (auto simp: list_all_iff filter_char_def space_byte_def)
  then show ?thesis using spacing_space by (simp add: rx_all_def)
qed

lemma rx_safe_ident: "rx_safe (RCls ident_start)" "rx_safe (RCls ident_part)"
  "rx_safe (RCls is_digit)" "rx_safe rx_space"
proof -
  show "rx_safe (RCls ident_start)" by (rule rx_safe_Cls) (rule letters_safe [OF ident_start_part])
  show "rx_safe (RCls ident_part)" by (rule rx_safe_Cls) (rule letters_safe)
  show "rx_safe (RCls is_digit)" by (rule rx_safe_Cls) (rule letters_safe [OF digit_ident_part])
qed (rule rx_safe_space)

lemma rx_safe_char: "c \<in> set ''.,()<>=!'' \<Longrightarrow> rx_safe (rx_char c)"
  unfolding rx_char_def by (rule rx_safe_Cls) (auto simp: filter_char_def)

lemma rx_safe_lit: "set s \<subseteq> set ''.,()<>=!'' \<Longrightarrow> rx_safe (rx_lit s)"
proof (induction s rule: rx_lit.induct)
  case (2 c)
  then show ?case using rx_safe_char [of c] by simp
next
  case (3 c d s)
  then show ?case using rx_safe_char [of c] by (simp add: rx_safe_Seq)
qed (simp add: rx_safe_One)

lemma rx_safe_lit_ci: "(\<And>c. c \<in> set s \<Longrightarrow> is_alpha c \<or> c = CHR ''_'') \<Longrightarrow> rx_safe (rx_lit_ci s)"
proof (induction s)
  case (Cons c s)
  have "rx_safe (RCls (\<lambda>d. lower_char d = lower_char c))"
    by (rule rx_safe_Cls) (use Cons.prems lower_char_letter letters_safe in auto)
  then show ?case using Cons by (simp add: rx_safe_Seq)
qed (simp add: rx_safe_One)

lemmas rx_safe_rules = safe.all_rules rx_safe_ident

text \<open>A minus sign is safe because the grammar puts a digit right after it.\<close>

lemma filter_safe_number:
  assumes "filter_safe t" and "t = d # t'" and "is_digit d"
  shows "filter_safe (CHR ''-'' # t)"
  using assms by (auto simp: filter_safe_def filter_char_def quotes_def is_digit_def)

lemma rx_safe_NUMBER: "rx_safe NUMBER"
proof -
  let ?rest = "RSeq (rx_plus (RCls is_digit)) (rx_opt (RSeq (rx_char CHR ''.'') (rx_plus (RCls is_digit))))"
  have rest: "rx_safe ?rest" by (intro rx_safe_rules rx_safe_char) simp
  have starts: "\<exists>d t'. t = d # t' \<and> is_digit d" if "rx_lang ?rest t" for t
    using that by (auto simp: rx_plus_def)
  have "filter_safe s" if num: "rx_lang NUMBER s" for s
  proof -
    have sign: "rx_lang (rx_opt (rx_char CHR ''-'')) u \<longleftrightarrow> u = [] \<or> u = ''-''" for u
      by (auto simp: rx_opt_def rx_char_def)
    obtain u t where s: "s = u @ t" and u: "u = [] \<or> u = ''-''" and t: "rx_lang ?rest t"
      using num sign unfolding NUMBER_def rx_lang_simps(4) [of "rx_opt (rx_char CHR ''-'')"] by metis
    have "filter_safe t" using rest t by (simp add: rx_all_def del: rx_lang_simps)
    then show ?thesis using u s starts [OF t] filter_safe_number by fastforce
  qed
  then show ?thesis by (simp add: rx_all_def)
qed

lemma outside_body: "CHR 0x27 \<notin> set u \<Longrightarrow> outside True (u @ [CHR 0x27]) = []"
  by (induction u) auto

lemma rx_safe_STRING: "rx_safe STRING"
proof -
  have "filter_safe s" if str: "rx_lang STRING s" for s
  proof -
    obtain u where s: "s = CHR 0x27 # u @ [CHR 0x27]" and u: "CHR 0x27 \<notin> set u" "CHR 0x5C \<notin> set u"
      using str unfolding STRING_def rx_char_def by (auto simp: rx_lang_star_cls)
    then show ?thesis
      by (auto simp: filter_safe_def outside_body quotes_def count_list_0_iff)
  qed
  then show ?thesis by (simp add: rx_all_def)
qed

lemma rx_safe_chain:
  assumes "\<And>c. c \<in> set op \<Longrightarrow> is_alpha c"
  shows "rx_safe (chain_of op)"
proof -
  have spaces: "rx_safe spaces" unfolding spaces_def by (intro rx_safe_rules)
  have word: "rx_safe rx_word" unfolding rx_word_def by (intro rx_safe_rules)
  have session: "rx_safe SESSION" unfolding SESSION_def
    by (rule rx_safe_lit_ci) (auto simp: is_alpha_def is_lower_def)
  have "rx_safe VALUE" unfolding VALUE_def
    by (intro rx_safe_rules rx_safe_NUMBER rx_safe_STRING session)
  note val_safe = this
  have ident: "rx_safe IDENT" unfolding IDENT_def
    by (intro rx_safe_rules rx_safe_char word) simp
  have inlist: "rx_safe IN_LIST" unfolding IN_LIST_def
    by (intro rx_safe_rules rx_safe_char spaces val_safe) simp_all
  have comparison: "rx_safe COMPARISON" unfolding COMPARISON_def
    by (intro rx_safe_rules rx_safe_lit) simp_all
  have kw: "rx_safe (rx_lit_ci ''IN'')"
    by (rule rx_safe_lit_ci) (auto simp: is_alpha_def is_upper_def)
  have "rx_safe FILTER_TERM" unfolding FILTER_TERM_def
    by (intro rx_safe_rules spaces val_safe ident inlist comparison kw)
  then show ?thesis unfolding chain_of_def
    by (intro rx_safe_rules rx_safe_lit_ci spaces) (use assms in auto)
qed

lemma row_filter_safe: "row_filter_valid f \<Longrightarrow> filter_safe f"
proof -
  have "rx_safe AND_CHAIN" "rx_safe OR_CHAIN"
    unfolding AND_CHAIN_def OR_CHAIN_def
    by (rule rx_safe_chain; auto simp: is_alpha_def is_upper_def)+
  then show "row_filter_valid f \<Longrightarrow> filter_safe f"
    by (auto simp: row_filter_valid_def rx_test_lang rx_all_def)
qed

section \<open>Parentheses of row filters\<close>

text \<open>The only parentheses are those of the value lists: each list is opened right after the keyword \<open>IN\<close> and closed before
  another one is opened.\<close>

fun flat :: "bool \<Rightarrow> string \<Rightarrow> bool" where
  "flat inside [] = (\<not> inside)"
| "flat inside (c # s) =
     (if c = CHR ''('' then \<not> inside \<and> flat True s else if c = CHR '')'' then inside \<and> flat False s else flat inside s)"

definition after_in :: "string \<Rightarrow> bool" where
  "after_in u \<longleftrightarrow> (\<exists>p a b w. u = p @ a # b # w \<and> lower_char a = CHR ''i'' \<and> lower_char b = CHR ''n'' \<and> rx_lang spaces w)"

definition opens_after_in :: "string \<Rightarrow> bool" where
  "opens_after_in s \<longleftrightarrow> (\<forall>u v. s = u @ CHR ''('' # v \<longrightarrow> after_in u)"

text \<open>No parenthesis outside the literals, and nothing but value lists.\<close>

definition no_parens :: "string \<Rightarrow> bool" where
  "no_parens s \<longleftrightarrow> even (quotes s) \<and> CHR ''('' \<notin> set (outside False s) \<and> CHR '')'' \<notin> set (outside False s)"

definition only_lists :: "string \<Rightarrow> bool" where
  "only_lists s \<longleftrightarrow> even (quotes s) \<and> flat False (outside False s) \<and> opens_after_in (outside False s)"

lemma after_in_append: "after_in u \<Longrightarrow> after_in (x @ u)"
  unfolding after_in_def by (metis append_assoc)

lemma flat_append: "flat b u \<Longrightarrow> flat False v \<Longrightarrow> flat b (u @ v)"
  by (induction b u rule: flat.induct) (auto split: if_splits)

lemma flat_plain: "CHR ''('' \<notin> set u \<Longrightarrow> CHR '')'' \<notin> set u \<Longrightarrow> flat b (u @ v) = flat b v"
  by (induction u) auto

lemma opens_append:
  assumes "opens_after_in x" "opens_after_in y"
  shows "opens_after_in (x @ y)"
  unfolding opens_after_in_def
proof (intro allI impI)
  fix u v
  assume "x @ y = u @ CHR ''('' # v"
  then consider v' where "x = u @ CHR ''('' # v'" | u' where "u = x @ u'" "y = u' @ CHR ''('' # v"
    by (auto simp: append_eq_append_conv2 append_eq_Cons_conv Cons_eq_append_conv)
  then show "after_in u" using assms after_in_append by cases (auto simp: opens_after_in_def)
qed

lemma opens_plain: "CHR ''('' \<notin> set s \<Longrightarrow> opens_after_in s"
  by (auto simp: opens_after_in_def)

lemma no_parens_only_lists: "no_parens s \<Longrightarrow> only_lists s"
  using flat_plain [of "outside False s" False "[]"] by (simp add: no_parens_def only_lists_def opens_plain)

interpretation paren_free: closed_text no_parens
  by unfold_locales (auto simp: no_parens_def outside_append quotes_def)

interpretation lists: closed_text only_lists
  by unfold_locales (auto simp: only_lists_def outside_append quotes_def opens_append flat_append opens_plain)

lemma rx_no_parens_lists: "rx_all no_parens r \<Longrightarrow> rx_all only_lists r"
  by (simp add: rx_all_def no_parens_only_lists)

lemma no_parens_Cls:
  assumes "\<And>c. p c \<Longrightarrow> c \<notin> {CHR 0x27, CHR ''('', CHR '')''}"
  shows "rx_all no_parens (RCls p)"
proof -
  have "\<not> p (CHR 0x27)" "\<not> p (CHR ''('')" "\<not> p (CHR '')'')" using assms by blast+
  then show ?thesis by (auto simp: rx_all_def no_parens_def quotes_def split: if_splits)
qed

lemma paren_free_words:
  "rx_all no_parens (RCls ident_start)" "rx_all no_parens (RCls ident_part)" "rx_all no_parens (RCls is_digit)"
  by (rule no_parens_Cls; auto simp: ident_start_def ident_part_def is_alpha_def is_upper_def is_lower_def is_digit_def)+

lemma paren_free_char: "c \<notin> {CHR 0x27, CHR ''('', CHR '')''} \<Longrightarrow> rx_all no_parens (rx_char c)"
  unfolding rx_char_def by (rule no_parens_Cls) auto

lemma paren_free_lit: "set s \<inter> {CHR 0x27, CHR ''('', CHR '')''} = {} \<Longrightarrow> rx_all no_parens (rx_lit s)"
  by (induction s rule: rx_lit.induct) (auto intro!: paren_free.all_rules paren_free_char paren_free.all_One)

lemma paren_free_lit_ci: "(\<And>c. c \<in> set s \<Longrightarrow> is_alpha c \<or> c = CHR ''_'') \<Longrightarrow> rx_all no_parens (rx_lit_ci s)"
proof (induction s)
  case (Cons c s)
  have "rx_all no_parens (RCls (\<lambda>d. lower_char d = lower_char c))"
  proof (rule no_parens_Cls)
    fix d
    assume "lower_char d = lower_char c"
    then have "ident_part d" using Cons.prems lower_char_letter [of d c] by simp
    then show "d \<notin> {CHR 0x27, CHR ''('', CHR '')''}"
      by (auto simp: ident_part_def is_alpha_def is_upper_def is_lower_def is_digit_def)
  qed
  then show ?case using Cons by (simp add: paren_free.all_Seq)
qed (simp add: paren_free.all_One)

lemma space_bytes_plain: "list_all space_byte s \<Longrightarrow> CHR 0x27 \<notin> set s \<and> CHR ''('' \<notin> set s \<and> CHR '')'' \<notin> set s"
  using space_byte_avoids by (auto simp: list_all_iff)

lemma paren_free_space: "rx_all no_parens rx_space"
proof -
  have "no_parens s" if "list_all space_byte s" for s
    using space_bytes_plain [OF that] by (simp add: no_parens_def outside_no_quote quotes_def count_list_0_iff)
  then show ?thesis using spacing_space by (simp add: rx_all_def)
qed

lemma paren_free_STRING: "rx_all no_parens STRING"
proof -
  have "no_parens s" if str: "rx_lang STRING s" for s
  proof -
    obtain u where s: "s = CHR 0x27 # u @ [CHR 0x27]" and u: "CHR 0x27 \<notin> set u" "CHR 0x5C \<notin> set u"
      using str unfolding STRING_def rx_char_def by (auto simp: rx_lang_star_cls)
    then show ?thesis by (auto simp: no_parens_def outside_body quotes_def count_list_0_iff)
  qed
  then show ?thesis by (simp add: rx_all_def)
qed

lemmas paren_free_rules = paren_free.all_rules paren_free_words paren_free_space

lemma paren_free_parts:
  "rx_all no_parens spaces" "rx_all no_parens IDENT" "rx_all no_parens VALUE" "rx_all no_parens COMPARISON"
proof -
  show "rx_all no_parens spaces" unfolding spaces_def by (intro paren_free_rules)
  show "rx_all no_parens IDENT" unfolding IDENT_def rx_word_def by (intro paren_free_rules paren_free_char) simp
  have "rx_all no_parens SESSION" unfolding SESSION_def by (rule paren_free_lit_ci) (auto simp: is_alpha_def is_lower_def)
  moreover have "rx_all no_parens NUMBER" unfolding NUMBER_def by (intro paren_free_rules paren_free_char) simp_all
  ultimately show "rx_all no_parens VALUE" unfolding VALUE_def by (intro paren_free_rules paren_free_STRING)
  show "rx_all no_parens COMPARISON" unfolding COMPARISON_def by (intro paren_free_rules paren_free_lit) simp_all
qed

lemma rx_SeqE:
  assumes "rx_lang (RSeq a b) s"
  obtains u v where "s = u @ v" "rx_lang a u" "rx_lang b v"
  using assms unfolding rx_lang_simps(4) by blast

text \<open>The keyword, the spaces and the list together are in order.\<close>

lemma lists_in_term: "rx_all only_lists (RSeq (rx_lit_ci ''IN'') (RSeq spaces IN_LIST))"
proof -
  let ?body = "RSeq spaces (RSeq VALUE (RSeq (RStar True (RSeq spaces (RSeq (rx_char CHR '','') (RSeq spaces VALUE)))) spaces))"
  have body: "rx_all no_parens ?body"
    by (intro paren_free_rules paren_free_parts paren_free_char) simp
  have "only_lists s" if in_list: "rx_lang (RSeq (rx_lit_ci ''IN'') (RSeq spaces IN_LIST)) s" for s
  proof -
    obtain k wl where k: "s = k @ wl" "rx_lang (rx_lit_ci ''IN'') k" and wl: "rx_lang (RSeq spaces IN_LIST) wl"
      using in_list by (rule rx_SeqE)
    obtain w l where w: "wl = w @ l" "rx_lang spaces w" and l: "rx_lang IN_LIST l" using wl by (rule rx_SeqE)
    have lower: "lower_char (CHR ''I'') = CHR ''i''" "lower_char (CHR ''N'') = CHR ''n''" "lower_char (CHR 0x27) = CHR 0x27" by code_simp+
    obtain a b where ab: "k = [a, b]" "lower_char a = CHR ''i''" "lower_char b = CHR ''n''"
      using k(2) by (auto simp: lower)
    let ?more = "RStar True (RSeq spaces (RSeq (rx_char CHR '','') (RSeq spaces VALUE)))"
    obtain o1 l1 where l1: "l = o1 @ l1" "rx_lang (rx_char CHR ''('') o1" "rx_lang (RSeq spaces (RSeq VALUE (RSeq ?more (RSeq spaces (rx_char CHR '')''))))) l1"
      using l unfolding IN_LIST_def by (rule rx_SeqE)
    obtain s1 l2 where l2: "l1 = s1 @ l2" "rx_lang spaces s1" "rx_lang (RSeq VALUE (RSeq ?more (RSeq spaces (rx_char CHR '')'')))) l2"
      using l1(3) by (rule rx_SeqE)
    obtain x l3 where l3: "l2 = x @ l3" "rx_lang VALUE x" "rx_lang (RSeq ?more (RSeq spaces (rx_char CHR '')''))) l3"
      using l2(3) by (rule rx_SeqE)
    obtain m l4 where l4: "l3 = m @ l4" "rx_lang ?more m" "rx_lang (RSeq spaces (rx_char CHR '')'')) l4" using l3(3) by (rule rx_SeqE)
    obtain s2 c1 where l5: "l4 = s2 @ c1" "rx_lang spaces s2" "rx_lang (rx_char CHR '')'') c1" using l4(3) by (rule rx_SeqE)
    note parts = l2(2) l3(2) l4(2) l5(2)
    have "o1 = ''(''" "c1 = '')''" using l1(2) l5(3) by (simp_all add: rx_char_def)
    then have lv: "l = CHR ''('' # (s1 @ x @ m @ s2) @ [CHR '')'']" using l1(1) l2(1) l3(1) l4(1) l5(1) by simp
    let ?v = "s1 @ x @ m @ s2"
    have v: "rx_lang ?body ?v" using parts unfolding rx_lang_simps(4) by blast
    have free: "no_parens ?v" "no_parens w" using body v w(2) paren_free_parts(1) by (simp_all add: rx_all_def del: rx_lang_simps)
    have "rx_all no_parens (rx_lit_ci ''IN'')" by (rule paren_free_lit_ci) (auto simp: is_alpha_def is_upper_def)
    then have "no_parens k" using k(2) by (simp add: rx_all_def del: rx_lang_simps)
    then have kw: "no_parens (k @ w)" using free(2) by (rule paren_free.P_append)
    have "rx_all (list_all space_byte) spaces" unfolding spaces_def by (intro spacing.all_Star spacing_space)
    then have "CHR 0x27 \<notin> set w" using w(2) space_bytes_plain by (simp add: rx_all_def)
    moreover have "a \<noteq> CHR 0x27" "b \<noteq> CHR 0x27" using ab(2,3) lower(3) by auto
    ultimately have unquoted: "CHR 0x27 \<notin> set (k @ w)" using ab(1) by simp
    then have out: "outside False s = (k @ w) @ CHR ''('' # outside False ?v @ [CHR '')'']" "even (quotes s)"
      using free(1) unfolding k(1) w(1) lv
      by (simp_all add: outside_append outside_no_quote quotes_def no_parens_def count_list_0_iff)
    have "CHR ''('' \<notin> set (k @ w)" "CHR '')'' \<notin> set (k @ w)"
      using kw unfolding no_parens_def outside_no_quote [OF unquoted] by blast+
    moreover have v_free: "CHR ''('' \<notin> set (outside False ?v)" "CHR '')'' \<notin> set (outside False ?v)"
      using free(1) by (simp_all add: no_parens_def)
    ultimately have "flat False (outside False s)"
      unfolding out(1) using flat_plain [of "k @ w" False] flat_plain [of "outside False ?v" True "'')''"] by simp
    moreover have "after_in u" if "outside False s = u @ CHR ''('' # r" for u r
    proof -
      have "u = k @ w"
        using that \<open>CHR ''('' \<notin> set (k @ w)\<close> v_free(1) unfolding out(1)
        by (auto simp: append_eq_append_conv2 append_eq_Cons_conv Cons_eq_append_conv)
      then show ?thesis unfolding after_in_def using ab w(2) by (intro exI [of _ "[]"] exI [of _ a] exI [of _ b] exI [of _ w]) simp
    qed
    ultimately show ?thesis using out(2) by (simp add: only_lists_def opens_after_in_def)
  qed
  then show ?thesis by (simp add: rx_all_def del: rx_lang_simps)
qed

lemma row_filter_lists: "row_filter_valid f \<Longrightarrow> only_lists f"
proof -
  have comparison: "rx_all only_lists (RSeq IDENT (RSeq spaces (RSeq COMPARISON (RSeq spaces VALUE))))"
    by (intro rx_no_parens_lists paren_free.all_rules paren_free_parts)
  have "rx_all only_lists (RSeq IDENT (RSeq (rx_plus rx_space) (RSeq (rx_lit_ci ''IN'') (RSeq spaces IN_LIST))))"
    by (intro lists.all_Seq [OF _ lists.all_Seq [OF _ lists_in_term]] rx_no_parens_lists paren_free_parts paren_free_rules)
  with comparison have "rx_all only_lists FILTER_TERM" unfolding FILTER_TERM_def by (rule lists.all_Alt)
  then have chain: "rx_all only_lists (chain_of op)" if "\<And>c. c \<in> set op \<Longrightarrow> is_alpha c" for op
    unfolding chain_of_def
    by (intro lists.all_Seq lists.all_Star rx_no_parens_lists [OF paren_free_parts(1)] rx_no_parens_lists [OF paren_free_lit_ci]
        rx_no_parens_lists [OF paren_free.all_plus [OF paren_free_space]]) (use that in auto)
  have "rx_all only_lists AND_CHAIN" "rx_all only_lists OR_CHAIN"
    unfolding AND_CHAIN_def OR_CHAIN_def by (rule chain; auto simp: is_alpha_def is_upper_def)+
  then show "row_filter_valid f \<Longrightarrow> only_lists f"
    by (auto simp: row_filter_valid_def rx_test_lang rx_all_def)
qed

end
