(* ===== verification/Validate.thy ===== *)
theory Validate
  imports RoleGraph Grammar
begin

text \<open>
  \<open>validateDeclaration\<close> of \<open>policy-compiler/src/validate.ts\<close>. The sequence of pushes on
  \<open>errors\<close> is the concatenation of one error list per section of the function, in its order. A
  \<open>ValidationError\<close> keeps its code; its message is a value of \<open>message\<close>, one constructor per
  template of the source with the interpolated parts as arguments.

  \<open>validateDeclaration_iff\<close> gives the declarative meaning of an empty error list
  (\<open>well_formed\<close>).
\<close>

section \<open>Errors\<close>

datatype message =
    MCycle "string list"
  | MRoleName string
  | MUnknownParent string string
  | MParentName string string
  | MRoleCollision "string list" string
  | MGroupName string
  | MGroupUnknownRole string string
  | MGroupRoleName string string
  | MDuplicateResource string nat
  | MResourceName string
  | MSensitiveColumn string string
  | MNoSensitiveColumns string
  | MPostgresMask string
  | MPostgresRowFilter string
  | MResourceUnknownRole string string
  | MResourceRoleName string string
  | MMaskColumn string string
  | MRowFilter string string
  | MUnmasked string "string list" "string list"
  | MConflict string string "string list" "string list" mask_kind mask_kind "string list"
  | MCatalog string
  | MCatalogUnknownRole string string
  | MCatalogRoleName string string
  | MDuplicateCatalogGrant string nat
  | MLoginName string
  | MLoginDatabase string string
  | MLoginCollision string
  | MLoginUnknownRole string string

record validation_error =
  code :: string
  message :: message

definition err_if :: "bool \<Rightarrow> string \<Rightarrow> message \<Rightarrow> validation_error list" where
  "err_if b c m = (if b then [\<lparr>code = c, message = m\<rparr>] else [])"

lemma err_if_Nil [simp]: "err_if b c m = [] \<longleftrightarrow> \<not> b"
  by (simp add: err_if_def)

section \<open>The checks, in the order of the source\<close>

definition describeHolder :: "string \<Rightarrow> bool \<times> string" where
  "describeHolder h =
     (if starts_with ''group:'' h then (True, drop (length ''group:'') h) else (False, h))"

definition known :: "decl \<Rightarrow> string list" where
  "known d = js_set (role_names d)"

definition cycle_errors :: "decl \<Rightarrow> validation_error list" where
  "cycle_errors d =
     (case findCycle d of None \<Rightarrow> []
      | Some cycle \<Rightarrow> [\<lparr>code = ''CYCLIC_INHERITANCE'', message = MCycle cycle\<rparr>])"

definition role_errors :: "decl \<Rightarrow> role \<Rightarrow> validation_error list" where
  "role_errors d r =
     err_if (\<not> rx_test ROLE_NAME (r_name r)) ''INVALID_IDENTIFIER'' (MRoleName (r_name r)) @
     concat (map (\<lambda>parent.
         err_if (parent \<notin> set (known d)) ''UNKNOWN_ROLE'' (MUnknownParent (r_name r) parent) @
         err_if (\<not> rx_test ROLE_NAME parent) ''INVALID_IDENTIFIER'' (MParentName (r_name r) parent))
       (opt_list (r_includes r)))"

definition collision_errors :: "decl \<Rightarrow> validation_error list" where
  "collision_errors d =
     concat (map (\<lambda>(pg, names). err_if (length names > 1) ''ROLE_NAME_COLLISION'' (MRoleCollision (sort names) pg))
       (sort_key fst (group_by (\<lambda>r. toPgRole (r_name r)) r_name (d_roles d))))"

definition group_errors :: "decl \<Rightarrow> group \<Rightarrow> validation_error list" where
  "group_errors d g =
     err_if (\<not> rx_test ROLE_NAME (gr_name g)) ''INVALID_IDENTIFIER'' (MGroupName (gr_name g)) @
     concat (map (\<lambda>role.
         err_if (role \<notin> set (known d)) ''UNKNOWN_ROLE'' (MGroupUnknownRole (gr_name g) role) @
         err_if (\<not> rx_test ROLE_NAME role) ''INVALID_IDENTIFIER'' (MGroupRoleName (gr_name g) role))
       (gr_roles g))"

fun engine_name :: "engine option \<Rightarrow> string" where
  "engine_name None = ''trino''"
| "engine_name (Some Trino) = ''trino''"
| "engine_name (Some Postgres) = ''postgres''"

definition resource_key :: "resource \<Rightarrow> string" where
  "resource_key res = engine_name (engine res) @ '':'' @ resource res"

definition duplicate_resource_errors :: "decl \<Rightarrow> validation_error list" where
  "duplicate_resource_errors d =
     concat (map (\<lambda>(key, count). err_if (count > 1) ''DUPLICATE_RESOURCE''
         (MDuplicateResource (split_on CHR '':'' key ! 1) count))
       (sort_key fst (count_by resource_key (d_resources d))))"

definition resource_name_ok :: "string \<Rightarrow> bool" where
  "resource_name_ok name \<longleftrightarrow>
     (let parts = split_on CHR ''.'' name in length parts = 2 \<and> list_all (rx_test IDENTIFIER) parts)"

definition mask_keys :: "grant \<Rightarrow> string list" where
  "mask_keys g = map fst (opt_list (columnMask g))"

definition uncovered :: "resource \<Rightarrow> grant \<Rightarrow> string list" where
  "uncovered res g = filter (\<lambda>c. c \<notin> set (mask_keys g)) (opt_list (sensitiveColumns res))"

definition grant_errors :: "decl \<Rightarrow> resource \<Rightarrow> grant \<Rightarrow> validation_error list" where
  "grant_errors d res g =
     err_if (engine res = Some Postgres \<and> columnMask g \<noteq> None) ''POSTGRES_UNSUPPORTED_MASK''
       (MPostgresMask (resource res)) @
     err_if (engine res = Some Postgres \<and> rowFilter g \<noteq> None) ''POSTGRES_UNSUPPORTED_ROW_FILTER''
       (MPostgresRowFilter (resource res)) @
     concat (map (\<lambda>role.
         err_if (role \<notin> set (known d)) ''UNKNOWN_ROLE'' (MResourceUnknownRole (resource res) role) @
         err_if (\<not> rx_test ROLE_NAME role) ''INVALID_IDENTIFIER'' (MResourceRoleName (resource res) role))
       (g_roles g)) @
     concat (map (\<lambda>col. err_if (\<not> rx_test IDENTIFIER col) ''INVALID_IDENTIFIER'' (MMaskColumn (resource res) col))
       (mask_keys g)) @
     (case rowFilter g of None \<Rightarrow> []
      | Some f \<Rightarrow> err_if (\<not> row_filter_valid f) ''ROW_FILTER_REJECTED'' (MRowFilter (resource res) f)) @
     err_if (classification res = Pii \<and> Select \<in> set (privileges g) \<and> allowUnmasked g \<noteq> Some True \<and>
         uncovered res g \<noteq> [])
       ''PII_UNMASKED'' (MUnmasked (resource res) (uncovered res g) (g_roles g))"

definition grant_holders :: "decl \<Rightarrow> grant \<Rightarrow> string list" where
  "grant_holders d g = js_set (concat (map (holdersOfIncludingGroups d) (g_roles g)))"

definition resourceUnmasked :: "decl \<Rightarrow> resource \<Rightarrow> string list" where
  "resourceUnmasked d res =
     js_set (concat (map (\<lambda>g. concat (map (holdersOfIncludingGroups d) (g_roles g)))
       (filter (\<lambda>g. allowUnmasked g = Some True) (grants res))))"

record mask_entry =
  me_grant :: grant
  me_holders :: "string list"
  me_kind :: mask_kind

definition mask_uses :: "resource \<Rightarrow> (string \<times> grant \<times> mask_kind) list" where
  "mask_uses res =
     concat (map (\<lambda>g. map (\<lambda>(col, kind). (col, g, kind)) (opt_list (columnMask g))) (grants res))"

definition maskedBy :: "decl \<Rightarrow> resource \<Rightarrow> (string \<times> mask_entry list) list" where
  "maskedBy d res =
     group_by fst (\<lambda>(col, g, kind). \<lparr>me_grant = g, me_holders = grant_holders d g, me_kind = kind\<rparr>)
       (mask_uses res)"

definition overlap :: "string list \<Rightarrow> mask_entry \<Rightarrow> mask_entry \<Rightarrow> string list" where
  "overlap unmasked a b =
     (let both = filter (\<lambda>h. h \<in> set (me_holders b)) (me_holders a)
      in if allowUnmasked (me_grant a) = Some True then both
         else filter (\<lambda>h. h \<notin> set unmasked) both)"

definition conflict_error ::
  "resource \<Rightarrow> string list \<Rightarrow> string \<Rightarrow> mask_entry \<times> mask_entry \<Rightarrow> validation_error list" where
  "conflict_error res unmasked col = (\<lambda>(a, b).
     if me_kind a = me_kind b then []
     else if (allowUnmasked (me_grant a) = Some True) \<noteq> (allowUnmasked (me_grant b) = Some True) then []
     else err_if (overlap unmasked a b \<noteq> []) ''CONFLICTING_MASK''
       (MConflict (resource res) col (g_roles (me_grant a)) (g_roles (me_grant b)) (me_kind a) (me_kind b)
         (sort (js_set (overlap unmasked a b)))))"

definition conflict_errors :: "decl \<Rightarrow> resource \<Rightarrow> validation_error list" where
  "conflict_errors d res =
     concat (map (\<lambda>(col, entries). concat (map (conflict_error res (resourceUnmasked d res) col) (pairs entries)))
       (sort_key fst (maskedBy d res)))"

definition resource_errors :: "decl \<Rightarrow> resource \<Rightarrow> validation_error list" where
  "resource_errors d res =
     err_if (\<not> resource_name_ok (resource res)) ''INVALID_IDENTIFIER'' (MResourceName (resource res)) @
     concat (map (\<lambda>col. err_if (\<not> rx_test IDENTIFIER col) ''INVALID_IDENTIFIER'' (MSensitiveColumn (resource res) col))
       (opt_list (sensitiveColumns res))) @
     err_if (classification res = Pii \<and> opt_list (sensitiveColumns res) = []) ''PII_NO_SENSITIVE_COLUMNS''
       (MNoSensitiveColumns (resource res)) @
     concat (map (grant_errors d res) (grants res)) @
     conflict_errors d res"

definition catalog_grant_errors :: "decl \<Rightarrow> catalog_grant \<Rightarrow> validation_error list" where
  "catalog_grant_errors d cg =
     err_if (catalog cg \<noteq> DEPLOYED_CATALOG) ''UNSUPPORTED_CATALOG'' (MCatalog (catalog cg)) @
     concat (map (\<lambda>role.
         err_if (role \<notin> set (known d)) ''UNKNOWN_ROLE'' (MCatalogUnknownRole (catalog cg) role) @
         err_if (\<not> rx_test ROLE_NAME role) ''INVALID_IDENTIFIER'' (MCatalogRoleName (catalog cg) role))
       (cg_roles cg))"

text \<open>\<open>JSON.stringify([catalog, op])\<close>.\<close>

definition catalog_op_key :: "string \<times> query_operation \<Rightarrow> string" where
  "catalog_op_key = (\<lambda>(c, op). ''['' @ json_stringify c @ '','' @ json_stringify (operation_name op) @ '']'')"

definition catalog_ops :: "decl \<Rightarrow> (string \<times> query_operation) list" where
  "catalog_ops d =
     concat (map (\<lambda>cg. map (Pair (catalog cg)) (operations cg)) (opt_list (d_catalogGrants d)))"

definition duplicate_catalog_errors :: "decl \<Rightarrow> validation_error list" where
  "duplicate_catalog_errors d =
     concat (map (\<lambda>(key, count). err_if (count > 1) ''DUPLICATE_CATALOG_GRANT'' (MDuplicateCatalogGrant key count))
       (sort_key fst (count_by catalog_op_key (catalog_ops d))))"

definition declaredPgRoles :: "decl \<Rightarrow> string list" where
  "declaredPgRoles d = js_set (map (\<lambda>r. toPgRole (r_name r)) (d_roles d))"

definition login_errors :: "decl \<Rightarrow> pg_login \<Rightarrow> validation_error list" where
  "login_errors d l =
     err_if (\<not> rx_test LOGIN_NAME (l_name l)) ''INVALID_IDENTIFIER'' (MLoginName (l_name l)) @
     err_if (\<not> rx_test IDENTIFIER (database l)) ''INVALID_IDENTIFIER'' (MLoginDatabase (l_name l) (database l)) @
     err_if (l_name l \<in> set (declaredPgRoles d)) ''LOGIN_NAME_COLLISION'' (MLoginCollision (l_name l)) @
     concat (map (\<lambda>role. err_if (role \<notin> set (known d)) ''UNKNOWN_ROLE'' (MLoginUnknownRole (l_name l) role))
       (memberOf l))"

definition validateDeclaration :: "decl \<Rightarrow> validation_error list" where
  "validateDeclaration d =
     cycle_errors d @
     concat (map (role_errors d) (d_roles d)) @
     collision_errors d @
     concat (map (group_errors d) (d_groups d)) @
     duplicate_resource_errors d @
     concat (map (resource_errors d) (d_resources d)) @
     concat (map (catalog_grant_errors d) (opt_list (d_catalogGrants d))) @
     duplicate_catalog_errors d @
     concat (map (login_errors d) (opt_list (d_logins d)))"

section \<open>What an empty error list means\<close>

definition role_ref_ok :: "decl \<Rightarrow> string \<Rightarrow> bool" where
  "role_ref_ok d n \<longleftrightarrow> n \<in> set (role_names d) \<and> rx_test ROLE_NAME n"

definition opted_out :: "grant \<Rightarrow> bool" where
  "opted_out g \<longleftrightarrow> allowUnmasked g = Some True"

definition co_held :: "decl \<Rightarrow> grant \<Rightarrow> string \<Rightarrow> bool" where
  "co_held d g h \<longleftrightarrow> (\<exists>r \<in> set (g_roles g). h \<in> set (holdersOfIncludingGroups d r))"

definition exempt :: "decl \<Rightarrow> resource \<Rightarrow> string \<Rightarrow> bool" where
  "exempt d res h \<longleftrightarrow> (\<exists>g \<in> set (grants res). opted_out g \<and> co_held d g h)"

text \<open>Two uses of one column are compatible when they mask the same way, when exactly one of the
  two grants opts out, or when nobody holds both (opted-out holders of the resource aside, when
  neither opts out).\<close>

definition mask_compatible :: "decl \<Rightarrow> resource \<Rightarrow> grant \<times> mask_kind \<Rightarrow> grant \<times> mask_kind \<Rightarrow> bool" where
  "mask_compatible d res = (\<lambda>(a, ka) (b, kb).
     ka = kb \<or> opted_out a \<noteq> opted_out b \<or>
     (\<forall>h. \<not> (co_held d a h \<and> co_held d b h \<and> (opted_out a \<or> \<not> exempt d res h))))"

definition grant_wf :: "decl \<Rightarrow> resource \<Rightarrow> grant \<Rightarrow> bool" where
  "grant_wf d res g \<longleftrightarrow>
     (engine res = Some Postgres \<longrightarrow> columnMask g = None \<and> rowFilter g = None) \<and>
     (\<forall>r \<in> set (g_roles g). role_ref_ok d r) \<and>
     (\<forall>c \<in> set (mask_keys g). rx_test IDENTIFIER c) \<and>
     (\<forall>f. rowFilter g = Some f \<longrightarrow> row_filter_valid f) \<and>
     (classification res = Pii \<and> Select \<in> set (privileges g) \<and> \<not> opted_out g \<longrightarrow>
        set (opt_list (sensitiveColumns res)) \<subseteq> set (mask_keys g))"

definition resource_wf :: "decl \<Rightarrow> resource \<Rightarrow> bool" where
  "resource_wf d res \<longleftrightarrow>
     resource_name_ok (resource res) \<and>
     (\<forall>c \<in> set (opt_list (sensitiveColumns res)). rx_test IDENTIFIER c) \<and>
     (classification res = Pii \<longrightarrow> opt_list (sensitiveColumns res) \<noteq> []) \<and>
     (\<forall>g \<in> set (grants res). grant_wf d res g) \<and>
     (\<forall>(c, a) \<in> set (mask_uses res). \<forall>(c', b) \<in> set (mask_uses res). c = c' \<longrightarrow> mask_compatible d res a b)"

definition login_wf :: "decl \<Rightarrow> pg_login \<Rightarrow> bool" where
  "login_wf d l \<longleftrightarrow>
     rx_test LOGIN_NAME (l_name l) \<and> rx_test IDENTIFIER (database l) \<and>
     (\<forall>r \<in> set (d_roles d). toPgRole (r_name r) \<noteq> l_name l) \<and>
     set (memberOf l) \<subseteq> set (role_names d)"

definition well_formed :: "decl \<Rightarrow> bool" where
  "well_formed d \<longleftrightarrow>
     acyclic (inherits d) \<and>
     (\<forall>r \<in> set (d_roles d). rx_test ROLE_NAME (r_name r) \<and> (\<forall>p \<in> set (opt_list (r_includes r)). role_ref_ok d p)) \<and>
     distinct (map (\<lambda>r. toPgRole (r_name r)) (d_roles d)) \<and>
     (\<forall>g \<in> set (d_groups d). rx_test ROLE_NAME (gr_name g) \<and> (\<forall>r \<in> set (gr_roles g). role_ref_ok d r)) \<and>
     distinct (map resource_key (d_resources d)) \<and>
     (\<forall>res \<in> set (d_resources d). resource_wf d res) \<and>
     (\<forall>cg \<in> set (opt_list (d_catalogGrants d)).
        catalog cg = DEPLOYED_CATALOG \<and> (\<forall>r \<in> set (cg_roles cg). role_ref_ok d r)) \<and>
     distinct (catalog_ops d) \<and>
     (\<forall>l \<in> set (opt_list (d_logins d)). login_wf d l)"

lemma known_iff [simp]: "n \<in> set (known d) \<longleftrightarrow> n \<in> set (role_names d)"
  by (simp add: known_def)

lemma cycle_errors_Nil: "cycle_errors d = [] \<longleftrightarrow> acyclic (inherits d)"
  using findCycle_iff [of d] by (auto simp: cycle_errors_def split: option.splits)

lemma role_errors_Nil:
  "role_errors d r = [] \<longleftrightarrow>
     rx_test ROLE_NAME (r_name r) \<and> (\<forall>p \<in> set (opt_list (r_includes r)). role_ref_ok d p)"
  by (auto simp: role_errors_def role_ref_ok_def)

lemma group_errors_Nil:
  "group_errors d g = [] \<longleftrightarrow>
     rx_test ROLE_NAME (gr_name g) \<and> (\<forall>r \<in> set (gr_roles g). role_ref_ok d r)"
  by (auto simp: group_errors_def role_ref_ok_def)

lemma collision_errors_Nil:
  "collision_errors d = [] \<longleftrightarrow> distinct (map (\<lambda>r. toPgRole (r_name r)) (d_roles d))"
  unfolding group_by_distinct [of "\<lambda>r. toPgRole (r_name r)" r_name, symmetric]
  by (auto simp: collision_errors_def not_less)

lemma duplicate_resource_errors_Nil:
  "duplicate_resource_errors d = [] \<longleftrightarrow> distinct (map resource_key (d_resources d))"
  unfolding count_by_distinct [symmetric] by (auto simp: duplicate_resource_errors_def not_less)

lemma catalog_op_key_inject: "catalog_op_key p = catalog_op_key q \<longleftrightarrow> p = q"
proof
  assume eq: "catalog_op_key p = catalog_op_key q"
  obtain c o1 c' o2 where pq: "p = (c, o1)" "q = (c', o2)" by fastforce
  have "json_stringify c @ '','' @ json_stringify (operation_name o1) @ '']'' =
      json_stringify c' @ '','' @ json_stringify (operation_name o2) @ '']''"
    using eq by (simp add: pq catalog_op_key_def)
  then have rest: "c = c' \<and> '','' @ json_stringify (operation_name o1) @ '']'' =
      '','' @ json_stringify (operation_name o2) @ '']''"
    by (rule json_stringify_inject)
  then have "json_stringify (operation_name o1) @ '']'' = json_stringify (operation_name o2) @ '']''"
    by simp
  then have "operation_name o1 = operation_name o2" using json_stringify_inject by blast
  then show "p = q" using rest pq by (simp add: operation_name_inj)
qed simp

lemma duplicate_catalog_errors_Nil: "duplicate_catalog_errors d = [] \<longleftrightarrow> distinct (catalog_ops d)"
proof -
  have "inj_on catalog_op_key A" for A by (simp only: inj_on_def catalog_op_key_inject) simp
  then have "distinct (catalog_ops d) \<longleftrightarrow> distinct (map catalog_op_key (catalog_ops d))"
    by (simp only: distinct_map simp_thms)
  then show ?thesis
    unfolding count_by_distinct [symmetric] by (auto simp: duplicate_catalog_errors_def not_less)
qed

lemma login_errors_Nil: "login_errors d l = [] \<longleftrightarrow> login_wf d l"
  by (auto simp: login_errors_def login_wf_def declaredPgRoles_def image_iff)

lemma catalog_grant_errors_Nil:
  "catalog_grant_errors d cg = [] \<longleftrightarrow>
     catalog cg = DEPLOYED_CATALOG \<and> (\<forall>r \<in> set (cg_roles cg). role_ref_ok d r)"
  by (auto simp: catalog_grant_errors_def role_ref_ok_def)

lemma uncovered_Nil: "uncovered res g = [] \<longleftrightarrow> set (opt_list (sensitiveColumns res)) \<subseteq> set (mask_keys g)"
  by (auto simp: uncovered_def filter_empty_conv)

lemma grant_errors_Nil: "grant_errors d res g = [] \<longleftrightarrow> grant_wf d res g"
  by (auto simp: grant_errors_def grant_wf_def role_ref_ok_def opted_out_def uncovered_Nil
      split: option.splits)

subsection \<open>Mask conflicts\<close>

lemma me_holders_iff: "h \<in> set (grant_holders d g) \<longleftrightarrow> co_held d g h"
  by (simp add: grant_holders_def co_held_def)

lemma resourceUnmasked_iff: "h \<in> set (resourceUnmasked d res) \<longleftrightarrow> exempt d res h"
  by (auto simp: resourceUnmasked_def exempt_def co_held_def opted_out_def)

definition entry_of :: "decl \<Rightarrow> grant \<times> mask_kind \<Rightarrow> mask_entry" where
  "entry_of d = (\<lambda>(g, k). \<lparr>me_grant = g, me_holders = grant_holders d g, me_kind = k\<rparr>)"

lemma conflict_error_Nil:
  "conflict_error res (resourceUnmasked d res) col (entry_of d a, entry_of d b) = [] \<longleftrightarrow>
     mask_compatible d res a b"
proof -
  obtain g k g' k' where ab: "a = (g, k)" "b = (g', k')" by fastforce
  show ?thesis
    unfolding ab
    by (cases "opted_out g"; cases "opted_out g'"; cases "k = k'")
      (auto simp: conflict_error_def entry_of_def mask_compatible_def overlap_def Let_def
        filter_empty_conv me_holders_iff resourceUnmasked_iff opted_out_def)
qed

lemma maskedBy_entries:
  "(col, es) \<in> set (maskedBy d res) \<longleftrightarrow>
     es \<noteq> [] \<and> es = map (entry_of d) (map snd (filter (\<lambda>u. fst u = col) (mask_uses res)))"
proof -
  have "(\<lambda>(col :: string, g, kind). \<lparr>me_grant = g, me_holders = grant_holders d g, me_kind = kind\<rparr>) =
      (\<lambda>u. entry_of d (snd u))"
    by (auto simp: entry_of_def)
  then have "maskedBy d res = group_by fst (\<lambda>u. entry_of d (snd u)) (mask_uses res)"
    by (simp only: maskedBy_def)
  then show ?thesis by (auto simp: group_by_entries group_of_def comp_def)
qed

lemma pairs_map: "pairs (map f xs) = map (\<lambda>(a, b). (f a, f b)) (pairs xs)"
  by (induction xs) auto

lemma mask_compatible_sym: "mask_compatible d res a b \<longleftrightarrow> mask_compatible d res b a"
  by (auto simp: mask_compatible_def split: prod.splits)

lemma mask_compatible_refl: "mask_compatible d res a a"
  by (auto simp: mask_compatible_def)

lemma pairs_all:
  assumes "\<And>a. P a a" and "\<And>a b. P a b \<Longrightarrow> P b a"
  shows "(\<forall>(a, b) \<in> set (pairs xs). P a b) \<longleftrightarrow> (\<forall>a \<in> set xs. \<forall>b \<in> set xs. P a b)"
proof
  assume all: "\<forall>(a, b) \<in> set (pairs xs). P a b"
  show "\<forall>a \<in> set xs. \<forall>b \<in> set xs. P a b"
  proof (intro ballI)
    fix a b
    assume "a \<in> set xs" "b \<in> set xs"
    then show "P a b" using all assms pairs_cover [of a xs b] by (cases "a = b") auto
  qed
qed (auto dest: pairs_mem)

lemma conflict_errors_Nil:
  "conflict_errors d res = [] \<longleftrightarrow>
     (\<forall>(c, a) \<in> set (mask_uses res). \<forall>(c', b) \<in> set (mask_uses res). c = c' \<longrightarrow> mask_compatible d res a b)"
proof -
  let ?uses = "\<lambda>col. map snd (filter (\<lambda>u. fst u = col) (mask_uses res))"
  have "conflict_errors d res = [] \<longleftrightarrow>
      (\<forall>(col, es) \<in> set (maskedBy d res). \<forall>p \<in> set (pairs es). conflict_error res (resourceUnmasked d res) col p = [])"
    by (auto simp: conflict_errors_def)
  also have "\<dots> \<longleftrightarrow> (\<forall>col. \<forall>p \<in> set (pairs (map (entry_of d) (?uses col))).
      conflict_error res (resourceUnmasked d res) col p = [])"
    by (fastforce simp: maskedBy_entries)
  also have "\<dots> \<longleftrightarrow> (\<forall>col. \<forall>(a, b) \<in> set (pairs (?uses col)). mask_compatible d res a b)"
    by (simp add: pairs_map split_def conflict_error_Nil)
  also have "\<dots> \<longleftrightarrow> (\<forall>col. \<forall>a \<in> set (?uses col). \<forall>b \<in> set (?uses col). mask_compatible d res a b)"
    by (subst pairs_all) (use mask_compatible_refl mask_compatible_sym in blast)+
  also have "\<dots> \<longleftrightarrow> (\<forall>(c, a) \<in> set (mask_uses res). \<forall>(c', b) \<in> set (mask_uses res).
      c = c' \<longrightarrow> mask_compatible d res a b)"
    by fastforce
  finally show ?thesis .
qed

lemma resource_errors_Nil: "resource_errors d res = [] \<longleftrightarrow> resource_wf d res"
  by (auto simp: resource_errors_def resource_wf_def conflict_errors_Nil grant_errors_Nil)

lemma validateDeclaration_iff: "validateDeclaration d = [] \<longleftrightarrow> well_formed d"
  unfolding validateDeclaration_def well_formed_def append_is_Nil_conv concat_eq_Nil_conv
  by (simp add: cycle_errors_Nil role_errors_Nil collision_errors_Nil group_errors_Nil
      duplicate_resource_errors_Nil resource_errors_Nil catalog_grant_errors_Nil
      duplicate_catalog_errors_Nil login_errors_Nil)

end
