(* ===== verification/Rego.thy ===== *)
theory Rego
  imports Validate
begin

text \<open>
  \<open>policy-compiler/src/compiler/rego.ts\<close>: the text that \<open>compileRego\<close> writes, line by line, with
  the Korean comments as their UTF-8 bytes. The privileges of a declaration are an enum, so the
  \<open>default\<close> branch of \<open>operationOf\<close> does not exist here; the exception of \<open>splitResource\<close> is the
  \<open>Inl\<close> branch.
\<close>

section \<open>Fixed text\<close>

definition utf8 :: "nat list \<Rightarrow> string" where
  "utf8 bs = map char_of bs"

definition txt_generated :: string where
  "txt_generated = ''# '' @ utf8 [0xEC, 0x9E, 0x90, 0xEB, 0x8F, 0x99, 0x20, 0xEC, 0x83, 0x9D, 0xEC,
     0x84, 0xB1, 0x20, 0xE2, 0x80, 0x94, 0x20, 0xEC, 0xA7, 0x81, 0xEC, 0xA0, 0x91, 0x20, 0xEC, 0x88,
     0x98, 0xEC, 0xA0, 0x95, 0xED, 0x95, 0x98, 0xEC, 0xA7, 0x80, 0x20, 0xEB, 0xA7, 0x90, 0x20, 0xEA,
     0xB2, 0x83, 0x2E, 0x20, 0xEC, 0x9B, 0x90, 0xEC, 0xB2, 0x9C] @ '': policies/*.yaml''"

definition txt_groups :: string where
  "txt_groups = ''# '' @ utf8 [0xEC, 0x9A, 0x94, 0xEC, 0xB2, 0xAD, 0xEC, 0x9E, 0x90, 0xEC, 0x9D,
     0x98, 0x20, 0xEA, 0xB7, 0xB8, 0xEB, 0xA3, 0xB9, 0x20, 0x28, 0x54, 0x72, 0x69, 0x6E, 0x6F, 0x20,
     0x4F, 0x50, 0x41, 0x20, 0xEC, 0x9E, 0x85, 0xEB, 0xA0, 0xA5, 0xEC, 0x9D, 0x98, 0x20, 0xEC, 0x8B,
     0xA4, 0xEC, 0xA0, 0x9C, 0x20, 0xEA, 0xB2, 0xBD, 0xEB, 0xA1, 0x9C, 0x20, 0xE2, 0x80, 0x94, 0x20,
     0xEB, 0x9D, 0xBC, 0xEC, 0x9D, 0xB4, 0xEB, 0xB8, 0x8C, 0x20, 0xEC, 0x8B, 0xA4, 0xEC, 0xB8, 0xA1,
     0x3A, 0x20, 0x69, 0x64, 0x65, 0x6E, 0x74, 0x69, 0x74, 0x79, 0x20, 0xED, 0x82, 0xA4, 0xEB, 0x8A,
     0x94, 0x20, 0x67, 0x72, 0x6F, 0x75, 0x70, 0x73, 0x2F, 0x75, 0x73, 0x65, 0x72, 0x20, 0xEB, 0xBF,
     0x90] @ '')''"

definition txt_dash :: string where
  "txt_dash = '' '' @ utf8 [0xE2, 0x80, 0x94] @ '' ''"

definition txt_row_filter :: string where
  "txt_row_filter = utf8 [0xED, 0x96, 0x89, 0x20, 0xED, 0x95, 0x84, 0xED, 0x84, 0xB0]"

definition txt_masking :: string where
  "txt_masking = utf8 [0xEB, 0xA7, 0x88, 0xEC, 0x8A, 0xA4, 0xED, 0x82, 0xB9] @ ''(''"

definition txt_catalog :: string where
  "txt_catalog = ''# '' @ utf8 [0xEC, 0xB9, 0xB4, 0xED, 0x83, 0x88, 0xEB, 0xA1, 0x9C, 0xEA, 0xB7,
     0xB8] @ '' ''"

definition txt_unknown_roles :: string where
  "txt_unknown_roles = utf8 [0xEC, 0x95, 0x8C, 0x20, 0xEC, 0x88, 0x98, 0x20, 0xEC, 0x97, 0x86, 0xEB,
     0x8A, 0x94, 0x20, 0xEB, 0xA1, 0xA4, 0x20, 0xE2, 0x80, 0x94, 0x20, 0xEA, 0xB2, 0x80, 0xEC, 0xA6,
     0x9D, 0x20, 0xEC, 0x9A, 0xB0, 0xED, 0x9A, 0x8C]"

definition txt_show :: string where
  "txt_show = ''SHOW TABLES/COLUMNS '' @ utf8 [0xEB, 0x93, 0xB1, 0xEC, 0x9D, 0xB4, 0x20, 0xEB, 0x82,
     0xB4, 0xEB, 0xB6, 0x80, 0xEC, 0xA0, 0x81, 0xEC, 0x9C, 0xBC, 0xEB, 0xA1, 0x9C, 0x20, 0xEC, 0x9A,
     0x94, 0xEA, 0xB5, 0xAC] @ '')''"

definition txt_system_catalog :: string where
  "txt_system_catalog = ''# Trino '' @ utf8 [0xEB, 0x82, 0xB4, 0xEC, 0x9E, 0xA5, 0x20, 0x73, 0x79,
     0x73, 0x74, 0x65, 0x6D, 0x20, 0xEC, 0xB9, 0xB4, 0xED, 0x83, 0x88, 0xEB, 0xA1, 0x9C, 0xEA, 0xB7,
     0xB8, 0x20, 0xE2, 0x80, 0x94] @ '' ''"

definition txt_superset :: string where
  "txt_superset = ''Superset '' @ utf8 [0xEB, 0xA9, 0x94, 0xED, 0x83, 0x80, 0xEB, 0x8D, 0xB0, 0xEC,
     0x9D, 0xB4, 0xED, 0x84, 0xB0, 0x20, 0xEA, 0xB2, 0x80, 0xEC, 0xA6, 0x9D, 0xEC, 0x9A, 0xA9] @
     '')''"

definition txt_system_metadata :: string where
  "txt_system_metadata = ''# Trino '' @ utf8 [0xEB, 0x82, 0xB4, 0xEC, 0x9E, 0xA5, 0x20, 0x73, 0x79,
     0x73, 0x74, 0x65, 0x6D, 0x20, 0xEB, 0xA9, 0x94, 0xED, 0x83, 0x80, 0xEB, 0x8D, 0xB0, 0xEC, 0x9D,
     0xB4, 0xED, 0x84, 0xB0, 0x20, 0xE2, 0x80, 0x94] @ '' ''"

definition txt_metadata_only :: string where
  "txt_metadata_only = ''metadata/jdbc'' @ utf8 [0xEB, 0xA7, 0x8C, 0x3B, 0x20, 0x72, 0x75, 0x6E,
     0x74, 0x69, 0x6D, 0x65, 0x20, 0xEC, 0xA0, 0x9C, 0xEC, 0x99, 0xB8] @ '')''"

section \<open>Pieces\<close>

datatype compile_error = BadResource string | ValidationFailed "validation_error list"

definition nl :: string where "nl = [CHR 0x0A]"
definition tab :: string where "tab = [CHR 0x09]"
definition dq :: string where "dq = [CHR 0x22]"

fun MASK_EXPR :: "mask_kind \<Rightarrow> string \<Rightarrow> string" where
  "MASK_EXPR Hash col = ''to_hex(sha256(cast('' @ col @ '' as varbinary)))''"
| "MASK_EXPR Partial col = ''concat(substr('' @ col @ '', 1, 2), '' @ [CHR 0x27] @ ''***'' @ [CHR 0x27] @ '')''"
| "MASK_EXPR Null col = ''null''"

datatype op_shape = ShapeNone | ShapeCatalog | ShapeSchema | ShapeTable | ShapeCatalogSessionProperty

fun OPERATION_RESOURCE_SHAPE :: "query_operation \<Rightarrow> op_shape" where
  "OPERATION_RESOURCE_SHAPE ExecuteQuery = ShapeNone"
| "OPERATION_RESOURCE_SHAPE AccessCatalog = ShapeCatalog"
| "OPERATION_RESOURCE_SHAPE ShowSchemas = ShapeCatalog"
| "OPERATION_RESOURCE_SHAPE FilterCatalogs = ShapeCatalog"
| "OPERATION_RESOURCE_SHAPE ShowTables = ShapeSchema"
| "OPERATION_RESOURCE_SHAPE FilterSchemas = ShapeSchema"
| "OPERATION_RESOURCE_SHAPE ShowFunctions = ShapeSchema"
| "OPERATION_RESOURCE_SHAPE ShowColumns = ShapeTable"
| "OPERATION_RESOURCE_SHAPE ShowCreateTable = ShapeTable"
| "OPERATION_RESOURCE_SHAPE FilterTables = ShapeTable"
| "OPERATION_RESOURCE_SHAPE FilterColumns = ShapeTable"
| "OPERATION_RESOURCE_SHAPE SetCatalogSessionProperty = ShapeCatalogSessionProperty"

text \<open>The \<open>Record\<close> excludes \<open>none\<close>: there is no path for it.\<close>

fun CATALOG_GUARD_PATH :: "op_shape \<Rightarrow> string option" where
  "CATALOG_GUARD_PATH ShapeNone = None"
| "CATALOG_GUARD_PATH ShapeCatalog = Some ''input.action.resource.catalog.name''"
| "CATALOG_GUARD_PATH ShapeSchema = Some ''input.action.resource.schema.catalogName''"
| "CATALOG_GUARD_PATH ShapeTable = Some ''input.action.resource.table.catalogName''"
| "CATALOG_GUARD_PATH ShapeCatalogSessionProperty =
     Some ''input.action.resource.catalogSessionProperty.catalogName''"

fun SYSTEM_METADATA_SCHEMA_GUARD_PATH :: "op_shape \<Rightarrow> string option" where
  "SYSTEM_METADATA_SCHEMA_GUARD_PATH ShapeSchema = Some ''input.action.resource.schema.schemaName''"
| "SYSTEM_METADATA_SCHEMA_GUARD_PATH ShapeTable = Some ''input.action.resource.table.schemaName''"
| "SYSTEM_METADATA_SCHEMA_GUARD_PATH _ = None"

definition path_of :: "string option \<Rightarrow> string" where
  "path_of p = (case p of None \<Rightarrow> [] | Some s \<Rightarrow> s)"

definition is_newline :: "char \<Rightarrow> bool" where
  "is_newline c \<longleftrightarrow> c = CHR 0x0A \<or> c = CHR 0x0D"

function sanitizeComment :: "string \<Rightarrow> string" where
  "sanitizeComment [] = []"
| "sanitizeComment (c # s) =
     (if is_newline c then CHR '' '' # sanitizeComment (dropWhile is_newline s)
      else c # sanitizeComment s)"
  by pat_completeness auto
termination
  by (relation "measure length") (auto simp: le_imp_less_Suc length_dropWhile_le)

definition splitResource :: "string \<Rightarrow> (compile_error, string \<times> string) res" where
  "splitResource r =
     (if CHR ''.'' \<notin> set r then Inl (BadResource r)
      else Inr (rev (tl (dropWhile (\<lambda>c. c \<noteq> CHR ''.'') (rev r))), rev (takeWhile (\<lambda>c. c \<noteq> CHR ''.'') (rev r))))"

fun operationOf :: "privilege \<Rightarrow> string" where
  "operationOf Select = ''SelectFromColumns''"
| "operationOf Insert = ''InsertIntoTable''"
| "operationOf Update = ''UpdateTableColumns''"
| "operationOf Delete = ''DeleteFromTable''"

definition set_literal :: "string list \<Rightarrow> string" where
  "set_literal rs = ''{'' @ join '', '' (map json_stringify rs) @ ''}''"

definition effective_roles :: "decl \<Rightarrow> string list \<Rightarrow> string list" where
  "effective_roles d roles = sort (js_set (concat (map (holdersOf d) roles)))"

section \<open>Lines\<close>

definition header_lines :: "string list" where
  "header_lines =
     [txt_generated, ''package trino'', [], ''import rego.v1'', [], ''default allow := false'', [],
      txt_groups,
      ''groups := object.get(input, ['' @ json_stringify ''context'' @ '', '' @ json_stringify ''identity'' @
        '', '' @ json_stringify ''groups'' @ ''], [])'', []]"

definition unmaskedGroups :: "decl \<Rightarrow> resource \<Rightarrow> string list" where
  "unmaskedGroups d res =
     sort (js_set (concat (map (\<lambda>g. concat (map (holdersOf d) (g_roles g)))
       (filter (\<lambda>g. allowUnmasked g = Some True) (grants res)))))"

definition unmaskedGuard :: "decl \<Rightarrow> resource \<Rightarrow> grant \<Rightarrow> string list" where
  "unmaskedGuard d res g =
     (if allowUnmasked g \<noteq> Some True \<and> unmaskedGroups d res \<noteq> []
      then [tab @ ''every ug in groups { not ug in '' @ set_literal (unmaskedGroups d res) @ '' }'']
      else [])"

definition privilege_lines :: "decl \<Rightarrow> resource \<Rightarrow> string \<Rightarrow> string \<Rightarrow> grant \<Rightarrow> privilege \<Rightarrow> string list" where
  "privilege_lines d res schema table g priv =
     (let effective = effective_roles d (g_roles g)
      in [''# '' @ sanitizeComment (resource res) @ txt_dash @ privilege_name priv @ '' ('' @
            join '', '' (map sanitizeComment effective) @ '')'',
          ''allow if {'',
          tab @ ''input.action.operation == '' @ dq @ operationOf priv @ dq,
          tab @ ''input.action.resource.table.catalogName == '' @ json_stringify DEPLOYED_CATALOG,
          tab @ ''input.action.resource.table.schemaName == '' @ json_stringify schema,
          tab @ ''input.action.resource.table.tableName == '' @ json_stringify table,
          tab @ ''some g in groups'',
          tab @ ''g in '' @ set_literal effective,
          ''}'',
          []])"

definition row_filter_lines :: "decl \<Rightarrow> resource \<Rightarrow> string \<Rightarrow> string \<Rightarrow> grant \<Rightarrow> string list" where
  "row_filter_lines d res schema table g =
     (case rowFilter g of
        None \<Rightarrow> []
      | Some f \<Rightarrow>
          if f = [] then []
          else [''# '' @ sanitizeComment (resource res) @ txt_dash @ txt_row_filter,
                ''rowFilters contains {'' @ json_stringify ''expression'' @ '': '' @ json_stringify f @ ''} if {'',
                tab @ ''input.action.resource.table.catalogName == '' @ json_stringify DEPLOYED_CATALOG,
                tab @ ''input.action.resource.table.schemaName == '' @ json_stringify schema,
                tab @ ''input.action.resource.table.tableName == '' @ json_stringify table,
                tab @ ''some g in groups'',
                tab @ ''g in '' @ set_literal (g_roles g)] @
               unmaskedGuard d res g @
               [''}'', []])"

definition mask_lines :: "decl \<Rightarrow> resource \<Rightarrow> string \<Rightarrow> string \<Rightarrow> grant \<Rightarrow> string \<times> mask_kind \<Rightarrow> string list" where
  "mask_lines d res schema table g = (\<lambda>(col, kind).
     [''# '' @ sanitizeComment (resource res) @ ''.'' @ sanitizeComment col @ txt_dash @ txt_masking @
        mask_name kind @ '')'',
      ''columnMask := {'' @ json_stringify ''expression'' @ '': '' @ json_stringify (MASK_EXPR kind col) @ ''} if {'',
      tab @ ''input.action.resource.column.catalogName == '' @ json_stringify DEPLOYED_CATALOG,
      tab @ ''input.action.resource.column.schemaName == '' @ json_stringify schema,
      tab @ ''input.action.resource.column.tableName == '' @ json_stringify table,
      tab @ ''input.action.resource.column.columnName == '' @ json_stringify col,
      tab @ ''some g in groups'',
      tab @ ''g in '' @ set_literal (g_roles g)] @
     unmaskedGuard d res g @
     [''}'', []])"

definition grant_lines :: "decl \<Rightarrow> resource \<Rightarrow> string \<Rightarrow> string \<Rightarrow> grant \<Rightarrow> string list" where
  "grant_lines d res schema table g =
     concat (map (privilege_lines d res schema table g) (sort_key privilege_name (privileges g))) @
     row_filter_lines d res schema table g @
     concat (map (mask_lines d res schema table g)
       (sort_key (\<lambda>(col, kind). col @ '','' @ mask_name kind) (opt_list (columnMask g))))"

definition resource_lines :: "decl \<Rightarrow> resource \<Rightarrow> (compile_error, string list) res" where
  "resource_lines d res =
     res_bind (splitResource (resource res)) (\<lambda>(schema, table).
       Inr (concat (map (grant_lines d res schema table) (sort_key (\<lambda>g. join '','' (g_roles g)) (grants res)))))"

definition trino_resources :: "decl \<Rightarrow> resource list" where
  "trino_resources d =
     sort_key resource (filter (\<lambda>r. engine_name (engine r) = ''trino'') (d_resources d))"

definition effective_comment :: "string list \<Rightarrow> string" where
  "effective_comment effective =
     (if effective \<noteq> [] then join '', '' (map sanitizeComment effective) else txt_unknown_roles)"

definition catalog_op_lines :: "catalog_grant \<Rightarrow> string list \<Rightarrow> query_operation \<Rightarrow> string list" where
  "catalog_op_lines cg effective op =
     [txt_catalog @ sanitizeComment (catalog cg) @ txt_dash @ operation_name op @ '' ('' @
        effective_comment effective @ '')'',
      ''allow if {'',
      tab @ ''input.action.operation == '' @ json_stringify (operation_name op)] @
     (case CATALOG_GUARD_PATH (OPERATION_RESOURCE_SHAPE op) of
        None \<Rightarrow> []
      | Some path \<Rightarrow> [tab @ path @ '' == '' @ json_stringify (catalog cg)]) @
     [tab @ ''some g in groups'',
      tab @ ''g in '' @ set_literal effective,
      ''}'',
      []]"

definition information_schema_lines :: "catalog_grant \<Rightarrow> string list \<Rightarrow> string list" where
  "information_schema_lines cg effective =
     [txt_catalog @ sanitizeComment (catalog cg) @ txt_dash @ ''information_schema SELECT ('' @
        effective_comment effective @ '', '' @ txt_show,
      ''allow if {'',
      tab @ ''input.action.operation == '' @ dq @ ''SelectFromColumns'' @ dq,
      tab @ ''input.action.resource.table.catalogName == '' @ json_stringify (catalog cg),
      tab @ ''input.action.resource.table.schemaName == '' @ dq @ ''information_schema'' @ dq,
      tab @ ''some g in groups'',
      tab @ ''g in '' @ set_literal effective,
      ''}'',
      []]"

definition systemCatalogOperations :: "(query_operation \<times> op_shape) list" where
  "systemCatalogOperations =
     [(AccessCatalog, ShapeCatalog), (FilterCatalogs, ShapeCatalog), (ShowSchemas, ShapeCatalog),
      (FilterSchemas, ShapeSchema)]"

definition system_catalog_lines :: "string list \<Rightarrow> query_operation \<times> op_shape \<Rightarrow> string list" where
  "system_catalog_lines effective = (\<lambda>(op, shape).
     [txt_system_catalog @ operation_name op @ '' ('' @ effective_comment effective @ '', '' @ txt_superset,
      ''allow if {'',
      tab @ ''input.action.operation == '' @ json_stringify (operation_name op),
      tab @ path_of (CATALOG_GUARD_PATH shape) @ '' == '' @ dq @ ''system'' @ dq,
      tab @ ''some g in groups'',
      tab @ ''g in '' @ set_literal effective,
      ''}'',
      []])"

definition systemMetadataOperations :: "(string \<times> op_shape) list" where
  "systemMetadataOperations =
     [(''ShowTables'', ShapeSchema), (''FilterTables'', ShapeTable), (''ShowColumns'', ShapeTable),
      (''FilterColumns'', ShapeTable), (''SelectFromColumns'', ShapeTable)]"

definition system_metadata_lines :: "string list \<Rightarrow> string \<times> op_shape \<Rightarrow> string list" where
  "system_metadata_lines effective = (\<lambda>(op, shape).
     [txt_system_metadata @ op @ '' ('' @ effective_comment effective @ '', '' @ txt_metadata_only,
      ''allow if {'',
      tab @ ''input.action.operation == '' @ json_stringify op,
      tab @ path_of (CATALOG_GUARD_PATH shape) @ '' == '' @ dq @ ''system'' @ dq,
      tab @ path_of (SYSTEM_METADATA_SCHEMA_GUARD_PATH shape) @ '' in {'' @ dq @ ''jdbc'' @ dq @ '', '' @
        dq @ ''metadata'' @ dq @ ''}'',
      tab @ ''some g in groups'',
      tab @ ''g in '' @ set_literal effective,
      ''}'',
      []])"

definition catalog_grant_lines :: "decl \<Rightarrow> catalog_grant \<Rightarrow> string list" where
  "catalog_grant_lines d cg =
     (let effective = effective_roles d (cg_roles cg)
      in concat (map (catalog_op_lines cg effective) (sort_key operation_name (operations cg))) @
         information_schema_lines cg effective @
         (if AccessCatalog \<in> set (operations cg)
          then concat (map (system_catalog_lines effective) systemCatalogOperations) @
               concat (map (system_metadata_lines effective) systemMetadataOperations)
          else []))"

definition compileRego :: "decl \<Rightarrow> (compile_error, string) res" where
  "compileRego d =
     res_bind (res_map_list (resource_lines d) (trino_resources d)) (\<lambda>rs.
       Inr (join nl (header_lines @ concat rs @
         concat (map (catalog_grant_lines d) (sort_key catalog (opt_list (d_catalogGrants d)))))))"

section \<open>The same output as rules\<close>

text \<open>A rule of the generated module: a comment, a head and a list of conditions, all of which must
  hold. \<open>rule_lines\<close> is its concrete text.\<close>

datatype rego_head = HAllow | HRowFilter string | HColumnMask string

datatype rego_cond =
    CEq string string
  | CIn string "string list"
  | CSomeGroup "string list"
  | CNoGroup "string list"

record rego_rule =
  rr_comment :: string
  rr_head :: rego_head
  rr_body :: "rego_cond list"

fun head_text :: "rego_head \<Rightarrow> string" where
  "head_text HAllow = ''allow''"
| "head_text (HRowFilter f) = ''rowFilters contains {'' @ json_stringify ''expression'' @ '': '' @ json_stringify f @ ''}''"
| "head_text (HColumnMask e) = ''columnMask := {'' @ json_stringify ''expression'' @ '': '' @ json_stringify e @ ''}''"

fun cond_lines :: "rego_cond \<Rightarrow> string list" where
  "cond_lines (CEq path v) = [tab @ path @ '' == '' @ json_stringify v]"
| "cond_lines (CIn path vs) = [tab @ path @ '' in '' @ set_literal vs]"
| "cond_lines (CSomeGroup rs) = [tab @ ''some g in groups'', tab @ ''g in '' @ set_literal rs]"
| "cond_lines (CNoGroup rs) = [tab @ ''every ug in groups { not ug in '' @ set_literal rs @ '' }'']"

definition rule_lines :: "rego_rule \<Rightarrow> string list" where
  "rule_lines r =
     [rr_comment r, head_text (rr_head r) @ '' if {''] @ concat (map cond_lines (rr_body r)) @ [''}'', []]"

definition table_conds :: "string \<Rightarrow> string \<Rightarrow> string \<Rightarrow> rego_cond list" where
  "table_conds c schema table =
     [CEq ''input.action.resource.table.catalogName'' c,
      CEq ''input.action.resource.table.schemaName'' schema,
      CEq ''input.action.resource.table.tableName'' table]"

definition guard_conds :: "decl \<Rightarrow> resource \<Rightarrow> grant \<Rightarrow> rego_cond list" where
  "guard_conds d res g =
     (if allowUnmasked g \<noteq> Some True \<and> unmaskedGroups d res \<noteq> [] then [CNoGroup (unmaskedGroups d res)] else [])"

definition privilege_rule :: "decl \<Rightarrow> resource \<Rightarrow> string \<Rightarrow> string \<Rightarrow> grant \<Rightarrow> privilege \<Rightarrow> rego_rule" where
  "privilege_rule d res schema table g priv =
     \<lparr>rr_comment = ''# '' @ sanitizeComment (resource res) @ txt_dash @ privilege_name priv @ '' ('' @
        join '', '' (map sanitizeComment (effective_roles d (g_roles g))) @ '')'',
      rr_head = HAllow,
      rr_body = CEq ''input.action.operation'' (operationOf priv) # table_conds DEPLOYED_CATALOG schema table @
        [CSomeGroup (effective_roles d (g_roles g))]\<rparr>"

definition row_filter_rules :: "decl \<Rightarrow> resource \<Rightarrow> string \<Rightarrow> string \<Rightarrow> grant \<Rightarrow> rego_rule list" where
  "row_filter_rules d res schema table g =
     (case rowFilter g of
        None \<Rightarrow> []
      | Some f \<Rightarrow>
          if f = [] then []
          else [\<lparr>rr_comment = ''# '' @ sanitizeComment (resource res) @ txt_dash @ txt_row_filter,
                 rr_head = HRowFilter f,
                 rr_body = table_conds DEPLOYED_CATALOG schema table @ CSomeGroup (g_roles g) # guard_conds d res g\<rparr>])"

definition mask_rule :: "decl \<Rightarrow> resource \<Rightarrow> string \<Rightarrow> string \<Rightarrow> grant \<Rightarrow> string \<times> mask_kind \<Rightarrow> rego_rule" where
  "mask_rule d res schema table g = (\<lambda>(col, kind).
     \<lparr>rr_comment = ''# '' @ sanitizeComment (resource res) @ ''.'' @ sanitizeComment col @ txt_dash @ txt_masking @
        mask_name kind @ '')'',
      rr_head = HColumnMask (MASK_EXPR kind col),
      rr_body =
        [CEq ''input.action.resource.column.catalogName'' DEPLOYED_CATALOG,
         CEq ''input.action.resource.column.schemaName'' schema,
         CEq ''input.action.resource.column.tableName'' table,
         CEq ''input.action.resource.column.columnName'' col,
         CSomeGroup (g_roles g)] @ guard_conds d res g\<rparr>)"

definition grant_rules :: "decl \<Rightarrow> resource \<Rightarrow> string \<Rightarrow> string \<Rightarrow> grant \<Rightarrow> rego_rule list" where
  "grant_rules d res schema table g =
     map (privilege_rule d res schema table g) (sort_key privilege_name (privileges g)) @
     row_filter_rules d res schema table g @
     map (mask_rule d res schema table g)
       (sort_key (\<lambda>(col, kind). col @ '','' @ mask_name kind) (opt_list (columnMask g)))"

definition catalog_rule :: "string \<Rightarrow> string \<Rightarrow> rego_cond list \<Rightarrow> string list \<Rightarrow> rego_rule" where
  "catalog_rule comment op guards effective =
     \<lparr>rr_comment = comment, rr_head = HAllow,
      rr_body = CEq ''input.action.operation'' op # guards @ [CSomeGroup effective]\<rparr>"

definition catalog_op_rule :: "catalog_grant \<Rightarrow> string list \<Rightarrow> query_operation \<Rightarrow> rego_rule" where
  "catalog_op_rule cg effective op =
     catalog_rule
       (txt_catalog @ sanitizeComment (catalog cg) @ txt_dash @ operation_name op @ '' ('' @
          effective_comment effective @ '')'')
       (operation_name op)
       (case CATALOG_GUARD_PATH (OPERATION_RESOURCE_SHAPE op) of None \<Rightarrow> [] | Some path \<Rightarrow> [CEq path (catalog cg)])
       effective"

definition information_schema_rule :: "catalog_grant \<Rightarrow> string list \<Rightarrow> rego_rule" where
  "information_schema_rule cg effective =
     catalog_rule
       (txt_catalog @ sanitizeComment (catalog cg) @ txt_dash @ ''information_schema SELECT ('' @
          effective_comment effective @ '', '' @ txt_show)
       ''SelectFromColumns''
       [CEq ''input.action.resource.table.catalogName'' (catalog cg),
        CEq ''input.action.resource.table.schemaName'' ''information_schema'']
       effective"

definition system_catalog_rule :: "string list \<Rightarrow> query_operation \<times> op_shape \<Rightarrow> rego_rule" where
  "system_catalog_rule effective = (\<lambda>(op, shape).
     catalog_rule (txt_system_catalog @ operation_name op @ '' ('' @ effective_comment effective @ '', '' @ txt_superset)
       (operation_name op) [CEq (path_of (CATALOG_GUARD_PATH shape)) ''system''] effective)"

definition system_metadata_rule :: "string list \<Rightarrow> string \<times> op_shape \<Rightarrow> rego_rule" where
  "system_metadata_rule effective = (\<lambda>(op, shape).
     catalog_rule (txt_system_metadata @ op @ '' ('' @ effective_comment effective @ '', '' @ txt_metadata_only)
       op [CEq (path_of (CATALOG_GUARD_PATH shape)) ''system'',
           CIn (path_of (SYSTEM_METADATA_SCHEMA_GUARD_PATH shape)) [''jdbc'', ''metadata'']] effective)"

definition catalog_grant_rules :: "decl \<Rightarrow> catalog_grant \<Rightarrow> rego_rule list" where
  "catalog_grant_rules d cg =
     (let effective = effective_roles d (cg_roles cg)
      in map (catalog_op_rule cg effective) (sort_key operation_name (operations cg)) @
         information_schema_rule cg effective #
         (if AccessCatalog \<in> set (operations cg)
          then map (system_catalog_rule effective) systemCatalogOperations @
               map (system_metadata_rule effective) systemMetadataOperations
          else []))"

definition table_rules :: "decl \<Rightarrow> resource \<Rightarrow> (compile_error, rego_rule list) res" where
  "table_rules d res =
     res_bind (splitResource (resource res)) (\<lambda>(schema, table).
       Inr (concat (map (grant_rules d res schema table) (sort_key (\<lambda>g. join '','' (g_roles g)) (grants res)))))"

definition rego_rules :: "decl \<Rightarrow> (compile_error, rego_rule list) res" where
  "rego_rules d =
     res_bind (res_map_list (table_rules d) (trino_resources d)) (\<lambda>rs.
       Inr (concat rs @ concat (map (catalog_grant_rules d) (sort_key catalog (opt_list (d_catalogGrants d))))))"

definition rules_lines :: "rego_rule list \<Rightarrow> string list" where
  "rules_lines rs = concat (map rule_lines rs)"

lemma rules_lines_append [simp]: "rules_lines (a @ b) = rules_lines a @ rules_lines b"
  by (simp add: rules_lines_def)

lemma rules_lines_concat: "rules_lines (concat rss) = concat (map rules_lines rss)"
  by (induction rss) (simp_all add: rules_lines_def)

lemma json_plain:
  assumes "\<And>c. c \<in> set s \<Longrightarrow> c \<noteq> CHR 0x22 \<and> c \<noteq> CHR 0x5C \<and> \<not> (of_char c :: nat) < 32"
  shows "json_stringify s = dq @ s @ dq"
proof -
  have "json_char c = [c]" if "c \<in> set s" for c
  proof -
    have "(of_char c :: nat) \<noteq> 34" "(of_char c :: nat) \<noteq> 92"
      using assms [OF that] of_char_eq_iff [where 'a = nat, of c "CHR 0x22"]
        of_char_eq_iff [where 'a = nat, of c "CHR 0x5C"] by auto
    then show ?thesis using assms [OF that] by (simp add: json_char_def Let_def)
  qed
  then have "concat (map json_char s) = s" by (induction s) auto
  then show ?thesis by (simp add: json_stringify_def dq_def)
qed

lemma fixed_literals:
  "json_stringify (operationOf p) = dq @ operationOf p @ dq"
  "json_stringify ''SelectFromColumns'' = dq @ ''SelectFromColumns'' @ dq"
  "json_stringify ''information_schema'' = dq @ ''information_schema'' @ dq"
  "json_stringify ''system'' = dq @ ''system'' @ dq"
  "set_literal [''jdbc'', ''metadata''] = ''{'' @ dq @ ''jdbc'' @ dq @ '', '' @ dq @ ''metadata'' @ dq @ ''}''"
proof -
  show "json_stringify (operationOf p) = dq @ operationOf p @ dq"
    by (rule json_plain) (cases p; auto)
  show "json_stringify ''SelectFromColumns'' = dq @ ''SelectFromColumns'' @ dq"
    "json_stringify ''information_schema'' = dq @ ''information_schema'' @ dq"
    "json_stringify ''system'' = dq @ ''system'' @ dq"
    by (rule json_plain; auto)+
  have "json_stringify ''jdbc'' = dq @ ''jdbc'' @ dq" "json_stringify ''metadata'' = dq @ ''metadata'' @ dq"
    by (rule json_plain; auto)+
  then show "set_literal [''jdbc'', ''metadata''] = ''{'' @ dq @ ''jdbc'' @ dq @ '', '' @ dq @ ''metadata'' @ dq @ ''}''"
    by (simp add: set_literal_def)
qed

lemma guard_lines: "concat (map cond_lines (guard_conds d res g)) = unmaskedGuard d res g"
  by (simp add: guard_conds_def unmaskedGuard_def)

lemma privilege_rule_lines:
  "rule_lines (privilege_rule d res schema table g p) = privilege_lines d res schema table g p"
  by (simp add: rule_lines_def privilege_rule_def privilege_lines_def table_conds_def Let_def fixed_literals(1))

lemma row_filter_rule_lines:
  "rules_lines (row_filter_rules d res schema table g) = row_filter_lines d res schema table g"
  by (simp add: rules_lines_def rule_lines_def row_filter_rules_def row_filter_lines_def
      table_conds_def guard_lines split: option.splits)

lemma mask_rule_lines: "rule_lines (mask_rule d res schema table g m) = mask_lines d res schema table g m"
  by (cases m) (simp add: rule_lines_def mask_rule_def mask_lines_def guard_lines)

lemma grant_rule_lines: "rules_lines (grant_rules d res schema table g) = grant_lines d res schema table g"
  by (simp add: grant_rules_def grant_lines_def row_filter_rule_lines)
    (simp add: rules_lines_def privilege_rule_lines mask_rule_lines comp_def)

lemma catalog_grant_rule_lines: "rules_lines (catalog_grant_rules d cg) = catalog_grant_lines d cg"
proof -
  have op: "rule_lines (catalog_op_rule cg e op) = catalog_op_lines cg e op" for e op
    by (simp add: rule_lines_def catalog_op_rule_def catalog_rule_def catalog_op_lines_def split: option.splits)
  have info: "rule_lines (information_schema_rule cg e) = information_schema_lines cg e" for e
    by (simp add: rule_lines_def information_schema_rule_def catalog_rule_def information_schema_lines_def
        fixed_literals(2,3))
  have sys: "rule_lines (system_catalog_rule e x) = system_catalog_lines e x" for e x
    by (cases x) (simp add: rule_lines_def system_catalog_rule_def catalog_rule_def system_catalog_lines_def
        fixed_literals(4))
  have meta: "rule_lines (system_metadata_rule e x) = system_metadata_lines e x" for e x
    by (cases x) (simp add: rule_lines_def system_metadata_rule_def catalog_rule_def system_metadata_lines_def
        fixed_literals(4,5))
  show ?thesis
    by (simp add: catalog_grant_rules_def catalog_grant_lines_def Let_def rules_lines_def comp_def op info sys meta)
qed

lemma res_map_list_map:
  "(\<And>x. x \<in> set xs \<Longrightarrow> f x = map_sum id h (g x)) \<Longrightarrow> res_map_list f xs = map_sum id (map h) (res_map_list g xs)"
  by (induction xs) (auto split: sum.splits)

text \<open>The text is the header and the rendered rules, and the two fail together.\<close>

lemma compileRego_rules:
  "compileRego d = map_sum id (\<lambda>rs. join nl (header_lines @ rules_lines rs)) (rego_rules d)"
proof -
  have "resource_lines d res = map_sum id rules_lines (table_rules d res)" for res
    by (cases "splitResource (resource res)")
      (auto simp: resource_lines_def table_rules_def rules_lines_concat grant_rule_lines comp_def)
  then have lines: "res_map_list (resource_lines d) (trino_resources d) =
      map_sum id (map rules_lines) (res_map_list (table_rules d) (trino_resources d))"
    by (intro res_map_list_map) simp
  show ?thesis
    by (cases "res_map_list (table_rules d) (trino_resources d)")
      (simp_all add: compileRego_def rego_rules_def lines rules_lines_concat catalog_grant_rule_lines comp_def)
qed

end
