(* ===== verification/PgDdl.thy ===== *)
theory PgDdl
  imports Rego
begin

text \<open>
  \<open>policy-compiler/src/compiler/pgddl.ts\<close>. What \<open>compilePgDdl\<close> pushes on \<open>out\<close> is a list of
  statements (\<open>pg_stmt\<close>), each with the lines it contributes (\<open>stmt_lines\<close>); comments, blank lines
  and the frame of the login \<open>DO\<close> block are \<open>PText\<close>. The maps from schema or database to a set of
  roles are association lists.
\<close>

section \<open>Fixed text\<close>

definition txt_pg_generated :: string where
  "txt_pg_generated = ''-- '' @ utf8 [0xEC, 0x9E, 0x90, 0xEB, 0x8F, 0x99, 0x20, 0xEC, 0x83, 0x9D,
     0xEC, 0x84, 0xB1, 0x20, 0xE2, 0x80, 0x94, 0x20, 0xEC, 0xA7, 0x81, 0xEC, 0xA0, 0x91, 0x20, 0xEC,
     0x88, 0x98, 0xEC, 0xA0, 0x95, 0xED, 0x95, 0x98, 0xEC, 0xA7, 0x80, 0x20, 0xEB, 0xA7, 0x90, 0x20,
     0xEA, 0xB2, 0x83, 0x2E, 0x20, 0xEC, 0x9B, 0x90, 0xEC, 0xB2, 0x9C] @ '': policies/*.yaml''"

definition txt_pg_roles :: string where
  "txt_pg_roles = ''-- 1. '' @ utf8 [0xEA, 0xB6, 0x8C, 0xED, 0x95, 0x9C, 0x20, 0xEB, 0xA1, 0xA4,
     0x20, 0x28, 0x4E, 0x4F, 0x4C, 0x4F, 0x47, 0x49, 0x4E, 0x2C, 0x20, 0xEC, 0x83, 0x81, 0xEC, 0x86,
     0x8D, 0x20, 0xEA, 0xB0, 0x80, 0xEB, 0x8A, 0xA5] @ '')''"

definition txt_pg_inherit :: string where
  "txt_pg_inherit = ''-- 2. '' @ utf8 [0xEB, 0xA1, 0xA4, 0x20, 0xEC, 0x83, 0x81, 0xEC, 0x86, 0x8D] @
     '' (D19)''"

definition txt_pg_tables :: string where
  "txt_pg_tables = ''-- 3. '' @ utf8 [0xEC, 0x8A, 0xA4, 0xED, 0x82, 0xA4, 0xEB, 0xA7, 0x88, 0x20,
     0xEB, 0xB0, 0x8F, 0x20, 0xED, 0x85, 0x8C, 0xEC, 0x9D, 0xB4, 0xEB, 0xB8, 0x94, 0x20, 0xEA, 0xB6,
     0x8C, 0xED, 0x95, 0x9C, 0x20, 0x28, 0x61, 0x6C, 0x6C, 0x6F, 0x77, 0x2D, 0x62, 0x79, 0x2D, 0x72,
     0x6F, 0x6C, 0x65, 0x2C, 0x20, 0xEB, 0xAA, 0x85, 0xEC, 0x8B, 0x9C, 0xEC, 0xA0, 0x81, 0x20, 0x47,
     0x52, 0x41, 0x4E, 0x54, 0xEB, 0xA7, 0x8C] @ '')''"

definition txt_pg_logins :: string where
  "txt_pg_logins = ''-- 4. LOGIN '' @ utf8 [0xEA, 0xB3, 0x84, 0xEC, 0xA0, 0x95, 0x20, 0x28, 0x44,
     0x32, 0x30, 0x2C, 0x20, 0x4C, 0x44, 0x41, 0x50, 0x20, 0x75, 0x69, 0x64, 0x20, 0xE2, 0x80, 0x94,
     0x20, 0xED, 0x95, 0x98, 0xEC, 0x9D, 0xB4, 0xED, 0x94, 0x88, 0x20, 0xEB, 0xB3, 0xB4, 0xEC, 0xA1,
     0xB4, 0x2C, 0x20, 0x74, 0x6F, 0x50, 0x67, 0x52, 0x6F, 0x6C, 0x65, 0x28, 0x29, 0x20, 0xEB, 0xAF,
     0xB8, 0xEC, 0xA0, 0x81, 0xEC, 0x9A, 0xA9] @ '')''"

definition txt_pg_bind :: string where
  "txt_pg_bind = ''-- 5. LOGIN '' @ utf8 [0xEA, 0xB3, 0x84, 0xEC, 0xA0, 0x95, 0xEC, 0x9D, 0x84,
     0x20, 0xEC, 0xA0, 0x95, 0xEC, 0xB1, 0x85, 0x20, 0xEB, 0xA1, 0xA4, 0xEC, 0x97, 0x90, 0x20, 0xEB,
     0xB0, 0x94, 0xEC, 0x9D, 0xB8, 0xEB, 0x94, 0xA9]"

definition txt_pg_connect :: string where
  "txt_pg_connect = ''-- 6. CONNECT '' @ utf8 [0xEA, 0xB6, 0x8C, 0xED, 0x95, 0x9C, 0x20, 0x28, 0xED,
     0x85, 0x8C, 0xEC, 0x9D, 0xB4, 0xEB, 0xB8, 0x94, 0x20, 0xEA, 0xB7, 0xB8, 0xEB, 0x9E, 0x9C, 0xED,
     0x8A, 0xB8, 0x20, 0x2B, 0x20, 0xED, 0x95, 0xB4, 0xEB, 0x8B, 0xB9, 0x20, 0x44, 0x42, 0xEC, 0x9D,
     0x98, 0x20, 0x4C, 0x4F, 0x47, 0x49, 0x4E, 0x20, 0x6D, 0x65, 0x6D, 0x62, 0x65, 0x72, 0x4F, 0x66,
     0x20, 0xEA, 0xB5, 0x90, 0xEC, 0xA7, 0x91, 0xED, 0x95, 0xA9, 0xEC, 0x97, 0x90, 0xEC, 0x84, 0x9C,
     0x20, 0xEC, 0x9C, 0xA0, 0xEB, 0x8F, 0x84] @ '')''"

section \<open>Statements\<close>

datatype pg_stmt =
    PText string
  | PCreateRole string
  | PGrantRole string string
  | PGrantSchema string string
  | PGrantTable "privilege list" string string
  | PGrantSequences string string
  | PCreateLogin string
  | PBindLogin string string
  | PGrantConnect string string

fun PRIV_SQL :: "privilege \<Rightarrow> string" where
  "PRIV_SQL Select = ''SELECT''"
| "PRIV_SQL Insert = ''INSERT''"
| "PRIV_SQL Update = ''UPDATE''"
| "PRIV_SQL Delete = ''DELETE''"

fun PRIVILEGE_ORDER :: "privilege \<Rightarrow> nat" where
  "PRIVILEGE_ORDER Select = 0"
| "PRIVILEGE_ORDER Insert = 1"
| "PRIVILEGE_ORDER Update = 2"
| "PRIVILEGE_ORDER Delete = 3"

definition sq :: string where "sq = [CHR 0x27]"

fun stmt_lines :: "pg_stmt \<Rightarrow> string list" where
  "stmt_lines (PText s) = [s]"
| "stmt_lines (PCreateRole r) =
     [''DO $$'', ''BEGIN'',
      ''  IF NOT EXISTS (SELECT FROM pg_roles WHERE rolname = '' @ sq @ r @ sq @ '') THEN'',
      ''    CREATE ROLE '' @ r @ '' WITH NOLOGIN INHERIT;'',
      ''  END IF;'', ''END $$;'']"
| "stmt_lines (PGrantRole p r) = [''GRANT '' @ p @ '' TO '' @ r @ '';'']"
| "stmt_lines (PGrantSchema s r) = [''GRANT USAGE ON SCHEMA '' @ s @ '' TO '' @ r @ '';'']"
| "stmt_lines (PGrantTable ps t r) =
     [''GRANT '' @ join '', '' (map PRIV_SQL ps) @ '' ON TABLE '' @ t @ '' TO '' @ r @ '';'']"
| "stmt_lines (PGrantSequences s r) =
     [''GRANT USAGE, SELECT ON ALL SEQUENCES IN SCHEMA '' @ s @ '' TO '' @ r @ '';'']"
| "stmt_lines (PCreateLogin n) =
     [''  IF NOT EXISTS (SELECT FROM pg_roles WHERE rolname = '' @ sq @ n @ sq @ '') THEN'',
      ''    CREATE ROLE '' @ toPgLoginIdentifier n @ '' WITH LOGIN INHERIT;'',
      ''  END IF;'']"
| "stmt_lines (PBindLogin r n) = [''GRANT '' @ r @ '' TO '' @ toPgLoginIdentifier n @ '';'']"
| "stmt_lines (PGrantConnect db r) = [''GRANT CONNECT ON DATABASE '' @ db @ '' TO '' @ r @ '';'']"

section \<open>The compiler\<close>

definition sorted_roles :: "decl \<Rightarrow> role list" where
  "sorted_roles d = sort_key r_name (d_roles d)"

definition pg_resources :: "decl \<Rightarrow> resource list" where
  "pg_resources d = sort_key resource (filter (\<lambda>r. engine r = Some Postgres) (d_resources d))"

definition resource_schema :: "resource \<Rightarrow> string" where
  "resource_schema res = hd (split_on CHR ''.'' (resource res))"

definition pg_schemas :: "decl \<Rightarrow> string list" where
  "pg_schemas d = sort (js_set (map resource_schema (pg_resources d)))"

text \<open>\<open>const s = m.get(k) ?? new Set(); for (x of xs) s.add(x); m.set(k, s)\<close>\<close>

definition add_all :: "'k \<Rightarrow> 'v list \<Rightarrow> ('k \<times> 'v list) list \<Rightarrow> ('k \<times> 'v list) list" where
  "add_all k xs m = AList.update k (js_set (opt_list (map_of m k) @ xs)) m"

definition schemaRoles :: "decl \<Rightarrow> (string \<times> string list) list" where
  "schemaRoles d =
     fold (\<lambda>res. add_all (resource_schema res) (concat (map g_roles (grants res)))) (pg_resources d) []"

definition sequenceRoles :: "decl \<Rightarrow> (string \<times> string list) list" where
  "sequenceRoles d =
     fold (\<lambda>res. add_all (resource_schema res)
         (concat (map (\<lambda>g. if Insert \<in> set (privileges g) then g_roles g else []) (grants res))))
       (pg_resources d) []"

definition table_grant_stmts :: "resource \<Rightarrow> grant \<Rightarrow> pg_stmt list" where
  "table_grant_stmts res g =
     map (\<lambda>role. PGrantTable (sort_key PRIVILEGE_ORDER (privileges g)) (resource res) (toPgRole role))
       (sort (g_roles g))"

definition sorted_logins :: "decl \<Rightarrow> pg_login list" where
  "sorted_logins d = sort_key l_name (opt_list (d_logins d))"

definition postgresGrantRoles :: "decl \<Rightarrow> string list" where
  "postgresGrantRoles d = js_set (concat (map (\<lambda>res. concat (map g_roles (grants res))) (pg_resources d)))"

definition rolesByDatabase :: "decl \<Rightarrow> (string \<times> string list) list" where
  "rolesByDatabase d =
     fold (\<lambda>l. add_all (database l) (concat (map (expandRoles d) (memberOf l)))) (sorted_logins d) []"

definition connect_stmts :: "decl \<Rightarrow> pg_stmt list" where
  "connect_stmts d =
     (let databases = sort (map fst (rolesByDatabase d))
      in if postgresGrantRoles d \<noteq> [] \<and> databases \<noteq> []
         then [PText [], PText txt_pg_connect] @
           concat (map (\<lambda>db. map (\<lambda>role. PGrantConnect db (toPgRole role))
               (sort (filter (\<lambda>r. r \<in> set (opt_list (map_of (rolesByDatabase d) db))) (postgresGrantRoles d))))
             databases)
         else [])"

definition login_stmts :: "decl \<Rightarrow> pg_stmt list" where
  "login_stmts d =
     (if sorted_logins d \<noteq> []
      then [PText [], PText txt_pg_logins, PText ''DO $$'', PText ''BEGIN''] @
        map (\<lambda>l. PCreateLogin (l_name l)) (sorted_logins d) @
        [PText ''END $$;'', PText [], PText txt_pg_bind] @
        concat (map (\<lambda>l. map (\<lambda>role. PBindLogin (toPgRole role) (l_name l)) (sort (memberOf l))) (sorted_logins d)) @
        connect_stmts d
      else [])"

definition pg_stmts :: "decl \<Rightarrow> pg_stmt list" where
  "pg_stmts d =
     [PText txt_pg_generated, PText [], PText txt_pg_roles] @
     map (\<lambda>r. PCreateRole (toPgRole (r_name r))) (sorted_roles d) @
     [PText [], PText txt_pg_inherit] @
     concat (map (\<lambda>r. map (\<lambda>parent. PGrantRole (toPgRole parent) (toPgRole (r_name r)))
       (sort (opt_list (r_includes r)))) (sorted_roles d)) @
     [PText [], PText txt_pg_tables] @
     concat (map (\<lambda>schema. map (\<lambda>role. PGrantSchema schema (toPgRole role))
       (sort (opt_list (map_of (schemaRoles d) schema)))) (pg_schemas d)) @
     concat (map (\<lambda>res. concat (map (table_grant_stmts res) (sort_key (\<lambda>g. join '','' (g_roles g)) (grants res))))
       (pg_resources d)) @
     concat (map (\<lambda>schema. map (\<lambda>role. PGrantSequences schema (toPgRole role))
       (sort (opt_list (map_of (sequenceRoles d) schema)))) (pg_schemas d)) @
     login_stmts d @
     [PText []]"

definition compilePgDdl :: "decl \<Rightarrow> string" where
  "compilePgDdl d = join nl (concat (map stmt_lines (pg_stmts d)))"

section \<open>What is emitted\<close>

lemma set_add_all:
  "set (opt_list (map_of (fold (\<lambda>x. add_all (f x) (g x)) xs m) k)) =
     set (opt_list (map_of m k)) \<union> (\<Union>x \<in> {x \<in> set xs. f x = k}. set (g x))"
  by (induction xs arbitrary: m) (auto simp: add_all_def update_conv')

lemma keys_add_all:
  "fst ` set (fold (\<lambda>x. add_all (f x) (g x)) xs m) = fst ` set m \<union> f ` set xs"
  by (induction xs arbitrary: m) (auto simp: add_all_def dom_update)

lemma pg_resources_mem: "res \<in> set (pg_resources d) \<longleftrightarrow> res \<in> set (d_resources d) \<and> engine res = Some Postgres"
  by (auto simp: pg_resources_def)

lemma sorted_logins_mem: "l \<in> set (sorted_logins d) \<longleftrightarrow> l \<in> set (opt_list (d_logins d))"
  by (simp add: sorted_logins_def)

lemma rolesByDatabase_iff:
  "r \<in> set (opt_list (map_of (rolesByDatabase d) db)) \<longleftrightarrow>
     (\<exists>l \<in> set (opt_list (d_logins d)). database l = db \<and> (\<exists>m \<in> set (memberOf l). r \<in> set (expandRoles d m)))"
  by (auto simp: rolesByDatabase_def set_add_all sorted_logins_mem)

lemma schemaRoles_iff:
  "r \<in> set (opt_list (map_of (schemaRoles d) s)) \<longleftrightarrow>
     (\<exists>res \<in> set (pg_resources d). resource_schema res = s \<and> (\<exists>g \<in> set (grants res). r \<in> set (g_roles g)))"
  by (auto simp: schemaRoles_def set_add_all)

lemma postgresGrantRoles_iff:
  "r \<in> set (postgresGrantRoles d) \<longleftrightarrow>
     (\<exists>res \<in> set (pg_resources d). \<exists>g \<in> set (grants res). r \<in> set (g_roles g))"
  by (auto simp: postgresGrantRoles_def)

lemma PGrantRole_iff:
  "PGrantRole a b \<in> set (pg_stmts d) \<longleftrightarrow>
     (\<exists>r \<in> set (d_roles d). \<exists>p \<in> set (opt_list (r_includes r)). a = toPgRole p \<and> b = toPgRole (r_name r))"
  by (auto simp: pg_stmts_def login_stmts_def connect_stmts_def table_grant_stmts_def sorted_roles_def Let_def)

lemma PGrantTable_iff:
  "PGrantTable ps t a \<in> set (pg_stmts d) \<longleftrightarrow>
     (\<exists>res \<in> set (pg_resources d). \<exists>g \<in> set (grants res). \<exists>r \<in> set (g_roles g).
        ps = sort_key PRIVILEGE_ORDER (privileges g) \<and> t = resource res \<and> a = toPgRole r)"
  by (auto simp: pg_stmts_def login_stmts_def connect_stmts_def table_grant_stmts_def Let_def image_iff)

lemma PBindLogin_iff:
  "PBindLogin a n \<in> set (pg_stmts d) \<longleftrightarrow>
     (\<exists>l \<in> set (opt_list (d_logins d)). n = l_name l \<and> (\<exists>r \<in> set (memberOf l). a = toPgRole r))"
proof -
  have "PBindLogin a n \<in> set (pg_stmts d) \<longleftrightarrow>
      sorted_logins d \<noteq> [] \<and>
      (\<exists>l \<in> set (sorted_logins d). n = l_name l \<and> (\<exists>r \<in> set (memberOf l). a = toPgRole r))"
    by (auto simp: pg_stmts_def login_stmts_def connect_stmts_def table_grant_stmts_def Let_def)
  then show ?thesis by (auto simp: sorted_logins_mem [symmetric])
qed

lemma PGrantConnect_iff:
  "PGrantConnect db a \<in> set (pg_stmts d) \<longleftrightarrow>
     (\<exists>r \<in> set (postgresGrantRoles d). a = toPgRole r \<and>
        (\<exists>l \<in> set (opt_list (d_logins d)). database l = db \<and> (\<exists>m \<in> set (memberOf l). r \<in> set (expandRoles d m))))"
proof -
  have "PGrantConnect db a \<in> set (pg_stmts d) \<longleftrightarrow> sorted_logins d \<noteq> [] \<and> PGrantConnect db a \<in> set (connect_stmts d)"
    by (auto simp: pg_stmts_def login_stmts_def table_grant_stmts_def)
  also have "\<dots> \<longleftrightarrow> db \<in> fst ` set (rolesByDatabase d) \<and>
      (\<exists>r \<in> set (postgresGrantRoles d). a = toPgRole r \<and> r \<in> set (opt_list (map_of (rolesByDatabase d) db)))"
  proof -
    have "sorted_logins d \<noteq> []" if "db \<in> fst ` set (rolesByDatabase d)"
      using that by (auto simp: rolesByDatabase_def)
    moreover have "sort (map fst (rolesByDatabase d)) \<noteq> []" if "db \<in> fst ` set (rolesByDatabase d)"
      using that by (metis empty_iff empty_set image_set set_sort)
    ultimately show ?thesis by (auto simp: connect_stmts_def Let_def)
  qed
  also have "fst ` set (rolesByDatabase d) = database ` set (opt_list (d_logins d))"
    by (simp add: rolesByDatabase_def keys_add_all sorted_logins_mem sorted_logins_def)
  finally show ?thesis unfolding rolesByDatabase_iff by auto
qed

section \<open>What the database grants\<close>

text \<open>PostgreSQL keeps an unquoted identifier in lower case and a quoted one as it is;
  \<open>toPgRole\<close> already yields lower case. A role has the privileges granted to it and to every role
  it is a member of (\<open>INHERIT\<close>).\<close>

definition pg_member :: "pg_stmt list \<Rightarrow> (string \<times> string) set" where
  "pg_member ss = {(n, r). PGrantRole r n \<in> set ss \<or> PBindLogin r n \<in> set ss}"

definition pg_can :: "pg_stmt list \<Rightarrow> string \<Rightarrow> privilege \<Rightarrow> string \<Rightarrow> bool" where
  "pg_can ss who p t \<longleftrightarrow>
     (\<exists>r ps t'. (who, r) \<in> (pg_member ss)\<^sup>* \<and> PGrantTable ps t' r \<in> set ss \<and> p \<in> set ps \<and> to_lower t' = t)"

definition pg_can_connect :: "pg_stmt list \<Rightarrow> string \<Rightarrow> string \<Rightarrow> bool" where
  "pg_can_connect ss who db \<longleftrightarrow>
     (\<exists>r db'. (who, r) \<in> (pg_member ss)\<^sup>* \<and> PGrantConnect db' r \<in> set ss \<and> to_lower db' = db)"

definition pg_granted :: "decl \<Rightarrow> string \<Rightarrow> privilege \<Rightarrow> string \<Rightarrow> bool" where
  "pg_granted d role p t \<longleftrightarrow>
     (\<exists>res \<in> set (d_resources d). engine res = Some Postgres \<and> to_lower (resource res) = t \<and>
        (\<exists>g \<in> set (grants res). p \<in> set (privileges g) \<and> role \<in> set (g_roles g)))"

lemma role_parents_mem:
  assumes "distinct (role_names d)"
  shows "p \<in> set (role_parents d n) \<longleftrightarrow> (\<exists>r \<in> set (d_roles d). r_name r = n \<and> p \<in> set (opt_list (r_includes r)))"
proof -
  have unique: "r = r'" if "r \<in> set (d_roles d)" "r' \<in> set (d_roles d)" "r_name r = r_name r'" for r r'
    using assms that by (auto simp: role_names_def distinct_map inj_on_def)
  show ?thesis
  proof (cases "role_by_name d n")
    case None
    then show ?thesis by (auto simp: role_parents_def role_names_def dest: role_by_name_NoneD)
  next
    case (Some r)
    then show ?thesis using role_by_name_SomeD [OF Some] unique by (auto simp: role_parents_def)
  qed
qed

lemma wf_pg_names:
  assumes "well_formed d"
  shows "inj_on toPgRole (set (role_names d))" and "distinct (role_names d)"
proof -
  have d: "distinct (map toPgRole (role_names d))"
    using assms by (simp add: well_formed_def role_names_def comp_def)
  then show "inj_on toPgRole (set (role_names d))" "distinct (role_names d)" by (simp_all add: distinct_map)
qed

lemma wf_parent_declared: "well_formed d \<Longrightarrow> p \<in> set (role_parents d n) \<Longrightarrow> p \<in> set (role_names d)"
  by (auto simp: role_parents_mem wf_pg_names well_formed_def role_ref_ok_def)

lemma wf_expand_declared:
  assumes "well_formed d" and "n \<in> set (role_names d)" and "r \<in> set (expandRoles d n)"
  shows "r \<in> set (role_names d)"
proof -
  have "(n, r) \<in> (inherits d)\<^sup>*" using assms(3) by (simp add: set_expandRoles)
  then show ?thesis by (induction rule: rtrancl_induct) (use assms wf_parent_declared in auto)
qed

text \<open>Membership in the database follows inheritance in the declaration.\<close>

lemma pg_member_role:
  assumes wf: "well_formed d" and n: "n \<in> set (role_names d)"
  shows "(toPgRole n, x) \<in> (pg_member (pg_stmts d))\<^sup>* \<longleftrightarrow> (\<exists>r \<in> set (expandRoles d n). x = toPgRole r)"
proof
  have member: "(toPgRole m, y) \<in> pg_member (pg_stmts d) \<longleftrightarrow> (\<exists>p \<in> set (role_parents d m). y = toPgRole p)"
    if m: "m \<in> set (role_names d)" for m y
  proof -
    have nologin: "l_name l \<noteq> toPgRole m" if "l \<in> set (opt_list (d_logins d))" for l
    proof -
      obtain r where "r \<in> set (d_roles d)" "r_name r = m" using m by (auto simp: role_names_def)
      moreover have "login_wf d l" using that wf by (simp add: well_formed_def)
      ultimately show ?thesis by (auto simp: login_wf_def)
    qed
    have "toPgRole m = toPgRole (r_name r) \<longleftrightarrow> r_name r = m" if "r \<in> set (d_roles d)" for r
      using that m wf_pg_names(1) [OF wf] by (auto simp: inj_on_def role_names_def)
    moreover have "(toPgRole m, y) \<in> pg_member (pg_stmts d) \<longleftrightarrow>
        (\<exists>r \<in> set (d_roles d). \<exists>p \<in> set (opt_list (r_includes r)). y = toPgRole p \<and> toPgRole m = toPgRole (r_name r))"
      using nologin by (force simp: pg_member_def PGrantRole_iff PBindLogin_iff)
    moreover note role_parents_mem [OF wf_pg_names(2) [OF wf]]
    ultimately show ?thesis by metis
  qed
  show "\<exists>r \<in> set (expandRoles d n). x = toPgRole r" if "(toPgRole n, x) \<in> (pg_member (pg_stmts d))\<^sup>*"
    using that
  proof (induction rule: rtrancl_induct)
    case base
    then show ?case by (intro bexI [of _ n]) simp_all
  next
    case (step y z)
    then obtain r where r: "r \<in> set (expandRoles d n)" "y = toPgRole r" by blast
    then obtain p where "p \<in> set (role_parents d r)" "z = toPgRole p"
      using step.hyps(2) wf_expand_declared [OF wf n] member by blast
    moreover have "p \<in> set (expandRoles d n)"
      using r \<open>p \<in> set (role_parents d r)\<close> by (auto simp: set_expandRoles intro: rtrancl_into_rtrancl)
    ultimately show ?case by blast
  qed
  show "(toPgRole n, x) \<in> (pg_member (pg_stmts d))\<^sup>*" if ex: "\<exists>r \<in> set (expandRoles d n). x = toPgRole r"
  proof -
    obtain r where "(n, r) \<in> (inherits d)\<^sup>*" "x = toPgRole r" using ex by (auto simp: set_expandRoles)
    then show ?thesis
    proof (induction arbitrary: x rule: rtrancl_induct)
      case (step y z)
      have "y \<in> set (role_names d)" using wf_expand_declared [OF wf n] step.hyps by (simp add: set_expandRoles)
      then have "(toPgRole y, x) \<in> pg_member (pg_stmts d)" using member step by auto
      then show ?case using step.IH by (auto intro: rtrancl_into_rtrancl)
    qed simp
  qed
qed

lemma pg_member_login:
  assumes wf: "well_formed d" and l: "l \<in> set (opt_list (d_logins d))"
  shows "(l_name l, x) \<in> (pg_member (pg_stmts d))\<^sup>* \<longleftrightarrow>
     x = l_name l \<or> (\<exists>l' \<in> set (opt_list (d_logins d)). l_name l' = l_name l \<and>
       (\<exists>m \<in> set (memberOf l'). \<exists>r \<in> set (expandRoles d m). x = toPgRole r))"
proof -
  have first: "(l_name l, y) \<in> pg_member (pg_stmts d) \<longleftrightarrow>
      (\<exists>l' \<in> set (opt_list (d_logins d)). l_name l' = l_name l \<and> (\<exists>m \<in> set (memberOf l'). y = toPgRole m))" for y
  proof -
    have "toPgRole (r_name r) \<noteq> l_name l" if "r \<in> set (d_roles d)" for r
      using wf l that by (auto simp: well_formed_def login_wf_def)
    then show ?thesis by (force simp: pg_member_def PGrantRole_iff PBindLogin_iff)
  qed
  have declared: "m \<in> set (role_names d)" if "l' \<in> set (opt_list (d_logins d))" "m \<in> set (memberOf l')" for l' m
    using wf that by (auto simp: well_formed_def login_wf_def)
  have "(l_name l, x) \<in> (pg_member (pg_stmts d))\<^sup>* \<longleftrightarrow>
      x = l_name l \<or> (\<exists>y. (l_name l, y) \<in> pg_member (pg_stmts d) \<and> (y, x) \<in> (pg_member (pg_stmts d))\<^sup>*)"
    by (auto elim: converse_rtranclE intro: converse_rtrancl_into_rtrancl)
  also have "\<dots> \<longleftrightarrow> x = l_name l \<or> (\<exists>l' \<in> set (opt_list (d_logins d)). l_name l' = l_name l \<and>
       (\<exists>m \<in> set (memberOf l'). (toPgRole m, x) \<in> (pg_member (pg_stmts d))\<^sup>*))"
    unfolding first by auto
  also have "\<dots> \<longleftrightarrow> x = l_name l \<or> (\<exists>l' \<in> set (opt_list (d_logins d)). l_name l' = l_name l \<and>
       (\<exists>m \<in> set (memberOf l'). \<exists>r \<in> set (expandRoles d m). x = toPgRole r))"
    by (intro disj_cong refl bex_cong conj_cong) (use pg_member_role [OF wf declared] in blast)
  finally show ?thesis .
qed

text \<open>No table grant names a login, so what a login may do comes from its roles.\<close>

lemma grant_targets_roles:
  assumes wf: "well_formed d" and l: "l \<in> set (opt_list (d_logins d))"
  shows "PGrantTable ps t (l_name l) \<notin> set (pg_stmts d)" and "PGrantConnect db (l_name l) \<notin> set (pg_stmts d)"
proof -
  have "toPgRole r \<noteq> l_name l" if "res \<in> set (pg_resources d)" "g \<in> set (grants res)" "r \<in> set (g_roles g)" for res g r
  proof -
    have "r \<in> set (role_names d)"
      using wf that by (auto simp: well_formed_def resource_wf_def grant_wf_def role_ref_ok_def pg_resources_mem)
    then show ?thesis using wf l by (auto simp: well_formed_def login_wf_def role_names_def)
  qed
  then show "PGrantTable ps t (l_name l) \<notin> set (pg_stmts d)" "PGrantConnect db (l_name l) \<notin> set (pg_stmts d)"
    by (fastforce simp: PGrantTable_iff PGrantConnect_iff postgresGrantRoles_iff)+
qed

lemma pg_role_eq:
  assumes "well_formed d" and "r \<in> set (role_names d)" and "res \<in> set (pg_resources d)"
    and "g \<in> set (grants res)" and "r' \<in> set (g_roles g)" and "toPgRole r' = toPgRole r"
  shows "r' = r"
proof -
  have "r' \<in> set (role_names d)"
    using assms by (auto simp: well_formed_def resource_wf_def grant_wf_def role_ref_ok_def pg_resources_mem)
  then show ?thesis using assms wf_pg_names(1) by (auto simp: inj_on_def)
qed

lemma pg_granted_stmt:
  assumes "well_formed d" and "r \<in> set (role_names d)"
  shows "(\<exists>ps t'. PGrantTable ps t' (toPgRole r) \<in> set (pg_stmts d) \<and> p \<in> set ps \<and> to_lower t' = t) \<longleftrightarrow>
    pg_granted d r p t"
proof -
  have "(\<exists>ps t'. PGrantTable ps t' (toPgRole r) \<in> set (pg_stmts d) \<and> p \<in> set ps \<and> to_lower t' = t) \<longleftrightarrow>
      (\<exists>res \<in> set (pg_resources d). \<exists>g \<in> set (grants res). \<exists>r' \<in> set (g_roles g).
         toPgRole r' = toPgRole r \<and> p \<in> set (privileges g) \<and> to_lower (resource res) = t)"
  proof
    assume "\<exists>res \<in> set (pg_resources d). \<exists>g \<in> set (grants res). \<exists>r' \<in> set (g_roles g).
         toPgRole r' = toPgRole r \<and> p \<in> set (privileges g) \<and> to_lower (resource res) = t"
    then obtain res g r' where "res \<in> set (pg_resources d)" "g \<in> set (grants res)" "r' \<in> set (g_roles g)"
        "toPgRole r' = toPgRole r" "p \<in> set (privileges g)" "to_lower (resource res) = t" by blast
    then have "PGrantTable (sort_key PRIVILEGE_ORDER (privileges g)) (resource res) (toPgRole r) \<in> set (pg_stmts d)"
      unfolding PGrantTable_iff by (intro bexI [of _ res] bexI [of _ g] bexI [of _ r']) simp_all
    then show "\<exists>ps t'. PGrantTable ps t' (toPgRole r) \<in> set (pg_stmts d) \<and> p \<in> set ps \<and> to_lower t' = t"
      using \<open>p \<in> set (privileges g)\<close> \<open>to_lower (resource res) = t\<close> by (metis set_sort)
  qed (force simp: PGrantTable_iff)
  also have "\<dots> \<longleftrightarrow> (\<exists>res \<in> set (pg_resources d). \<exists>g \<in> set (grants res). r \<in> set (g_roles g) \<and>
      p \<in> set (privileges g) \<and> to_lower (resource res) = t)"
    using pg_role_eq [OF assms] by metis
  finally show ?thesis by (auto simp: pg_granted_def pg_resources_mem)
qed

lemma pg_can_login:
  assumes wf: "well_formed d" and l: "l \<in> set (opt_list (d_logins d))"
  shows "pg_can (pg_stmts d) (l_name l) p t \<longleftrightarrow>
    (\<exists>l' \<in> set (opt_list (d_logins d)). l_name l' = l_name l \<and>
       (\<exists>m \<in> set (memberOf l'). \<exists>r \<in> set (expandRoles d m). pg_granted d r p t))"
proof -
  have declared: "r \<in> set (role_names d)"
    if "l' \<in> set (opt_list (d_logins d))" "m \<in> set (memberOf l')" "r \<in> set (expandRoles d m)" for l' m r
  proof -
    have "m \<in> set (role_names d)" using wf that by (auto simp: well_formed_def login_wf_def)
    then show ?thesis using wf_expand_declared wf that by blast
  qed
  have "pg_can (pg_stmts d) (l_name l) p t \<longleftrightarrow>
    (\<exists>l' \<in> set (opt_list (d_logins d)). l_name l' = l_name l \<and> (\<exists>m \<in> set (memberOf l'). \<exists>r \<in> set (expandRoles d m).
       \<exists>ps t'. PGrantTable ps t' (toPgRole r) \<in> set (pg_stmts d) \<and> p \<in> set ps \<and> to_lower t' = t))"
    unfolding pg_can_def pg_member_login [OF wf l] by (auto simp: grant_targets_roles(1) [OF wf l])
      (intro bexI conjI exI, (assumption | rule refl)+)
  also have "\<dots> \<longleftrightarrow> (\<exists>l' \<in> set (opt_list (d_logins d)). l_name l' = l_name l \<and>
       (\<exists>m \<in> set (memberOf l'). \<exists>r \<in> set (expandRoles d m). pg_granted d r p t))"
    by (intro bex_cong conj_cong refl pg_granted_stmt [OF wf declared]) assumption+
  finally show ?thesis .
qed

end
