(* ===== verification/RegoPolicy.thy ===== *)
theory RegoPolicy
  imports Rego
begin

text \<open>
  What the generated module decides. The conditions that \<open>compileRego\<close> emits are equality and
  membership tests on input paths, a test that some group of the requester is in a set and one
  that none is; an undefined path makes its condition fail. \<open>allow\<close> is the disjunction of its
  rules (default false), \<open>rowFilters\<close> collects the heads that fire, and \<open>columnMask\<close> is a complete
  rule: two rules that fire with different values are an evaluation error.

  A requester's groups are the roles in the token; Keycloak puts a role together with everything
  it includes into the token, so the tokens considered are closed under \<open>includes\<close>
  (\<open>closed_token\<close>), and \<open>declared_token\<close> are those of one declared role or one declared group.
\<close>

section \<open>Evaluation\<close>

record rego_input =
  in_attr :: "string \<Rightarrow> string option"
  in_groups :: "string list"

fun cond_holds :: "rego_input \<Rightarrow> rego_cond \<Rightarrow> bool" where
  "cond_holds i (CEq p v) = (in_attr i p = Some v)"
| "cond_holds i (CIn p vs) = (case in_attr i p of None \<Rightarrow> False | Some v \<Rightarrow> v \<in> set vs)"
| "cond_holds i (CSomeGroup rs) = list_ex (\<lambda>g. g \<in> set rs) (in_groups i)"
| "cond_holds i (CNoGroup rs) = list_all (\<lambda>g. g \<notin> set rs) (in_groups i)"

definition rule_fires :: "rego_input \<Rightarrow> rego_rule \<Rightarrow> bool" where
  "rule_fires i r = list_all (cond_holds i) (rr_body r)"

definition rego_allow :: "rego_rule list \<Rightarrow> rego_input \<Rightarrow> bool" where
  "rego_allow rs i = list_ex (\<lambda>r. rr_head r = HAllow \<and> rule_fires i r) rs"

definition rego_masks :: "rego_rule list \<Rightarrow> rego_input \<Rightarrow> string list" where
  "rego_masks rs i =
     concat (map (\<lambda>r. case rr_head r of HColumnMask e \<Rightarrow> if rule_fires i r then [e] else [] | _ \<Rightarrow> []) rs)"

definition rego_row_filters :: "rego_rule list \<Rightarrow> rego_input \<Rightarrow> string list" where
  "rego_row_filters rs i =
     concat (map (\<lambda>r. case rr_head r of HRowFilter e \<Rightarrow> if rule_fires i r then [e] else [] | _ \<Rightarrow> []) rs)"

definition holds_any :: "rego_input \<Rightarrow> string list \<Rightarrow> bool" where
  "holds_any i rs \<longleftrightarrow> (\<exists>t \<in> set (in_groups i). t \<in> set rs)"

definition closed_token :: "decl \<Rightarrow> string set \<Rightarrow> bool" where
  "closed_token d T \<longleftrightarrow> (\<forall>t \<in> T. set (expandRoles d t) \<subseteq> T)"

definition declared_token :: "decl \<Rightarrow> string set \<Rightarrow> bool" where
  "declared_token d T \<longleftrightarrow>
     (\<exists>h \<in> set (role_names d). T = set (expandRoles d h)) \<or>
     (\<exists>g \<in> set (d_groups d). T = set (groupEffectiveRoles d g))"

abbreviation "op_path \<equiv> ''input.action.operation''"
abbreviation "table_path \<equiv> \<lambda>s. ''input.action.resource.table.'' @ s"
abbreviation "column_path \<equiv> \<lambda>s. ''input.action.resource.column.'' @ s"

section \<open>The rules of a declaration\<close>

lemma res_map_list_InrD: "res_map_list f xs = Inr ys \<Longrightarrow> list_all2 (\<lambda>x y. f x = Inr y) xs ys"
  by (induction xs arbitrary: ys) (auto split: sum.splits)

definition table_origin :: "decl \<Rightarrow> resource \<Rightarrow> string \<Rightarrow> string \<Rightarrow> grant \<Rightarrow> bool" where
  "table_origin d res schema table g \<longleftrightarrow>
     res \<in> set (d_resources d) \<and> engine_name (engine res) = ''trino'' \<and>
     splitResource (resource res) = Inr (schema, table) \<and> g \<in> set (grants res)"

lemma table_rules_mem:
  "table_rules d res = Inr rs \<Longrightarrow>
     r \<in> set rs \<longleftrightarrow> (\<exists>schema table g. splitResource (resource res) = Inr (schema, table) \<and>
       g \<in> set (grants res) \<and> r \<in> set (grant_rules d res schema table g))"
  by (auto simp: table_rules_def res_bind_Inr_iff)

lemma rego_rules_mem:
  assumes "rego_rules d = Inr rs"
  shows "r \<in> set rs \<longleftrightarrow>
     (\<exists>res schema table g. table_origin d res schema table g \<and> r \<in> set (grant_rules d res schema table g)) \<or>
     (\<exists>cg \<in> set (opt_list (d_catalogGrants d)). r \<in> set (catalog_grant_rules d cg))"
proof -
  obtain rss where rss: "res_map_list (table_rules d) (trino_resources d) = Inr rss"
    and rs: "rs = concat rss @ concat (map (catalog_grant_rules d) (sort_key catalog (opt_list (d_catalogGrants d))))"
    using assms by (auto simp: rego_rules_def res_bind_Inr_iff)
  have all2: "list_all2 (\<lambda>x y. table_rules d x = Inr y) (trino_resources d) rss"
    using rss by (rule res_map_list_InrD)
  have "r \<in> set (concat rss) \<longleftrightarrow>
      (\<exists>res rs'. res \<in> set (trino_resources d) \<and> table_rules d res = Inr rs' \<and> r \<in> set rs')"
    using all2 by (auto simp: list_all2_conv_all_nth in_set_conv_nth Bex_def) (metis Inr_inject)+
  also have "\<dots> \<longleftrightarrow> (\<exists>res schema table g. table_origin d res schema table g \<and>
      r \<in> set (grant_rules d res schema table g))"
  proof
    assume "\<exists>res rs'. res \<in> set (trino_resources d) \<and> table_rules d res = Inr rs' \<and> r \<in> set rs'"
    then show "\<exists>res schema table g. table_origin d res schema table g \<and> r \<in> set (grant_rules d res schema table g)"
      using table_rules_mem by (fastforce simp: table_origin_def trino_resources_def)
  next
    assume "\<exists>res schema table g. table_origin d res schema table g \<and> r \<in> set (grant_rules d res schema table g)"
    then obtain res schema table g where o: "table_origin d res schema table g"
      and r: "r \<in> set (grant_rules d res schema table g)" by blast
    then obtain rs' where "table_rules d res = Inr rs'"
      by (auto simp: table_origin_def table_rules_def)
    then show "\<exists>res rs'. res \<in> set (trino_resources d) \<and> table_rules d res = Inr rs' \<and> r \<in> set rs'"
      using o r table_rules_mem by (fastforce simp: table_origin_def trino_resources_def)
  qed
  finally show ?thesis by (auto simp: rs)
qed

section \<open>Names\<close>

lemma splitResource_join:
  assumes "splitResource r = Inr (schema, table)"
  shows "r = schema @ ''.'' @ table"
proof -
  let ?p = "\<lambda>c. c \<noteq> CHR ''.''"
  define rest where "rest = dropWhile ?p (rev r)"
  have st: "schema = rev (tl rest)" "table = rev (takeWhile ?p (rev r))" and dot: "CHR ''.'' \<in> set (rev r)"
    using assms by (auto simp: splitResource_def rest_def split: if_splits)
  have ne: "rest \<noteq> []" using dot by (auto simp: rest_def dropWhile_eq_Nil_conv)
  then have "\<not> ?p (hd rest)" unfolding rest_def by (rule hd_dropWhile)
  then have "rest = CHR ''.'' # tl rest" using ne by (metis list.collapse)
  moreover have "rev r = takeWhile ?p (rev r) @ rest" by (simp add: rest_def)
  ultimately have "r = rev (takeWhile ?p (rev r) @ CHR ''.'' # tl rest)" by (metis rev_rev_ident)
  then show ?thesis by (simp add: st)
qed

lemma resource_name_ok_split: "resource_name_ok r \<Longrightarrow> \<exists>p. splitResource r = Inr p"
  using split_on_no_sep [of "CHR ''.''" r]
  by (cases "CHR ''.'' \<in> set r") (auto simp: resource_name_ok_def Let_def splitResource_def)

lemma well_formed_rules: "well_formed d \<Longrightarrow> \<exists>rs. rego_rules d = Inr rs"
proof -
  assume wf: "well_formed d"
  have "\<exists>rs. res_map_list (table_rules d) xs = Inr rs" if "set xs \<subseteq> set (d_resources d)" for xs
    using that
  proof (induction xs)
    case (Cons x xs)
    have "resource_name_ok (resource x)" using Cons.prems wf by (auto simp: well_formed_def resource_wf_def)
    then obtain p where "splitResource (resource x) = Inr p" using resource_name_ok_split by blast
    then show ?case using Cons by (auto simp: table_rules_def split: prod.splits)
  qed simp
  moreover have "set (trino_resources d) \<subseteq> set (d_resources d)" by (auto simp: trino_resources_def)
  ultimately obtain rss where "res_map_list (table_rules d) (trino_resources d) = Inr rss" by blast
  then show ?thesis by (simp add: rego_rules_def)
qed

lemma effective_roles_iff:
  "t \<in> set (effective_roles d roles) \<longleftrightarrow>
     t \<in> set (role_names d) \<and> (\<exists>r \<in> set roles. r \<in> set (expandRoles d t))"
  by (auto simp: effective_roles_def holdersOf_iff)

lemma unmaskedGroups_iff:
  "t \<in> set (unmaskedGroups d res) \<longleftrightarrow>
     (\<exists>g \<in> set (grants res). opted_out g \<and> t \<in> set (effective_roles d (g_roles g)))"
  by (auto simp: unmaskedGroups_def opted_out_def effective_roles_def)

lemma same_resource:
  assumes "well_formed d" and "table_origin d res schema table g" and "table_origin d res' schema table g'"
  shows "res = res'"
proof -
  have "resource res = resource res'"
    using assms(2,3) splitResource_join [of "resource res" schema table]
      splitResource_join [of "resource res'" schema table] by (simp add: table_origin_def)
  then have "resource_key res = resource_key res'"
    using assms by (simp add: table_origin_def resource_key_def)
  moreover have "distinct (map resource_key (d_resources d))" using assms(1) by (simp add: well_formed_def)
  ultimately show ?thesis using assms by (auto simp: table_origin_def distinct_map inj_on_def)
qed

section \<open>Allow\<close>

text \<open>Explicit grants, as the declaration means them: some role of the token is a declared role
  that includes a role of the grant.\<close>

definition entitled :: "decl \<Rightarrow> rego_input \<Rightarrow> string list \<Rightarrow> bool" where
  "entitled d i roles \<longleftrightarrow>
     (\<exists>t \<in> set (in_groups i). t \<in> set (role_names d) \<and> (\<exists>r \<in> set roles. r \<in> set (expandRoles d t)))"

definition table_entitled :: "decl \<Rightarrow> rego_input \<Rightarrow> bool" where
  "table_entitled d i \<longleftrightarrow>
     (\<exists>res schema table g. table_origin d res schema table g \<and>
        (\<exists>p \<in> set (privileges g). in_attr i op_path = Some (operationOf p)) \<and>
        in_attr i (table_path ''catalogName'') = Some DEPLOYED_CATALOG \<and>
        in_attr i (table_path ''schemaName'') = Some schema \<and>
        in_attr i (table_path ''tableName'') = Some table \<and>
        entitled d i (g_roles g))"

definition catalog_entitled :: "decl \<Rightarrow> rego_input \<Rightarrow> bool" where
  "catalog_entitled d i \<longleftrightarrow>
     (\<exists>cg \<in> set (opt_list (d_catalogGrants d)). entitled d i (cg_roles cg) \<and>
        ((\<exists>op \<in> set (operations cg). in_attr i op_path = Some (operation_name op) \<and>
            (\<forall>path. CATALOG_GUARD_PATH (OPERATION_RESOURCE_SHAPE op) = Some path \<longrightarrow>
               in_attr i path = Some (catalog cg))) \<or>
         (in_attr i op_path = Some ''SelectFromColumns'' \<and>
            in_attr i (table_path ''catalogName'') = Some (catalog cg) \<and>
            in_attr i (table_path ''schemaName'') = Some ''information_schema'') \<or>
         (AccessCatalog \<in> set (operations cg) \<and>
            ((\<exists>(op, shape) \<in> set systemCatalogOperations. in_attr i op_path = Some (operation_name op) \<and>
                in_attr i (path_of (CATALOG_GUARD_PATH shape)) = Some ''system'') \<or>
             (\<exists>(op, shape) \<in> set systemMetadataOperations. in_attr i op_path = Some op \<and>
                in_attr i (path_of (CATALOG_GUARD_PATH shape)) = Some ''system'' \<and>
                in_attr i (path_of (SYSTEM_METADATA_SCHEMA_GUARD_PATH shape)) \<in> {Some ''jdbc'', Some ''metadata''})))))"

lemma some_group_entitled: "cond_holds i (CSomeGroup (effective_roles d roles)) \<longleftrightarrow> entitled d i roles"
  by (auto simp: list_ex_iff effective_roles_iff entitled_def)

lemma mask_rule_head: "rr_head (mask_rule d res schema table g m) = HColumnMask (MASK_EXPR (snd m) (fst m))"
  by (simp add: mask_rule_def split: prod.splits)

lemma privilege_rule_head: "rr_head (privilege_rule d res schema table g p) = HAllow"
  by (simp add: privilege_rule_def)

lemma row_filter_rule_head:
  "r \<in> set (row_filter_rules d res schema table g) \<Longrightarrow> \<exists>f. rowFilter g = Some f \<and> rr_head r = HRowFilter f"
  by (auto simp: row_filter_rules_def split: option.splits if_splits)

lemma grant_rules_allow:
  "(\<exists>r \<in> set (grant_rules d res schema table g). rr_head r = HAllow \<and> rule_fires i r) \<longleftrightarrow>
     (\<exists>p \<in> set (privileges g). in_attr i op_path = Some (operationOf p)) \<and>
     in_attr i (table_path ''catalogName'') = Some DEPLOYED_CATALOG \<and>
     in_attr i (table_path ''schemaName'') = Some schema \<and>
     in_attr i (table_path ''tableName'') = Some table \<and> entitled d i (g_roles g)"
proof -
  have "(\<exists>r \<in> set (grant_rules d res schema table g). rr_head r = HAllow \<and> rule_fires i r) \<longleftrightarrow>
      (\<exists>p \<in> set (privileges g). rule_fires i (privilege_rule d res schema table g p))"
  proof
    assume "\<exists>r \<in> set (grant_rules d res schema table g). rr_head r = HAllow \<and> rule_fires i r"
    then show "\<exists>p \<in> set (privileges g). rule_fires i (privilege_rule d res schema table g p)"
      by (auto simp: grant_rules_def mask_rule_head dest!: row_filter_rule_head)
  next
    assume "\<exists>p \<in> set (privileges g). rule_fires i (privilege_rule d res schema table g p)"
    then obtain p where "p \<in> set (privileges g)" "rule_fires i (privilege_rule d res schema table g p)" ..
    then show "\<exists>r \<in> set (grant_rules d res schema table g). rr_head r = HAllow \<and> rule_fires i r"
      by (intro bexI [of _ "privilege_rule d res schema table g p"])
        (auto simp: grant_rules_def privilege_rule_head)
  qed
  then show ?thesis
    by (auto simp: rule_fires_def privilege_rule_def table_conds_def some_group_entitled simp del: cond_holds.simps(3))
qed

lemma catalog_rule_fires:
  "rule_fires i (catalog_rule c op guards (effective_roles d roles)) \<longleftrightarrow>
     in_attr i op_path = Some op \<and> list_all (cond_holds i) guards \<and> entitled d i roles"
  by (auto simp: rule_fires_def catalog_rule_def some_group_entitled simp del: cond_holds.simps(3))

lemma catalog_rule_head [simp]: "rr_head (catalog_rule c op guards e) = HAllow"
  by (simp add: catalog_rule_def)

lemma catalog_grant_rules_head: "r \<in> set (catalog_grant_rules d cg) \<Longrightarrow> rr_head r = HAllow"
  by (auto simp: catalog_grant_rules_def Let_def catalog_op_rule_def information_schema_rule_def
      system_catalog_rule_def system_metadata_rule_def split: if_splits prod.splits)

lemma in_two: "(case x of None \<Rightarrow> False | Some v \<Rightarrow> v \<in> set [a, b]) \<longleftrightarrow> x \<in> {Some a, Some b}"
  by (cases x) auto

lemma catalog_op_rule_fires:
  "rule_fires i (catalog_op_rule cg (effective_roles d (cg_roles cg)) op) \<longleftrightarrow>
     in_attr i op_path = Some (operation_name op) \<and>
     (\<forall>path. CATALOG_GUARD_PATH (OPERATION_RESOURCE_SHAPE op) = Some path \<longrightarrow> in_attr i path = Some (catalog cg)) \<and>
     entitled d i (cg_roles cg)"
  by (auto simp: catalog_op_rule_def catalog_rule_fires split: option.splits)

lemma catalog_grant_rules_allow:
  "(\<exists>r \<in> set (catalog_grant_rules d cg). rule_fires i r) \<longleftrightarrow>
     (\<exists>op \<in> set (operations cg). rule_fires i (catalog_op_rule cg (effective_roles d (cg_roles cg)) op)) \<or>
     rule_fires i (information_schema_rule cg (effective_roles d (cg_roles cg))) \<or>
     (AccessCatalog \<in> set (operations cg) \<and>
       ((\<exists>x \<in> set systemCatalogOperations. rule_fires i (system_catalog_rule (effective_roles d (cg_roles cg)) x)) \<or>
        (\<exists>x \<in> set systemMetadataOperations. rule_fires i (system_metadata_rule (effective_roles d (cg_roles cg)) x))))"
  by (auto simp: catalog_grant_rules_def Let_def)

lemma rego_allow_iff:
  assumes "rego_rules d = Inr rs"
  shows "rego_allow rs i \<longleftrightarrow> table_entitled d i \<or> catalog_entitled d i"
proof -
  have "rego_allow rs i \<longleftrightarrow>
      (\<exists>res schema table g. table_origin d res schema table g \<and>
         (\<exists>r \<in> set (grant_rules d res schema table g). rr_head r = HAllow \<and> rule_fires i r)) \<or>
      (\<exists>cg \<in> set (opt_list (d_catalogGrants d)). \<exists>r \<in> set (catalog_grant_rules d cg). rule_fires i r)"
    unfolding rego_allow_def list_ex_iff using rego_rules_mem [OF assms] catalog_grant_rules_head by blast
  moreover have "(\<exists>r \<in> set (catalog_grant_rules d cg). rule_fires i r) \<longleftrightarrow>
      entitled d i (cg_roles cg) \<and>
      ((\<exists>op \<in> set (operations cg). in_attr i op_path = Some (operation_name op) \<and>
          (\<forall>path. CATALOG_GUARD_PATH (OPERATION_RESOURCE_SHAPE op) = Some path \<longrightarrow> in_attr i path = Some (catalog cg))) \<or>
       (in_attr i op_path = Some ''SelectFromColumns'' \<and>
          in_attr i (table_path ''catalogName'') = Some (catalog cg) \<and>
          in_attr i (table_path ''schemaName'') = Some ''information_schema'') \<or>
       (AccessCatalog \<in> set (operations cg) \<and>
          ((\<exists>(op, shape) \<in> set systemCatalogOperations. in_attr i op_path = Some (operation_name op) \<and>
              in_attr i (path_of (CATALOG_GUARD_PATH shape)) = Some ''system'') \<or>
           (\<exists>(op, shape) \<in> set systemMetadataOperations. in_attr i op_path = Some op \<and>
              in_attr i (path_of (CATALOG_GUARD_PATH shape)) = Some ''system'' \<and>
              in_attr i (path_of (SYSTEM_METADATA_SCHEMA_GUARD_PATH shape)) \<in> {Some ''jdbc'', Some ''metadata''}))))"
    for cg
    unfolding catalog_grant_rules_allow catalog_op_rule_fires information_schema_rule_def
      system_catalog_rule_def system_metadata_rule_def
    by (auto simp: split_def catalog_rule_fires in_two simp del: set_simps insert_iff)
  ultimately show ?thesis
    by (simp only: grant_rules_allow table_entitled_def catalog_entitled_def)
qed

section \<open>Masks and row filters\<close>

definition guard_open :: "decl \<Rightarrow> resource \<Rightarrow> grant \<Rightarrow> rego_input \<Rightarrow> bool" where
  "guard_open d res g i \<longleftrightarrow> opted_out g \<or> (\<forall>t \<in> set (in_groups i). t \<notin> set (unmaskedGroups d res))"

lemma guard_conds_hold: "list_all (cond_holds i) (guard_conds d res g) \<longleftrightarrow> guard_open d res g i"
  by (auto simp: guard_conds_def guard_open_def opted_out_def list_all_iff)

definition column_of :: "rego_input \<Rightarrow> string \<Rightarrow> string \<Rightarrow> string \<Rightarrow> bool" where
  "column_of i schema table col \<longleftrightarrow>
     in_attr i (column_path ''catalogName'') = Some DEPLOYED_CATALOG \<and>
     in_attr i (column_path ''schemaName'') = Some schema \<and>
     in_attr i (column_path ''tableName'') = Some table \<and>
     in_attr i (column_path ''columnName'') = Some col"

lemma mask_rule_fires:
  "rule_fires i (mask_rule d res schema table g (col, kind)) \<longleftrightarrow>
     column_of i schema table col \<and> holds_any i (g_roles g) \<and> guard_open d res g i"
  by (auto simp: rule_fires_def mask_rule_def column_of_def holds_any_def list_ex_iff guard_conds_hold)

lemma rego_masks_iff:
  assumes "rego_rules d = Inr rs"
  shows "e \<in> set (rego_masks rs i) \<longleftrightarrow>
     (\<exists>res schema table g col kind. table_origin d res schema table g \<and>
        (col, kind) \<in> set (opt_list (columnMask g)) \<and> e = MASK_EXPR kind col \<and>
        column_of i schema table col \<and> holds_any i (g_roles g) \<and> guard_open d res g i)"
proof -
  have "e \<in> set (rego_masks rs i) \<longleftrightarrow> (\<exists>r \<in> set rs. rr_head r = HColumnMask e \<and> rule_fires i r)"
    by (auto simp: rego_masks_def split: rego_head.splits) force
  also have "\<dots> \<longleftrightarrow> (\<exists>res schema table g. table_origin d res schema table g \<and>
      (\<exists>r \<in> set (grant_rules d res schema table g). rr_head r = HColumnMask e \<and> rule_fires i r))"
    using rego_rules_mem [OF assms] catalog_grant_rules_head by fastforce
  also have "\<dots> \<longleftrightarrow> (\<exists>res schema table g. table_origin d res schema table g \<and>
      (\<exists>m \<in> set (opt_list (columnMask g)). MASK_EXPR (snd m) (fst m) = e \<and>
         rule_fires i (mask_rule d res schema table g m)))"
    by (intro ex_cong1 conj_cong refl)
      (auto simp: grant_rules_def mask_rule_head privilege_rule_head bex_Un dest!: row_filter_rule_head)
  finally show ?thesis
    by (simp only: Bex_def split_paired_Ex fst_conv snd_conv mask_rule_fires) blast
qed

lemma row_filter_rules_fire:
  "(\<exists>r \<in> set (row_filter_rules d res schema table g). rr_head r = HRowFilter f \<and> rule_fires i r) \<longleftrightarrow>
     rowFilter g = Some f \<and> f \<noteq> [] \<and>
     in_attr i (table_path ''catalogName'') = Some DEPLOYED_CATALOG \<and>
     in_attr i (table_path ''schemaName'') = Some schema \<and>
     in_attr i (table_path ''tableName'') = Some table \<and> holds_any i (g_roles g) \<and> guard_open d res g i"
  by (cases "rowFilter g")
    (auto simp: row_filter_rules_def rule_fires_def table_conds_def guard_conds_hold holds_any_def list_ex_iff)

lemma rego_row_filters_iff:
  assumes "rego_rules d = Inr rs"
  shows "f \<in> set (rego_row_filters rs i) \<longleftrightarrow>
     (\<exists>res schema table g. table_origin d res schema table g \<and> rowFilter g = Some f \<and> f \<noteq> [] \<and>
        in_attr i (table_path ''catalogName'') = Some DEPLOYED_CATALOG \<and>
        in_attr i (table_path ''schemaName'') = Some schema \<and>
        in_attr i (table_path ''tableName'') = Some table \<and>
        holds_any i (g_roles g) \<and> guard_open d res g i)"
proof -
  have "f \<in> set (rego_row_filters rs i) \<longleftrightarrow> (\<exists>r \<in> set rs. rr_head r = HRowFilter f \<and> rule_fires i r)"
    by (auto simp: rego_row_filters_def split: rego_head.splits) force
  also have "\<dots> \<longleftrightarrow> (\<exists>res schema table g. table_origin d res schema table g \<and>
      (\<exists>r \<in> set (grant_rules d res schema table g). rr_head r = HRowFilter f \<and> rule_fires i r))"
    using rego_rules_mem [OF assms] catalog_grant_rules_head by fastforce
  also have "\<dots> \<longleftrightarrow> (\<exists>res schema table g. table_origin d res schema table g \<and>
      (\<exists>r \<in> set (row_filter_rules d res schema table g). rr_head r = HRowFilter f \<and> rule_fires i r))"
    by (intro ex_cong1 conj_cong refl) (auto simp: grant_rules_def mask_rule_head privilege_rule_head bex_Un)
  also have "\<dots> \<longleftrightarrow> (\<exists>res schema table g. table_origin d res schema table g \<and> rowFilter g = Some f \<and> f \<noteq> [] \<and>
      in_attr i (table_path ''catalogName'') = Some DEPLOYED_CATALOG \<and>
      in_attr i (table_path ''schemaName'') = Some schema \<and>
      in_attr i (table_path ''tableName'') = Some table \<and> holds_any i (g_roles g) \<and> guard_open d res g i)"
    by (simp only: row_filter_rules_fire)
  finally show ?thesis .
qed

section \<open>Which grant allows a select\<close>

lemma same_key_resource:
  assumes "well_formed d" and "res \<in> set (d_resources d)" and "res' \<in> set (d_resources d)"
    and "engine_name (engine res) = ''trino''" and "engine_name (engine res') = ''trino''"
    and "resource res = resource res'"
  shows "res = res'"
  using assms by (auto simp: well_formed_def distinct_map inj_on_def resource_key_def)

lemma catalog_not_table:
  assumes "well_formed d" and "schema \<noteq> ''information_schema''"
    and "in_attr i op_path = Some ''SelectFromColumns''"
    and "in_attr i (table_path ''catalogName'') = Some DEPLOYED_CATALOG"
    and "in_attr i (table_path ''schemaName'') = Some schema"
  shows "\<not> catalog_entitled d i"
proof
  assume "catalog_entitled d i"
  moreover have "operation_name op \<noteq> ''SelectFromColumns''" for op by (cases op) simp_all
  moreover from this have "''SelectFromColumns'' \<noteq> operation_name op" for op by metis
  ultimately show False
    using assms unfolding catalog_entitled_def
    by (auto simp: systemMetadataOperations_def path_of_def DEPLOYED_CATALOG_def)
qed

lemma select_grant:
  assumes "in_attr i op_path = Some ''SelectFromColumns''"
    and "in_attr i (table_path ''schemaName'') = Some schema" and "in_attr i (table_path ''tableName'') = Some table"
    and "table_entitled d i"
  shows "\<exists>res g. table_origin d res schema table g \<and> Select \<in> set (privileges g) \<and> entitled d i (g_roles g)"
proof -
  have "p = Select" if "operationOf p = ''SelectFromColumns''" for p using that by (cases p) simp_all
  then show ?thesis using assms unfolding table_entitled_def by fastforce
qed

section \<open>Tokens\<close>

lemma declared_token_closed: "declared_token d T \<Longrightarrow> closed_token d T"
  unfolding declared_token_def closed_token_def
  using expandRoles_trans by (fastforce simp: groupEffectiveRoles_iff)

lemma closed_token_role:
  assumes "closed_token d (set (in_groups i))" and "t \<in> set (in_groups i)" and "r \<in> set (expandRoles d t)"
  shows "r \<in> set (in_groups i)"
  using assms by (auto simp: closed_token_def)

text \<open>The tag under which the mask check knows the holder of a declared token.\<close>

lemma declared_token_holder:
  assumes "declared_token d T" and "distinct (map gr_name (d_groups d))"
  shows "\<exists>h. (\<forall>r \<in> T. h \<in> set (holdersOfIncludingGroups d r)) \<and>
    (\<forall>r. h \<in> set (holdersOfIncludingGroups d r) \<longrightarrow> r \<in> T \<or> (\<exists>n \<in> set (role_names d). n = h \<and> CHR '':'' \<in> set n))"
proof -
  from assms(1) consider
      (role) h where "h \<in> set (role_names d)" "T = set (expandRoles d h)"
    | (group) g where "g \<in> set (d_groups d)" "T = set (groupEffectiveRoles d g)"
    unfolding declared_token_def by blast
  then show ?thesis
  proof cases
    case role
    show ?thesis
      by (rule exI [of _ h])
        (use role in \<open>auto simp: holdersOfIncludingGroups_iff holdersOf_iff taggedGroupHolders_iff\<close>)
  next
    case group
    have "r \<in> T" if "g' \<in> set (d_groups d)" "''group:'' @ gr_name g = ''group:'' @ gr_name g'"
      "r \<in> set (groupEffectiveRoles d g')" for g' r
      using that group assms(2) by (auto simp: distinct_map inj_on_def)
    then show ?thesis
      by (intro exI [of _ "''group:'' @ gr_name g"])
        (use group in \<open>auto simp: holdersOfIncludingGroups_iff holdersOf_iff taggedGroupHolders_iff\<close>)
  qed
qed

lemma role_name_no_colon: "well_formed d \<Longrightarrow> n \<in> set (role_names d) \<Longrightarrow> CHR '':'' \<notin> set n"
  using role_name.ok_avoids(8) by (fastforce simp: well_formed_def role_names_def)

section \<open>One mask per column\<close>

lemma mask_uses_mem:
  "(col, g, kind) \<in> set (mask_uses res) \<longleftrightarrow> g \<in> set (grants res) \<and> (col, kind) \<in> set (opt_list (columnMask g))"
  by (auto simp: mask_uses_def)

lemma grant_role_declared:
  "well_formed d \<Longrightarrow> table_origin d res schema table g \<Longrightarrow> r \<in> set (g_roles g) \<Longrightarrow> r \<in> set (role_names d)"
  by (auto simp: well_formed_def table_origin_def resource_wf_def grant_wf_def role_ref_ok_def)

lemma opted_out_blocks:
  assumes "well_formed d" and "table_origin d res schema table g" and "opted_out g"
    and "holds_any i (g_roles g)" and "guard_open d res g' i"
  shows "opted_out g'"
proof (rule ccontr)
  assume "\<not> opted_out g'"
  then have none: "\<forall>t \<in> set (in_groups i). t \<notin> set (unmaskedGroups d res)"
    using assms(5) by (simp add: guard_open_def)
  obtain t where t: "t \<in> set (in_groups i)" "t \<in> set (g_roles g)" using assms(4) by (auto simp: holds_any_def)
  have "t \<in> set (unmaskedGroups d res)"
    using assms t grant_role_declared by (force simp: unmaskedGroups_iff effective_roles_iff table_origin_def)
  then show False using none t by blast
qed

lemma masks_agree:
  assumes wf: "well_formed d" and groups: "distinct (map gr_name (d_groups d))"
    and token: "declared_token d (set (in_groups i))"
    and a: "table_origin d res schema table g" "(col, k) \<in> set (opt_list (columnMask g))"
      "holds_any i (g_roles g)" "guard_open d res g i"
    and b: "table_origin d res schema table g'" "(col, k') \<in> set (opt_list (columnMask g'))"
      "holds_any i (g_roles g')" "guard_open d res g' i"
  shows "k = k'"
proof (rule ccontr)
  assume ne: "k \<noteq> k'"
  have compat: "mask_compatible d res (g, k) (g', k')"
  proof -
    have "resource_wf d res" using wf a(1) by (simp add: well_formed_def table_origin_def)
    moreover have "(col, g, k) \<in> set (mask_uses res)" "(col, g', k') \<in> set (mask_uses res)"
      using a b by (simp_all add: mask_uses_mem table_origin_def)
    ultimately show ?thesis unfolding resource_wf_def by blast
  qed
  have same: "opted_out g = opted_out g'"
    using opted_out_blocks [OF wf a(1) _ a(3) b(4)] opted_out_blocks [OF wf b(1) _ b(3) a(4)] by blast
  obtain h where h: "\<forall>r \<in> set (in_groups i). h \<in> set (holdersOfIncludingGroups d r)"
    and conv: "\<And>r. h \<in> set (holdersOfIncludingGroups d r) \<Longrightarrow> r \<in> set (in_groups i)"
    using declared_token_holder [OF token groups] role_name_no_colon [OF wf] by fastforce
  have "co_held d g h" "co_held d g' h" using h a(3) b(3) by (auto simp: co_held_def holds_any_def)
  then have "\<not> opted_out g" and "exempt d res h"
    using compat ne same by (auto simp: mask_compatible_def)
  then obtain u r where u: "u \<in> set (grants res)" "opted_out u" "r \<in> set (g_roles u)"
      "h \<in> set (holdersOfIncludingGroups d r)"
    by (auto simp: exempt_def co_held_def)
  then have "holds_any i (g_roles u)" using conv by (auto simp: holds_any_def)
  moreover have "table_origin d res schema table u" using a(1) u by (simp add: table_origin_def)
  ultimately show False using opted_out_blocks [OF wf _ u(2) _ a(4)] \<open>\<not> opted_out g\<close> by blast
qed

section \<open>The text of the module\<close>

lemma sanitizeComment_no_newline: "CHR 0x0A \<notin> set (sanitizeComment s) \<and> CHR 0x0D \<notin> set (sanitizeComment s)"
  by (induction s rule: sanitizeComment.induct) (auto simp: is_newline_def)

definition one_line :: "string \<Rightarrow> bool" where
  "one_line s \<longleftrightarrow> CHR 0x0A \<notin> set s"

lemma one_line_simps [simp]:
  "one_line []" "one_line (c # s) \<longleftrightarrow> c \<noteq> CHR 0x0A \<and> one_line s" "one_line (s @ t) \<longleftrightarrow> one_line s \<and> one_line t"
  by (auto simp: one_line_def)

lemma one_line_join: "one_line sep \<Longrightarrow> (\<And>s. s \<in> set ss \<Longrightarrow> one_line s) \<Longrightarrow> one_line (join sep ss)"
  by (induction sep ss rule: join.induct) auto

lemma one_line_json [simp]: "one_line (json_stringify s)"
  using json_stringify_one_line [of _ s] by (auto simp: one_line_def)

lemma one_line_comment [simp]: "one_line (sanitizeComment s)"
  using sanitizeComment_no_newline by (simp add: one_line_def)

lemma one_line_set [simp]: "one_line (set_literal rs)"
  by (auto simp: set_literal_def intro!: one_line_join)

lemma one_line_text [simp]:
  "one_line txt_generated" "one_line txt_groups" "one_line txt_dash" "one_line txt_row_filter"
  "one_line txt_masking" "one_line txt_catalog" "one_line txt_unknown_roles" "one_line txt_show"
  "one_line txt_system_catalog" "one_line txt_superset" "one_line txt_system_metadata"
  "one_line txt_metadata_only" "one_line tab"
  by (simp_all add: txt_generated_def txt_groups_def txt_dash_def txt_row_filter_def txt_masking_def
      txt_catalog_def txt_unknown_roles_def txt_show_def txt_system_catalog_def txt_superset_def
      txt_system_metadata_def txt_metadata_only_def tab_def utf8_def)

lemma one_line_names [simp]:
  "one_line (operation_name op)" "one_line (privilege_name p)" "one_line (mask_name k)"
proof -
  show "one_line (operation_name op)" by (cases op) simp_all
  show "one_line (privilege_name p)" by (cases p) simp_all
  show "one_line (mask_name k)" by (cases k) simp_all
qed

lemma one_line_effective [simp]: "one_line (effective_comment e)"
  by (auto simp: effective_comment_def intro!: one_line_join)

fun cond_path :: "rego_cond \<Rightarrow> string" where
  "cond_path (CEq p v) = p"
| "cond_path (CIn p vs) = p"
| "cond_path _ = []"

definition rule_printable :: "rego_rule \<Rightarrow> bool" where
  "rule_printable r \<longleftrightarrow> one_line (rr_comment r) \<and> (\<forall>c \<in> set (rr_body r). one_line (cond_path c))"

lemma cond_lines_one_line: "one_line (cond_path c) \<Longrightarrow> l \<in> set (cond_lines c) \<Longrightarrow> one_line l"
  by (cases c) auto

lemma head_text_one_line: "one_line (head_text h)"
  by (cases h) auto

lemma rule_lines_one_line: "rule_printable r \<Longrightarrow> l \<in> set (rule_lines r) \<Longrightarrow> one_line l"
  by (auto simp: rule_lines_def rule_printable_def head_text_one_line dest: cond_lines_one_line)

lemma guard_conds_path: "c \<in> set (guard_conds d res g) \<Longrightarrow> cond_path c = []"
  by (auto simp: guard_conds_def split: if_splits)

lemma grant_rules_printable: "r \<in> set (grant_rules d res schema table g) \<Longrightarrow> rule_printable r"
  by (auto simp: grant_rules_def rule_printable_def privilege_rule_def row_filter_rules_def mask_rule_def
      table_conds_def guard_conds_path intro!: one_line_join split: option.splits if_splits)

lemma catalog_paths_one_line:
  "CATALOG_GUARD_PATH s = Some p \<Longrightarrow> one_line p"
  "one_line (path_of (CATALOG_GUARD_PATH s))" "one_line (path_of (SYSTEM_METADATA_SCHEMA_GUARD_PATH s))"
  by (cases s; auto simp: path_of_def)+

lemma catalog_grant_rules_printable: "r \<in> set (catalog_grant_rules d cg) \<Longrightarrow> rule_printable r"
  by (auto simp: catalog_grant_rules_def Let_def catalog_op_rule_def information_schema_rule_def
      system_catalog_rule_def system_metadata_rule_def systemMetadataOperations_def catalog_rule_def
      rule_printable_def catalog_paths_one_line path_of_def split: if_splits option.splits)

lemma rules_one_line:
  assumes "rego_rules d = Inr rs" and "l \<in> set (rules_lines rs)"
  shows "one_line l"
  using assms rego_rules_mem [OF assms(1)] grant_rules_printable catalog_grant_rules_printable
    rule_lines_one_line unfolding rules_lines_def by fastforce

lemma header_one_line: "l \<in> set header_lines \<Longrightarrow> one_line l"
  by (auto simp: header_lines_def)

end
