(* ===== verification/Compiler.thy ===== *)
theory Compiler
  imports PgDdl RegoPolicy
begin

text \<open>
  \<open>policy-compiler/src/compiler/keycloak.ts\<close> and \<open>index.ts\<close>: the Keycloak specification and
  \<open>compileAll\<close>. Keycloak expands composite roles when it issues a token; \<open>kc_token\<close> is that
  expansion of the specification, and it agrees with the \<open>expandRoles\<close> that the other two
  compilers use.
\<close>

section \<open>Keycloak\<close>

record kc_role =
  kr_name :: string
  composite :: bool
  composites :: "string list"

record kc_group =
  kg_name :: string
  realmRoles :: "string list"

record kc_spec =
  ks_roles :: "kc_role list"
  ks_groups :: "kc_group list"

definition compileKeycloak :: "decl \<Rightarrow> kc_spec" where
  "compileKeycloak d =
     \<lparr>ks_roles = sort_key kr_name (map (\<lambda>r. \<lparr>kr_name = r_name r, composite = length (opt_list (r_includes r)) > 0,
         composites = sort (opt_list (r_includes r))\<rparr>) (d_roles d)),
      ks_groups = sort_key kg_name (map (\<lambda>g. \<lparr>kg_name = gr_name g, realmRoles = sort (gr_roles g)\<rparr>) (d_groups d))\<rparr>"

definition kc_contains :: "kc_spec \<Rightarrow> (string \<times> string) set" where
  "kc_contains k = {(a, b). \<exists>r \<in> set (ks_roles k). kr_name r = a \<and> composite r \<and> b \<in> set (composites r)}"

definition kc_token :: "kc_spec \<Rightarrow> string list \<Rightarrow> string set" where
  "kc_token k roles = (kc_contains k)\<^sup>* `` set roles"

lemma kc_contains_inherits:
  assumes "distinct (role_names d)"
  shows "kc_contains (compileKeycloak d) = inherits d"
proof -
  have "(a, b) \<in> kc_contains (compileKeycloak d) \<longleftrightarrow>
      (\<exists>r \<in> set (d_roles d). r_name r = a \<and> b \<in> set (opt_list (r_includes r)))" for a b
    by (force simp: kc_contains_def compileKeycloak_def)
  then show ?thesis by (auto simp: role_parents_mem [OF assms])
qed

lemma kc_token_expand:
  "distinct (role_names d) \<Longrightarrow> kc_token (compileKeycloak d) roles = (\<Union>r \<in> set roles. set (expandRoles d r))"
  by (auto simp: kc_token_def kc_contains_inherits set_expandRoles)

section \<open>All artifacts\<close>

record artifacts =
  a_keycloak :: kc_spec
  a_rego :: string
  a_pgddl :: string

definition compileAll :: "decl \<Rightarrow> (compile_error, artifacts) res" where
  "compileAll d =
     (let errors = validateDeclaration d
      in if length errors > 0 then Inl (ValidationFailed errors)
         else res_bind (compileRego d) (\<lambda>rego.
           Inr \<lparr>a_keycloak = compileKeycloak d, a_rego = rego, a_pgddl = compilePgDdl d\<rparr>))"

lemma compileAll_Inr_iff:
  "compileAll d = Inr a \<longleftrightarrow>
     well_formed d \<and> (\<exists>rs. rego_rules d = Inr rs \<and>
       a = \<lparr>a_keycloak = compileKeycloak d, a_rego = join nl (header_lines @ rules_lines rs), a_pgddl = compilePgDdl d\<rparr>)"
  by (auto simp: compileAll_def Let_def validateDeclaration_iff [symmetric] res_bind_Inr_iff compileRego_rules
      split: sum.splits)
    (auto simp: map_sum_def split: sum.splits)

lemma compileAll_cases:
  "(\<exists>a. compileAll d = Inr a) \<longleftrightarrow> validateDeclaration d = []"
  "compileAll d = Inl e \<Longrightarrow> e = ValidationFailed (validateDeclaration d) \<and> validateDeclaration d \<noteq> []"
proof -
  show ok: "(\<exists>a. compileAll d = Inr a) \<longleftrightarrow> validateDeclaration d = []"
    using well_formed_rules [of d] by (auto simp: compileAll_Inr_iff validateDeclaration_iff)
  show "compileAll d = Inl e \<Longrightarrow> e = ValidationFailed (validateDeclaration d) \<and> validateDeclaration d \<noteq> []"
    using ok by (cases "validateDeclaration d = []") (auto simp: compileAll_def Let_def)
qed

end
