(* ===== verification/Drift.thy ===== *)
theory Drift
  imports Compiler "HOL-Library.Product_Lexorder" "HOL-Library.Multiset"
begin

text \<open>
  \<open>policy-compiler/src/drift.ts\<close> and the state type of \<open>adapters/types.ts\<close>: the comparison of the
  compiled artifacts with what an adapter reports. The \<open>items\<close> array that the helpers push on is
  returned by each helper and concatenated; a missing field of \<open>Partial<ActualState>\<close> is \<open>None\<close>; the
  callback of \<open>mergeGrantLines\<close> is the list of lines it is called with. In \<open>GRANT_LINE_RE\<close> and
  \<open>trim\<close>, characters outside ASCII count as non-space characters.
\<close>

section \<open>Types\<close>

record actual_state =
  keycloakRoles :: "string list option"
  keycloakGroups :: "(string \<times> string list) list option"
  pgGrants :: "string list option"

datatype drift_kind = Unapplied | Manual | Mismatch

record drift_item =
  di_kind :: drift_kind
  di_target :: string
  di_detail :: string

datatype drift_category = KeycloakRoles | KeycloakGroups | PgGrants

record drift_report =
  items :: "drift_item list"
  checked :: "drift_category list"

fun kind_name :: "drift_kind \<Rightarrow> string" where
  "kind_name Unapplied = ''unapplied''"
| "kind_name Manual = ''manual''"
| "kind_name Mismatch = ''mismatch''"

section \<open>Fixed text\<close>

definition txt_missing :: string where
  "txt_missing = utf8 [0xEC, 0x84, 0xA0, 0xEC, 0x96, 0xB8, 0xEB, 0x90, 0xA8, 0x2C, 0x20, 0xEC, 0x8B,
     0xA4, 0xEC, 0xA0, 0x9C, 0x20, 0xEC, 0x97, 0x86, 0xEC, 0x9D, 0x8C]"

definition txt_extra :: string where
  "txt_extra = utf8 [0xEC, 0x8B, 0xA4, 0xEC, 0xA0, 0x9C, 0xEC, 0x97, 0x90, 0xEB, 0xA7, 0x8C, 0x20,
     0xEC, 0xA1, 0xB4, 0xEC, 0x9E, 0xAC, 0x20, 0xE2, 0x80, 0x94, 0x20, 0xEC, 0x88, 0x98, 0xEB, 0x8F,
     0x99, 0x20, 0xEB, 0xB3, 0x80, 0xEA, 0xB2, 0xBD, 0x20, 0xEC, 0x9D, 0x98, 0xEC, 0x8B, 0xAC]"

definition txt_roles_differ :: string where
  "txt_roles_differ = utf8 [0xEB, 0xA1, 0xA4, 0x20, 0xEA, 0xB5, 0xAC, 0xEC, 0x84, 0xB1, 0xEC, 0x9D,
     0xB4, 0x20, 0xEB, 0x8B, 0xA4, 0xEB, 0xA5, 0xB4, 0xEB, 0x8B, 0xA4, 0x20, 0xE2, 0x80, 0x94, 0x20,
     0xEC, 0x84, 0xA0, 0xEC, 0x96, 0xB8] @ '': [''"

definition txt_actual :: string where
  "txt_actual = ''], '' @ utf8 [0xEC, 0x8B, 0xA4, 0xEC, 0xA0, 0x9C] @ '': [''"

definition txt_privileges_differ :: string where
  "txt_privileges_differ = utf8 [0xEA, 0xB6, 0x8C, 0xED, 0x95, 0x9C, 0x20, 0xEC, 0xA7, 0x91, 0xED,
     0x95, 0xA9, 0xEC, 0x9D, 0xB4, 0x20, 0xEB, 0x8B, 0xA4, 0xEB, 0xA5, 0xB4, 0xEB, 0x8B, 0xA4, 0x20,
     0xE2, 0x80, 0x94, 0x20, 0xEC, 0x84, 0xA0, 0xEC, 0x96, 0xB8] @ '': [''"

definition txt_unparsed :: string where
  "txt_unparsed = utf8 [0xED, 0x95, 0xB4, 0xEC, 0x84, 0x9D, 0xED, 0x95, 0xA0, 0x20, 0xEC, 0x88,
     0x98, 0x20, 0xEC, 0x97, 0x86, 0xEB, 0x8A, 0x94, 0x20, 0xEC, 0x8B, 0xA4, 0xEC, 0xA0, 0x9C, 0x20,
     0x47, 0x52, 0x41, 0x4E, 0x54, 0x20, 0xEB, 0xAC, 0xB8, 0xEC, 0x9E, 0xA5, 0x20, 0xE2, 0x80, 0x94,
     0x20, 0xEC, 0x88, 0x98, 0xEB, 0x8F, 0x99, 0x20, 0xEA, 0xB2, 0x80, 0xED, 0x86, 0xA0, 0x20, 0xED,
     0x95, 0x84, 0xEC, 0x9A, 0x94] @ '': ''"

section \<open>Keycloak\<close>

definition diffKeycloakRoles :: "artifacts \<Rightarrow> string list \<Rightarrow> drift_item list" where
  "diffKeycloakRoles desired actualRoles =
     (let desiredNames = map kr_name (ks_roles (a_keycloak desired))
      in concat (map (\<lambda>name. if name \<notin> set actualRoles
             then [\<lparr>di_kind = Unapplied, di_target = ''keycloak.role/'' @ name, di_detail = txt_missing\<rparr>] else [])
           desiredNames) @
         concat (map (\<lambda>name. if name \<notin> set desiredNames
             then [\<lparr>di_kind = Manual, di_target = ''keycloak.role/'' @ name, di_detail = txt_extra\<rparr>] else [])
           actualRoles))"

definition diffKeycloakGroups :: "artifacts \<Rightarrow> (string \<times> string list) list \<Rightarrow> drift_item list" where
  "diffKeycloakGroups desired actualGroups =
     (let desiredGroups = ks_groups (a_keycloak desired)
      in concat (map (\<lambda>g. case map_of actualGroups (kg_name g) of
             None \<Rightarrow> [\<lparr>di_kind = Unapplied, di_target = ''keycloak.group/'' @ kg_name g, di_detail = txt_missing\<rparr>]
           | Some actualRolesOfGroup \<Rightarrow>
               (let want = join '','' (sort (realmRoles g));
                    have_roles = join '','' (sort actualRolesOfGroup)
                in if want \<noteq> have_roles
                   then [\<lparr>di_kind = Mismatch, di_target = ''keycloak.group/'' @ kg_name g,
                          di_detail = txt_roles_differ @ want @ txt_actual @ have_roles @ '']''\<rparr>]
                   else [])) desiredGroups) @
         concat (map (\<lambda>name. if name \<notin> kg_name ` set desiredGroups
             then [\<lparr>di_kind = Manual, di_target = ''keycloak.group/'' @ name, di_detail = txt_extra\<rparr>] else [])
           (map fst actualGroups)))"

section \<open>Grant lines\<close>

record parsed_grant =
  pg_table :: string
  pg_role :: string
  pg_privileges :: "string list"

definition stripQuotes :: "string \<Rightarrow> string" where
  "stripQuotes ident = filter (\<lambda>c. c \<noteq> CHR 0x22) ident"

definition ws :: rx where "ws = rx_plus (RCls is_space)"
definition non_space :: rx where "non_space = RCls (\<lambda>c. \<not> is_space c)"
definition rx_plus_lazy :: "rx \<Rightarrow> rx" where "rx_plus_lazy r = RSeq r (RStar False r)"

definition GRANT_LINE_RE :: rx where
  "GRANT_LINE_RE =
     RSeq (rx_lit_ci ''GRANT'') (RSeq ws
       (RSeq (RGroup 1 (rx_plus_lazy (RCls (\<lambda>c. c \<noteq> CHR 0x0A \<and> c \<noteq> CHR 0x0D)))) (RSeq ws
         (RSeq (rx_lit_ci ''ON'') (RSeq ws
           (RSeq (rx_opt (RSeq (rx_lit_ci ''TABLE'') ws))
             (RSeq (RGroup 2 (rx_plus non_space)) (RSeq ws
               (RSeq (rx_lit_ci ''TO'') (RSeq ws
                 (RSeq (RGroup 3 (rx_plus_lazy non_space))
                   (RSeq (rx_opt (RGroup 4 (RSeq ws (RSeq (rx_lit_ci ''WITH'') (RSeq ws
                       (RSeq (rx_lit_ci ''GRANT'') (RSeq ws (rx_lit_ci ''OPTION''))))))))
                     (rx_opt (rx_char CHR '';''))))))))))))))"

definition parseGrantLine :: "string \<Rightarrow> parsed_grant option" where
  "parseGrantLine line =
     (case rx_exec GRANT_LINE_RE (trim line) of
        None \<Rightarrow> None
      | Some m \<Rightarrow>
          (case (map_of m 1, map_of m 2, map_of m 3) of
             (Some rawPrivileges, Some rawTable, Some rawRole) \<Rightarrow>
               (let privileges = js_set (filter (\<lambda>p. p \<noteq> []) (map (\<lambda>p. to_upper (trim p)) (split_on CHR '','' rawPrivileges)))
                in Some \<lparr>pg_table = stripQuotes rawTable, pg_role = stripQuotes rawRole,
                     pg_privileges =
                       (if opt_list (map_of m 4) \<noteq> [] then js_set (privileges @ [''GRANT OPTION'']) else privileges)\<rparr>)
           | _ \<Rightarrow> None))"

definition grant_key :: "parsed_grant \<Rightarrow> string" where
  "grant_key g = pg_table g @ ''/'' @ pg_role g"

definition merge_grant :: "parsed_grant \<Rightarrow> (string \<times> parsed_grant) list \<Rightarrow> (string \<times> parsed_grant) list" where
  "merge_grant g byKey =
     (case map_of byKey (grant_key g) of
        Some existing \<Rightarrow>
          AList.update (grant_key g) (existing\<lparr>pg_privileges := js_set (pg_privileges existing @ pg_privileges g)\<rparr>) byKey
      | None \<Rightarrow> AList.update (grant_key g) g byKey)"

fun mergeGrantLines ::
  "string list \<Rightarrow> (string \<times> parsed_grant) list \<times> string list \<Rightarrow> (string \<times> parsed_grant) list \<times> string list" where
  "mergeGrantLines [] s = s"
| "mergeGrantLines (line # lines) (byKey, unparsed) =
     (case parseGrantLine line of
        None \<Rightarrow> mergeGrantLines lines (byKey, unparsed @ [line])
      | Some g \<Rightarrow> mergeGrantLines lines (merge_grant g byKey, unparsed))"

definition formatPrivileges :: "string list \<Rightarrow> string" where
  "formatPrivileges ps = join '', '' (sort ps)"

definition privilegesEqual :: "string list \<Rightarrow> string list \<Rightarrow> bool" where
  "privilegesEqual a b \<longleftrightarrow> length a = length b \<and> list_all (\<lambda>p. p \<in> set b) a"

definition desiredPgGrants :: "artifacts \<Rightarrow> (string \<times> parsed_grant) list" where
  "desiredPgGrants desired = fst (mergeGrantLines (split_on CHR 0x0A (a_pgddl desired)) ([], []))"

definition unparsed_item :: "string \<Rightarrow> drift_item" where
  "unparsed_item line = \<lparr>di_kind = Manual, di_target = ''pg.grant/unparsed'', di_detail = txt_unparsed @ trim line\<rparr>"

definition desired_items :: "(string \<times> parsed_grant) list \<Rightarrow> string \<times> parsed_grant \<Rightarrow> drift_item list" where
  "desired_items actualByKey = (\<lambda>(key, g).
     case map_of actualByKey key of
       None \<Rightarrow> [\<lparr>di_kind = Unapplied, di_target = ''pg.grant/'' @ key,
                di_detail = txt_missing @ txt_dash @ formatPrivileges (pg_privileges g)\<rparr>]
     | Some a \<Rightarrow>
         if \<not> privilegesEqual (pg_privileges a) (pg_privileges g)
         then [\<lparr>di_kind = Mismatch, di_target = ''pg.grant/'' @ key,
                di_detail = txt_privileges_differ @ formatPrivileges (pg_privileges g) @ txt_actual @
                  formatPrivileges (pg_privileges a) @ '']''\<rparr>]
         else [])"

definition extra_items :: "(string \<times> parsed_grant) list \<Rightarrow> string \<times> parsed_grant \<Rightarrow> drift_item list" where
  "extra_items desiredByKey = (\<lambda>(key, a).
     if map_of desiredByKey key = None
     then [\<lparr>di_kind = Manual, di_target = ''pg.grant/'' @ key,
            di_detail = txt_extra @ '' ('' @ formatPrivileges (pg_privileges a) @ '')''\<rparr>]
     else [])"

definition diffPgGrants :: "artifacts \<Rightarrow> string list \<Rightarrow> drift_item list" where
  "diffPgGrants desired actualGrants =
     (let desiredByKey = desiredPgGrants desired;
          (actualByKey, unparsed) = mergeGrantLines actualGrants ([], [])
      in map unparsed_item unparsed @
         concat (map (desired_items actualByKey) desiredByKey) @
         concat (map (extra_items desiredByKey) actualByKey))"

section \<open>The report\<close>

definition item_key :: "drift_item \<Rightarrow> string \<times> string" where
  "item_key i = (kind_name (di_kind i) @ ''|'' @ di_target i, di_detail i)"

definition diffState :: "artifacts \<Rightarrow> actual_state \<Rightarrow> drift_report" where
  "diffState desired actual =
     (let roles = (case keycloakRoles actual of None \<Rightarrow> [] | Some r \<Rightarrow> diffKeycloakRoles desired r);
          groups = (case keycloakGroups actual of None \<Rightarrow> [] | Some g \<Rightarrow> diffKeycloakGroups desired g);
          pg = (case pgGrants actual of None \<Rightarrow> [] | Some p \<Rightarrow> diffPgGrants desired p)
      in \<lparr>items = sort_key item_key (roles @ groups @ pg),
          checked =
            (if keycloakRoles actual \<noteq> None then [KeycloakRoles] else []) @
            (if keycloakGroups actual \<noteq> None then [KeycloakGroups] else []) @
            (if pgGrants actual \<noteq> None then [PgGrants] else [])\<rparr>)"

section \<open>Merging\<close>

text \<open>What the lines say, independent of their order: the privileges of a key are the union over
  the lines with that key, and a line that does not parse is reported.\<close>

definition line_privileges :: "string list \<Rightarrow> string \<Rightarrow> string set" where
  "line_privileges ls k = (\<Union>l \<in> set ls. case parseGrantLine l of None \<Rightarrow> {} | Some g \<Rightarrow>
     if grant_key g = k then set (pg_privileges g) else {})"

definition line_keys :: "string list \<Rightarrow> string set" where
  "line_keys ls = {k. \<exists>l \<in> set ls. \<exists>g. parseGrantLine l = Some g \<and> grant_key g = k}"

lemma parseGrantLine_distinct: "parseGrantLine l = Some g \<Longrightarrow> distinct (pg_privileges g)"
  by (auto simp: parseGrantLine_def Let_def split: option.splits prod.splits)

lemma map_of_merge_grant:
  "map_of (merge_grant g m) k =
     (if k = grant_key g
      then (case map_of m k of None \<Rightarrow> Some g
            | Some e \<Rightarrow> Some (e\<lparr>pg_privileges := js_set (pg_privileges e @ pg_privileges g)\<rparr>))
      else map_of m k)"
  by (auto simp: merge_grant_def update_conv' split: option.splits)

lemma distinct_merge_grant: "distinct (map fst m) \<Longrightarrow> distinct (map fst (merge_grant g m))"
  by (auto simp: merge_grant_def distinct_update split: option.splits)

lemma merge_unparsed:
  "snd (mergeGrantLines ls (m, u)) = u @ filter (\<lambda>l. parseGrantLine l = None) ls"
  by (induction ls arbitrary: m u) (auto split: option.splits)

lemma merge_distinct_keys: "distinct (map fst m) \<Longrightarrow> distinct (map fst (fst (mergeGrantLines ls (m, u))))"
  by (induction ls arbitrary: m u) (auto simp: distinct_merge_grant split: option.splits)

lemma merge_keys:
  "dom (map_of (fst (mergeGrantLines ls (m, u)))) = dom (map_of m) \<union> line_keys ls"
proof (induction ls arbitrary: m u)
  case (Cons l ls)
  show ?case
  proof (cases "parseGrantLine l")
    case (Some g)
    have "dom (map_of (merge_grant g m)) = insert (grant_key g) (dom (map_of m))"
      by (auto simp: map_of_merge_grant split: option.splits if_splits)
    then show ?thesis using Cons Some by (auto simp: line_keys_def)
  qed (use Cons in \<open>auto simp: line_keys_def\<close>)
qed (simp add: line_keys_def)

lemma merge_privileges:
  "(\<And>k e. map_of m k = Some e \<Longrightarrow> distinct (pg_privileges e)) \<Longrightarrow>
     map_of (fst (mergeGrantLines ls (m, u))) k = Some e \<Longrightarrow>
     distinct (pg_privileges e) \<and>
     set (pg_privileges e) = (case map_of m k of None \<Rightarrow> {} | Some e0 \<Rightarrow> set (pg_privileges e0)) \<union> line_privileges ls k"
proof (induction ls arbitrary: m u)
  case (Cons l ls)
  show ?case
  proof (cases "parseGrantLine l")
    case None
    then show ?thesis using Cons by (auto simp: line_privileges_def)
  next
    case (Some g)
    have "distinct (pg_privileges e')" if "map_of (merge_grant g m) k' = Some e'" for k' e'
      using that Cons.prems(1) parseGrantLine_distinct [OF Some]
      by (auto simp: map_of_merge_grant split: if_splits option.splits)
    moreover have "map_of (fst (mergeGrantLines ls (merge_grant g m, u))) k = Some e"
      using Cons.prems(2) Some by simp
    ultimately have "distinct (pg_privileges e) \<and> set (pg_privileges e) =
        (case map_of (merge_grant g m) k of None \<Rightarrow> {} | Some e0 \<Rightarrow> set (pg_privileges e0)) \<union> line_privileges ls k"
      by (rule Cons.IH)
    then show ?thesis using Some
      by (auto simp: map_of_merge_grant line_privileges_def split: option.splits if_splits)
  qed
qed (auto simp: line_privileges_def)

lemma privilegesEqual_iff:
  assumes "distinct a" and "distinct b"
  shows "privilegesEqual a b \<longleftrightarrow> set a = set b"
proof
  assume "privilegesEqual a b"
  then have "set a \<subseteq> set b" "card (set a) = card (set b)"
    using assms by (auto simp: privilegesEqual_def list_all_iff distinct_card)
  then show "set a = set b" by (simp add: card_subset_eq)
next
  assume "set a = set b"
  then show "privilegesEqual a b"
    using assms by (auto simp: privilegesEqual_def list_all_iff) (metis distinct_card)
qed

section \<open>A clean report\<close>

abbreviation merged :: "string list \<Rightarrow> (string \<times> parsed_grant) list" where
  "merged ls \<equiv> fst (mergeGrantLines ls ([], []))"

definition desired_lines :: "artifacts \<Rightarrow> string list" where
  "desired_lines a = split_on CHR 0x0A (a_pgddl a)"

lemma merged_None: "map_of (merged ls) k = None \<longleftrightarrow> k \<notin> line_keys ls"
  using merge_keys [of ls "[]" "[]"] by (simp add: domIff set_eq_iff) (metis not_None_eq)

lemma merged_Some:
  assumes "map_of (merged ls) k = Some e"
  shows "distinct (pg_privileges e)" and "set (pg_privileges e) = line_privileges ls k"
  using merge_privileges [of "[]" ls "[]" k e] assms by simp_all

lemma merged_entry: "(k, e) \<in> set (merged ls) \<longleftrightarrow> map_of (merged ls) k = Some e"
  using merge_distinct_keys [of "[]" ls "[]"] by (simp add: map_of_eq_Some_iff)

lemma diffPgGrants_unfold:
  "diffPgGrants desired ls =
     map unparsed_item (filter (\<lambda>l. parseGrantLine l = None) ls) @
     concat (map (desired_items (merged ls)) (merged (desired_lines desired))) @
     concat (map (extra_items (merged (desired_lines desired))) (merged ls))"
proof -
  have "mergeGrantLines ls ([], []) = (merged ls, filter (\<lambda>l. parseGrantLine l = None) ls)"
    using merge_unparsed [of ls "[]" "[]"] by (metis append_Nil prod.collapse)
  then show ?thesis
    unfolding diffPgGrants_def desiredPgGrants_def desired_lines_def Let_def
    by (metis (no_types, lifting) case_prod_conv)
qed

definition pg_agrees :: "string list \<Rightarrow> string list \<Rightarrow> bool" where
  "pg_agrees want ls \<longleftrightarrow>
     (\<forall>l \<in> set ls. parseGrantLine l \<noteq> None) \<and> line_keys ls = line_keys want \<and>
     (\<forall>k. line_privileges ls k = line_privileges want k)"

lemma line_privileges_no_key: "k \<notin> line_keys ls \<Longrightarrow> line_privileges ls k = {}"
  by (auto simp: line_keys_def line_privileges_def split: option.splits)

lemma diffPgGrants_clean: "diffPgGrants desired ls = [] \<longleftrightarrow> pg_agrees (desired_lines desired) ls"
proof -
  let ?D = "desired_lines desired"
  have same: "privilegesEqual (pg_privileges a) (pg_privileges g) \<longleftrightarrow> line_privileges ls k = line_privileges ?D k"
    if "map_of (merged ls) k = Some a" "map_of (merged ?D) k = Some g" for k a g
    using merged_Some [OF that(1)] merged_Some [OF that(2)] by (simp add: privilegesEqual_iff)
  have desired: "desired_items (merged ls) (k, g) = [] \<longleftrightarrow>
      k \<in> line_keys ls \<and> line_privileges ls k = line_privileges ?D k" if "map_of (merged ?D) k = Some g" for k g
  proof (cases "map_of (merged ls) k")
    case None
    then have "k \<notin> line_keys ls" using merged_None [of ls k] by blast
    then show ?thesis using None by (simp add: desired_items_def)
  next
    case (Some a)
    then have "k \<in> line_keys ls" using merged_None [of ls k] by simp
    then show ?thesis using same [OF Some that] Some by (simp add: desired_items_def)
  qed
  have extra: "extra_items (merged ?D) (k, a) = [] \<longleftrightarrow> k \<in> line_keys ?D" for k a
    using merged_None [of ?D k] by (cases "k \<in> line_keys ?D") (simp_all add: extra_items_def)
  have key: "(\<exists>g. map_of (merged x) k = Some g) \<longleftrightarrow> k \<in> line_keys x" for x k
    using merged_None [of x k] by auto
  have keyed: "(\<forall>k g. map_of (merged x) k = Some g \<longrightarrow> Q k) \<longleftrightarrow> (\<forall>k \<in> line_keys x. Q k)" for x Q
    using key by blast
  have "diffPgGrants desired ls = [] \<longleftrightarrow>
      (\<forall>l \<in> set ls. parseGrantLine l \<noteq> None) \<and>
      (\<forall>k g. map_of (merged ?D) k = Some g \<longrightarrow> desired_items (merged ls) (k, g) = []) \<and>
      (\<forall>k a. map_of (merged ls) k = Some a \<longrightarrow> extra_items (merged ?D) (k, a) = [])"
    unfolding diffPgGrants_unfold append_is_Nil_conv concat_eq_Nil_conv
    by (auto simp: filter_empty_conv merged_entry)
  also have "\<dots> \<longleftrightarrow> (\<forall>l \<in> set ls. parseGrantLine l \<noteq> None) \<and>
      (\<forall>k g. map_of (merged ?D) k = Some g \<longrightarrow> k \<in> line_keys ls \<and> line_privileges ls k = line_privileges ?D k) \<and>
      (\<forall>k a. map_of (merged ls) k = Some a \<longrightarrow> k \<in> line_keys ?D)"
    by (intro conj_cong refl all_cong1 imp_cong desired extra)
  also have "\<dots> \<longleftrightarrow> (\<forall>l \<in> set ls. parseGrantLine l \<noteq> None) \<and>
      (\<forall>k \<in> line_keys ?D. k \<in> line_keys ls \<and> line_privileges ls k = line_privileges ?D k) \<and>
      line_keys ls \<subseteq> line_keys ?D"
    by (simp only: keyed subset_iff Ball_def)
  also have "\<dots> \<longleftrightarrow> pg_agrees ?D ls"
    unfolding pg_agrees_def set_eq_subset [of "line_keys ls"] using line_privileges_no_key by (metis subset_iff)
  finally show ?thesis .
qed

lemma concat_if_Nil: "concat (map (\<lambda>x. if P x then [f x] else []) xs) = [] \<longleftrightarrow> (\<forall>x \<in> set xs. \<not> P x)"
  by (induction xs) auto

lemma diffKeycloakRoles_clean:
  "diffKeycloakRoles desired rs = [] \<longleftrightarrow> set rs = kr_name ` set (ks_roles (a_keycloak desired))"
proof -
  let ?D = "map kr_name (ks_roles (a_keycloak desired))"
  have "diffKeycloakRoles desired rs = [] \<longleftrightarrow> (\<forall>n \<in> set ?D. n \<in> set rs) \<and> (\<forall>n \<in> set rs. n \<in> set ?D)"
    unfolding diffKeycloakRoles_def Let_def append_is_Nil_conv concat_if_Nil by (simp only: not_not)
  then show ?thesis by (simp only: set_eq_subset subset_iff set_map Ball_def) blast
qed

text \<open>Groups agree when they are the same and have the same roles. The code compares the sorted role lists joined with
  commas, which is the same for role names that are not empty and hold no comma; those of a declaration that validates
  are such.\<close>

definition groups_agree :: "kc_group list \<Rightarrow> (string \<times> string list) list \<Rightarrow> bool" where
  "groups_agree want actual \<longleftrightarrow>
     fst ` set actual = kg_name ` set want \<and>
     (\<forall>g \<in> set want. \<exists>rs. map_of actual (kg_name g) = Some rs \<and> mset rs = mset (realmRoles g))"

definition plain_roles :: "string list \<Rightarrow> bool" where
  "plain_roles rs \<longleftrightarrow> (\<forall>r \<in> set rs. r \<noteq> [] \<and> CHR '','' \<notin> set r)"

lemma join_plain_Nil: "plain_roles rs \<Longrightarrow> join sep rs = [] \<longleftrightarrow> rs = []"
  by (cases "(sep, rs)" rule: join.cases) (auto simp: plain_roles_def)

lemma joined_roles_iff:
  assumes "plain_roles xs" "plain_roles ys"
  shows "join '','' (sort xs) = join '','' (sort ys) \<longleftrightarrow> mset xs = mset ys"
proof
  assume eq: "join '','' (sort xs) = join '','' (sort ys)"
  have plain: "plain_roles (sort xs)" "plain_roles (sort ys)" using assms by (simp_all add: plain_roles_def)
  have "sort xs = sort ys"
  proof (cases "sort xs = [] \<or> sort ys = []")
    case True
    then show ?thesis using eq join_plain_Nil [OF plain(1)] join_plain_Nil [OF plain(2)] by metis
  next
    case False
    then show ?thesis using join_inject [OF eq] plain by (auto simp: plain_roles_def)
  qed
  then show "mset xs = mset ys" by (metis mset_sort)
next
  assume "mset xs = mset ys"
  then have "sort xs = sort ys" by (intro properties_for_sort) simp_all
  then show "join '','' (sort xs) = join '','' (sort ys)" by simp
qed

lemma compiled_groups_plain:
  assumes "compileAll d = Inr desired" "g \<in> set (ks_groups (a_keycloak desired))"
  shows "plain_roles (realmRoles g)"
proof -
  have wf: "well_formed d" using assms(1) by (simp add: compileAll_Inr_iff)
  obtain h where h: "h \<in> set (d_groups d)" "realmRoles g = sort (gr_roles h)"
    using assms by (auto simp: compileAll_Inr_iff compileKeycloak_def)
  have "r \<noteq> [] \<and> CHR '','' \<notin> set r" if "r \<in> set (gr_roles h)" for r
  proof -
    have "r \<in> set (role_names d)" using wf h(1) that by (auto simp: well_formed_def role_ref_ok_def)
    then have "rx_test ROLE_NAME r" using wf by (auto simp: well_formed_def role_names_def)
    then show ?thesis using role_name.ok_nonempty [of r] role_name.ok_avoids(6) [of r "CHR '',''"] by blast
  qed
  then show ?thesis using h(2) by (simp add: plain_roles_def)
qed

lemma diffKeycloakGroups_joined:
  "diffKeycloakGroups desired gs = [] \<longleftrightarrow> fst ` set gs = kg_name ` set (ks_groups (a_keycloak desired)) \<and>
     (\<forall>g \<in> set (ks_groups (a_keycloak desired)).
        \<exists>rs. map_of gs (kg_name g) = Some rs \<and> join '','' (sort rs) = join '','' (sort (realmRoles g)))"
proof -
  let ?D = "ks_groups (a_keycloak desired)"
  have key: "n \<in> fst ` set gs" if "map_of gs n = Some v" for n v using that by (metis map_of_SomeD fst_conv imageI)
  have "diffKeycloakGroups desired gs = [] \<longleftrightarrow>
      (\<forall>g \<in> set ?D. \<exists>rs. map_of gs (kg_name g) = Some rs \<and> join '','' (sort rs) = join '','' (sort (realmRoles g))) \<and>
      (\<forall>n \<in> fst ` set gs. n \<in> kg_name ` set ?D)"
    unfolding diffKeycloakGroups_def Let_def append_is_Nil_conv concat_eq_Nil_conv set_map ball_simps
    by (intro conj_cong ball_cong refl) (auto split: option.split)
  then show ?thesis using key by blast
qed

lemma diffKeycloakGroups_clean:
  assumes "compileAll d = Inr desired" "\<forall>(n, rs) \<in> set gs. plain_roles rs"
  shows "diffKeycloakGroups desired gs = [] \<longleftrightarrow> groups_agree (ks_groups (a_keycloak desired)) gs"
proof -
  have "join '','' (sort rs) = join '','' (sort (realmRoles g)) \<longleftrightarrow> mset rs = mset (realmRoles g)"
    if "g \<in> set (ks_groups (a_keycloak desired))" "map_of gs (kg_name g) = Some rs" for g rs
    using joined_roles_iff compiled_groups_plain [OF assms(1) that(1)] assms(2) map_of_SomeD [OF that(2)] by blast
  then show ?thesis unfolding diffKeycloakGroups_joined groups_agree_def by (intro conj_cong ball_cong refl) blast
qed

section \<open>The report does not depend on the order of the lines\<close>

lemma kind_name_inject: "kind_name k @ ''|'' @ t = kind_name k' @ ''|'' @ t' \<longleftrightarrow> k = k' \<and> t = t'"
  by (cases k; cases k') simp_all

lemma item_key_inject: "item_key a = item_key b \<longleftrightarrow> a = b"
proof
  assume eq: "item_key a = item_key b"
  then have "di_kind a = di_kind b \<and> di_target a = di_target b"
    unfolding item_key_def prod.inject kind_name_inject by blast
  then show "a = b" using eq by (simp add: item_key_def)
qed simp

lemma sort_key_mset_eq:
  assumes "inj f" and "mset xs = mset ys"
  shows "sort_key f xs = sort_key f ys"
proof (rule properties_for_sort_key)
  show "mset (sort_key f ys) = mset xs" using assms by simp
  show "sorted (map f (sort_key f ys))" by simp
  fix x
  have eq: "filter (\<lambda>y. f x = f y) zs = replicate (count (mset zs) x) x" for zs
    using assms(1) by (induction zs) (auto simp: inj_eq)
  show "filter (\<lambda>y. f x = f y) (sort_key f ys) = filter (\<lambda>y. f x = f y) xs"
    unfolding eq using assms(2) by simp
qed

lemma formatPrivileges_set: "distinct a \<Longrightarrow> distinct b \<Longrightarrow> set a = set b \<Longrightarrow> formatPrivileges a = formatPrivileges b"
  unfolding formatPrivileges_def by (metis distinct_sort set_sort sorted_distinct_set_unique sorted_sort)

lemma line_facts_mset:
  assumes "set ls = set ls'"
  shows "line_keys ls = line_keys ls'" and "line_privileges ls k = line_privileges ls' k"
  using assms by (simp_all add: line_keys_def line_privileges_def)

definition merged_view :: "string list \<Rightarrow> (string \<times> string) list" where
  "merged_view ls = map (\<lambda>(k, e). (k, formatPrivileges (pg_privileges e))) (merged ls)"

lemma merged_lookup_same:
  assumes "set ls = set ls'" and "map_of (merged ls) k = Some a"
  shows "\<exists>b. map_of (merged ls') k = Some b \<and> distinct (pg_privileges b) \<and> set (pg_privileges b) = set (pg_privileges a)
     \<and> formatPrivileges (pg_privileges b) = formatPrivileges (pg_privileges a)"
proof -
  have "k \<in> line_keys ls" using assms(2) merged_None [of ls k] by simp
  then have "map_of (merged ls') k \<noteq> None"
    using merged_None [of ls' k] line_facts_mset(1) [OF assms(1)] by simp
  then obtain b where b: "map_of (merged ls') k = Some b" by blast
  have same: "set (pg_privileges b) = set (pg_privileges a)"
    using merged_Some(2) [OF b] merged_Some(2) [OF assms(2)] line_facts_mset(2) [OF assms(1)] by simp
  show ?thesis
    using b same merged_Some(1) [OF b] formatPrivileges_set [OF merged_Some(1) [OF b] merged_Some(1) [OF assms(2)] same]
    by blast
qed

lemma merged_view_mset:
  assumes "set ls = set ls'"
  shows "mset (merged_view ls) = mset (merged_view ls')"
proof -
  have d: "distinct (merged_view x)" for x
  proof -
    have "map fst (merged_view x) = map fst (merged x)" by (simp add: merged_view_def split_def comp_def)
    then have "distinct (map fst (merged_view x))" using merge_distinct_keys [of "[]" x "[]"] by simp
    then show ?thesis by (simp add: distinct_map)
  qed
  have "set (merged_view x) \<subseteq> set (merged_view y)" if xy: "set x = set y" for x y
  proof
    fix p
    assume "p \<in> set (merged_view x)"
    then obtain k e where "p = (k, formatPrivileges (pg_privileges e))" "map_of (merged x) k = Some e"
      unfolding merged_view_def by (auto simp: merged_entry)
    moreover obtain b where "map_of (merged y) k = Some b"
        "formatPrivileges (pg_privileges b) = formatPrivileges (pg_privileges e)"
      using merged_lookup_same [OF xy \<open>map_of (merged x) k = Some e\<close>] by blast
    ultimately show "p \<in> set (merged_view y)"
      unfolding merged_view_def using merged_entry [of k b y] by (auto intro!: rev_image_eqI)
  qed
  then have "set (merged_view ls) = set (merged_view ls')" using assms by blast
  then show ?thesis using d by (simp add: set_eq_iff_mset_eq_distinct)
qed

lemma desired_items_same:
  assumes set: "set ls = set ls'" and g: "distinct (pg_privileges g)"
  shows "desired_items (merged ls) (k, g) = desired_items (merged ls') (k, g)"
proof (cases "map_of (merged ls) k")
  case None
  then have "map_of (merged ls') k = None" using merged_None line_facts_mset(1) [OF set] by simp
  with None show ?thesis by (simp add: desired_items_def)
next
  case (Some a)
  obtain b where b: "map_of (merged ls') k = Some b" "distinct (pg_privileges b)"
      "set (pg_privileges b) = set (pg_privileges a)"
      "formatPrivileges (pg_privileges b) = formatPrivileges (pg_privileges a)"
    using merged_lookup_same [OF set Some] by blast
  then show ?thesis
    using Some merged_Some(1) [OF Some] g by (simp add: desired_items_def privilegesEqual_iff)
qed

definition extra_view :: "(string \<times> parsed_grant) list \<Rightarrow> string \<times> string \<Rightarrow> drift_item list" where
  "extra_view desiredByKey = (\<lambda>(key, p).
     if map_of desiredByKey key = None
     then [\<lparr>di_kind = Manual, di_target = ''pg.grant/'' @ key, di_detail = txt_extra @ '' ('' @ p @ '')''\<rparr>]
     else [])"

lemma extra_items_view: "concat (map (extra_items D) (merged ls)) = concat (map (extra_view D) (merged_view ls))"
  unfolding extra_items_def extra_view_def merged_view_def map_map comp_def split_def fst_conv snd_conv ..

lemma mset_concat_map: "mset xs = mset ys \<Longrightarrow> mset (concat (map f xs)) = mset (concat (map f ys))"
  unfolding mset_concat map_map sum_mset_sum_list [symmetric] mset_map by simp

lemma diffPgGrants_mset:
  assumes "mset ls = mset ls'"
  shows "mset (diffPgGrants desired ls) = mset (diffPgGrants desired ls')"
proof -
  let ?D = "merged (desired_lines desired)"
  have set: "set ls = set ls'" using assms by (metis set_mset_mset)
  have "mset (filter (\<lambda>l. parseGrantLine l = None) ls) = mset (filter (\<lambda>l. parseGrantLine l = None) ls')"
    using assms by simp
  then have "mset (map unparsed_item (filter (\<lambda>l. parseGrantLine l = None) ls)) =
      mset (map unparsed_item (filter (\<lambda>l. parseGrantLine l = None) ls'))" by (simp add: assms)
  moreover have "map (desired_items (merged ls)) ?D = map (desired_items (merged ls')) ?D"
    using desired_items_same [OF set] merged_Some(1) by (auto simp: merged_entry)
  moreover have "mset (concat (map (extra_view ?D) (merged_view ls))) = mset (concat (map (extra_view ?D) (merged_view ls')))"
    using merged_view_mset [OF set] by (rule mset_concat_map)
  ultimately show ?thesis unfolding diffPgGrants_unfold extra_items_view mset_append by (simp only:)
qed

lemma diffKeycloakRoles_mset:
  assumes "mset rs = mset rs'"
  shows "mset (diffKeycloakRoles desired rs) = mset (diffKeycloakRoles desired rs')"
proof -
  have set: "set rs = set rs'" using assms by (metis set_mset_mset)
  show ?thesis
    unfolding diffKeycloakRoles_def Let_def mset_append set using mset_concat_map [OF assms] by simp
qed

lemma diffKeycloakGroups_mset:
  assumes "distinct (map fst gs)" and "mset gs = mset gs'"
  shows "mset (diffKeycloakGroups desired gs) = mset (diffKeycloakGroups desired gs')"
proof -
  have "distinct (map fst gs')" using assms by (metis mset_map mset_eq_imp_distinct_iff)
  moreover have "set gs = set gs'" using assms by (metis set_mset_mset)
  ultimately have "map_of gs = map_of gs'" using assms(1) map_of_inject_set by blast
  moreover have "mset (map fst gs) = mset (map fst gs')" using assms(2) by simp
  ultimately show ?thesis
    unfolding diffKeycloakGroups_def Let_def mset_append
    using mset_concat_map [OF \<open>mset (map fst gs) = mset (map fst gs')\<close>] by simp
qed

end
