(* ===== verification/PolicyProperties.thy ===== *)
theory PolicyProperties
  imports Drift
begin

text \<open>
  The properties of the policy compiler, with a sample declaration on which their hypotheses hold.
\<close>

section \<open>A sample declaration\<close>

definition sample_masked :: grant where
  "sample_masked = \<lparr>g_roles = [''analysts''], privileges = [Select],
     columnMask = Some [(''email'', Hash)], rowFilter = None, allowUnmasked = None\<rparr>"

definition sample_unmasked :: grant where
  "sample_unmasked = \<lparr>g_roles = [''admins''], privileges = [Select, Insert],
     columnMask = Some [(''email'', Partial)], rowFilter = None, allowUnmasked = Some True\<rparr>"

definition sample_users :: resource where
  "sample_users = \<lparr>resource = ''lake.users'', classification = Pii, grants = [sample_masked, sample_unmasked],
     sensitiveColumns = Some [''email''], engine = None\<rparr>"

definition sample_orders :: resource where
  "sample_orders = \<lparr>resource = ''shop.orders'', classification = Internal,
     grants = [\<lparr>g_roles = [''analysts''], privileges = [Insert, Select], columnMask = None, rowFilter = None, allowUnmasked = None\<rparr>],
     sensitiveColumns = None, engine = Some Postgres\<rparr>"

definition sample :: decl where
  "sample = \<lparr>
     d_roles = [\<lparr>r_name = ''analysts'', r_includes = None\<rparr>, \<lparr>r_name = ''engineers'', r_includes = Some [''analysts'']\<rparr>,
       \<lparr>r_name = ''admins'', r_includes = Some [''engineers'']\<rparr>],
     d_groups = [\<lparr>gr_name = ''data-team'', gr_roles = [''engineers'']\<rparr>],
     d_resources = [sample_users, sample_orders],
     d_catalogGrants = Some [\<lparr>catalog = ''iceberg'', cg_roles = [''analysts''], operations = [ExecuteQuery, AccessCatalog]\<rparr>],
     d_logins = Some [\<lparr>l_name = ''beluga-engineer'', memberOf = [''engineers''], database = ''shop''\<rparr>]\<rparr>"

lemma sample_valid: "validateDeclaration sample = []"
  unfolding validateDeclaration_def append_is_Nil_conv by (intro conjI) code_simp+

lemma sample_well_formed: "well_formed sample"
  using sample_valid by (simp add: validateDeclaration_iff)

lemma sample_rules: obtains rs where "rego_rules sample = Inr rs"
  using well_formed_rules [OF sample_well_formed] by blast

definition sample_column :: "string list \<Rightarrow> rego_input" where
  "sample_column gs =
     \<lparr>in_attr = map_of [(column_path ''catalogName'', ''iceberg''), (column_path ''schemaName'', ''lake''),
        (column_path ''tableName'', ''users''), (column_path ''columnName'', ''email'')],
      in_groups = gs\<rparr>"

definition sample_table :: "string list \<Rightarrow> rego_input" where
  "sample_table gs =
     \<lparr>in_attr = map_of [(op_path, ''SelectFromColumns''), (table_path ''catalogName'', ''iceberg''),
        (table_path ''schemaName'', ''lake''), (table_path ''tableName'', ''users'')],
      in_groups = gs\<rparr>"

section \<open>Access decisions\<close>

text \<open>C1. In a declaration that validates and whose groups have different names, a requester whose
  token is that of one declared role or of one declared group gets at most one mask for a column:
  the complete rule \<open>columnMask\<close> never evaluates to two values.\<close>

theorem column_mask_unique:
  assumes "validateDeclaration d = []" and "distinct (map gr_name (d_groups d))" and "rego_rules d = Inr rs"
    and "declared_token d (set (in_groups i))"
    and "e \<in> set (rego_masks rs i)" and "e' \<in> set (rego_masks rs i)"
  shows "e = e'"
proof -
  have wf: "well_formed d" using assms(1) by (simp add: validateDeclaration_iff)
  obtain res schema table g col kind where a: "table_origin d res schema table g"
      "(col, kind) \<in> set (opt_list (columnMask g))" "e = MASK_EXPR kind col"
      "column_of i schema table col" "holds_any i (g_roles g)" "guard_open d res g i"
    using assms(5) unfolding rego_masks_iff [OF assms(3)] by blast
  obtain res' schema' table' g' col' kind' where b: "table_origin d res' schema' table' g'"
      "(col', kind') \<in> set (opt_list (columnMask g'))" "e' = MASK_EXPR kind' col'"
      "column_of i schema' table' col'" "holds_any i (g_roles g')" "guard_open d res' g' i"
    using assms(6) unfolding rego_masks_iff [OF assms(3)] by blast
  have eqs: "schema' = schema" "table' = table" "col' = col"
    using a(4) b(4) by (auto simp: column_of_def)
  have res: "res = res'" by (rule same_resource [OF wf a(1) b(1) [unfolded eqs]])
  have "kind = kind'"
    by (rule masks_agree [OF wf assms(2,4) a(1,2,5,6) b(1,2,5,6) [unfolded eqs res [symmetric]]])
  then show ?thesis using a(3) b(3) eqs by simp
qed

lemma sample_mask_fires:
  "table_origin sample sample_users ''lake'' ''users'' sample_masked \<and>
     (''email'', Hash) \<in> set (opt_list (columnMask sample_masked)) \<and>
     ''to_hex(sha256(cast(email as varbinary)))'' = MASK_EXPR Hash ''email'' \<and>
     column_of (sample_column [''analysts'', ''engineers'']) ''lake'' ''users'' ''email'' \<and>
     holds_any (sample_column [''analysts'', ''engineers'']) (g_roles sample_masked) \<and>
     guard_open sample sample_users sample_masked (sample_column [''analysts'', ''engineers''])"
  by code_simp

lemma sample_masks:
  "rego_rules sample = Inr rs \<Longrightarrow>
     ''to_hex(sha256(cast(email as varbinary)))'' \<in> set (rego_masks rs (sample_column [''analysts'', ''engineers'']))"
  unfolding rego_masks_iff using sample_mask_fires by blast

theorem column_mask_unique_witness:
  "\<exists>rs. rego_rules sample = Inr rs \<and>
     set (rego_masks rs (sample_column [''analysts'', ''engineers''])) = {''to_hex(sha256(cast(email as varbinary)))''}"
proof -
  obtain rs where rs: "rego_rules sample = Inr rs" by (rule sample_rules)
  let ?i = "sample_column [''analysts'', ''engineers'']"
  have token: "declared_token sample (set (in_groups ?i))"
    unfolding declared_token_def by (rule disjI1, rule bexI [of _ "''engineers''"]) code_simp+
  have names: "distinct (map gr_name (d_groups sample))" by code_simp
  have "e = ''to_hex(sha256(cast(email as varbinary)))''" if "e \<in> set (rego_masks rs ?i)" for e
    by (rule column_mask_unique [OF sample_valid names rs token that sample_masks [OF rs]])
  then show ?thesis using rs sample_masks [OF rs] by blast
qed

text \<open>C3. In a declaration that validates, when a requester with a token closed under inheritance may
  select from a personal-data table (outside \<open>information_schema\<close>, which every browsing role may
  read), either a role of the token is named by a grant of that table with \<open>allowUnmasked: true\<close>, or
  every sensitive column of the table has a mask for this requester.\<close>

theorem pii_masked:
  assumes "validateDeclaration d = []" and "rego_rules d = Inr rs"
    and "closed_token d (set (in_groups i))"
    and "res \<in> set (d_resources d)" and "engine_name (engine res) = ''trino''" and "classification res = Pii"
    and "splitResource (resource res) = Inr (schema, table)" and "schema \<noteq> ''information_schema''"
    and "in_attr i op_path = Some ''SelectFromColumns''"
    and "in_attr i (table_path ''catalogName'') = Some DEPLOYED_CATALOG"
    and "in_attr i (table_path ''schemaName'') = Some schema"
    and "in_attr i (table_path ''tableName'') = Some table"
    and "rego_allow rs i"
    and "col \<in> set (opt_list (sensitiveColumns res))"
    and "in_groups j = in_groups i" and "column_of j schema table col"
  shows "(\<exists>g \<in> set (grants res). opted_out g \<and> holds_any i (g_roles g)) \<or> rego_masks rs j \<noteq> []"
proof -
  have wf: "well_formed d" using assms(1) by (simp add: validateDeclaration_iff)
  have nocat: "\<not> catalog_entitled d i"
    using wf assms(8-11) catalog_not_table [OF wf] by blast
  then obtain res' g where o: "table_origin d res' schema table g" and sel: "Select \<in> set (privileges g)"
      and ent: "entitled d i (g_roles g)"
    using assms(13) select_grant [OF assms(9,11,12)] unfolding rego_allow_iff [OF assms(2)] by blast
  have res: "res' = res"
  proof -
    have "resource res' = resource res"
      using o assms(7) splitResource_join [of "resource res'"] splitResource_join [of "resource res"]
      by (simp add: table_origin_def)
    then show ?thesis using o assms(4,5) same_key_resource [OF wf] by (simp add: table_origin_def)
  qed
  obtain r where r: "r \<in> set (in_groups i)" "r \<in> set (g_roles g)"
    using ent closed_token_role [OF assms(3)] by (auto simp: entitled_def)
  show ?thesis
  proof (cases "opted_out g")
    case True
    then show ?thesis using r o res by (auto simp: holds_any_def table_origin_def)
  next
    case False
    have "grant_wf d res g" using wf o res assms(4) by (simp add: well_formed_def resource_wf_def table_origin_def)
    then obtain kind where kind: "(col, kind) \<in> set (opt_list (columnMask g))"
      using False sel assms(6,14) by (auto simp: grant_wf_def mask_keys_def)
    show ?thesis
    proof (cases "guard_open d res g i")
      case True
      then have "guard_open d res g j" "holds_any j (g_roles g)"
        using r assms(15) by (auto simp: holds_any_def guard_open_def)
      then have "MASK_EXPR kind col \<in> set (rego_masks rs j)"
        using kind o res assms(16) unfolding rego_masks_iff [OF assms(2)] by blast
      then show ?thesis by auto
    next
      case closed: False
      then obtain t u where "t \<in> set (in_groups i)" "u \<in> set (grants res)" "opted_out u"
          "t \<in> set (effective_roles d (g_roles u))"
        by (auto simp: guard_open_def unmaskedGroups_iff)
      then show ?thesis
        using closed_token_role [OF assms(3)] by (auto simp: holds_any_def effective_roles_iff)
    qed
  qed
qed

lemma sample_select:
  "closed_token sample (set (in_groups (sample_table [''analysts'', ''engineers''])))"
  "sample_users \<in> set (d_resources sample)" "engine_name (engine sample_users) = ''trino''"
  "classification sample_users = Pii" "splitResource (resource sample_users) = Inr (''lake'', ''users'')"
  "''email'' \<in> set (opt_list (sensitiveColumns sample_users))"
  "in_attr (sample_table [''analysts'', ''engineers'']) op_path = Some ''SelectFromColumns''"
  "in_attr (sample_table [''analysts'', ''engineers'']) (table_path ''catalogName'') = Some DEPLOYED_CATALOG"
  "in_attr (sample_table [''analysts'', ''engineers'']) (table_path ''schemaName'') = Some ''lake''"
  "in_attr (sample_table [''analysts'', ''engineers'']) (table_path ''tableName'') = Some ''users''"
  "in_groups (sample_column [''analysts'', ''engineers'']) = in_groups (sample_table [''analysts'', ''engineers''])"
  "entitled sample (sample_table [''analysts'', ''engineers'']) (g_roles sample_masked)"
  by code_simp+

lemma sample_allowed: "rego_rules sample = Inr rs \<Longrightarrow> rego_allow rs (sample_table [''analysts'', ''engineers''])"
proof -
  assume rs: "rego_rules sample = Inr rs"
  have "Select \<in> set (privileges sample_masked)" by code_simp
  moreover have "operationOf Select = ''SelectFromColumns''" by simp
  moreover have "table_origin sample sample_users ''lake'' ''users'' sample_masked" using sample_mask_fires by blast
  ultimately have "table_entitled sample (sample_table [''analysts'', ''engineers''])"
    unfolding table_entitled_def using sample_select(7-10,12) by metis
  then show ?thesis by (simp add: rego_allow_iff [OF rs])
qed

theorem pii_masked_witness:
  "\<exists>rs. rego_rules sample = Inr rs \<and>
     ((\<exists>g \<in> set (grants sample_users). opted_out g \<and> holds_any (sample_table [''analysts'', ''engineers'']) (g_roles g)) \<or>
      rego_masks rs (sample_column [''analysts'', ''engineers'']) \<noteq> [])"
proof -
  obtain rs where rs: "rego_rules sample = Inr rs" by (rule sample_rules)
  have col: "column_of (sample_column [''analysts'', ''engineers'']) ''lake'' ''users'' ''email''"
    using sample_mask_fires by blast
  have ne: "''lake'' \<noteq> ''information_schema''" by simp
  show ?thesis
    using rs pii_masked [OF sample_valid rs sample_select(1-5) ne sample_select(7-10) sample_allowed [OF rs]
        sample_select(6) sample_select(11) col] by blast
qed

text \<open>C5. Deny by default: the generated module allows a request exactly when the declaration
  entitles it, through a table grant (privilege, catalog, schema and table of the grant) or through
  a catalog grant (a declared operation on the catalog, its \<open>information_schema\<close>, or the fixed
  metadata paths of the \<open>system\<close> catalog), held by a declared role of the token that includes a role
  of the grant.\<close>

theorem rego_allow_exact:
  assumes "rego_rules d = Inr rs"
  shows "rego_allow rs i \<longleftrightarrow> table_entitled d i \<or> catalog_entitled d i"
  by (rule rego_allow_iff [OF assms])

theorem rego_allow_exact_witness:
  "\<exists>rs. rego_rules sample = Inr rs \<and> rego_allow rs (sample_table [''analysts'', ''engineers'']) \<and>
     \<not> rego_allow rs (sample_table [''guests''])"
proof -
  obtain rs where rs: "rego_rules sample = Inr rs" by (rule sample_rules)
  have "\<not> entitled sample (sample_table [''guests'']) roles" for roles
  proof -
    have "''guests'' \<notin> set (role_names sample)" by code_simp
    then show ?thesis by (simp add: entitled_def sample_table_def)
  qed
  then have "\<not> (table_entitled sample (sample_table [''guests'']) \<or> catalog_entitled sample (sample_table [''guests'']))"
    by (simp only: table_entitled_def catalog_entitled_def) blast
  then show ?thesis using rego_allow_exact [OF rs, of "sample_table [''guests'']"] rs sample_allowed [OF rs] by blast
qed

text \<open>C7. A table of the built-in \<open>system\<close> catalog is opened only in its schemas \<open>jdbc\<close> and
  \<open>metadata\<close>, never in \<open>runtime\<close>, and only to holders of a catalog grant with
  \<open>AccessCatalog\<close>.\<close>

theorem system_runtime_closed:
  assumes "validateDeclaration d = []" and "rego_rules d = Inr rs"
    and "in_attr i (table_path ''catalogName'') = Some ''system''"
    and "in_attr i ''input.action.resource.catalog.name'' = None"
    and "in_attr i ''input.action.resource.schema.catalogName'' = None"
    and "in_attr i ''input.action.resource.catalogSessionProperty.catalogName'' = None"
    and "in_attr i op_path \<noteq> Some ''ExecuteQuery''"
    and "rego_allow rs i"
  shows "in_attr i (table_path ''schemaName'') \<in> {Some ''jdbc'', Some ''metadata''} \<and>
    (\<exists>cg \<in> set (opt_list (d_catalogGrants d)). AccessCatalog \<in> set (operations cg) \<and> entitled d i (cg_roles cg))"
proof -
  have wf: "well_formed d" using assms(1) by (simp add: validateDeclaration_iff)
  have iceberg: "catalog cg = ''iceberg''" if "cg \<in> set (opt_list (d_catalogGrants d))" for cg
    using wf that by (simp add: well_formed_def DEPLOYED_CATALOG_def)
  have "\<not> table_entitled d i" using assms(3) by (auto simp: table_entitled_def DEPLOYED_CATALOG_def)
  then have "catalog_entitled d i" using assms(8) rego_allow_iff [OF assms(2)] by blast
  then obtain cg where cg: "cg \<in> set (opt_list (d_catalogGrants d))" "entitled d i (cg_roles cg)"
    and paths: "(\<exists>op \<in> set (operations cg). in_attr i op_path = Some (operation_name op) \<and>
            (\<forall>path. CATALOG_GUARD_PATH (OPERATION_RESOURCE_SHAPE op) = Some path \<longrightarrow> in_attr i path = Some (catalog cg))) \<or>
         in_attr i (table_path ''catalogName'') = Some (catalog cg) \<or>
         AccessCatalog \<in> set (operations cg) \<and>
            ((\<exists>(op, shape) \<in> set systemCatalogOperations. in_attr i (path_of (CATALOG_GUARD_PATH shape)) = Some ''system'') \<or>
             (\<exists>(op, shape) \<in> set systemMetadataOperations.
                in_attr i (path_of (CATALOG_GUARD_PATH shape)) = Some ''system'' \<and>
                in_attr i (path_of (SYSTEM_METADATA_SCHEMA_GUARD_PATH shape)) \<in> {Some ''jdbc'', Some ''metadata''}))"
    unfolding catalog_entitled_def by blast
  have "\<not> (\<exists>op \<in> set (operations cg). in_attr i op_path = Some (operation_name op) \<and>
            (\<forall>path. CATALOG_GUARD_PATH (OPERATION_RESOURCE_SHAPE op) = Some path \<longrightarrow> in_attr i path = Some (catalog cg)))"
  proof
    assume "\<exists>op \<in> set (operations cg). in_attr i op_path = Some (operation_name op) \<and>
            (\<forall>path. CATALOG_GUARD_PATH (OPERATION_RESOURCE_SHAPE op) = Some path \<longrightarrow> in_attr i path = Some (catalog cg))"
    then obtain op where op: "in_attr i op_path = Some (operation_name op)"
      "\<And>path. CATALOG_GUARD_PATH (OPERATION_RESOURCE_SHAPE op) = Some path \<Longrightarrow> in_attr i path = Some ''iceberg''"
      using iceberg [OF cg(1)] by auto
    show False using assms(3-7) op by (cases op) simp_all
  qed
  then show ?thesis
    using paths cg assms(3-6) iceberg [OF cg(1)]
    by (auto simp: systemCatalogOperations_def systemMetadataOperations_def path_of_def)
qed

definition sample_system :: rego_input where
  "sample_system =
     \<lparr>in_attr = map_of [(op_path, ''SelectFromColumns''), (table_path ''catalogName'', ''system''),
        (table_path ''schemaName'', ''jdbc''), (table_path ''tableName'', ''tables'')],
      in_groups = [''analysts'']\<rparr>"

theorem system_runtime_closed_witness:
  "\<exists>rs. rego_rules sample = Inr rs \<and> rego_allow rs sample_system \<and>
     in_attr sample_system (table_path ''schemaName'') \<in> {Some ''jdbc'', Some ''metadata''}"
proof -
  obtain rs where rs: "rego_rules sample = Inr rs" by (rule sample_rules)
  have "catalog_entitled sample sample_system"
  proof -
    have "\<lparr>catalog = ''iceberg'', cg_roles = [''analysts''], operations = [ExecuteQuery, AccessCatalog]\<rparr>
        \<in> set (opt_list (d_catalogGrants sample))" by (simp add: sample_def)
    moreover have "entitled sample sample_system [''analysts'']" by code_simp
    ultimately show ?thesis
      unfolding catalog_entitled_def
      by (intro bexI) (auto simp: sample_system_def systemMetadataOperations_def path_of_def)
  qed
  then have allow: "rego_allow rs sample_system" by (simp add: rego_allow_iff [OF rs])
  have attrs: "in_attr sample_system (table_path ''catalogName'') = Some ''system''"
    "in_attr sample_system ''input.action.resource.catalog.name'' = None"
    "in_attr sample_system ''input.action.resource.schema.catalogName'' = None"
    "in_attr sample_system ''input.action.resource.catalogSessionProperty.catalogName'' = None"
    "in_attr sample_system op_path \<noteq> Some ''ExecuteQuery''"
    by (simp_all add: sample_system_def)
  show ?thesis using rs allow system_runtime_closed [OF sample_valid rs attrs allow] by blast
qed

text \<open>C29. The text of the Rego module is, line by line, the header and the rendered rules, for every
  declaration, validated or not: no declared name, filter or catalog can end a comment or a string
  literal and start a line of its own.\<close>

theorem rego_lines_intact:
  assumes "compileRego d = Inr text"
  shows "\<exists>rs. rego_rules d = Inr rs \<and> split_on CHR 0x0A text = header_lines @ rules_lines rs"
proof -
  obtain rs where rs: "rego_rules d = Inr rs" and body: "text = join nl (header_lines @ rules_lines rs)"
    using assms by (cases "rego_rules d") (auto simp: compileRego_rules)
  have "header_lines @ rules_lines rs \<noteq> []" by (simp add: header_lines_def)
  moreover have "CHR 0x0A \<notin> set l" if "l \<in> set (header_lines @ rules_lines rs)" for l
    using that header_one_line rules_one_line [OF rs] by (auto simp: one_line_def)
  ultimately show ?thesis unfolding body nl_def using rs split_on_join by blast
qed

theorem rego_lines_intact_witness:
  "\<exists>text rs. compileRego sample = Inr text \<and> rego_rules sample = Inr rs \<and>
     split_on CHR 0x0A text = header_lines @ rules_lines rs"
proof -
  obtain rs where rs: "rego_rules sample = Inr rs" by (rule sample_rules)
  then have "compileRego sample = Inr (join nl (header_lines @ rules_lines rs))" by (simp add: compileRego_rules)
  from this rego_lines_intact [OF this] show ?thesis by blast
qed

section \<open>Validation\<close>

text \<open>C25. \<open>validateDeclaration\<close> reports nothing exactly for a well-formed declaration: acyclic
  inheritance, well-formed and declared role names everywhere, no two roles with one PostgreSQL name,
  no resource twice per engine, every personal-data select masked, no two different masks for one
  co-held column, only the deployed catalog, no catalog operation twice, safe logins.\<close>

theorem validate_exact: "validateDeclaration d = [] \<longleftrightarrow> well_formed d"
  by (rule validateDeclaration_iff)

text \<open>C30. \<open>expandRoles\<close> terminates on every declaration, also a cyclic one, and computes the
  reflexive-transitive closure of \<open>includes\<close> as a sorted list without duplicates.\<close>

theorem expandRoles_closure:
  "set (expandRoles d r) = (inherits d)\<^sup>* `` {r} \<and> sorted (expandRoles d r) \<and> distinct (expandRoles d r)"
  by (simp add: set_expandRoles sorted_expandRoles distinct_expandRoles)

text \<open>\<open>findCycle\<close> returns null exactly when inheritance is acyclic; otherwise what it returns is a
  walk along \<open>includes\<close> that ends in a role it has already passed.\<close>

lemma findCycle_exact:
  "case findCycle d of None \<Rightarrow> acyclic (inherits d) | Some c \<Rightarrow> is_cycle_path d c \<and> \<not> acyclic (inherits d)"
  using findCycle_iff [of d] findCycle_Some_path [of d] by (auto split: option.split)






section \<open>PostgreSQL and Keycloak\<close>

text \<open>C31. For a declaration that validates, the emitted DDL gives a login exactly the table privileges the
  declaration means: those granted to a role that one of its declared memberships includes (tables by
  the name PostgreSQL folds them to).\<close>

theorem pg_privileges_exact:
  assumes "validateDeclaration d = []" and "l \<in> set (opt_list (d_logins d))"
  shows "pg_can (pg_stmts d) (l_name l) p t \<longleftrightarrow>
    (\<exists>l' \<in> set (opt_list (d_logins d)). l_name l' = l_name l \<and>
       (\<exists>m \<in> set (memberOf l'). \<exists>r \<in> set (expandRoles d m). pg_granted d r p t))"
  using assms pg_can_login by (simp add: validateDeclaration_iff)

definition sample_login :: pg_login where
  "sample_login = \<lparr>l_name = ''beluga-engineer'', memberOf = [''engineers''], database = ''shop''\<rparr>"

lemma sample_login_mem: "sample_login \<in> set (opt_list (d_logins sample))"
  by (simp add: sample_def sample_login_def)

theorem pg_privileges_exact_witness:
  "pg_can (pg_stmts sample) ''beluga-engineer'' Insert ''shop.orders'' \<and>
   \<not> pg_can (pg_stmts sample) ''beluga-engineer'' Delete ''shop.orders''"
proof -
  have name: "l_name sample_login = ''beluga-engineer''" by (simp add: sample_login_def)
  have yes: "\<exists>l' \<in> set (opt_list (d_logins sample)). l_name l' = l_name sample_login \<and>
      (\<exists>m \<in> set (memberOf l'). \<exists>r \<in> set (expandRoles sample m). pg_granted sample r Insert ''shop.orders'')"
    by code_simp
  have no: "\<not> (\<exists>l' \<in> set (opt_list (d_logins sample)). l_name l' = l_name sample_login \<and>
      (\<exists>m \<in> set (memberOf l'). \<exists>r \<in> set (expandRoles sample m). pg_granted sample r Delete ''shop.orders''))"
    by code_simp
  from pg_privileges_exact [OF sample_valid sample_login_mem] yes no show ?thesis unfolding name by blast
qed

text \<open>CONNECT on a database is granted to exactly the roles that have a table grant and that some
  login of that database reaches through its memberships.\<close>

lemma connect_least_privilege:
  "PGrantConnect db a \<in> set (pg_stmts d) \<longleftrightarrow>
     (\<exists>r. a = toPgRole r \<and>
        (\<exists>res \<in> set (d_resources d). engine res = Some Postgres \<and> (\<exists>g \<in> set (grants res). r \<in> set (g_roles g))) \<and>
        (\<exists>l \<in> set (opt_list (d_logins d)). database l = db \<and> (\<exists>m \<in> set (memberOf l). r \<in> set (expandRoles d m))))"
  unfolding PGrantConnect_iff Bex_def postgresGrantRoles_iff pg_resources_mem by blast

text \<open>C33. The composite roles that the Keycloak specification declares expand, in a token, to the roles that
  \<open>expandRoles\<close> computes: the token of a list of roles is the union of their expansions.\<close>

theorem keycloak_token_agrees:
  assumes "validateDeclaration d = []"
  shows "kc_token (compileKeycloak d) roles = (\<Union>r \<in> set roles. set (expandRoles d r))"
  using assms wf_pg_names(2) by (simp add: validateDeclaration_iff kc_token_expand)

theorem keycloak_token_agrees_witness:
  "kc_token (compileKeycloak sample) [''engineers''] = {''analysts'', ''engineers''}"
proof -
  have "set (expandRoles sample ''engineers'') = {''analysts'', ''engineers''}" by code_simp
  then show ?thesis using keycloak_token_agrees [OF sample_valid, of "[''engineers'']"] by simp
qed

text \<open>\<open>compileAll\<close> compiles exactly the declarations that validate, and otherwise fails with the whole
  list of validation errors; in particular no declaration that validates makes \<open>splitResource\<close>
  throw.\<close>

lemma compileAll_exact:
  "case compileAll d of
     Inl e \<Rightarrow> e = ValidationFailed (validateDeclaration d) \<and> validateDeclaration d \<noteq> []
   | Inr a \<Rightarrow> validateDeclaration d = [] \<and> compileRego d = Inr (a_rego a) \<and>
       a_pgddl a = compilePgDdl d \<and> a_keycloak a = compileKeycloak d"
proof (cases "compileAll d")
  case (Inl e)
  then show ?thesis using compileAll_cases(2) [OF Inl] by simp
next
  case (Inr a)
  then have "validateDeclaration d = []" using compileAll_cases(1) [of d] by blast
  moreover obtain rs where "rego_rules d = Inr rs"
      "a = \<lparr>a_keycloak = compileKeycloak d, a_rego = join nl (header_lines @ rules_lines rs), a_pgddl = compilePgDdl d\<rparr>"
    using Inr unfolding compileAll_Inr_iff by blast
  ultimately show ?thesis using Inr by (simp add: compileRego_rules)
qed

section \<open>Drift\<close>

text \<open>C34. A drift report against compiled artifacts is empty exactly when everything that was read agrees with them: the same
  Keycloak roles, the same groups with the same roles, and for PostgreSQL no line that cannot be parsed and the same
  privileges for the same table and role. The role names that Keycloak reports for a group are not empty and hold no comma;
  otherwise a difference can be missed (see \<open>group_drift_hidden\<close>).\<close>

theorem drift_clean_iff:
  assumes "compileAll d = Inr desired"
    and "\<forall>gs. keycloakGroups actual = Some gs \<longrightarrow> (\<forall>(n, rs) \<in> set gs. plain_roles rs)"
  shows "items (diffState desired actual) = [] \<longleftrightarrow>
     (case keycloakRoles actual of None \<Rightarrow> True
      | Some rs \<Rightarrow> set rs = kr_name ` set (ks_roles (a_keycloak desired))) \<and>
     (case keycloakGroups actual of None \<Rightarrow> True
      | Some gs \<Rightarrow> groups_agree (ks_groups (a_keycloak desired)) gs) \<and>
     (case pgGrants actual of None \<Rightarrow> True | Some ls \<Rightarrow> pg_agrees (desired_lines desired) ls)"
proof -
  have "sort_key item_key xs = [] \<longleftrightarrow> xs = []" for xs by (metis length_0_conv length_sort)
  then show ?thesis
    using assms(2)
    by (auto simp: diffState_def Let_def diffKeycloakRoles_clean diffKeycloakGroups_clean [OF assms(1)] diffPgGrants_clean
        split: option.split)
qed

definition sample_read :: "string \<Rightarrow> actual_state" where
  "sample_read role = \<lparr>keycloakRoles = Some [''engineers'', ''analysts'', ''admins''], keycloakGroups = Some [(''data-team'', [role])],
     pgGrants = None\<rparr>"

theorem drift_clean_iff_witness:
  "\<exists>a. compileAll sample = Inr a \<and> items (diffState a (sample_read ''engineers'')) = [] \<and> items (diffState a (sample_read ''admins'')) \<noteq> []"
proof -
  obtain a where a: "compileAll sample = Inr a" using sample_valid compileAll_cases(1) [of sample] by blast
  then have kc: "a_keycloak a = compileKeycloak sample" by (auto simp: compileAll_Inr_iff)
  have roles: "kr_name ` set (ks_roles (compileKeycloak sample)) = {''engineers'', ''analysts'', ''admins''}" by code_simp
  have groups: "ks_groups (compileKeycloak sample) = [\<lparr>kg_name = ''data-team'', realmRoles = [''engineers'']\<rparr>]" by code_simp
  have "items (diffState a (sample_read r)) = [] \<longleftrightarrow> r = ''engineers''" if "plain_roles [r]" for r
    using that by (subst drift_clean_iff [OF a]) (auto simp: sample_read_def kc roles groups groups_agree_def)
  moreover have "plain_roles [''engineers'']" "plain_roles [''admins'']" by code_simp+
  ultimately show ?thesis using a by auto
qed

text \<open>The report depends only on what was read and not on the order in which the systems list it.\<close>

lemma drift_order_independent:
  assumes "rel_option (\<lambda>a b. mset a = mset b) (keycloakRoles x) (keycloakRoles y)"
    and "rel_option (\<lambda>a b. distinct (map fst a) \<and> mset a = mset b) (keycloakGroups x) (keycloakGroups y)"
    and "rel_option (\<lambda>a b. mset a = mset b) (pgGrants x) (pgGrants y)"
  shows "diffState desired x = diffState desired y"
proof -
  have inj: "inj item_key" by (simp add: inj_def item_key_inject)
  have "mset (case keycloakRoles x of None \<Rightarrow> [] | Some r \<Rightarrow> diffKeycloakRoles desired r) =
      mset (case keycloakRoles y of None \<Rightarrow> [] | Some r \<Rightarrow> diffKeycloakRoles desired r)"
    using assms(1) by (cases rule: option.rel_cases) (auto intro: diffKeycloakRoles_mset)
  moreover have "mset (case keycloakGroups x of None \<Rightarrow> [] | Some r \<Rightarrow> diffKeycloakGroups desired r) =
      mset (case keycloakGroups y of None \<Rightarrow> [] | Some r \<Rightarrow> diffKeycloakGroups desired r)"
    using assms(2) by (cases rule: option.rel_cases) (auto intro: diffKeycloakGroups_mset)
  moreover have "mset (case pgGrants x of None \<Rightarrow> [] | Some r \<Rightarrow> diffPgGrants desired r) =
      mset (case pgGrants y of None \<Rightarrow> [] | Some r \<Rightarrow> diffPgGrants desired r)"
    using assms(3) by (cases rule: option.rel_cases) (auto intro: diffPgGrants_mset)
  ultimately have items: "items (diffState desired x) = items (diffState desired y)"
    unfolding diffState_def Let_def drift_report.simps by (intro sort_key_mset_eq [OF inj]) simp
  have "(keycloakRoles x = None) = (keycloakRoles y = None)" "(keycloakGroups x = None) = (keycloakGroups y = None)"
    "(pgGrants x = None) = (pgGrants y = None)"
    using assms by (auto elim: option.rel_cases)
  then have "checked (diffState desired x) = checked (diffState desired y)" by (simp add: diffState_def Let_def)
  then show ?thesis using items by simp
qed

definition sample_artifacts :: artifacts where
  "sample_artifacts = \<lparr>a_keycloak = compileKeycloak sample, a_rego = [], a_pgddl = []\<rparr>"

lemma drift_order_independent_witness:
  "diffState sample_artifacts \<lparr>keycloakRoles = Some [''a'', ''b''], keycloakGroups = Some [(''g'', [''a'']), (''h'', [])], pgGrants = Some [''x'', ''y'']\<rparr> =
   diffState sample_artifacts \<lparr>keycloakRoles = Some [''b'', ''a''], keycloakGroups = Some [(''h'', []), (''g'', [''a''])], pgGrants = Some [''y'', ''x'']\<rparr>"
  by (rule drift_order_independent) simp_all

text \<open>A flaw of the group comparison: the sorted role lists are compared after joining them with commas,
  so an actual group whose only role is named \<open>a,b\<close> is reported as agreeing with a declared group of
  the roles \<open>a\<close> and \<open>b\<close>.\<close>

lemma group_drift_hidden:
  "\<not> groups_agree [\<lparr>kg_name = ''g'', realmRoles = [''a'', ''b'']\<rparr>] [(''g'', [''a,b''])] \<and>
   diffKeycloakGroups \<lparr>a_keycloak = \<lparr>ks_roles = [], ks_groups = [\<lparr>kg_name = ''g'', realmRoles = [''a'', ''b'']\<rparr>]\<rparr>,
     a_rego = [], a_pgddl = []\<rparr> [(''g'', [''a,b''])] = []"
  by (simp add: groups_agree_def diffKeycloakGroups_def sort_key_def)

section \<open>Duplicate group names\<close>

text \<open>Two groups of one name: the first co-holds two conflicting masks, the second holds the role that
  opts out.\<close>

definition twin_grant :: "string \<Rightarrow> mask_kind \<Rightarrow> grant" where
  "twin_grant r k = \<lparr>g_roles = [r], privileges = [Select], columnMask = Some [(''c'', k)], rowFilter = None, allowUnmasked = None\<rparr>"

definition twin_table :: resource where
  "twin_table = \<lparr>resource = ''s.t'', classification = Internal,
     grants = [twin_grant ''a'' Hash, twin_grant ''b'' Partial,
       \<lparr>g_roles = [''u''], privileges = [Select], columnMask = None, rowFilter = None, allowUnmasked = Some True\<rparr>],
     sensitiveColumns = None, engine = None\<rparr>"

definition twin_groups :: decl where
  "twin_groups = \<lparr>d_roles = [\<lparr>r_name = ''a'', r_includes = None\<rparr>, \<lparr>r_name = ''b'', r_includes = None\<rparr>, \<lparr>r_name = ''u'', r_includes = None\<rparr>],
     d_groups = [\<lparr>gr_name = ''team'', gr_roles = [''a'', ''b'']\<rparr>, \<lparr>gr_name = ''team'', gr_roles = [''u'']\<rparr>],
     d_resources = [twin_table], d_catalogGrants = None, d_logins = None\<rparr>"

definition twin_input :: rego_input where
  "twin_input = \<lparr>in_attr = map_of [(column_path ''catalogName'', ''iceberg''), (column_path ''schemaName'', ''s''),
     (column_path ''tableName'', ''t''), (column_path ''columnName'', ''c'')], in_groups = [''a'', ''b'']\<rparr>"

lemma twin_valid: "validateDeclaration twin_groups = []"
  unfolding validateDeclaration_def append_is_Nil_conv by (intro conjI) code_simp+

lemma twin_fires:
  "k \<in> {(''a'', Hash), (''b'', Partial)} \<Longrightarrow> table_origin twin_groups twin_table ''s'' ''t'' (twin_grant (fst k) (snd k)) \<and>
     (''c'', snd k) \<in> set (opt_list (columnMask (twin_grant (fst k) (snd k)))) \<and>
     column_of twin_input ''s'' ''t'' ''c'' \<and> holds_any twin_input (g_roles (twin_grant (fst k) (snd k))) \<and>
     guard_open twin_groups twin_table (twin_grant (fst k) (snd k)) twin_input"
  by (elim insertE emptyE) (hypsubst, code_simp)+

text \<open>A gap in the mask check: group names are not required to differ, and holders are compared by the
  tag \<open>group:<name>\<close>. A declaration with two groups of one name validates although the members of its
  first group get two different values for one mask.\<close>

lemma duplicate_group_conflict:
  "validateDeclaration twin_groups = [] \<and>
   (\<exists>rs. rego_rules twin_groups = Inr rs \<and> declared_token twin_groups (set (in_groups twin_input)) \<and>
      {MASK_EXPR Hash ''c'', MASK_EXPR Partial ''c''} \<subseteq> set (rego_masks rs twin_input)) \<and>
   MASK_EXPR Hash ''c'' \<noteq> MASK_EXPR Partial ''c''"
proof -
  obtain rs where rs: "rego_rules twin_groups = Inr rs"
    using well_formed_rules twin_valid by (metis validateDeclaration_iff)
  have "declared_token twin_groups (set (in_groups twin_input))"
    unfolding declared_token_def
    by (rule disjI2, rule bexI [of _ "\<lparr>gr_name = ''team'', gr_roles = [''a'', ''b'']\<rparr>"]) code_simp+
  moreover have "MASK_EXPR Hash ''c'' \<in> set (rego_masks rs twin_input)"
    unfolding rego_masks_iff [OF rs] using twin_fires [of "(''a'', Hash)"] by fastforce
  moreover have "MASK_EXPR Partial ''c'' \<in> set (rego_masks rs twin_input)"
    unfolding rego_masks_iff [OF rs] using twin_fires [of "(''b'', Partial)"] by fastforce
  ultimately show ?thesis using rs twin_valid by auto
qed

end
