(* ===== verification/SsoStore.thy ===== *)
theory SsoStore
  imports Prelude
begin

text \<open>
  The audit store of SSO change requests: \<open>domain-api/src/store/ssoChangeStore.ts\<close> over the tables of
  \<open>gitops/charts/beluga-platform/files/manager-db/migrations\<close>.

  The database is a record with the rows of \<open>sso_change_requests\<close> and of \<open>sso_change_event\<close>, both in
  order of insertion. A statement or transaction is one function from the database to its result
  and the new database; the advisory lock of \<open>submit\<close> and the row lock of \<open>UPDATE\<close> make them atomic. The
  constraints of the tables (primary key, unique key, the partial unique index on active requests) are
  checked where the database checks them. Time is \<open>now()\<close> in microseconds: \<open>version\<close> is that number, while
  the ISO strings \<open>createdAt\<close> and \<open>updatedAt\<close> are represented by the milliseconds that \<open>Date.parse\<close> reads
  from them.

  What the network may do to a call (\<open>run\<close> turns every driver error into \<open>UNAVAILABLE\<close>, before or after the
  commit) is the relation \<open>db_call\<close>.
\<close>

section \<open>Data\<close>

datatype change_stage = Submitted | PrOpen | UnknownRecovering | Merged | Applied | Rejected | Failed

datatype event_stage = Stage change_stage | Denied | Previewed

definition CHANGE_STAGES :: "change_stage list" where
  "CHANGE_STAGES = [Submitted, PrOpen, UnknownRecovering, Merged, Applied, Rejected, Failed]"

record change_record =
  cr_id :: string
  cr_stage :: change_stage
  filePath :: string
  cr_endpoint :: string
  idempotencyKey :: string
  cr_payloadSha256 :: string
  baseBlobSha :: string
  sourceCommitSha :: string
  cr_patch :: "string list"
  actorSub :: string
  actorUsername :: "string option"
  branch :: string
  prNumber :: "int option"
  prUrl :: "string option"
  mergeCommitSha :: "string option"
  createdAt :: nat
  updatedAt :: nat
  version :: nat

record new_event =
  ne_requestId :: "string option"
  ne_stage :: event_stage
  ne_actorSub :: string
  ne_actorUsername :: "string option"
  ne_endpoint :: "string option"
  ne_idempotencyKey :: "string option"
  ne_baseBlobSha :: "string option"
  ne_payloadSha256 :: "string option"
  ne_prNumber :: "int option"
  ne_prUrl :: "string option"
  ne_mergeCommitSha :: "string option"
  ne_reason :: "string option"
  ne_detail :: "json option"

record submit_input =
  si_filePath :: string
  si_endpoint :: string
  si_idempotencyKey :: string
  si_payloadSha256 :: string
  si_baseBlobSha :: string
  si_sourceCommitSha :: string
  si_allowedGroups :: "string list"
  si_actorSub :: string
  si_actorUsername :: "string option"
  si_branch :: string
  si_reason :: "string option"

record transition_fields =
  tf_prNumber :: "int option"
  tf_prUrl :: "string option"
  tf_mergeCommitSha :: "string option"

record transition_event =
  te_reason :: "string option"
  te_detail :: "json option"
  te_actorSub :: "string option"
  te_actorUsername :: "string option"

definition no_fields :: transition_fields where
  "no_fields = \<lparr>tf_prNumber = None, tf_prUrl = None, tf_mergeCommitSha = None\<rparr>"

definition no_event :: transition_event where
  "no_event = \<lparr>te_reason = None, te_detail = None, te_actorSub = None, te_actorUsername = None\<rparr>"

datatype store_error = OPEN_REQUEST_EXISTS | IDEMPOTENCY_MISMATCH | IDEMPOTENCY_KEY_COLLISION | UNAVAILABLE

definition READY_CACHE_MS :: nat where "READY_CACHE_MS = 5000"

definition ACTIVE_STAGES :: "change_stage list" where
  "ACTIVE_STAGES = [Submitted, PrOpen, UnknownRecovering]"

definition OPEN_STAGES :: "change_stage list" where
  "OPEN_STAGES = ACTIVE_STAGES @ [Merged]"

record request_row =
  rq_id :: string
  rq_stage :: change_stage
  rq_file_path :: string
  rq_endpoint :: string
  rq_idempotency_key :: string
  rq_payload_sha256 :: string
  rq_base_blob_sha :: string
  rq_source_commit_sha :: string
  rq_patch :: "string list"
  rq_actor_sub :: string
  rq_actor_username :: "string option"
  rq_branch :: string
  rq_pr_number :: "int option"
  rq_pr_url :: "string option"
  rq_merge_commit_sha :: "string option"
  rq_created_at :: nat
  rq_updated_at :: nat

record db =
  requests :: "request_row list"
  events :: "new_event list"

definition toRecord :: "request_row \<Rightarrow> change_record" where
  "toRecord row =
     \<lparr>cr_id = rq_id row, cr_stage = rq_stage row, filePath = rq_file_path row, cr_endpoint = rq_endpoint row,
      idempotencyKey = rq_idempotency_key row, cr_payloadSha256 = rq_payload_sha256 row,
      baseBlobSha = rq_base_blob_sha row, sourceCommitSha = rq_source_commit_sha row, cr_patch = rq_patch row,
      actorSub = rq_actor_sub row, actorUsername = rq_actor_username row, branch = rq_branch row,
      prNumber = rq_pr_number row, prUrl = rq_pr_url row, mergeCommitSha = rq_merge_commit_sha row,
      createdAt = rq_created_at row div 1000, updatedAt = rq_updated_at row div 1000,
      version = rq_updated_at row\<rparr>"

section \<open>Reads\<close>

definition select_rows :: "(request_row \<Rightarrow> bool) \<Rightarrow> db \<Rightarrow> request_row list" where
  "select_rows p d = filter p (requests d)"

definition first_record :: "request_row list \<Rightarrow> change_record option" where
  "first_record rows = (case rows of [] \<Rightarrow> None | r # _ \<Rightarrow> Some (toRecord r))"

definition findByKey :: "string \<Rightarrow> db \<Rightarrow> change_record option" where
  "findByKey k d = first_record (select_rows (\<lambda>r. rq_idempotency_key r = k) d)"

definition get_request :: "string \<Rightarrow> db \<Rightarrow> change_record option" where
  "get_request i d = first_record (select_rows (\<lambda>r. rq_id r = i) d)"

definition findByBranch :: "string \<Rightarrow> db \<Rightarrow> change_record option" where
  "findByBranch b d = first_record (select_rows (\<lambda>r. rq_branch r = b) d)"

text \<open>\<open>ORDER BY ... DESC LIMIT n\<close>: descending by a number, ties in an order of the database's choice.\<close>

definition newest_first :: "(request_row \<Rightarrow> nat) \<Rightarrow> request_row list \<Rightarrow> request_row list" where
  "newest_first f rows = rev (sort_key f rows)"

definition listOpen :: "nat \<Rightarrow> db \<Rightarrow> change_record list" where
  "listOpen limit d =
     map toRecord (take limit (newest_first rq_created_at (select_rows (\<lambda>r. rq_stage r \<in> set OPEN_STAGES) d)))"

definition listRecentTerminal :: "nat \<Rightarrow> nat \<Rightarrow> db \<Rightarrow> change_record list" where
  "listRecentTerminal sinceMs limit d =
     map toRecord (take limit (newest_first rq_updated_at
       (select_rows (\<lambda>r. rq_stage r \<in> {Failed, Rejected} \<and> sinceMs * 1000 \<le> rq_updated_at r) d)))"

section \<open>Writes\<close>

definition recordEvent :: "new_event \<Rightarrow> db \<Rightarrow> db" where
  "recordEvent e d = d\<lparr>events := events d @ [e]\<rparr>"

definition is_active :: "change_stage \<Rightarrow> bool" where
  "is_active s \<longleftrightarrow> s \<in> set ACTIVE_STAGES"

text \<open>The partial unique index: does another active row exist for this file?\<close>

definition active_conflict :: "string \<Rightarrow> string \<Rightarrow> db \<Rightarrow> bool" where
  "active_conflict i file d \<longleftrightarrow>
     list_ex (\<lambda>r. rq_id r \<noteq> i \<and> rq_file_path r = file \<and> is_active (rq_stage r)) (requests d)"

definition new_row :: "nat \<Rightarrow> string \<Rightarrow> submit_input \<Rightarrow> request_row" where
  "new_row now uuid input =
     \<lparr>rq_id = uuid, rq_stage = Submitted, rq_file_path = si_filePath input, rq_endpoint = si_endpoint input,
      rq_idempotency_key = si_idempotencyKey input, rq_payload_sha256 = si_payloadSha256 input,
      rq_base_blob_sha = si_baseBlobSha input, rq_source_commit_sha = si_sourceCommitSha input,
      rq_patch = si_allowedGroups input, rq_actor_sub = si_actorSub input,
      rq_actor_username = si_actorUsername input, rq_branch = si_branch input, rq_pr_number = None,
      rq_pr_url = None, rq_merge_commit_sha = None, rq_created_at = now, rq_updated_at = now\<rparr>"

definition submitted_event :: "string \<Rightarrow> submit_input \<Rightarrow> new_event" where
  "submitted_event uuid input =
     \<lparr>ne_requestId = Some uuid, ne_stage = Stage Submitted, ne_actorSub = si_actorSub input,
      ne_actorUsername = si_actorUsername input, ne_endpoint = Some (si_endpoint input),
      ne_idempotencyKey = Some (si_idempotencyKey input), ne_baseBlobSha = Some (si_baseBlobSha input),
      ne_payloadSha256 = Some (si_payloadSha256 input), ne_prNumber = None, ne_prUrl = None,
      ne_mergeCommitSha = None, ne_reason = si_reason input,
      ne_detail = Some (JObj [(''branch'', JStr (si_branch input)),
        (''sourceCommitSha'', JStr (si_sourceCommitSha input)),
        (''allowedGroups'', JArr (map JStr (si_allowedGroups input)))])\<rparr>"

definition submit ::
  "nat \<Rightarrow> string \<Rightarrow> submit_input \<Rightarrow> db \<Rightarrow> (store_error, change_record \<times> bool) res \<times> db" where
  "submit now uuid input d =
     (case select_rows (\<lambda>r. rq_idempotency_key r = si_idempotencyKey input) d of
        found # _ \<Rightarrow>
          if rq_payload_sha256 found \<noteq> si_payloadSha256 input then (Inl IDEMPOTENCY_MISMATCH, d)
          else (Inr (toRecord found, True), d)
      | [] \<Rightarrow>
          if select_rows (\<lambda>r. rq_branch r = si_branch input) d \<noteq> [] then (Inl IDEMPOTENCY_KEY_COLLISION, d)
          else if select_rows (\<lambda>r. rq_file_path r = si_filePath input \<and> rq_stage r \<in> set ACTIVE_STAGES) d \<noteq> []
          then (Inl OPEN_REQUEST_EXISTS, d)
          else if select_rows (\<lambda>r. rq_id r = uuid) d \<noteq> [] then (Inl UNAVAILABLE, d)
          else (Inr (toRecord (new_row now uuid input), False),
                recordEvent (submitted_event uuid input) (d\<lparr>requests := requests d @ [new_row now uuid input]\<rparr>)))"

definition coalesce :: "'a option \<Rightarrow> 'a option \<Rightarrow> 'a option" where
  "coalesce x y = (case x of None \<Rightarrow> y | Some v \<Rightarrow> Some v)"

definition updated_row :: "nat \<Rightarrow> change_stage \<Rightarrow> transition_fields \<Rightarrow> request_row \<Rightarrow> request_row" where
  "updated_row now stage flds row =
     row\<lparr>rq_stage := stage, rq_pr_number := coalesce (tf_prNumber flds) (rq_pr_number row),
       rq_pr_url := coalesce (tf_prUrl flds) (rq_pr_url row),
       rq_merge_commit_sha := coalesce (tf_mergeCommitSha flds) (rq_merge_commit_sha row), rq_updated_at := now\<rparr>"

definition moved_event :: "change_stage \<Rightarrow> transition_event \<Rightarrow> request_row \<Rightarrow> new_event" where
  "moved_event stage ev row =
     \<lparr>ne_requestId = Some (rq_id row), ne_stage = Stage stage,
      ne_actorSub = (case te_actorSub ev of None \<Rightarrow> rq_actor_sub row | Some s \<Rightarrow> s),
      ne_actorUsername = (if te_actorSub ev \<noteq> None then te_actorUsername ev else rq_actor_username row),
      ne_endpoint = Some (rq_endpoint row), ne_idempotencyKey = Some (rq_idempotency_key row),
      ne_baseBlobSha = Some (rq_base_blob_sha row), ne_payloadSha256 = Some (rq_payload_sha256 row),
      ne_prNumber = rq_pr_number row, ne_prUrl = rq_pr_url row, ne_mergeCommitSha = rq_merge_commit_sha row,
      ne_reason = te_reason ev, ne_detail = te_detail ev\<rparr>"

definition cas_matches :: "string \<Rightarrow> change_stage \<Rightarrow> nat option \<Rightarrow> request_row \<Rightarrow> bool" where
  "cas_matches i expected v r \<longleftrightarrow>
     rq_id r = i \<and> rq_stage r = expected \<and> (case v of None \<Rightarrow> True | Some t \<Rightarrow> rq_updated_at r = t)"

definition transition ::
  "nat \<Rightarrow> string \<Rightarrow> change_stage \<Rightarrow> change_stage \<Rightarrow> transition_fields \<Rightarrow> transition_event \<Rightarrow> nat option \<Rightarrow> db
     \<Rightarrow> (store_error, change_record option) res \<times> db" where
  "transition now i expected stage flds ev v d =
     (case select_rows (cas_matches i expected v) d of
        [] \<Rightarrow> (Inr None, d)
      | row # _ \<Rightarrow>
          if is_active stage \<and> active_conflict i (rq_file_path row) d then (Inl UNAVAILABLE, d)
          else (let row' = updated_row now stage flds row
                in (Inr (Some (toRecord row')),
                    recordEvent (moved_event stage ev row')
                      (d\<lparr>requests := map (\<lambda>r. if cas_matches i expected v r then updated_row now stage flds r else r)
                         (requests d)\<rparr>))))"

text \<open>A call through \<open>run\<close>: what the database does, or \<open>UNAVAILABLE\<close> with the work done or not (the
  connection may break before the commit or before its answer arrives).\<close>

inductive db_call :: "(db \<Rightarrow> (store_error, 'a) res \<times> db) \<Rightarrow> db \<Rightarrow> (store_error, 'a) res \<Rightarrow> db \<Rightarrow> bool"
  for f :: "db \<Rightarrow> (store_error, 'a) res \<times> db" and d :: db where
  completed: "f d = (r, d') \<Longrightarrow> db_call f d r d'"
| lost_before: "db_call f d (Inl UNAVAILABLE) d"
| lost_after: "f d = (r, d') \<Longrightarrow> db_call f d (Inl UNAVAILABLE) d'"

inductive_cases db_callE: "db_call f d r d'"

section \<open>Readiness\<close>

record ready_cache =
  rc_known :: bool
  rc_readyAt :: nat
  rc_lastReady :: bool

datatype audit_store_status = StatusOk | StatusUnavailable | StatusUnknown

definition cache_fresh :: "nat \<Rightarrow> ready_cache \<Rightarrow> bool" where
  "cache_fresh now c \<longleftrightarrow> rc_known c \<and> now - rc_readyAt c < READY_CACHE_MS"

text \<open>\<open>probe\<close> asks the database (its answer is the argument \<open>ok\<close>) and caches it at the time it ends.\<close>

definition probe :: "bool \<Rightarrow> nat \<Rightarrow> ready_cache \<Rightarrow> bool \<times> ready_cache" where
  "probe ok ended c = (ok, \<lparr>rc_known = True, rc_readyAt = ended, rc_lastReady = ok\<rparr>)"

definition ready :: "nat \<Rightarrow> bool \<Rightarrow> nat \<Rightarrow> ready_cache \<Rightarrow> bool \<times> ready_cache" where
  "ready now ok ended c = (if cache_fresh now c then (rc_lastReady c, c) else probe ok ended c)"

definition status :: "ready_cache \<Rightarrow> audit_store_status" where
  "status c = (if \<not> rc_known c then StatusUnknown else if rc_lastReady c then StatusOk else StatusUnavailable)"

section \<open>The connection pool\<close>

text \<open>A pool is a number; \<open>source\<close> is the pool that \<open>poolSource\<close> would build, \<open>None\<close> when it throws.\<close>

record store_pool =
  sp_pool :: "nat option"
  poolFingerprint :: "string option"

definition TLS_VERIFICATION_CODES :: "string list" where
  "TLS_VERIFICATION_CODES = [''UNABLE_TO_GET_ISSUER_CERT_LOCALLY'', ''UNABLE_TO_VERIFY_LEAF_SIGNATURE'',
     ''SELF_SIGNED_CERT_IN_CHAIN'', ''DEPTH_ZERO_SELF_SIGNED_CERT'', ''CERT_HAS_EXPIRED'', ''CERT_NOT_YET_VALID'',
     ''ERR_TLS_CERT_ALTNAME_INVALID'']"

definition isTlsVerificationError :: "string option \<Rightarrow> bool" where
  "isTlsVerificationError code = (case code of None \<Rightarrow> False | Some c \<Rightarrow> c \<in> set TLS_VERIFICATION_CODES)"

definition discardPool :: "store_pool \<Rightarrow> store_pool" where
  "discardPool s = s\<lparr>sp_pool := None\<rparr>"

definition getPool :: "string option \<Rightarrow> nat option \<Rightarrow> store_pool \<Rightarrow> (store_error, nat) res \<times> store_pool" where
  "getPool fingerprint source s =
     (let s1 = (if sp_pool s \<noteq> None \<and> fingerprint \<noteq> poolFingerprint s then discardPool s else s)
      in case sp_pool s1 of
           Some p \<Rightarrow> (Inr p, s1)
         | None \<Rightarrow> (case source of
             None \<Rightarrow> (Inl UNAVAILABLE, s1)
           | Some p \<Rightarrow> (Inr p, s1\<lparr>sp_pool := Some p, poolFingerprint := fingerprint\<rparr>)))"

text \<open>What the work on a pool may throw: an error of the store itself, or of the driver with its \<open>code\<close>.\<close>

datatype work_error = Own store_error | Driver "string option"

definition run_store ::
  "string option \<Rightarrow> nat option \<Rightarrow> (nat \<Rightarrow> (work_error, 'a) res) \<Rightarrow> store_pool \<Rightarrow> (store_error, 'a) res \<times> store_pool" where
  "run_store fingerprint source fn s =
     (case getPool fingerprint source s of
        (Inl e, s1) \<Rightarrow> (Inl e, s1)
      | (Inr p, s1) \<Rightarrow>
          (case fn p of
             Inr v \<Rightarrow> (Inr v, s1)
           | Inl (Own e) \<Rightarrow> (Inl e, s1)
           | Inl (Driver code) \<Rightarrow> (Inl UNAVAILABLE, if isTlsVerificationError code then discardPool s1 else s1)))"

text \<open>Work never runs on a pool that was built under another trust anchor.\<close>

lemma getPool_current:
  "getPool fingerprint source s = (Inr p, s') \<Longrightarrow> sp_pool s' = Some p \<and> poolFingerprint s' = fingerprint"
  by (auto simp: getPool_def Let_def discardPool_def split: option.splits if_splits)

section \<open>Invariant of the tables\<close>

definition one_active_per_file :: "db \<Rightarrow> bool" where
  "one_active_per_file d \<longleftrightarrow>
     list_all (\<lambda>r. list_all (\<lambda>s. is_active (rq_stage r) \<and> is_active (rq_stage s)
       \<and> rq_file_path r = rq_file_path s \<longrightarrow> rq_id r = rq_id s) (requests d)) (requests d)"

definition db_inv :: "db \<Rightarrow> bool" where
  "db_inv d \<longleftrightarrow> distinct (map rq_id (requests d)) \<and> distinct (map rq_idempotency_key (requests d))
     \<and> distinct (map rq_branch (requests d)) \<and> one_active_per_file d"

definition empty_db :: db where
  "empty_db = \<lparr>requests = [], events = []\<rparr>"

lemma db_inv_empty [simp]: "db_inv empty_db"
  by (simp add: db_inv_def one_active_per_file_def empty_db_def)

lemma one_active_iff:
  "one_active_per_file d \<longleftrightarrow> (\<forall>r \<in> set (requests d). \<forall>s \<in> set (requests d).
     is_active (rq_stage r) \<longrightarrow> is_active (rq_stage s) \<longrightarrow> rq_file_path r = rq_file_path s \<longrightarrow> rq_id r = rq_id s)"
  by (auto simp: one_active_per_file_def list_all_iff)

lemma requests_recordEvent [simp]: "requests (recordEvent e d) = requests d"
  by (simp add: recordEvent_def)

lemma events_recordEvent [simp]: "events (recordEvent e d) = events d @ [e]"
  by (simp add: recordEvent_def)

lemma db_inv_requests: "requests d' = requests d \<Longrightarrow> db_inv d' \<longleftrightarrow> db_inv d"
  by (simp add: db_inv_def one_active_per_file_def)

lemma recordEvent_inv [simp]: "db_inv (recordEvent e d) \<longleftrightarrow> db_inv d"
  by (rule db_inv_requests) simp

lemma new_row_simps [simp]:
  "rq_id (new_row now u i) = u" "rq_stage (new_row now u i) = Submitted"
  "rq_file_path (new_row now u i) = si_filePath i" "rq_idempotency_key (new_row now u i) = si_idempotencyKey i"
  "rq_branch (new_row now u i) = si_branch i" "rq_payload_sha256 (new_row now u i) = si_payloadSha256 i"
  "rq_pr_number (new_row now u i) = None" "rq_updated_at (new_row now u i) = now"
  "rq_created_at (new_row now u i) = now"
  by (simp_all add: new_row_def)

lemma updated_row_simps [simp]:
  "rq_id (updated_row now s f r) = rq_id r" "rq_stage (updated_row now s f r) = s"
  "rq_file_path (updated_row now s f r) = rq_file_path r"
  "rq_idempotency_key (updated_row now s f r) = rq_idempotency_key r"
  "rq_branch (updated_row now s f r) = rq_branch r" "rq_payload_sha256 (updated_row now s f r) = rq_payload_sha256 r"
  "rq_updated_at (updated_row now s f r) = now" "rq_created_at (updated_row now s f r) = rq_created_at r"
  "rq_pr_number (updated_row now s f r) = coalesce (tf_prNumber f) (rq_pr_number r)"
  by (simp_all add: updated_row_def)

lemma toRecord_simps [simp]:
  "cr_id (toRecord r) = rq_id r" "cr_stage (toRecord r) = rq_stage r" "branch (toRecord r) = rq_branch r"
  "idempotencyKey (toRecord r) = rq_idempotency_key r" "version (toRecord r) = rq_updated_at r"
  "cr_payloadSha256 (toRecord r) = rq_payload_sha256 r" "filePath (toRecord r) = rq_file_path r"
  "updatedAt (toRecord r) = rq_updated_at r div 1000" "createdAt (toRecord r) = rq_created_at r div 1000"
  "prNumber (toRecord r) = rq_pr_number r" "mergeCommitSha (toRecord r) = rq_merge_commit_sha r"
  by (simp_all add: toRecord_def)

lemma select_rows_Nil_iff: "select_rows p d = [] \<longleftrightarrow> (\<forall>r \<in> set (requests d). \<not> p r)"
  by (simp add: select_rows_def filter_empty_conv)

lemma select_rows_ConsD: "select_rows p d = r # rs \<Longrightarrow> r \<in> set (requests d) \<and> p r"
  by (drule arg_cong [where f = set]) (auto simp: select_rows_def)

lemma row_by_id:
  "db_inv d \<Longrightarrow> r \<in> set (requests d) \<Longrightarrow> s \<in> set (requests d) \<Longrightarrow> rq_id r = rq_id s \<Longrightarrow> r = s"
  by (auto simp: db_inv_def distinct_map inj_on_def)

lemma filter_inj:
  "distinct (map f xs) \<Longrightarrow> r \<in> set xs \<Longrightarrow> filter (\<lambda>x. f x = f r) xs = [r]"
  by (induction xs) (auto simp: filter_empty_conv image_iff dest: sym)

lemma select_by_inj:
  "distinct (map f (requests d)) \<Longrightarrow> r \<in> set (requests d) \<Longrightarrow> select_rows (\<lambda>x. f x = f r) d = [r]"
  by (simp add: select_rows_def filter_inj)

subsection \<open>What \<open>submit\<close> does\<close>

text \<open>The five outcomes, in the order the transaction decides them.\<close>

lemma submit_cases:
  obtains (replay) row where "row \<in> set (requests d)" "rq_idempotency_key row = si_idempotencyKey input"
      "rq_payload_sha256 row = si_payloadSha256 input" "submit now u input d = (Inr (toRecord row, True), d)"
    | (mismatch) row where "row \<in> set (requests d)" "rq_idempotency_key row = si_idempotencyKey input"
      "rq_payload_sha256 row \<noteq> si_payloadSha256 input" "submit now u input d = (Inl IDEMPOTENCY_MISMATCH, d)"
    | (refused) e where "\<forall>row \<in> set (requests d). rq_idempotency_key row \<noteq> si_idempotencyKey input"
      "e \<in> {IDEMPOTENCY_KEY_COLLISION, OPEN_REQUEST_EXISTS, UNAVAILABLE}" "submit now u input d = (Inl e, d)"
    | (inserted) "\<forall>row \<in> set (requests d). rq_idempotency_key row \<noteq> si_idempotencyKey input"
      "\<forall>row \<in> set (requests d). rq_branch row \<noteq> si_branch input"
      "\<forall>row \<in> set (requests d). rq_file_path row = si_filePath input \<longrightarrow> \<not> is_active (rq_stage row)"
      "\<forall>row \<in> set (requests d). rq_id row \<noteq> u"
      "submit now u input d = (Inr (toRecord (new_row now u input), False),
         recordEvent (submitted_event u input) (d\<lparr>requests := requests d @ [new_row now u input]\<rparr>))"
proof (cases "select_rows (\<lambda>r. rq_idempotency_key r = si_idempotencyKey input) d")
  case (Cons row rest)
  with select_rows_ConsD [OF Cons] that(1,2) show thesis
    by (cases "rq_payload_sha256 row = si_payloadSha256 input") (auto simp: submit_def)
next
  case Nil
  then have fresh: "\<forall>row \<in> set (requests d). rq_idempotency_key row \<noteq> si_idempotencyKey input"
    by (simp add: select_rows_Nil_iff)
  show thesis
  proof (cases "select_rows (\<lambda>r. rq_branch r = si_branch input) d = []
      \<and> select_rows (\<lambda>r. rq_file_path r = si_filePath input \<and> rq_stage r \<in> set ACTIVE_STAGES) d = []
      \<and> select_rows (\<lambda>r. rq_id r = u) d = []")
    case True
    then show thesis using Nil fresh
      by (intro that(4)) (auto simp: submit_def, auto simp: select_rows_Nil_iff is_active_def)
  next
    case False
    then show thesis using Nil fresh
      by (intro that(3) [of "if select_rows (\<lambda>r. rq_branch r = si_branch input) d \<noteq> [] then IDEMPOTENCY_KEY_COLLISION
        else if select_rows (\<lambda>r. rq_file_path r = si_filePath input \<and> rq_stage r \<in> set ACTIVE_STAGES) d \<noteq> []
        then OPEN_REQUEST_EXISTS else UNAVAILABLE"]) (simp_all add: submit_def)
  qed
qed

lemma one_activeD:
  "one_active_per_file d \<Longrightarrow> r \<in> set (requests d) \<Longrightarrow> s \<in> set (requests d) \<Longrightarrow> is_active (rq_stage r)
     \<Longrightarrow> is_active (rq_stage s) \<Longrightarrow> rq_file_path r = rq_file_path s \<Longrightarrow> rq_id r = rq_id s"
  unfolding one_active_iff by blast

lemma one_active_changeI:
  assumes old: "one_active_per_file d" and rows: "set (requests d') \<subseteq> insert n (set (requests d))"
    and free: "\<And>x. x \<in> set (requests d') \<Longrightarrow> x \<noteq> n \<Longrightarrow> is_active (rq_stage n) \<Longrightarrow> is_active (rq_stage x)
      \<Longrightarrow> rq_file_path x \<noteq> rq_file_path n"
  shows "one_active_per_file d'"
  unfolding one_active_iff
proof (intro ballI impI)
  fix x y
  assume xy: "x \<in> set (requests d')" "y \<in> set (requests d')" "is_active (rq_stage x)" "is_active (rq_stage y)"
    "rq_file_path x = rq_file_path y"
  consider "x = n" "y = n" | "x = n" "y \<noteq> n" | "x \<noteq> n" "y = n" | "x \<noteq> n" "y \<noteq> n" by blast
  then show "rq_id x = rq_id y"
  proof cases
    case 2 then show ?thesis using free [of y] xy by simp
  next
    case 3 then show ?thesis using free [of x] xy by simp
  next
    case 4 then show ?thesis using one_activeD [OF old _ _ xy(3-5)] rows xy(1,2) by blast
  qed simp
qed

lemma db_inv_snoc:
  assumes inv: "db_inv d"
    and fresh: "rq_idempotency_key r \<notin> rq_idempotency_key ` set (requests d)"
      "rq_branch r \<notin> rq_branch ` set (requests d)" "rq_id r \<notin> rq_id ` set (requests d)"
    and free: "\<forall>x \<in> set (requests d). rq_file_path x = rq_file_path r \<longrightarrow> \<not> is_active (rq_stage x)"
  shows "db_inv (d\<lparr>requests := requests d @ [r]\<rparr>)"
proof -
  have "one_active_per_file (d\<lparr>requests := requests d @ [r]\<rparr>)"
    by (rule one_active_changeI [where d = d and n = r]) (use inv free in \<open>auto simp: db_inv_def\<close>)
  then show ?thesis using inv fresh by (simp add: db_inv_def)
qed

lemma submit_inv: "db_inv d \<Longrightarrow> db_inv (snd (submit now u input d))"
proof (cases rule: submit_cases [where d = d and input = input and now = now and u = u])
  assume inv: "db_inv d"
  case inserted
  then have "db_inv (d\<lparr>requests := requests d @ [new_row now u input]\<rparr>)"
    by (intro db_inv_snoc inv) auto
  then show ?thesis by (simp add: inserted(5))
qed auto

lemma submit_error_unchanged: "submit now u input d = (Inl e, d') \<Longrightarrow> d' = d"
  by (cases rule: submit_cases [where d = d and input = input and now = now and u = u]) auto

lemma submit_row:
  assumes "submit now u input d = (Inr (c, replay), d')"
  shows "\<exists>row \<in> set (requests d'). c = toRecord row \<and> rq_idempotency_key row = si_idempotencyKey input
    \<and> (\<not> replay \<longrightarrow> rq_branch row = si_branch input \<and> rq_stage row = Submitted)"
proof (cases rule: submit_cases [where d = d and input = input and now = now and u = u])
  case inserted
  then have "requests d' = requests d @ [new_row now u input]" "c = toRecord (new_row now u input)"
    using assms by auto
  then show ?thesis by simp
qed (use assms in auto)

lemma submit_replay_iff:
  assumes "db_inv d" "row \<in> set (requests d)" "rq_idempotency_key row = si_idempotencyKey input"
  shows "submit now u input d =
    (if rq_payload_sha256 row = si_payloadSha256 input then Inr (toRecord row, True) else Inl IDEMPOTENCY_MISMATCH, d)"
proof -
  have "select_rows (\<lambda>r. rq_idempotency_key r = rq_idempotency_key row) d = [row]"
    using assms by (intro select_by_inj) (auto simp: db_inv_def)
  then show ?thesis using assms(3) by (simp add: submit_def)
qed

subsection \<open>What \<open>transition\<close> does\<close>

lemma transition_cases:
  assumes "db_inv d"
  obtains (lost) "\<forall>r \<in> set (requests d). \<not> cas_matches i expected v r" "transition now i expected stage flds ev v d = (Inr None, d)"
    | (backstop) row where "row \<in> set (requests d)" "cas_matches i expected v row" "is_active stage"
      "active_conflict i (rq_file_path row) d" "transition now i expected stage flds ev v d = (Inl UNAVAILABLE, d)"
    | (moved) row pre post where "requests d = pre @ row # post" "cas_matches i expected v row"
      "is_active stage \<longrightarrow> \<not> active_conflict i (rq_file_path row) d"
      "transition now i expected stage flds ev v d =
         (Inr (Some (toRecord (updated_row now stage flds row))),
          recordEvent (moved_event stage ev (updated_row now stage flds row))
            (d\<lparr>requests := pre @ updated_row now stage flds row # post\<rparr>))"
proof (cases "select_rows (cas_matches i expected v) d")
  case Nil
  then show thesis by (intro that(1)) (simp_all add: transition_def, simp add: select_rows_Nil_iff)
next
  case (Cons row rest)
  note row = select_rows_ConsD [OF Cons]
  obtain pre post where split: "requests d = pre @ row # post" using row by (meson split_list)
  have only: "\<not> cas_matches i expected v r" if "r \<in> set pre \<union> set post" for r
    using that row split assms by (auto simp: cas_matches_def db_inv_def image_iff)
  have keep: "map (\<lambda>r. if cas_matches i expected v r then updated_row now stage flds r else r) xs = xs"
    if "set xs \<subseteq> set pre \<union> set post" for xs
    using that only by (intro map_idI) auto
  show thesis
  proof (cases "is_active stage \<and> active_conflict i (rq_file_path row) d")
    case True
    then show thesis using row Cons by (intro that(2) [of row]) (simp_all add: transition_def)
  next
    case False
    then show thesis using that(3) [OF split] row Cons keep [of pre] keep [of post]
      by (auto simp: transition_def split Let_def)
  qed
qed

lemma transition_inv:
  assumes inv: "db_inv d"
  shows "db_inv (snd (transition now i expected stage flds ev v d))"
  using inv
proof (cases rule: transition_cases [where i = i and expected = expected and v = v and now = now and stage = stage
      and flds = flds and ev = ev])
  case (moved row pre post)
  have "rq_id row = i" using moved(2) by (simp add: cas_matches_def)
  then have free: "\<forall>r \<in> set pre \<union> set post. is_active stage \<longrightarrow> is_active (rq_stage r) \<longrightarrow> rq_file_path r \<noteq> rq_file_path row"
    using inv moved(1,3) by (fastforce simp: active_conflict_def list_ex_iff db_inv_def image_iff)
  have "one_active_per_file (d\<lparr>requests := pre @ updated_row now stage flds row # post\<rparr>)"
    by (rule one_active_changeI [where d = d and n = "updated_row now stage flds row"])
      (use inv free moved(1) in \<open>auto simp: db_inv_def\<close>)
  then have "db_inv (d\<lparr>requests := pre @ updated_row now stage flds row # post\<rparr>)"
    using inv moved(1) by (simp add: db_inv_def)
  then show ?thesis by (simp add: moved(4))
qed (use inv in auto)

lemma transition_row:
  assumes "db_inv d" "transition now i expected stage flds ev v d = (Inr (Some c), d')"
  shows "\<exists>row \<in> set (requests d'). c = toRecord row \<and> rq_id row = i \<and> rq_stage row = stage"
  using assms(1)
proof (cases rule: transition_cases [where i = i and expected = expected and v = v and now = now and stage = stage
      and flds = flds and ev = ev])
  case (moved row pre post)
  then have "requests d' = pre @ updated_row now stage flds row # post" "c = toRecord (updated_row now stage flds row)"
    using assms(2) by auto
  then show ?thesis using moved(2) by (simp add: cas_matches_def)
qed (use assms(2) in auto)

subsection \<open>The store as a transition system\<close>

text \<open>What one call can do to the tables, abstracting from which call it is: nothing, append an event, insert
  a fresh \<open>submitted\<close> row with its event, or move one row along the relation \<open>L\<close> with its event.\<close>

inductive db_step :: "(change_stage \<Rightarrow> change_stage \<Rightarrow> bool) \<Rightarrow> db \<Rightarrow> db \<Rightarrow> bool"
  for L :: "change_stage \<Rightarrow> change_stage \<Rightarrow> bool" and d :: db where
  idle: "db_step L d d"
| audit: "db_step L d (recordEvent e d)"
| create: "db_inv (d\<lparr>requests := requests d @ [new_row now u input]\<rparr>) \<Longrightarrow>
    db_step L d (recordEvent (submitted_event u input) (d\<lparr>requests := requests d @ [new_row now u input]\<rparr>))"
| move: "requests d = pre @ row # post \<Longrightarrow> L (rq_stage row) stage \<Longrightarrow>
    db_inv (d\<lparr>requests := pre @ updated_row now stage flds row # post\<rparr>) \<Longrightarrow>
    db_step L d (recordEvent (moved_event stage ev (updated_row now stage flds row))
      (d\<lparr>requests := pre @ updated_row now stage flds row # post\<rparr>))"

inductive_cases db_stepE: "db_step L d d'"

lemma db_step_inv: "db_step L d d' \<Longrightarrow> db_inv d \<Longrightarrow> db_inv d'"
  by (erule db_stepE) auto

lemma submit_db_step: "db_inv d \<Longrightarrow> db_step L d (snd (submit now u input d))"
proof (cases rule: submit_cases [where d = d and input = input and now = now and u = u])
  assume inv: "db_inv d"
  case inserted
  then show ?thesis using submit_inv [OF inv, of now u input] by (simp add: db_step.create)
qed (auto intro: db_step.idle)

lemma transition_db_step:
  assumes inv: "db_inv d" and L: "L expected stage"
  shows "db_step L d (snd (transition now i expected stage flds ev v d))"
  using inv
proof (cases rule: transition_cases [where i = i and expected = expected and v = v and now = now and stage = stage
      and flds = flds and ev = ev])
  case (moved row pre post)
  then show ?thesis using transition_inv [OF inv, of now i expected stage flds ev v] L
    by (auto simp: cas_matches_def intro!: db_step.move)
qed (auto intro: db_step.idle)

lemma db_call_step:
  assumes "db_call f d r d'" "db_step L d (snd (f d))"
  shows "db_step L d d'"
  using assms(1) by (rule db_callE) (use assms(2) in \<open>auto intro: db_step.idle\<close>)

lemma db_step_events: "db_step L d d' \<Longrightarrow> \<exists>new. events d' = events d @ new"
  by (erule db_stepE) auto

text \<open>The stage of every request, its submission and its pull request number are on the audit log.\<close>

definition logged :: "new_event list \<Rightarrow> string \<Rightarrow> (new_event \<Rightarrow> bool) \<Rightarrow> bool" where
  "logged es i p \<longleftrightarrow> list_ex (\<lambda>e. ne_requestId e = Some i \<and> p e) es"

definition row_audited :: "new_event list \<Rightarrow> request_row \<Rightarrow> bool" where
  "row_audited es r \<longleftrightarrow>
     logged es (rq_id r) (\<lambda>e. ne_stage e = Stage (rq_stage r)) \<and> logged es (rq_id r) (\<lambda>e. ne_stage e = Stage Submitted)
     \<and> (rq_pr_number r \<noteq> None \<longrightarrow> logged es (rq_id r) (\<lambda>e. ne_prNumber e = rq_pr_number r))"

definition audited :: "db \<Rightarrow> bool" where
  "audited d \<longleftrightarrow> list_all (row_audited (events d)) (requests d)"

lemma logged_append [simp]: "logged (es @ fs) i p \<longleftrightarrow> logged es i p \<or> logged fs i p"
  by (simp add: logged_def)

lemma logged_single [simp]: "logged [e] i p \<longleftrightarrow> ne_requestId e = Some i \<and> p e"
  by (simp add: logged_def)

lemma row_audited_append: "row_audited es r \<Longrightarrow> row_audited (es @ fs) r"
  by (auto simp: row_audited_def)

lemma event_simps [simp]:
  "ne_requestId (submitted_event u input) = Some u" "ne_stage (submitted_event u input) = Stage Submitted"
  "ne_requestId (moved_event stage ev row) = Some (rq_id row)" "ne_stage (moved_event stage ev row) = Stage stage"
  "ne_prNumber (moved_event stage ev row) = rq_pr_number row"
  by (simp_all add: submitted_event_def moved_event_def)

lemma audited_step: "db_step L d d' \<Longrightarrow> audited d \<Longrightarrow> audited d'"
proof (erule db_stepE)
  fix pre row post stage now flds ev
  assume d: "audited d" "requests d = pre @ row # post"
    "d' = recordEvent (moved_event stage ev (updated_row now stage flds row)) (d\<lparr>requests := pre @ updated_row now stage flds row # post\<rparr>)"
  then have "row_audited (events d') (updated_row now stage flds row)"
    by (auto simp: audited_def row_audited_def)
  then show "audited d'" using d by (auto simp: audited_def list_all_iff intro: row_audited_append)
next
  fix now u input
  assume d: "audited d"
    "d' = recordEvent (submitted_event u input) (d\<lparr>requests := requests d @ [new_row now u input]\<rparr>)"
  then have "row_audited (events d') (new_row now u input)" by (simp add: row_audited_def)
  then show "audited d'" using d by (auto simp: audited_def list_all_iff intro: row_audited_append)
qed (auto simp: audited_def list_all_iff intro: row_audited_append)

lemma audited_empty [simp]: "audited empty_db"
  by (simp add: audited_def empty_db_def)

end
