(* ===== verification/SsoSchema.thy ===== *)
theory SsoSchema
  imports Grammar "HOL-Library.Monad_Syntax"
begin

text \<open>
  The declarative SSO file: \<open>domain-api/src/schema/sso.ts\<close>.

  A zod schema is a function from a parsed value to the typed value, \<open>None\<close> when the schema has an issue; a
  \<open>superRefine\<close> is the list of the issues it adds. \<open>new URL\<close> is a parameter: the parts of a URL that the schemas
  look at, or \<open>None\<close> when the constructor throws.
\<close>

section \<open>Names, hosts and URLs\<close>

definition is_alnum :: "char \<Rightarrow> bool" where
  "is_alnum c \<longleftrightarrow> is_alpha c \<or> is_digit c"

definition labelRegex :: "string \<Rightarrow> bool" where
  "labelRegex l \<longleftrightarrow> l \<noteq> [] \<and> length l \<le> 63 \<and> is_alnum (hd l) \<and> is_alnum (last l)
     \<and> list_all (\<lambda>c. is_alnum c \<or> c = CHR ''-'') l"

definition isValidDnsName :: "string \<Rightarrow> bool" where
  "isValidDnsName val \<longleftrightarrow> js_length val \<noteq> 0 \<and> js_length val \<le> 253 \<and> list_all labelRegex (split_on (CHR ''.'') val)"

record url =
  protocol :: string
  hostname :: string
  url_host :: string
  pathname :: string

definition dnsHostSchema :: "string \<Rightarrow> bool" where
  "dnsHostSchema s \<longleftrightarrow> 1 \<le> js_length s \<and> js_length s \<le> 253 \<and> isValidDnsName s"

definition httpsUrlSchema :: "(string \<Rightarrow> url option) \<Rightarrow> string \<Rightarrow> bool" where
  "httpsUrlSchema parse_url s \<longleftrightarrow> (case parse_url s of None \<Rightarrow> False | Some u \<Rightarrow> protocol u = ''https:'')"

definition pathPrefixSchema :: "string \<Rightarrow> bool" where
  "pathPrefixSchema p \<longleftrightarrow> starts_with ''/'' p"

definition redirectPathSchema :: "string \<Rightarrow> bool" where
  "redirectPathSchema p \<longleftrightarrow> p = [] \<or> starts_with ''/'' p"

definition logoutPathSchema :: "string \<Rightarrow> bool" where
  "logoutPathSchema p \<longleftrightarrow> p = [] \<or> starts_with ''/'' p"

definition allowedGroupSchema :: "string \<Rightarrow> bool" where
  "allowedGroupSchema s \<longleftrightarrow> s \<noteq> [] \<and> list_all (\<lambda>c. is_lower c \<or> is_digit c \<or> c = CHR ''-'') s"

section \<open>Endpoints\<close>

datatype sso_mode = GatewayOidc | AppOidc | NoSso

fun mode_name :: "sso_mode \<Rightarrow> string" where
  "mode_name GatewayOidc = ''gateway-oidc''"
| "mode_name AppOidc = ''app-oidc''"
| "mode_name NoSso = ''none''"

definition ssoEndpointModeSchema :: "string \<Rightarrow> sso_mode option" where
  "ssoEndpointModeSchema s =
     (if s = ''gateway-oidc'' then Some GatewayOidc else if s = ''app-oidc'' then Some AppOidc
      else if s = ''none'' then Some NoSso else None)"

record sso_endpoint =
  ep_name :: string
  ep_host :: string
  ep_mode :: sso_mode
  clientId :: string
  protectedPathPrefixes :: "string list"
  bypassPathPrefixes :: "string list"
  redirectPath :: string
  logoutPath :: "string option"
  allowedGroups :: "string list option"

definition strict_keys :: "string list \<Rightarrow> (string \<times> json) list \<Rightarrow> bool" where
  "strict_keys ks entries \<longleftrightarrow> list_all (\<lambda>e. fst e \<in> set ks) entries"

definition ENDPOINT_KEYS :: "string list" where
  "ENDPOINT_KEYS = [''name'', ''host'', ''mode'', ''clientId'', ''protectedPathPrefixes'', ''bypassPathPrefixes'',
     ''redirectPath'', ''logoutPath'', ''allowedGroups'']"

definition checked_str :: "(string \<Rightarrow> bool) \<Rightarrow> json \<Rightarrow> string option" where
  "checked_str p j = (case json_str j of None \<Rightarrow> None | Some s \<Rightarrow> if p s then Some s else None)"

definition checked_list :: "(string \<Rightarrow> bool) \<Rightarrow> json \<Rightarrow> string list option" where
  "checked_list p j = Option.bind (json_arr j) (opt_map_list (checked_str p))"

text \<open>\<open>.optional()\<close>: a missing key is fine, a present one is checked.\<close>

definition optional :: "(json \<Rightarrow> 'a option) \<Rightarrow> json option \<Rightarrow> 'a option option" where
  "optional f j = (case j of None \<Rightarrow> Some None | Some v \<Rightarrow> map_option Some (f v))"

definition required :: "(json \<Rightarrow> 'a option) \<Rightarrow> json option \<Rightarrow> 'a option" where
  "required f j = Option.bind j f"

definition rawSsoEndpointSchema :: "json \<Rightarrow> sso_endpoint option" where
  "rawSsoEndpointSchema j =
     (case j of
        JObj o1 \<Rightarrow> if \<not> strict_keys ENDPOINT_KEYS o1 then None else do {
          name \<leftarrow> required (checked_str (\<lambda>s. 1 \<le> js_length s)) (json_field j ''name'');
          host \<leftarrow> required (checked_str dnsHostSchema) (json_field j ''host'');
          mode \<leftarrow> required (\<lambda>v. Option.bind (json_str v) ssoEndpointModeSchema) (json_field j ''mode'');
          client \<leftarrow> required json_str (json_field j ''clientId'');
          protect \<leftarrow> required (checked_list pathPrefixSchema) (json_field j ''protectedPathPrefixes'');
          bypass \<leftarrow> required (checked_list pathPrefixSchema) (json_field j ''bypassPathPrefixes'');
          redirect \<leftarrow> required (checked_str redirectPathSchema) (json_field j ''redirectPath'');
          logout \<leftarrow> optional (checked_str logoutPathSchema) (json_field j ''logoutPath'');
          groups \<leftarrow> optional (checked_list allowedGroupSchema) (json_field j ''allowedGroups'');
          Some \<lparr>ep_name = name, ep_host = host, ep_mode = mode, clientId = client,
            protectedPathPrefixes = protect, bypassPathPrefixes = bypass, redirectPath = redirect,
            logoutPath = logout, allowedGroups = groups\<rparr> }
      | _ \<Rightarrow> None)"

type_synonym issue = "string list \<times> string"

text \<open>\<open>!s || s.trim() === ""\<close>: only white space, in the sense of JavaScript.\<close>

definition blank :: "string \<Rightarrow> bool" where
  "blank s \<longleftrightarrow> rx_test spaces s"

definition quoted :: "string \<Rightarrow> string" where
  "quoted s = ''\"'' @ s @ ''\"''"

definition group_issues :: "sso_endpoint \<Rightarrow> string list \<Rightarrow> issue list" where
  "group_issues ep gs =
     (if ep_mode ep \<noteq> GatewayOidc
      then [([''allowedGroups''], ''Endpoint '' @ quoted (ep_name ep) @ '' with mode '' @ quoted (mode_name (ep_mode ep))
        @ '' must not set allowedGroups (gateway-oidc only)'')]
      else if gs = []
      then [([''allowedGroups''], ''Endpoint '' @ quoted (ep_name ep) @
        '' allowedGroups must not be empty (omit the field for no group check)'')]
      else (if length (js_set gs) \<noteq> length gs
            then [([''allowedGroups''], ''Endpoint '' @ quoted (ep_name ep) @ '' allowedGroups must not contain duplicates'')]
            else [])
        @ (if ''admins'' \<notin> set gs
           then [([''allowedGroups''], ''Endpoint '' @ quoted (ep_name ep) @ '' allowedGroups must include '' @ quoted ''admins''
             @ '' (anti lock-out)'')]
           else []))"

definition endpoint_issues :: "sso_endpoint \<Rightarrow> issue list" where
  "endpoint_issues ep =
     (if (ep_mode ep = GatewayOidc \<or> ep_mode ep = AppOidc) \<and> blank (clientId ep)
      then [([''clientId''], ''Endpoint '' @ quoted (ep_name ep) @ '' with mode '' @ quoted (mode_name (ep_mode ep)) @
        '' must have a non-empty clientId'')] else [])
     @ (case allowedGroups ep of None \<Rightarrow> [] | Some gs \<Rightarrow> group_issues ep gs)
     @ (if ep_mode ep = GatewayOidc
        then (if protectedPathPrefixes ep = []
              then [([''protectedPathPrefixes''], ''Gateway-OIDC endpoint '' @ quoted (ep_name ep) @
                '' must have non-empty protectedPathPrefixes'')] else [])
          @ (if blank (redirectPath ep)
             then [([''redirectPath''], ''Gateway-OIDC endpoint '' @ quoted (ep_name ep) @
               '' must have a non-empty redirectPath'')] else [])
          @ (case logoutPath ep of
               Some p \<Rightarrow> if blank p then [([''logoutPath''], ''Gateway-OIDC endpoint '' @ quoted (ep_name ep) @
                 '' must have a non-empty logoutPath'')] else []
             | None \<Rightarrow> [([''logoutPath''], ''Gateway-OIDC endpoint '' @ quoted (ep_name ep) @
                 '' must have a non-empty logoutPath'')])
        else [])"

definition ssoEndpointSchema :: "sso_endpoint \<Rightarrow> bool" where
  "ssoEndpointSchema ep \<longleftrightarrow>
     1 \<le> js_length (ep_name ep) \<and> dnsHostSchema (ep_host ep)
     \<and> list_all pathPrefixSchema (protectedPathPrefixes ep) \<and> list_all pathPrefixSchema (bypassPathPrefixes ep)
     \<and> redirectPathSchema (redirectPath ep) \<and> (case logoutPath ep of None \<Rightarrow> True | Some p \<Rightarrow> logoutPathSchema p)
     \<and> list_all allowedGroupSchema (opt_list (allowedGroups ep)) \<and> endpoint_issues ep = []"

section \<open>The configuration\<close>

record sso_config =
  realm :: string
  issuerHost :: string
  issuer :: string
  endpoints :: "sso_endpoint list"

record raw_sso =
  raw_realm :: string
  raw_issuerHost :: string
  raw_issuer :: "string option"
  raw_endpoints :: "sso_endpoint list"

definition strip_slashes :: "string \<Rightarrow> string" where
  "strip_slashes s = rev (dropWhile (\<lambda>c. c = CHR ''/'') (rev s))"

definition issuer_issues :: "(string \<Rightarrow> url option) \<Rightarrow> sso_config \<Rightarrow> issue list" where
  "issuer_issues parse_url c =
     (case parse_url (issuer c) of
        None \<Rightarrow> []
      | Some u \<Rightarrow>
          (if hostname u \<noteq> issuerHost c \<and> url_host u \<noteq> issuerHost c
           then [([''issuer''], ''Issuer host '' @ quoted (url_host u) @ '' does not match issuerHost '' @ quoted (issuerHost c))]
           else [])
          @ (let expectedPath = ''/realms/'' @ realm c in
             if pathname u \<noteq> expectedPath \<and> strip_slashes (pathname u) \<noteq> expectedPath
             then [([''issuer''], ''Issuer path '' @ quoted (pathname u) @ '' does not match expected path '' @ quoted expectedPath)]
             else []))"

fun duplicate_issues :: "nat \<Rightarrow> string list \<Rightarrow> sso_endpoint list \<Rightarrow> issue list" where
  "duplicate_issues i seen [] = []"
| "duplicate_issues i seen (ep # eps) =
     (if ep_name ep \<in> set seen
      then ([''endpoints'', show_nat i, ''name''], ''Duplicate endpoint name '' @ quoted (ep_name ep)) # duplicate_issues (i + 1) seen eps
      else duplicate_issues (i + 1) (ep_name ep # seen) eps)"

definition ssoConfigSchema :: "(string \<Rightarrow> url option) \<Rightarrow> sso_config \<Rightarrow> bool" where
  "ssoConfigSchema parse_url c \<longleftrightarrow>
     1 \<le> js_length (realm c) \<and> dnsHostSchema (issuerHost c) \<and> httpsUrlSchema parse_url (issuer c)
     \<and> list_all ssoEndpointSchema (endpoints c)
     \<and> issuer_issues parse_url c @ duplicate_issues 0 [] (endpoints c) = []"

definition rawSsoFileSchema :: "(string \<Rightarrow> url option) \<Rightarrow> json \<Rightarrow> raw_sso option" where
  "rawSsoFileSchema parse_url j =
     (case j of
        JObj o0 \<Rightarrow> if \<not> strict_keys [''sso''] o0 then None else
          (case json_field j ''sso'' of
             Some (JObj o1) \<Rightarrow> if \<not> strict_keys [''realm'', ''issuerHost'', ''issuer'', ''endpoints''] o1 then None else do {
               rlm \<leftarrow> required (checked_str (\<lambda>s. 1 \<le> js_length s)) (map_of o1 ''realm'');
               ih \<leftarrow> required (checked_str dnsHostSchema) (map_of o1 ''issuerHost'');
               iss \<leftarrow> optional (checked_str (httpsUrlSchema parse_url)) (map_of o1 ''issuer'');
               eps \<leftarrow> required (\<lambda>v. Option.bind (json_arr v) (opt_map_list rawSsoEndpointSchema)) (map_of o1 ''endpoints'');
               Some \<lparr>raw_realm = rlm, raw_issuerHost = ih, raw_issuer = iss, raw_endpoints = eps\<rparr> }
           | _ \<Rightarrow> None)
      | _ \<Rightarrow> None)"

section \<open>Resolving a file\<close>

datatype resolve_error = BadBaseDomain string | RawSchemaIssues | MixedForms bool "string list" | ConfigSchemaIssues

definition dotted :: "string \<Rightarrow> bool" where
  "dotted h \<longleftrightarrow> CHR ''.'' \<in> set h"

definition host_entries :: "raw_sso \<Rightarrow> (string \<times> string) list" where
  "host_entries raw = (''issuerHost'', raw_issuerHost raw) #
     map (\<lambda>(i, ep). (''endpoints.'' @ show_nat i @ ''.host'', ep_host ep)) (enumerate 0 (raw_endpoints raw))"

definition qualify :: "string \<Rightarrow> string \<Rightarrow> string" where
  "qualify baseDomain host = (if dotted host then host else host @ ''.'' @ baseDomain)"

definition resolved_config :: "string \<Rightarrow> raw_sso \<Rightarrow> sso_config" where
  "resolved_config baseDomain raw =
     (let fqdnIssuerHost = qualify baseDomain (raw_issuerHost raw) in
      \<lparr>realm = raw_realm raw, issuerHost = fqdnIssuerHost,
       issuer = (case raw_issuer raw of Some s \<Rightarrow> s
         | None \<Rightarrow> ''https://'' @ fqdnIssuerHost @ ''/realms/'' @ raw_realm raw),
       endpoints = map (\<lambda>ep. ep\<lparr>ep_host := qualify baseDomain (ep_host ep)\<rparr>) (raw_endpoints raw)\<rparr>)"

definition resolveSsoFile :: "(string \<Rightarrow> url option) \<Rightarrow> json \<Rightarrow> string \<Rightarrow> (resolve_error, sso_config) res" where
  "resolveSsoFile parse_url raw baseDomain =
     (if \<not> isValidDnsName baseDomain \<or> \<not> dotted baseDomain then Inl (BadBaseDomain baseDomain)
      else case rawSsoFileSchema parse_url raw of
        None \<Rightarrow> Inl RawSchemaIssues
      | Some parsed \<Rightarrow>
          (let hosts = host_entries parsed; dots = filter (\<lambda>(p, h). dotted h) hosts;
               fqdnForm = (raw_issuer parsed \<noteq> None) in
           if (if fqdnForm then length dots \<noteq> length hosts else length dots \<noteq> 0)
           then Inl (MixedForms fqdnForm (map fst (if fqdnForm then filter (\<lambda>(p, h). \<not> dotted h) hosts else dots)))
           else let config = resolved_config baseDomain parsed in
             if ssoConfigSchema parse_url config then Inr config else Inl ConfigSchemaIssues))"

section \<open>What a resolved file satisfies\<close>

lemma split_on_append_sep: "split_on c (s @ c # t) = split_on c s @ split_on c t"
  by (induction s) (auto split: list.splits)

lemma duplicate_issues_Nil_iff:
  "duplicate_issues i seen eps = [] \<longleftrightarrow> distinct (map ep_name eps) \<and> set (map ep_name eps) \<inter> set seen = {}"
  by (induction eps arbitrary: i seen) auto

lemma group_issues_Nil_iff:
  "group_issues ep gs = [] \<longleftrightarrow> ep_mode ep = GatewayOidc \<and> gs \<noteq> [] \<and> distinct gs \<and> ''admins'' \<in> set gs"
  by (auto simp: group_issues_def length_js_set_iff)

text \<open>The rules of one endpoint, as one would state them.\<close>

definition endpoint_rules :: "sso_endpoint \<Rightarrow> bool" where
  "endpoint_rules ep \<longleftrightarrow>
     (ep_mode ep \<noteq> NoSso \<longrightarrow> \<not> blank (clientId ep))
     \<and> (\<forall>gs. allowedGroups ep = Some gs \<longrightarrow> ep_mode ep = GatewayOidc \<and> distinct gs \<and> ''admins'' \<in> set gs)
     \<and> (ep_mode ep = GatewayOidc \<longrightarrow> protectedPathPrefixes ep \<noteq> [] \<and> \<not> blank (redirectPath ep)
          \<and> (\<exists>p. logoutPath ep = Some p \<and> \<not> blank p))"

lemma endpoint_issues_Nil_iff: "endpoint_issues ep = [] \<longleftrightarrow> endpoint_rules ep"
  by (cases "ep_mode ep"; cases "allowedGroups ep"; cases "logoutPath ep")
    (auto simp: endpoint_issues_def endpoint_rules_def group_issues_Nil_iff)

lemma length_filter_all: "length (filter P xs) = length xs \<longleftrightarrow> (\<forall>x \<in> set xs. P x)"
  by (metis filter_True length_filter_less less_irrefl)

lemma host_entries_hosts: "map snd (host_entries raw) = raw_issuerHost raw # map ep_host (raw_endpoints raw)"
proof -
  have "map (snd \<circ> (\<lambda>(i, ep). (''endpoints.'' @ show_nat i @ ''.host'', ep_host ep))) (enumerate 0 (raw_endpoints raw))
    = map ep_host (map snd (enumerate 0 (raw_endpoints raw)))"
    by (simp only: map_map comp_def case_prod_beta snd_conv)
  then show ?thesis by (simp add: host_entries_def)
qed

lemma host_entries_set:
  "snd ` set (host_entries raw) = insert (raw_issuerHost raw) (ep_host ` set (raw_endpoints raw))"
  using arg_cong [OF host_entries_hosts, of set raw] by simp

text \<open>The outcome of \<open>resolveSsoFile\<close>, branch by branch.\<close>

definition one_form :: "raw_sso \<Rightarrow> bool" where
  "one_form raw \<longleftrightarrow> (\<forall>h \<in> insert (raw_issuerHost raw) (ep_host ` set (raw_endpoints raw)).
     dotted h \<longleftrightarrow> raw_issuer raw \<noteq> None)"

lemma one_form_iff:
  "one_form raw \<longleftrightarrow> \<not> (if raw_issuer raw \<noteq> None
     then length (filter (\<lambda>(p, h). dotted h) (host_entries raw)) \<noteq> length (host_entries raw)
     else length (filter (\<lambda>(p, h). dotted h) (host_entries raw)) \<noteq> 0)"
  unfolding one_form_def host_entries_set [symmetric]
  by (auto simp: length_filter_all filter_empty_conv case_prod_beta)

lemma resolveSsoFile_Inr_iff:
  "resolveSsoFile parse_url j baseDomain = Inr c \<longleftrightarrow>
     isValidDnsName baseDomain \<and> dotted baseDomain \<and>
     (\<exists>raw. rawSsoFileSchema parse_url j = Some raw \<and> one_form raw \<and> c = resolved_config baseDomain raw
        \<and> ssoConfigSchema parse_url c)"
  unfolding one_form_iff by (auto simp: resolveSsoFile_def Let_def split: option.splits)

subsection \<open>Printing a configuration and reading it back\<close>

definition opt_entry :: "string \<Rightarrow> json option \<Rightarrow> (string \<times> json) list" where
  "opt_entry k v = (case v of None \<Rightarrow> [] | Some j \<Rightarrow> [(k, j)])"

definition endpoint_json :: "sso_endpoint \<Rightarrow> json" where
  "endpoint_json ep = JObj ([(''name'', JStr (ep_name ep)), (''host'', JStr (ep_host ep)),
     (''mode'', JStr (mode_name (ep_mode ep))), (''clientId'', JStr (clientId ep)),
     (''protectedPathPrefixes'', JArr (map JStr (protectedPathPrefixes ep))),
     (''bypassPathPrefixes'', JArr (map JStr (bypassPathPrefixes ep))), (''redirectPath'', JStr (redirectPath ep))]
     @ opt_entry ''logoutPath'' (map_option JStr (logoutPath ep))
     @ opt_entry ''allowedGroups'' (map_option (\<lambda>gs. JArr (map JStr gs)) (allowedGroups ep)))"

definition config_json :: "sso_config \<Rightarrow> json" where
  "config_json c = JObj [(''sso'', JObj [(''realm'', JStr (realm c)), (''issuerHost'', JStr (issuerHost c)),
     (''issuer'', JStr (issuer c)), (''endpoints'', JArr (map endpoint_json (endpoints c)))])]"

lemma checked_list_JStr: "list_all p xs \<Longrightarrow> checked_list p (JArr (map JStr xs)) = Some xs"
  unfolding checked_list_def by (simp add: opt_map_list_map checked_str_def list_all_iff)

lemma mode_roundtrip: "ssoEndpointModeSchema (mode_name m) = Some m"
  by (cases m) (simp_all add: ssoEndpointModeSchema_def)

lemma endpoint_roundtrip: "ssoEndpointSchema ep \<Longrightarrow> rawSsoEndpointSchema (endpoint_json ep) = Some ep"
  by (cases ep; cases "logoutPath ep"; cases "allowedGroups ep")
    (simp_all add: ssoEndpointSchema_def rawSsoEndpointSchema_def endpoint_json_def opt_entry_def strict_keys_def
      ENDPOINT_KEYS_def required_def optional_def checked_str_def checked_list_JStr mode_roundtrip)

lemma config_roundtrip:
  assumes "ssoConfigSchema parse_url c" "dotted (issuerHost c)" "\<forall>ep \<in> set (endpoints c). dotted (ep_host ep)"
    and base: "isValidDnsName baseDomain" "dotted baseDomain"
  shows "resolveSsoFile parse_url (config_json c) baseDomain = Inr c"
proof -
  let ?raw = "\<lparr>raw_realm = realm c, raw_issuerHost = issuerHost c, raw_issuer = Some (issuer c), raw_endpoints = endpoints c\<rparr>"
  have "opt_map_list rawSsoEndpointSchema (map endpoint_json (endpoints c)) = Some (endpoints c)"
    using assms(1) by (intro opt_map_list_map endpoint_roundtrip) (auto simp: ssoConfigSchema_def list_all_iff)
  then have raw: "rawSsoFileSchema parse_url (config_json c) = Some ?raw"
    using assms(1) by (simp add: rawSsoFileSchema_def config_json_def strict_keys_def required_def optional_def
      checked_str_def ssoConfigSchema_def)
  have "map (\<lambda>ep. ep\<lparr>ep_host := qualify baseDomain (ep_host ep)\<rparr>) (endpoints c) = endpoints c"
    using assms(3) by (intro map_idI) (simp add: qualify_def)
  then have "resolved_config baseDomain ?raw = c"
    using assms(2) by (simp add: resolved_config_def qualify_def)
  moreover have "one_form ?raw" using assms(2,3) by (simp add: one_form_def)
  ultimately show ?thesis using assms(1) base raw by (simp add: resolveSsoFile_Inr_iff)
qed

text \<open>What \<open>resolveSsoFile\<close> returns is itself a file in the FQDN form.\<close>

lemma dotted_qualify: "dotted baseDomain \<Longrightarrow> dotted (qualify baseDomain h)"
  by (auto simp: qualify_def dotted_def)

lemma resolved_dotted:
  assumes "resolveSsoFile parse_url j baseDomain = Inr c"
  shows "dotted (issuerHost c)" "\<forall>ep \<in> set (endpoints c). dotted (ep_host ep)"
  using assms by (auto simp: resolveSsoFile_Inr_iff resolved_config_def Let_def dotted_qualify)

end
