(* ===== verification/EditEngine.thy ===== *)
theory EditEngine
  imports SsoSchema
begin

text \<open>
  The edit contract of a change request: \<open>domain-api/src/sso-change/editEngine.ts\<close>.

  The YAML, diff and hash packages are not part of the repository: the record \<open>ext\<close> holds what the code calls of
  them (and \<open>new URL\<close>), and every definition takes it as an argument. A YAML document is a tree of nodes that carry,
  beside their value, an opaque text for comments, anchors and layout; \<open>None\<close> stands for an exception of the package.
\<close>

section \<open>The packages\<close>

datatype ynode =
    YScalar json "string option" string
  | YSeq "ynode list" string
  | YMap "(ynode \<times> ynode) list" string
  | YAlias string

record ydoc =
  doc_errors :: bool
  contents :: "ynode option"
  doc_rest :: string

record ext =
  x_parseDocument :: "string \<Rightarrow> ydoc"
  x_toJS :: "ydoc \<Rightarrow> json option"
  x_parse :: "string \<Rightarrow> json option"
  x_toString :: "ydoc \<Rightarrow> string"
  x_twoFilesPatch :: "string \<Rightarrow> string \<Rightarrow> string \<Rightarrow> string \<Rightarrow> string"
  x_sha256 :: "string \<Rightarrow> string"
  x_sha1 :: "string \<Rightarrow> string"
  x_parse_url :: "string \<Rightarrow> url option"

section \<open>The patch\<close>

definition SSO_FILE_PATH :: string where "SSO_FILE_PATH = ''gitops/values/sso.yaml''"

definition EDITABLE_ENDPOINTS :: "string list" where "EDITABLE_ENDPOINTS = [''flink'', ''filer'']"

definition REQUIRED_GROUP :: string where "REQUIRED_GROUP = ''admins''"

datatype change_error = PatchRejected string | NoEffectiveChange string | Thrown

record patch =
  p_endpoint :: string
  p_allowedGroups :: "json list"

record built_change =
  bc_endpoint :: string
  bc_before :: "string list option"
  bc_after :: "string list"
  editedText :: string
  bc_diff :: string
  bc_payloadSha256 :: string

fun show_int :: "int \<Rightarrow> string" where
  "show_int n = (if n < 0 then ''-'' @ show_nat (nat (- n)) else show_nat (nat n))"

fun json_text :: "json \<Rightarrow> string" where
  "json_text JNull = ''null''"
| "json_text (JBool b) = (if b then ''true'' else ''false'')"
| "json_text (JNum n) = show_int n"
| "json_text (JStr s) = json_stringify s"
| "json_text (JArr xs) = ''['' @ join '','' (map json_text xs) @ '']''"
| "json_text (JObj es) = ''{'' @ join '','' (map (\<lambda>e. json_stringify (fst e) @ '':'' @ json_text (snd e)) es) @ ''}''"

definition payload_text :: "string \<Rightarrow> json list \<Rightarrow> string" where
  "payload_text e gs = json_text (JObj [(''endpoint'', JStr e), (''allowedGroups'', JArr gs)])"

definition payloadSha256 :: "ext \<Rightarrow> string \<Rightarrow> json list \<Rightarrow> string" where
  "payloadSha256 x e gs = x_sha256 x (payload_text e gs)"

text \<open>The messages quote the value; a string in a template is itself, \<open>JSON.stringify\<close> is not involved.\<close>

fun validate_entries :: "string list \<Rightarrow> nat \<Rightarrow> json list \<Rightarrow> (change_error, string list) res" where
  "validate_entries known i [] = Inr []"
| "validate_entries known i (entry # rest) =
     (case entry of
        JStr g \<Rightarrow>
          if \<not> allowedGroupSchema g
          then Inl (PatchRejected (''allowedGroups['' @ show_nat i @ '']: '' @ quoted g @ '' must match [a-z0-9-]+''))
          else if g \<notin> set known
          then Inl (PatchRejected (''allowedGroups['' @ show_nat i @ '']: unknown group '' @ quoted g
            @ '' (not in policies/groups.yaml)''))
          else res_bind (validate_entries known (i + 1) rest) (\<lambda>gs. Inr (g # gs))
      | _ \<Rightarrow> Inl (PatchRejected (''allowedGroups['' @ show_nat i @ '']: must be a string'')))"

definition validatePatch :: "patch \<Rightarrow> string list \<Rightarrow> (change_error, string list) res" where
  "validatePatch p knownGroups =
     (if p_endpoint p \<notin> set EDITABLE_ENDPOINTS
      then Inl (PatchRejected (''endpoint: '' @ quoted (p_endpoint p) @ '' is not editable (allowed: ''
        @ join '', '' EDITABLE_ENDPOINTS @ '')''))
      else if p_allowedGroups p = [] then Inl (PatchRejected ''allowedGroups: must be a non-empty list'')
      else res_bind (validate_entries knownGroups 0 (p_allowedGroups p)) (\<lambda>groups.
        if length (js_set groups) \<noteq> length groups then Inl (PatchRejected ''allowedGroups: must not contain duplicates'')
        else if REQUIRED_GROUP \<notin> set groups
        then Inl (PatchRejected (''allowedGroups: must include '' @ quoted REQUIRED_GROUP @ '' (anti lock-out)''))
        else Inr groups))"

definition sameSet :: "string list \<Rightarrow> string list \<Rightarrow> bool" where
  "sameSet a b \<longleftrightarrow> length a = length b \<and> list_all (\<lambda>y. y \<in> set b) a"

section \<open>Editing the document\<close>

fun is_scalar :: "ynode \<Rightarrow> bool" where
  "is_scalar (YScalar _ _ _) = True"
| "is_scalar _ = False"

fun node_value :: "ynode \<Rightarrow> json option" where
  "node_value (YScalar v _ _) = Some v"
| "node_value _ = None"

fun scalar_type :: "ynode \<Rightarrow> string option" where
  "scalar_type (YScalar _ t _) = t"
| "scalar_type _ = None"

definition has_key :: "string \<Rightarrow> ynode \<times> ynode \<Rightarrow> bool" where
  "has_key k e \<longleftrightarrow> node_value (fst e) = Some (JStr k)"

fun map_get :: "ynode \<Rightarrow> string \<Rightarrow> ynode option" where
  "map_get (YMap es _) k = map_option snd (find (has_key k) es)"
| "map_get _ _ = None"

text \<open>Replace the value of the first entry with this key; \<open>set\<close> appends one when there is none.\<close>

fun update_entry :: "string \<Rightarrow> (ynode \<Rightarrow> ynode) \<Rightarrow> (ynode \<times> ynode) list \<Rightarrow> (ynode \<times> ynode) list" where
  "update_entry k f [] = []"
| "update_entry k f (e # es) = (if has_key k e then (fst e, f (snd e)) # es else e # update_entry k f es)"

fun map_update :: "string \<Rightarrow> (ynode \<Rightarrow> ynode) \<Rightarrow> ynode \<Rightarrow> ynode" where
  "map_update k f (YMap es c) = YMap (update_entry k f es) c"
| "map_update k f n = n"

fun map_set :: "string \<Rightarrow> ynode \<Rightarrow> ynode \<Rightarrow> ynode" where
  "map_set k v (YMap es c) =
     YMap (if list_ex (has_key k) es then update_entry k (\<lambda>_. v) es else es @ [(YScalar (JStr k) None [], v)]) c"
| "map_set k v n = n"

definition newScalar :: "string \<Rightarrow> ynode option \<Rightarrow> ynode" where
  "newScalar v like =
     YScalar (JStr v) (Some (case Option.bind like scalar_type of Some t \<Rightarrow> t | None \<Rightarrow> ''QUOTE_DOUBLE'')) []"

text \<open>\<open>byValue\<close> is a \<open>Map\<close>: a later entry with the same value replaces an earlier one.\<close>

definition reuse_items :: "ynode list \<Rightarrow> string list \<Rightarrow> ynode list" where
  "reuse_items items groups =
     map (\<lambda>g. case find (\<lambda>n. node_value n = Some (JStr g)) (rev (filter is_scalar items)) of
        Some n \<Rightarrow> n | None \<Rightarrow> newScalar g (find is_scalar items)) groups"

definition edit_node :: "string list \<Rightarrow> ynode \<Rightarrow> ynode" where
  "edit_node groups node =
     (case map_get node ''allowedGroups'' of
        Some (YSeq items c) \<Rightarrow> map_update ''allowedGroups'' (\<lambda>_. YSeq (reuse_items items groups) c) node
      | _ \<Rightarrow> map_set ''allowedGroups'' (YSeq (map (\<lambda>g. newScalar g None) groups) []) node)"

definition is_endpoint :: "string \<Rightarrow> ynode \<Rightarrow> bool" where
  "is_endpoint e n \<longleftrightarrow> Option.bind (map_get n ''name'') node_value = Some (JStr e)"

fun update_first :: "('a \<Rightarrow> bool) \<Rightarrow> ('a \<Rightarrow> 'a) \<Rightarrow> 'a list \<Rightarrow> 'a list" where
  "update_first p f [] = []"
| "update_first p f (y # ys) = (if p y then f y # ys else y # update_first p f ys)"

definition edit_document :: "string \<Rightarrow> string list \<Rightarrow> ydoc \<Rightarrow> (change_error, ydoc) res" where
  "edit_document endpoint groups doc =
     (case Option.bind (Option.bind (contents doc) (\<lambda>c. map_get c ''sso'')) (\<lambda>s. map_get s ''endpoints'') of
        Some (YSeq items c) \<Rightarrow>
          if list_ex (is_endpoint endpoint) items
          then Inr (doc\<lparr>contents := map_option (map_update ''sso'' (map_update ''endpoints''
            (\<lambda>_. YSeq (update_first (is_endpoint endpoint) (edit_node groups) items) c))) (contents doc)\<rparr>)
          else Inl (PatchRejected (''endpoint: '' @ quoted endpoint @ '' does not exist in sso.yaml''))
      | _ \<Rightarrow> Inl (PatchRejected ''sso.endpoints is not a list''))"

section \<open>Building the change\<close>

definition strip_separator :: "string \<Rightarrow> string" where
  "strip_separator s =
     (case dropWhile (\<lambda>c. c = CHR ''='') s of
        c # rest \<Rightarrow> if c = CHR 0x0A \<and> starts_with ''='' s then rest else s
      | [] \<Rightarrow> s)"

definition set_groups :: "string \<Rightarrow> string list \<Rightarrow> raw_sso \<Rightarrow> raw_sso" where
  "set_groups endpoint groups raw =
     raw\<lparr>raw_endpoints := update_first (\<lambda>e. ep_name e = endpoint) (\<lambda>e. e\<lparr>allowedGroups := Some groups\<rparr>) (raw_endpoints raw)\<rparr>"

text \<open>Invariant 4 and the semantic rules, checked on the text that would be committed.\<close>

definition check_edited ::
  "ext \<Rightarrow> string \<Rightarrow> string \<Rightarrow> string list \<Rightarrow> raw_sso \<Rightarrow> string \<Rightarrow> (change_error, unit) res" where
  "check_edited x baseDomain endpoint groups base edited =
     (case x_parse x edited of
        None \<Rightarrow> Inl Thrown
      | Some editedObj \<Rightarrow>
          (case rawSsoFileSchema (x_parse_url x) editedObj of
             None \<Rightarrow> Inl (PatchRejected ''edited sso.yaml does not satisfy the SSO schema'')
           | Some editedParsed \<Rightarrow>
               if editedParsed \<noteq> set_groups endpoint groups base
               then Inl (PatchRejected (''the edit changed something other than allowedGroups of '' @ quoted endpoint))
               else (case resolveSsoFile (x_parse_url x) editedObj baseDomain of
                   Inl _ \<Rightarrow> Inl (PatchRejected ''edited sso.yaml violates the SSO rules'')
                 | Inr _ \<Rightarrow> Inr ())))"

definition buildChange :: "ext \<Rightarrow> string \<Rightarrow> string \<Rightarrow> string list \<Rightarrow> patch \<Rightarrow> (change_error, built_change) res" where
  "buildChange x baseText baseDomain groupNames p =
     res_bind (validatePatch p groupNames) (\<lambda>after.
     (let doc = x_parseDocument x baseText in
      if doc_errors doc then Inl (PatchRejected ''base sso.yaml is not valid YAML'')
      else case x_toJS x doc of None \<Rightarrow> Inl Thrown | Some baseObj \<Rightarrow>
        (case rawSsoFileSchema (x_parse_url x) baseObj of
           None \<Rightarrow> Inl (PatchRejected ''base sso.yaml does not satisfy the SSO schema'')
         | Some base \<Rightarrow>
             (case find (\<lambda>e. ep_name e = p_endpoint p) (raw_endpoints base) of
                None \<Rightarrow> Inl (PatchRejected (''endpoint: '' @ quoted (p_endpoint p) @ '' does not exist in sso.yaml''))
              | Some endpointObj \<Rightarrow>
                  (let before = allowedGroups endpointObj in
                   if (case before of None \<Rightarrow> False | Some b \<Rightarrow> sameSet b after)
                   then Inl (NoEffectiveChange ''allowedGroups is unchanged (same set of groups)'')
                   else if x_toString x (x_parseDocument x baseText) \<noteq> baseText
                   then Inl (PatchRejected ''sso.yaml formatting cannot be preserved by the editor; refusing to rewrite it'')
                   else res_bind (edit_document (p_endpoint p) after doc) (\<lambda>doc'.
                     (let edited = x_toString x doc' in
                      res_bind (check_edited x baseDomain (p_endpoint p) after base edited) (\<lambda>_.
                        Inr \<lparr>bc_endpoint = p_endpoint p, bc_before = before, bc_after = after, editedText = edited,
                          bc_diff = strip_separator (x_twoFilesPatch x (''a/'' @ SSO_FILE_PATH) (''b/'' @ SSO_FILE_PATH) baseText edited),
                          bc_payloadSha256 = payloadSha256 x (p_endpoint p) (map JStr after)\<rparr>))))))))"

section \<open>What an accepted change is\<close>

lemma validate_entries_Inr_iff:
  "validate_entries known i entries = Inr gs \<longleftrightarrow>
     entries = map JStr gs \<and> (\<forall>g \<in> set gs. allowedGroupSchema g \<and> g \<in> set known)"
  by (induction known i entries arbitrary: gs rule: validate_entries.induct)
    (auto simp: res_bind_Inr_iff split: json.splits)

text \<open>Invariants 1 to 3: exactly the patches the contract allows are accepted.\<close>

definition patch_ok :: "string list \<Rightarrow> string \<Rightarrow> string list \<Rightarrow> bool" where
  "patch_ok known endpoint gs \<longleftrightarrow> endpoint \<in> set EDITABLE_ENDPOINTS \<and> distinct gs \<and> REQUIRED_GROUP \<in> set gs
     \<and> list_all (\<lambda>g. allowedGroupSchema g \<and> g \<in> set known) gs"

lemma validatePatch_Inr_iff:
  "validatePatch p known = Inr gs \<longleftrightarrow> p_allowedGroups p = map JStr gs \<and> patch_ok known (p_endpoint p) gs"
proof -
  have "validatePatch p known = Inr gs \<longleftrightarrow> p_endpoint p \<in> set EDITABLE_ENDPOINTS \<and> p_allowedGroups p \<noteq> [] \<and>
      validate_entries known 0 (p_allowedGroups p) = Inr gs \<and> distinct gs \<and> REQUIRED_GROUP \<in> set gs"
    by (auto simp: validatePatch_def res_bind_Inr_iff length_js_set_iff)
  then show ?thesis by (auto simp: validate_entries_Inr_iff patch_ok_def list_all_iff)
qed

text \<open>\<open>sameSet\<close> is equality of sets on lists without duplicates, which both sides are.\<close>

lemma sameSet_iff:
  assumes "distinct a" "distinct b"
  shows "sameSet a b \<longleftrightarrow> set a = set b"
proof
  assume "sameSet a b"
  then show "set a = set b" using assms
    by (auto simp: sameSet_def list_all_iff) (metis card_subset_eq distinct_card finite_set subsetI subset_iff)
next
  assume "set a = set b"
  then show "sameSet a b" using assms by (metis distinct_card list_all_iff sameSet_def)
qed

lemma find_update_first: "find p xs = Some v \<Longrightarrow> p (f v) \<Longrightarrow> find p (update_first p f xs) = Some (f v)"
  by (induction xs) (auto split: if_splits)

lemma find_update_other:
  "(\<And>y. q y \<Longrightarrow> \<not> p y) \<Longrightarrow> (\<And>y. p y \<Longrightarrow> \<not> q (f y)) \<Longrightarrow> find q (update_first p f xs) = find q xs"
  by (induction xs) auto

lemma check_edited_Inr:
  assumes "check_edited x baseDomain endpoint groups base edited = Inr u"
  shows "\<exists>j c. x_parse x edited = Some j \<and> rawSsoFileSchema (x_parse_url x) j = Some (set_groups endpoint groups base)
    \<and> resolveSsoFile (x_parse_url x) j baseDomain = Inr c"
  using assms by (auto simp: check_edited_def split: option.splits if_splits sum.splits)

lemma buildChange_Inr:
  assumes "buildChange x baseText baseDomain known p = Inr bc"
  shows "\<exists>baseObj base endpointObj doc'.
      patch_ok known (p_endpoint p) (bc_after bc) \<and> p_allowedGroups p = map JStr (bc_after bc)
      \<and> bc_endpoint bc = p_endpoint p \<and> \<not> doc_errors (x_parseDocument x baseText)
      \<and> x_toJS x (x_parseDocument x baseText) = Some baseObj
      \<and> rawSsoFileSchema (x_parse_url x) baseObj = Some base
      \<and> find (\<lambda>e. ep_name e = p_endpoint p) (raw_endpoints base) = Some endpointObj
      \<and> bc_before bc = allowedGroups endpointObj
      \<and> (\<forall>b. bc_before bc = Some b \<longrightarrow> \<not> sameSet b (bc_after bc))
      \<and> x_toString x (x_parseDocument x baseText) = baseText
      \<and> edit_document (p_endpoint p) (bc_after bc) (x_parseDocument x baseText) = Inr doc'
      \<and> editedText bc = x_toString x doc'
      \<and> check_edited x baseDomain (p_endpoint p) (bc_after bc) base (editedText bc) = Inr ()
      \<and> bc_payloadSha256 bc = payloadSha256 x (p_endpoint p) (p_allowedGroups p)"
proof -
  let ?doc = "x_parseDocument x baseText"
  from assms obtain after where after: "validatePatch p known = Inr after"
    unfolding buildChange_def by (cases "validatePatch p known") auto
  note body = assms [unfolded buildChange_def after res_bind.simps Let_def]
  from body obtain baseObj where baseObj: "\<not> doc_errors ?doc" "x_toJS x ?doc = Some baseObj"
    by (cases "doc_errors ?doc"; cases "x_toJS x ?doc") auto
  from body baseObj obtain base where base: "rawSsoFileSchema (x_parse_url x) baseObj = Some base"
    by (cases "rawSsoFileSchema (x_parse_url x) baseObj") auto
  from body baseObj base obtain ep where ep: "find (\<lambda>e. ep_name e = p_endpoint p) (raw_endpoints base) = Some ep"
    by (cases "find (\<lambda>e. ep_name e = p_endpoint p) (raw_endpoints base)") auto
  let ?noop = "case allowedGroups ep of None \<Rightarrow> False | Some b \<Rightarrow> sameSet b after"
  from body baseObj base ep have effective: "\<not> ?noop" by (cases ?noop) auto
  from body baseObj base ep effective have same: "x_toString x ?doc = baseText"
    by (cases "x_toString x ?doc = baseText") auto
  from body baseObj base ep effective same obtain doc' where doc': "edit_document (p_endpoint p) after ?doc = Inr doc'"
    by (cases "edit_document (p_endpoint p) after ?doc") auto
  from body baseObj base ep effective same doc'
  have "check_edited x baseDomain (p_endpoint p) after base (x_toString x doc') = Inr ()"
    by (cases "check_edited x baseDomain (p_endpoint p) after base (x_toString x doc')") auto
  with body baseObj base ep effective same doc' after show ?thesis
    by (intro exI [of _ baseObj] exI [of _ base] exI [of _ ep] exI [of _ doc'])
      (auto simp: validatePatch_Inr_iff split: option.splits)
qed

lemma resolved_groups:
  assumes "rawSsoFileSchema parse_url j = Some raw" "resolveSsoFile parse_url j baseDomain = Inr c"
  shows "map ep_name (endpoints c) = map ep_name (raw_endpoints raw)"
    and "map allowedGroups (endpoints c) = map allowedGroups (raw_endpoints raw)"
  using assms by (auto simp: resolveSsoFile_Inr_iff resolved_config_def Let_def)

subsection \<open>The identity of a payload\<close>

lemma json_list_open:
  "join '','' (map json_stringify xs) @ CHR '']'' # w = CHR '']'' # z \<Longrightarrow> xs = [] \<and> w = z"
  by (cases xs; cases "tl xs") (auto simp: json_stringify_def)

lemma json_list_inject:
  "join '','' (map json_stringify gs) @ CHR '']'' # u = join '','' (map json_stringify hs) @ CHR '']'' # v \<Longrightarrow> gs = hs \<and> u = v"
proof (induction gs arbitrary: hs)
  case Nil
  then show ?case using json_list_open [of hs v u] by simp
next
  case (Cons g gs)
  obtain h hs' where hs: "hs = h # hs'"
    using Cons.prems json_list_open [of "g # gs" u v] by (cases hs) auto
  define rest where "rest xs w = (if xs = [] then CHR '']'' # w else CHR '','' # join '','' (map json_stringify xs) @ CHR '']'' # w)"
    for xs :: "string list" and w
  have split: "join '','' (map json_stringify (x # xs)) @ CHR '']'' # w = json_stringify x @ rest xs w" for x xs w
    by (cases xs) (auto simp: rest_def)
  have "g = h" "rest gs u = rest hs' v"
    using Cons.prems json_stringify_inject unfolding hs split by blast+
  then show ?case using Cons.IH [of hs'] hs by (cases gs; cases hs') (auto simp: rest_def)
qed

lemma payload_text_eq:
  "payload_text e (map JStr gs) = ''{'' @ json_stringify ''endpoint'' @ '':'' @ json_stringify e @
     ('','' @ json_stringify ''allowedGroups'' @ '':['' @ join '','' (map json_stringify gs) @ CHR '']'' # ''}'')"
  by (simp add: payload_text_def comp_def)

lemma payload_text_inject:
  assumes "payload_text e (map JStr gs) = payload_text e' (map JStr gs')"
  shows "e = e' \<and> gs = gs'"
proof -
  note eq = assms [unfolded payload_text_eq same_append_eq]
  from json_stringify_inject [OF eq]
  have "e = e'" "join '','' (map json_stringify gs) @ CHR '']'' # ''}'' = join '','' (map json_stringify gs') @ CHR '']'' # ''}''"
    by (simp_all only: same_append_eq)
  then show ?thesis using json_list_inject by blast
qed

end
