(* ===== verification/SsoSource.thy ===== *)
theory SsoSource
  imports EditEngine
begin

text \<open>
  Reading the declared state: \<open>domain-api/src/adapters/sso/ssoAdapter.ts\<close> (the file adapter and the helpers that
  the GitHub adapter and the reconciler share). The file system is a parameter: what \<open>existsSync\<close>, \<open>statSync\<close>
  and \<open>readFileSync\<close> answer at the time of the call, \<open>None\<close> when they throw.
\<close>

record sso_base =
  commitSha :: string
  blobSha :: string
  sb_text :: string
  sb_baseDomain :: string
  sb_config :: sso_config
  groupNames :: "string list"

datatype sso_config_error = SsoConfigError string

definition parseGroupNames :: "ext \<Rightarrow> string \<Rightarrow> string \<Rightarrow> (sso_config_error, string list) res" where
  "parseGroupNames x s src =
     (case x_parse x s of
        None \<Rightarrow> Inl (SsoConfigError (''Malformed YAML in '' @ src))
      | Some raw \<Rightarrow>
          (case json_field raw ''groups'' of
             Some (JArr gs) \<Rightarrow>
               (case opt_map_list (\<lambda>g. Option.bind (json_field g ''name'') (checked_str (\<lambda>n. n \<noteq> []))) gs of
                  Some names \<Rightarrow> Inr names
                | None \<Rightarrow> Inl (SsoConfigError (src @ '' has a group without a name'')))
           | _ \<Rightarrow> Inl (SsoConfigError (src @ '' must contain a groups list''))))"

definition GROUPS_FILE_PATH :: string where "GROUPS_FILE_PATH = ''policies/groups.yaml''"

definition gitBlobSha :: "ext \<Rightarrow> string \<Rightarrow> string" where
  "gitBlobSha x s = x_sha1 x (''blob '' @ show_nat (length s) @ [CHR 0x00] @ s)"

section \<open>The file adapter\<close>

record fs =
  fs_exists :: "string \<Rightarrow> bool"
  fs_mtimeMs :: "string \<Rightarrow> nat option"
  fs_read :: "string \<Rightarrow> string option"

record adapter_config =
  ac_filePath :: "string option"
  ac_isProduction :: bool
  ac_baseDomain :: "string option"
  ac_groupsFilePath :: "string option"

record sso_response =
  resp_path :: string
  loadedAt :: nat
  resp_config :: sso_config

datatype sso_answer = NotConfigured string | Configured sso_response

record adapter_cache =
  cachedMtimeMs :: "nat option"
  cachedResult :: "sso_response option"

definition DEFAULT_BASE_DOMAIN :: string where "DEFAULT_BASE_DOMAIN = ''local.beluga.internal''"

definition base_domain_of :: "adapter_config \<Rightarrow> string" where
  "base_domain_of c = (case ac_baseDomain c of Some d \<Rightarrow> d | None \<Rightarrow> DEFAULT_BASE_DOMAIN)"

definition nonempty_path :: "string option \<Rightarrow> string option" where
  "nonempty_path p = (case p of Some s \<Rightarrow> if s = [] then None else Some s | None \<Rightarrow> None)"

text \<open>\<open>sibling\<close> is \<open>path.resolve(path.dirname(file), "../../policies/groups.yaml")\<close>.\<close>

definition readBase ::
  "ext \<Rightarrow> (string \<Rightarrow> string) \<Rightarrow> fs \<Rightarrow> adapter_config \<Rightarrow> (sso_config_error, sso_base) res" where
  "readBase x sibling f cfg =
     (case nonempty_path (ac_filePath cfg) of
        None \<Rightarrow> Inl (SsoConfigError ''SSO configuration file is not available'')
      | Some file \<Rightarrow>
          if \<not> fs_exists f file then Inl (SsoConfigError ''SSO configuration file is not available'')
          else (let groupsPath = (case ac_groupsFilePath cfg of Some g \<Rightarrow> g | None \<Rightarrow> sibling file) in
            (case (fs_read f file, fs_read f groupsPath) of
               (Some t, Some groupsText) \<Rightarrow>
                 (case x_parse x t of
                    None \<Rightarrow> Inl (SsoConfigError (''Malformed YAML in SSO configuration file: '' @ file))
                  | Some raw \<Rightarrow>
                      (case resolveSsoFile (x_parse_url x) raw (base_domain_of cfg) of
                         Inl _ \<Rightarrow> Inl (SsoConfigError (''Invalid SSO configuration in '' @ file))
                       | Inr config \<Rightarrow>
                           res_bind (parseGroupNames x groupsText groupsPath) (\<lambda>names.
                             Inr \<lparr>commitSha = ''local-file'', blobSha = gitBlobSha x t, sb_text = t,
                               sb_baseDomain = base_domain_of cfg, sb_config = config, groupNames = names\<rparr>)))
             | _ \<Rightarrow> Inl (SsoConfigError ''Failed to read SSO source files''))))"

definition load_file :: "ext \<Rightarrow> fs \<Rightarrow> string \<Rightarrow> string \<Rightarrow> (sso_config_error, sso_config) res" where
  "load_file x f file baseDomain =
     (case fs_read f file of
        None \<Rightarrow> Inl (SsoConfigError (''Failed to read SSO configuration file: '' @ file))
      | Some t \<Rightarrow>
          (case x_parse x t of
             None \<Rightarrow> Inl (SsoConfigError (''Malformed YAML in SSO configuration file: '' @ file))
           | Some raw \<Rightarrow>
               (case raw of
                  JObj _ \<Rightarrow>
                    (case resolveSsoFile (x_parse_url x) raw baseDomain of
                       Inl _ \<Rightarrow> Inl (SsoConfigError (''Invalid SSO configuration in '' @ file))
                     | Inr config \<Rightarrow> Inr config)
                | JArr _ \<Rightarrow>
                    (case resolveSsoFile (x_parse_url x) raw baseDomain of
                       Inl _ \<Rightarrow> Inl (SsoConfigError (''Invalid SSO configuration in '' @ file))
                     | Inr config \<Rightarrow> Inr config)
                | _ \<Rightarrow> Inl (SsoConfigError (''SSO configuration file must contain a YAML object: '' @ file)))))"

definition getSsoConfig ::
  "ext \<Rightarrow> fs \<Rightarrow> nat \<Rightarrow> adapter_config \<Rightarrow> adapter_cache \<Rightarrow> (sso_config_error, sso_answer) res \<times> adapter_cache" where
  "getSsoConfig x f now cfg cache =
     (case nonempty_path (ac_filePath cfg) of
        None \<Rightarrow> (Inr (NotConfigured (if ac_isProduction cfg
          then ''SSO configuration file is not configured (SSO_CONFIG_FILE unset in production)''
          else ''SSO configuration file not configured'')), cache)
      | Some file \<Rightarrow>
          if \<not> fs_exists f file then (Inr (NotConfigured (''SSO configuration file not found: '' @ file)), cache)
          else (case fs_mtimeMs f file of
             None \<Rightarrow> (Inl (SsoConfigError (''Failed to stat SSO configuration file: '' @ file)), cache)
           | Some m \<Rightarrow>
               (case (cachedMtimeMs cache = Some m, cachedResult cache) of
                  (True, Some r) \<Rightarrow> (Inr (Configured r), cache)
                | _ \<Rightarrow>
                    (case load_file x f file (base_domain_of cfg) of
                       Inl e \<Rightarrow> (Inl e, cache)
                     | Inr config \<Rightarrow>
                         (let r = \<lparr>resp_path = file, loadedAt = now, resp_config = config\<rparr>
                          in (Inr (Configured r), \<lparr>cachedMtimeMs = Some m, cachedResult = Some r\<rparr>))))))"

section \<open>The cache\<close>

text \<open>The cache holds a result of loading the file as it was when it had the cached modification time.\<close>

definition cache_inv :: "ext \<Rightarrow> adapter_config \<Rightarrow> (nat \<Rightarrow> string) \<Rightarrow> adapter_cache \<Rightarrow> bool" where
  "cache_inv x cfg content c \<longleftrightarrow>
     (case (cachedMtimeMs c, cachedResult c) of
        (Some m, Some r) \<Rightarrow> load_file x \<lparr>fs_exists = \<lambda>_. True, fs_mtimeMs = \<lambda>_. Some m, fs_read = \<lambda>_. Some (content m)\<rparr>
          (resp_path r) (base_domain_of cfg) = Inr (resp_config r) \<and> ac_filePath cfg = Some (resp_path r)
      | _ \<Rightarrow> True)"

lemma load_file_cong: "fs_read f file = fs_read g file \<Longrightarrow> load_file x f file d = load_file x g file d"
  by (simp add: load_file_def)

lemma load_file_read:
  "load_file x f file d = Inr c \<Longrightarrow> \<exists>t raw. fs_read f file = Some t \<and> x_parse x t = Some raw
     \<and> resolveSsoFile (x_parse_url x) raw d = Inr c"
  by (auto simp: load_file_def split: option.splits json.splits sum.splits)

text \<open>Forgetting when the file was loaded, the part of an answer that callers compare.\<close>

definition answer_config :: "(sso_config_error, sso_answer) res \<Rightarrow> (sso_config_error, string \<times> sso_config) res option" where
  "answer_config r = (case r of Inl e \<Rightarrow> Some (Inl e) | Inr (Configured a) \<Rightarrow> Some (Inr (resp_path a, resp_config a))
     | Inr (NotConfigured _) \<Rightarrow> None)"

definition no_cache :: adapter_cache where
  "no_cache = \<lparr>cachedMtimeMs = None, cachedResult = None\<rparr>"

lemma getSsoConfig_cached:
  assumes inv: "cache_inv x cfg content c"
    and path: "ac_filePath cfg = Some file" "\<And>m. fs_mtimeMs f file = Some m \<Longrightarrow> fs_read f file = Some (content m)"
  shows "answer_config (fst (getSsoConfig x f now cfg c)) = answer_config (fst (getSsoConfig x f now cfg no_cache))"
    and "cache_inv x cfg content (snd (getSsoConfig x f now cfg c))"
proof -
  let ?at = "\<lambda>m. \<lparr>fs_exists = \<lambda>_. True, fs_mtimeMs = \<lambda>_. Some m, fs_read = \<lambda>_. Some (content m)\<rparr>"
  have load: "load_file x (?at m) file d = load_file x f file d" if "fs_mtimeMs f file = Some m" for m d
    using path(2) [OF that] by (intro load_file_cong) simp
  have hit: "load_file x f file (base_domain_of cfg) = Inr (resp_config r) \<and> resp_path r = file"
    if "cachedMtimeMs c = Some m" "cachedResult c = Some r" "fs_mtimeMs f file = Some m" for m r
    using inv path(1) load [OF that(3), of "base_domain_of cfg"] that(1,2) by (simp add: cache_inv_def)
  show "answer_config (fst (getSsoConfig x f now cfg c)) = answer_config (fst (getSsoConfig x f now cfg no_cache))"
  proof (cases "file \<noteq> [] \<and> fs_exists f file")
    case True
    then show ?thesis using hit
      by (auto simp: getSsoConfig_def nonempty_path_def path(1) no_cache_def answer_config_def Let_def
        split: option.splits sum.splits bool.splits) blast
  next
    case False
    then show ?thesis by (auto simp: getSsoConfig_def nonempty_path_def path(1))
  qed
  show "cache_inv x cfg content (snd (getSsoConfig x f now cfg c))"
  proof (cases "file \<noteq> [] \<and> fs_exists f file")
    case True
    then show ?thesis using inv load path(1)
      by (auto simp: getSsoConfig_def nonempty_path_def cache_inv_def Let_def
        split: option.splits sum.splits bool.splits)
  next
    case False
    then show ?thesis using inv by (auto simp: getSsoConfig_def nonempty_path_def path(1))
  qed
qed

end
