(* ===== verification/SsoProg.thy ===== *)
theory SsoProg
  imports SsoStore SsoSource
begin

text \<open>
  Handlers as programs. A handler of the change-request flow is a tree of calls: each node is one awaited call of
  the audit store, of GitHub, of ArgoCD, of the SSO source or of the clock, with a continuation from its answer
  (an exception is the answer \<open>Inl\<close>). The calls and their data are those of the interfaces in
  \<open>domain-api/src/sso-change/gitWriter.ts\<close>, \<open>argocdReader.ts\<close> and \<open>store/ssoChangeStore.ts\<close>.

  Two things can be done with a program: it can take a step against a database (\<open>prog_step\<close>; the answers of
  everything but the database are arbitrary), and it can be checked call by call (\<open>disciplined\<close>): every stage
  change is a move of the life cycle and every write to GitHub is justified by what the program knows.
\<close>

section \<open>Calls and answers\<close>

datatype write_kind = Conflict | RejectedWrite | UnknownWrite

datatype exn =
    StoreExn store_error
  | GitWriteExn write_kind string
  | GithubUnavailableExn string
  | SsoConfigExn string
  | ArgocdExn string
  | OtherExn string

record create_change_pr =
  cp_branch :: string
  cp_baseCommitSha :: string
  cp_baseBlobSha :: string
  cp_path :: string
  cp_content :: string
  cp_title :: string
  cp_body :: string
  cp_notBefore :: int
  cp_commitMessage :: string

record created_pr =
  created_number :: int
  created_url :: string

definition CREATE_PR_DEADLINE_MS :: int where "CREATE_PR_DEADLINE_MS = 60000"

datatype pr_state = OpenPr | ClosedPr

record pr_info =
  pr_number :: int
  pr_url :: string
  pr_state :: pr_state
  pr_merged :: bool
  pr_mergeCommitSha :: "string option"
  pr_createdAt :: "int option"

datatype compare_status = Identical | Ahead | Behind | Diverged

record file_at =
  fa_blobSha :: string
  fa_text :: string

record argocd_app =
  app_name :: string
  syncStatus :: string
  revision :: "string option"

datatype 'a prog =
    Ret 'a
  | Now "nat \<Rightarrow> 'a prog"
  | Ready "bool \<Rightarrow> 'a prog"
  | TryLease "(exn, bool) res \<Rightarrow> 'a prog"
  | RecordEvent new_event "(exn, unit) res \<Rightarrow> 'a prog"
  | FindByKey string "(exn, change_record option) res \<Rightarrow> 'a prog"
  | Submit submit_input "(exn, change_record \<times> bool) res \<Rightarrow> 'a prog"
  | Transition string change_stage change_stage transition_fields transition_event "nat option"
      "(exn, change_record option) res \<Rightarrow> 'a prog"
  | GetRequest string "(exn, change_record option) res \<Rightarrow> 'a prog"
  | ListOpen nat "(exn, change_record list) res \<Rightarrow> 'a prog"
  | FindByBranch string "(exn, change_record option) res \<Rightarrow> 'a prog"
  | ListRecentTerminal int nat "(exn, change_record list) res \<Rightarrow> 'a prog"
  | ReadBase bool "(exn, sso_base) res \<Rightarrow> 'a prog"
  | CreateChangePr create_change_pr "(exn, created_pr) res \<Rightarrow> 'a prog"
  | FindBranch string "(exn, string option) res \<Rightarrow> 'a prog"
  | FindPrByBranch string int "(exn, pr_info option) res \<Rightarrow> 'a prog"
  | GetPr int "(exn, pr_info option) res \<Rightarrow> 'a prog"
  | ClosePr int "(exn, pr_info) res \<Rightarrow> 'a prog"
  | Compare string string "(exn, compare_status) res \<Rightarrow> 'a prog"
  | ListOpenSsoPrs "(exn, (int \<times> string) list) res \<Rightarrow> 'a prog"
  | ReadFile string string "(exn, file_at) res \<Rightarrow> 'a prog"
  | GetApplication string "(exn, argocd_app) res \<Rightarrow> 'a prog"

section \<open>The world a program runs in\<close>

text \<open>The database, and which pull request numbers GitHub has answered to which question.\<close>

datatype gh_query = ByBranch string | ByNumber int | Created string

record world =
  w_db :: db
  w_answers :: "(gh_query \<times> int) list"

definition empty_world :: world where
  "empty_world = \<lparr>w_db = empty_db, w_answers = []\<rparr>"

definition lift_res :: "(store_error, 'a) res \<Rightarrow> (exn, 'a) res" where
  "lift_res r = (case r of Inl e \<Rightarrow> Inl (StoreExn e) | Inr v \<Rightarrow> Inr v)"

lemma lift_res_Inr [simp]: "lift_res r = Inr v \<longleftrightarrow> r = Inr v"
  by (cases r) (simp_all add: lift_res_def)

definition reading :: "(db \<Rightarrow> 'a) \<Rightarrow> db \<Rightarrow> (store_error, 'a) res \<times> db" where
  "reading q d = (Inr (q d), d)"

definition writing_event :: "new_event \<Rightarrow> db \<Rightarrow> (store_error, unit) res \<times> db" where
  "writing_event e d = (Inr (), recordEvent e d)"

definition answer :: "gh_query \<Rightarrow> int option \<Rightarrow> world \<Rightarrow> world" where
  "answer q n w = (case n of None \<Rightarrow> w | Some m \<Rightarrow> w\<lparr>w_answers := (q, m) # w_answers w\<rparr>)"

definition answer_pr :: "(exn, pr_info option) res \<Rightarrow> int option" where
  "answer_pr r = (case r of Inr (Some p) \<Rightarrow> Some (pr_number p) | _ \<Rightarrow> None)"

definition answer_created :: "(exn, created_pr) res \<Rightarrow> int option" where
  "answer_created r = (case r of Inr c \<Rightarrow> Some (created_number c) | _ \<Rightarrow> None)"

text \<open>One store call: the database answers \<open>f\<close>, or the connection breaks before or after the commit.\<close>

definition store_call :: "(db \<Rightarrow> (store_error, 'a) res \<times> db) \<Rightarrow> world \<Rightarrow> (exn, 'a) res \<Rightarrow> world \<Rightarrow> bool" where
  "store_call f w r w' \<longleftrightarrow> (\<exists>r0 d'. db_call f (w_db w) r0 d' \<and> r = lift_res r0 \<and> w' = w\<lparr>w_db := d'\<rparr>)"

inductive prog_step :: "'a prog \<Rightarrow> world \<Rightarrow> 'a prog \<Rightarrow> world \<Rightarrow> bool" where
  now: "prog_step (Now k) w (k t) w"
| ready: "prog_step (Ready k) w (k b) w"
| lease: "prog_step (TryLease k) w (k r) w"
| recordEvent: "store_call (writing_event e) w r w' \<Longrightarrow> prog_step (RecordEvent e k) w (k r) w'"
| findByKey: "store_call (reading (findByKey key)) w r w' \<Longrightarrow> prog_step (FindByKey key k) w (k r) w'"
| submit: "store_call (submit now u input) w r w' \<Longrightarrow> prog_step (Submit input k) w (k r) w'"
| transition: "store_call (transition now i e s f ev v) w r w' \<Longrightarrow> prog_step (Transition i e s f ev v k) w (k r) w'"
| getRequest: "store_call (reading (get_request i)) w r w' \<Longrightarrow> prog_step (GetRequest i k) w (k r) w'"
| listOpen: "store_call (reading (listOpen n)) w r w' \<Longrightarrow> prog_step (ListOpen n k) w (k r) w'"
| findByBranch: "store_call (reading (findByBranch b)) w r w' \<Longrightarrow> prog_step (FindByBranch b k) w (k r) w'"
| listRecentTerminal: "store_call (reading (listRecentTerminal (nat since) n)) w r w' \<Longrightarrow>
    prog_step (ListRecentTerminal since n k) w (k r) w'"
| readBase: "prog_step (ReadBase fresh k) w (k r) w"
| createChangePr: "prog_step (CreateChangePr inp k) w (k r) (answer (Created (cp_branch inp)) (answer_created r) w)"
| findBranch: "prog_step (FindBranch b k) w (k r) w"
| findPrByBranch: "prog_step (FindPrByBranch b nb k) w (k r) (answer (ByBranch b) (answer_pr r) w)"
| getPr: "prog_step (GetPr n k) w (k r) (answer (ByNumber n) (answer_pr r) w)"
| closePr: "prog_step (ClosePr n k) w (k r) w"
| compare: "prog_step (Compare a b k) w (k r) w"
| listOpenSsoPrs: "prog_step (ListOpenSsoPrs k) w (k r) w"
| readFile: "prog_step (ReadFile p ref k) w (k r) w"
| getApplication: "prog_step (GetApplication a k) w (k r) w"

section \<open>The life cycle of a request\<close>

fun lifecycle :: "change_stage \<Rightarrow> change_stage \<Rightarrow> bool" where
  "lifecycle Submitted t = (t \<in> {Submitted, PrOpen, UnknownRecovering, Failed})"
| "lifecycle UnknownRecovering t = (t \<in> {Submitted, PrOpen, Failed})"
| "lifecycle PrOpen t = (t \<in> {Merged, Rejected, Failed})"
| "lifecycle Merged t = (t = Applied)"
| "lifecycle Applied t = False"
| "lifecycle Rejected t = False"
| "lifecycle Failed t = False"

lemma lifecycle_not_ended: "lifecycle s t \<Longrightarrow> s \<notin> {Failed, Rejected}"
  by (cases s) auto

lemma lifecycle_active: "lifecycle s t \<Longrightarrow> is_active t \<Longrightarrow> is_active s"
  by (cases s; cases t) (auto simp: is_active_def ACTIVE_STAGES_def)

section \<open>What a program knows\<close>

datatype fact =
    HasRow string string
  | Audited string
  | Ended string
  | RowPr string int
  | Answered gh_query int

definition is_cancel_request :: "new_event \<Rightarrow> bool" where
  "is_cancel_request e \<longleftrightarrow>
     (case ne_detail e of Some (JObj ((k, JStr v) # _)) \<Rightarrow> k = ''cancel'' \<and> v = ''requested'' | _ \<Rightarrow> False)"

fun holds :: "world \<Rightarrow> fact \<Rightarrow> bool" where
  "holds w (HasRow i b) \<longleftrightarrow> list_ex (\<lambda>r. rq_id r = i \<and> rq_branch r = b) (requests (w_db w))
     \<and> logged (events (w_db w)) i (\<lambda>e. ne_stage e = Stage Submitted)"
| "holds w (Audited i) \<longleftrightarrow> logged (events (w_db w)) i is_cancel_request"
| "holds w (Ended i) \<longleftrightarrow> list_ex (\<lambda>r. rq_id r = i \<and> rq_stage r \<in> {Failed, Rejected}) (requests (w_db w))"
| "holds w (RowPr i n) \<longleftrightarrow> logged (events (w_db w)) i (\<lambda>e. ne_prNumber e = Some n)"
| "holds w (Answered q n) \<longleftrightarrow> (q, n) \<in> set (w_answers w)"

definition record_facts :: "change_record \<Rightarrow> fact set" where
  "record_facts c = {HasRow (cr_id c) (branch c)}
     \<union> (if cr_stage c \<in> {Failed, Rejected} then {Ended (cr_id c)} else {})
     \<union> (case prNumber c of None \<Rightarrow> {} | Some n \<Rightarrow> {RowPr (cr_id c) n})"

definition event_facts :: "new_event \<Rightarrow> (exn, unit) res \<Rightarrow> fact set" where
  "event_facts e r = (case (r, ne_requestId e) of
     (Inr _, Some i) \<Rightarrow> if is_cancel_request e then {Audited i} else {} | _ \<Rightarrow> {})"

definition opt_facts :: "(exn, change_record option) res \<Rightarrow> fact set" where
  "opt_facts r = (case r of Inr (Some c) \<Rightarrow> record_facts c | _ \<Rightarrow> {})"

definition list_facts :: "(exn, change_record list) res \<Rightarrow> fact set" where
  "list_facts r = (case r of Inr cs \<Rightarrow> \<Union> (record_facts ` set cs) | _ \<Rightarrow> {})"

definition submit_facts :: "(exn, change_record \<times> bool) res \<Rightarrow> fact set" where
  "submit_facts r = (case r of Inr (c, _) \<Rightarrow> record_facts c | _ \<Rightarrow> {})"

definition answer_facts :: "gh_query \<Rightarrow> int option \<Rightarrow> fact set" where
  "answer_facts q n = (case n of None \<Rightarrow> {} | Some m \<Rightarrow> {Answered q m})"

text \<open>What the store promises about its answers.\<close>

definition submit_answer :: "submit_input \<Rightarrow> (exn, change_record \<times> bool) res \<Rightarrow> bool" where
  "submit_answer inp r \<longleftrightarrow> (case r of Inr (c, replay) \<Rightarrow>
     idempotencyKey c = si_idempotencyKey inp \<and> (\<not> replay \<longrightarrow> branch c = si_branch inp \<and> cr_stage c = Submitted) | _ \<Rightarrow> True)"

definition transition_answer :: "string \<Rightarrow> change_stage \<Rightarrow> (exn, change_record option) res \<Rightarrow> bool" where
  "transition_answer i s r \<longleftrightarrow> (case r of Inr (Some c) \<Rightarrow> cr_id c = i \<and> cr_stage c = s | _ \<Rightarrow> True)"

definition get_answer :: "string \<Rightarrow> (exn, change_record option) res \<Rightarrow> bool" where
  "get_answer i r \<longleftrightarrow> (case r of Inr (Some c) \<Rightarrow> cr_id c = i | _ \<Rightarrow> True)"

definition list_answer :: "change_stage list \<Rightarrow> (exn, change_record list) res \<Rightarrow> bool" where
  "list_answer ss r \<longleftrightarrow> (case r of Inr cs \<Rightarrow> (\<forall>c \<in> set cs. cr_stage c \<in> set ss) | _ \<Rightarrow> True)"

text \<open>A pull request may be closed only when GitHub named it for the branch, or for the recorded number, of a
  request that has an audited cancel or has ended.\<close>

definition may_close :: "fact set \<Rightarrow> int \<Rightarrow> bool" where
  "may_close K n \<longleftrightarrow> (\<exists>i b. HasRow i b \<in> K \<and> (Audited i \<in> K \<or> Ended i \<in> K) \<and>
     (Answered (ByBranch b) n \<in> K \<or> Answered (Created b) n \<in> K \<or> (\<exists>m. RowPr i m \<in> K \<and> Answered (ByNumber m) n \<in> K)))"

text \<open>A change may be written only to the SSO file, on the branch of a committed request.\<close>

definition may_create :: "fact set \<Rightarrow> create_change_pr \<Rightarrow> bool" where
  "may_create K inp \<longleftrightarrow> cp_path inp = SSO_FILE_PATH \<and> (\<exists>i. HasRow i (cp_branch inp) \<in> K)"

primrec disciplined :: "'a prog \<Rightarrow> fact set \<Rightarrow> bool" where
  "disciplined (Ret a) K = True"
| "disciplined (Now k) K = (\<forall>t. disciplined (k t) K)"
| "disciplined (Ready k) K = (\<forall>b. disciplined (k b) K)"
| "disciplined (TryLease k) K = (\<forall>r. disciplined (k r) K)"
| "disciplined (RecordEvent e k) K = (\<forall>r. disciplined (k r) (K \<union> event_facts e r))"
| "disciplined (FindByKey key k) K = (\<forall>r. disciplined (k r) (K \<union> opt_facts r))"
| "disciplined (Submit inp k) K = (\<forall>r. submit_answer inp r \<longrightarrow> disciplined (k r) (K \<union> submit_facts r))"
| "disciplined (Transition i e s f ev v k) K =
     (lifecycle e s \<and> (\<forall>r. transition_answer i s r \<longrightarrow> disciplined (k r) (K \<union> opt_facts r)))"
| "disciplined (GetRequest i k) K = (\<forall>r. get_answer i r \<longrightarrow> disciplined (k r) (K \<union> opt_facts r))"
| "disciplined (ListOpen n k) K = (\<forall>r. list_answer OPEN_STAGES r \<longrightarrow> disciplined (k r) (K \<union> list_facts r))"
| "disciplined (FindByBranch b k) K = (\<forall>r. disciplined (k r) (K \<union> opt_facts r))"
| "disciplined (ListRecentTerminal since n k) K =
     (\<forall>r. list_answer [Failed, Rejected] r \<longrightarrow> disciplined (k r) (K \<union> list_facts r))"
| "disciplined (ReadBase fresh k) K = (\<forall>r. disciplined (k r) K)"
| "disciplined (CreateChangePr inp k) K =
     (may_create K inp \<and> (\<forall>r. disciplined (k r) (K \<union> answer_facts (Created (cp_branch inp)) (answer_created r))))"
| "disciplined (FindBranch b k) K = (\<forall>r. disciplined (k r) K)"
| "disciplined (FindPrByBranch b nb k) K = (\<forall>r. disciplined (k r) (K \<union> answer_facts (ByBranch b) (answer_pr r)))"
| "disciplined (GetPr n k) K = (\<forall>r. disciplined (k r) (K \<union> answer_facts (ByNumber n) (answer_pr r)))"
| "disciplined (ClosePr n k) K = (may_close K n \<and> (\<forall>r. disciplined (k r) K))"
| "disciplined (Compare a b k) K = (\<forall>r. disciplined (k r) K)"
| "disciplined (ListOpenSsoPrs k) K = (\<forall>r. disciplined (k r) K)"
| "disciplined (ReadFile p ref k) K = (\<forall>r. disciplined (k r) K)"
| "disciplined (GetApplication a k) K = (\<forall>r. disciplined (k r) K)"

subsection \<open>Knowledge only grows\<close>

lemma may_close_mono: "may_close K n \<Longrightarrow> K \<subseteq> K' \<Longrightarrow> may_close K' n"
  unfolding may_close_def by blast

lemma may_create_mono: "may_create K inp \<Longrightarrow> K \<subseteq> K' \<Longrightarrow> may_create K' inp"
  unfolding may_create_def by blast

lemma disciplined_Un: "disciplined p K \<Longrightarrow> disciplined p (K \<union> J)"
proof (induction p arbitrary: K)
  case (CreateChangePr inp k)
  then show ?case
    using may_create_mono [of K inp "K \<union> J"] by (simp add: Un_assoc Un_commute [of J]) (simp add: Un_assoc [symmetric])
next
  case (ClosePr n k)
  then show ?case using may_close_mono [of K n "K \<union> J"] by simp
qed (simp_all add: Un_assoc Un_commute [of J], simp_all add: Un_assoc [symmetric])

lemma disciplined_mono: "disciplined p K \<Longrightarrow> K \<subseteq> K' \<Longrightarrow> disciplined p K'"
  using disciplined_Un [of p K K'] by (simp add: Un_absorb1)

lemma disciplined_insert: "disciplined p K \<Longrightarrow> disciplined p (insert f K)"
  by (rule disciplined_mono) auto

lemmas disciplined_weaken = disciplined_Un disciplined_insert

section \<open>Steps of a disciplined program\<close>

definition world_inv :: "world \<Rightarrow> bool" where
  "world_inv w \<longleftrightarrow> db_inv (w_db w) \<and> audited (w_db w)"

definition world_step :: "world \<Rightarrow> world \<Rightarrow> bool" where
  "world_step w w' \<longleftrightarrow> db_step lifecycle (w_db w) (w_db w') \<and> set (w_answers w) \<subseteq> set (w_answers w')"

lemma world_step_refl [simp]: "world_step w w"
  by (simp add: world_step_def db_step.idle)

lemma world_step_answer [simp]: "world_step w (answer q n w)"
  by (auto simp: world_step_def answer_def db_step.idle split: option.splits)

lemma world_step_inv: "world_step w w' \<Longrightarrow> world_inv w \<Longrightarrow> world_inv w'"
  by (auto simp: world_step_def world_inv_def intro: db_step_inv audited_step)

lemma db_step_has_row:
  "db_step L d d' \<Longrightarrow> list_ex (\<lambda>r. rq_id r = i \<and> rq_branch r = b) (requests d)
     \<Longrightarrow> list_ex (\<lambda>r. rq_id r = i \<and> rq_branch r = b) (requests d')"
  by (erule db_stepE) auto

lemma db_step_ended:
  assumes "db_step lifecycle d d'" "list_ex (\<lambda>r. rq_id r = i \<and> rq_stage r \<in> {Failed, Rejected}) (requests d)"
  shows "list_ex (\<lambda>r. rq_id r = i \<and> rq_stage r \<in> {Failed, Rejected}) (requests d')"
  using assms(1)
proof cases
  case (move pre row post stage now flds ev)
  then have "rq_stage row \<notin> {Failed, Rejected}" by (auto dest: lifecycle_not_ended)
  then show ?thesis using assms(2) move by auto
qed (use assms(2) in auto)

lemma db_step_logged: "db_step L d d' \<Longrightarrow> logged (events d) i p \<Longrightarrow> logged (events d') i p"
  by (drule db_step_events) auto

lemma holds_stable: "world_step w w' \<Longrightarrow> holds w f \<Longrightarrow> holds w' f"
  unfolding world_step_def
  by (cases f) (auto dest: db_step_has_row db_step_logged db_step_ended simp del: list_ex_iff)

subsection \<open>What the store's answers mean\<close>

lemma store_call_Inr: "store_call f w (Inr v) w' \<Longrightarrow> f (w_db w) = (Inr v, w_db w') \<and> w_answers w' = w_answers w"
  unfolding store_call_def by (elim exE conjE, drule sym [of "Inr v"]) (auto elim!: db_callE)

lemma reading_Inr: "store_call (reading q) w (Inr v) w' \<Longrightarrow> v = q (w_db w) \<and> w_db w' = w_db w"
  by (drule store_call_Inr) (auto simp: reading_def)

lemma store_call_step:
  assumes "store_call f w r w'" "db_step lifecycle (w_db w) (snd (f (w_db w)))"
  shows "world_step w w'"
  using assms by (auto simp: store_call_def world_step_def dest: db_call_step)

lemma row_facts:
  assumes "audited (w_db w)" "r \<in> set (requests (w_db w))" "f \<in> record_facts (toRecord r)"
  shows "holds w f"
proof -
  have "row_audited (events (w_db w)) r" using assms(1,2) by (simp add: audited_def list_all_iff)
  then show ?thesis using assms(2,3)
    by (auto simp: record_facts_def row_audited_def list_ex_iff split: if_splits option.splits)
qed

lemma first_record_row: "first_record (select_rows p d) = Some c \<Longrightarrow> \<exists>r \<in> set (requests d). p r \<and> c = toRecord r"
  by (auto simp: first_record_def split: list.splits dest: select_rows_ConsD)

lemma newest_first_rows:
  "c \<in> set (map toRecord (take n (newest_first g (select_rows p d)))) \<Longrightarrow> \<exists>r \<in> set (requests d). p r \<and> c = toRecord r"
  by (auto simp: newest_first_def select_rows_def dest!: in_set_takeD)

lemma opt_reading_facts:
  assumes "audited (w_db w)" "store_call (reading (\<lambda>d. first_record (select_rows p d))) w r w'" "f \<in> opt_facts r"
  shows "holds w' f"
proof -
  from assms(3) obtain c where r: "r = Inr (Some c)" "f \<in> record_facts c"
    by (auto simp: opt_facts_def split: sum.splits option.splits)
  with reading_Inr assms(2) have c: "first_record (select_rows p (w_db w)) = Some c" "w_db w' = w_db w" by fastforce+
  then show ?thesis using first_record_row row_facts [of w' _ f] assms(1) r(2) by fastforce
qed

lemma list_reading_facts:
  assumes "audited (w_db w)"
    and "store_call (reading (\<lambda>d. map toRecord (take n (newest_first g (select_rows p d))))) w r w'" "f \<in> list_facts r"
  shows "holds w' f"
proof -
  from assms(3) obtain cs c where r: "r = Inr cs" "c \<in> set cs" "f \<in> record_facts c"
    by (auto simp: list_facts_def split: sum.splits)
  with reading_Inr assms(2) have "c \<in> set (map toRecord (take n (newest_first g (select_rows p (w_db w)))))"
    and eq: "w_db w' = w_db w" by fastforce+
  from newest_first_rows [OF this(1)] row_facts [of w' _ f] show ?thesis using assms(1) r(3) eq by auto
qed

lemma submit_call_facts:
  assumes "store_call (submit now u inp) w r w'" "f \<in> submit_facts r" "world_inv w'"
  shows "holds w' f"
proof -
  from assms(2) obtain c replay where r: "r = Inr (c, replay)" "f \<in> record_facts c"
    by (auto simp: submit_facts_def split: sum.splits)
  with assms(1) have "submit now u inp (w_db w) = (Inr (c, replay), w_db w')"
    by (auto dest: store_call_Inr)
  from submit_row [OF this] show ?thesis using row_facts r(2) assms(3) by (auto simp: world_inv_def)
qed

lemma transition_call_facts:
  assumes "world_inv w" "store_call (transition now i e s fl ev v) w r w'" "f \<in> opt_facts r" "world_inv w'"
  shows "holds w' f"
proof -
  from assms(3) obtain c where r: "r = Inr (Some c)" "f \<in> record_facts c"
    by (auto simp: opt_facts_def split: sum.splits option.splits)
  with assms(2) have "transition now i e s fl ev v (w_db w) = (Inr (Some c), w_db w')"
    by (auto dest: store_call_Inr)
  from transition_row [OF _ this] show ?thesis using row_facts r(2) assms(1,4) by (auto simp: world_inv_def)
qed

lemma submit_call_answer:
  assumes "store_call (submit now u inp) w r w'"
  shows "submit_answer inp r"
proof (cases r)
  case (Inr p)
  with assms have "submit now u inp (w_db w) = (Inr (fst p, snd p), w_db w')" by (auto dest: store_call_Inr)
  from submit_row [OF this] show ?thesis unfolding Inr submit_answer_def by (cases p) auto
qed (simp add: submit_answer_def)

lemma transition_call_answer:
  assumes "world_inv w" "store_call (transition now i e s fl ev v) w r w'"
  shows "transition_answer i s r"
proof (cases "\<exists>c. r = Inr (Some c)")
  case True
  then obtain c where r: "r = Inr (Some c)" by blast
  with assms(2) have "transition now i e s fl ev v (w_db w) = (Inr (Some c), w_db w')"
    by (auto dest: store_call_Inr)
  from transition_row [OF _ this] show ?thesis using assms(1)
    unfolding r transition_answer_def world_inv_def by auto
next
  case False
  then show ?thesis by (auto simp: transition_answer_def split: sum.splits option.splits)
qed

lemma get_call_answer: "store_call (reading (get_request i)) w r w' \<Longrightarrow> get_answer i r"
  unfolding get_answer_def
  by (cases r) (auto simp: get_request_def split: option.splits dest!: reading_Inr first_record_row)

lemma list_call_answer:
  assumes "store_call (reading (\<lambda>d. map toRecord (take n (newest_first g (select_rows p d))))) w r w'"
    and "\<And>row. p row \<Longrightarrow> rq_stage row \<in> set ss"
  shows "list_answer ss r"
  unfolding list_answer_def using assms newest_first_rows [of _ n g p "w_db w"]
  by (cases r) (fastforce dest: reading_Inr)+

lemma writing_Inr: "store_call (writing_event e) w (Inr u) w' \<Longrightarrow> w_db w' = recordEvent e (w_db w)"
  by (drule store_call_Inr) (auto simp: writing_event_def)

lemma event_call_facts:
  "store_call (writing_event e) w r w' \<Longrightarrow> f \<in> event_facts e r \<Longrightarrow> holds w' f"
  by (cases r) (auto simp: event_facts_def split: option.splits if_splits dest!: writing_Inr)

lemma answer_facts_hold: "f \<in> answer_facts q n \<Longrightarrow> holds (answer q n w) f"
  by (cases n) (auto simp: answer_facts_def answer_def)

subsection \<open>Soundness of the discipline\<close>

text \<open>A program in a world where everything it knows is true.\<close>

definition good :: "world \<Rightarrow> 'a prog \<Rightarrow> bool" where
  "good w p \<longleftrightarrow> (\<exists>K. disciplined p K \<and> (\<forall>f \<in> K. holds w f))"

lemma goodI: "disciplined p K \<Longrightarrow> (\<And>f. f \<in> K \<Longrightarrow> holds w f) \<Longrightarrow> good w p"
  unfolding good_def by blast

lemma good_stable: "good w p \<Longrightarrow> world_step w w' \<Longrightarrow> good w' p"
  unfolding good_def using holds_stable by blast

lemma good_after:
  assumes "disciplined p (K \<union> F)" "\<forall>f \<in> K. holds w f" "world_step w w'" "\<And>f. f \<in> F \<Longrightarrow> holds w' f"
  shows "good w' p"
  using assms holds_stable by (intro goodI [of p "K \<union> F"]) auto

lemma prog_step_sound:
  assumes step: "prog_step p w p' w'" and inv: "world_inv w"
    and p: "disciplined p K" and known: "\<forall>f \<in> K. holds w f"
  shows "world_step w w' \<and> good w' p'"
proof -
  have db: "db_inv (w_db w)" "audited (w_db w)" using inv by (simp_all add: world_inv_def)
  have read: "world_step w v" if "store_call (reading q) w r v" for q :: "db \<Rightarrow> 'c" and r v
    by (rule store_call_step [OF that]) (simp add: reading_def db_step.idle)
  have stay: "good w q" if "disciplined q K" for q :: "'a prog" using that known by (blast intro: goodI)
  show ?thesis using step
  proof cases
    case (recordEvent e r k)
    have ws: "world_step w w'"
      by (rule store_call_step [OF recordEvent(3)]) (simp add: writing_event_def db_step.audit)
    then show ?thesis using p known event_call_facts [OF recordEvent(3)]
      unfolding recordEvent by (auto intro!: good_after [of _ K "event_facts e r"])
  next
    case (findByKey key r k)
    then show ?thesis using p known read [OF findByKey(3)] opt_reading_facts [OF db(2) findByKey(3) [unfolded findByKey_def [abs_def]]]
      unfolding findByKey by (auto intro!: good_after [of _ K "opt_facts r"])
  next
    case (submit now u inp r k)
    have ws: "world_step w w'"
      by (rule store_call_step [OF submit(3)]) (rule submit_db_step [OF db(1)])
    then show ?thesis using p known submit_call_facts [OF submit(3)] submit_call_answer [OF submit(3)] world_step_inv [OF ws inv]
      unfolding submit by (auto intro!: good_after [of _ K "submit_facts r"])
  next
    case (transition now i e s f ev v r k)
    have ws: "world_step w w'"
      by (rule store_call_step [OF transition(3)], rule transition_db_step [OF db(1)]) (use p transition in simp)
    then show ?thesis using p known transition_call_facts [OF inv transition(3)] transition_call_answer [OF inv transition(3)]
        world_step_inv [OF ws inv]
      unfolding transition by (auto intro!: good_after [of _ K "opt_facts r"])
  next
    case (getRequest i r k)
    then show ?thesis using p known read [OF getRequest(3)] get_call_answer [OF getRequest(3)]
        opt_reading_facts [OF db(2) getRequest(3) [unfolded get_request_def [abs_def]]]
      unfolding getRequest by (auto intro!: good_after [of _ K "opt_facts r"])
  next
    case (findByBranch b r k)
    then show ?thesis using p known read [OF findByBranch(3)]
        opt_reading_facts [OF db(2) findByBranch(3) [unfolded findByBranch_def [abs_def]]]
      unfolding findByBranch by (auto intro!: good_after [of _ K "opt_facts r"])
  next
    case (listOpen n r k)
    note call = listOpen(3) [unfolded listOpen_def [abs_def]]
    have "list_answer OPEN_STAGES r" by (rule list_call_answer [OF call])
    then show ?thesis using p known read [OF listOpen(3)] list_reading_facts [OF db(2) call]
      unfolding listOpen by (auto intro!: good_after [of _ K "list_facts r"])
  next
    case (listRecentTerminal since n r k)
    note call = listRecentTerminal(3) [unfolded listRecentTerminal_def [abs_def]]
    have "list_answer [Failed, Rejected] r" by (rule list_call_answer [OF call]) auto
    then show ?thesis using p known read [OF listRecentTerminal(3)] list_reading_facts [OF db(2) call]
      unfolding listRecentTerminal by (auto intro!: good_after [of _ K "list_facts r"])
  next
    case (createChangePr inp k r)
    then show ?thesis using p known answer_facts_hold
      by (auto intro!: good_after [of _ K "answer_facts (Created (cp_branch inp)) (answer_created r)"])
  next
    case (findPrByBranch b nb k r)
    then show ?thesis using p known answer_facts_hold
      by (auto intro!: good_after [of _ K "answer_facts (ByBranch b) (answer_pr r)"])
  next
    case (getPr n k r)
    then show ?thesis using p known answer_facts_hold
      by (auto intro!: good_after [of _ K "answer_facts (ByNumber n) (answer_pr r)"])
  qed (use p stay in auto)
qed

end
