(* ===== verification/PrText.thy ===== *)
theory PrText
  imports Grammar
begin

text \<open>
  The text of a commit and of a pull request: \<open>domain-api/src/sso-change/prText.ts\<close>. Strings are UTF-8 bytes, so
  a white space character of JavaScript is one to three bytes (\<open>space_len\<close>).
\<close>

section \<open>Definitions\<close>

fun byte_prefix :: "(nat \<times> nat) list \<Rightarrow> string \<Rightarrow> bool" where
  "byte_prefix [] s = True"
| "byte_prefix ((lo, hi) # bs) [] = False"
| "byte_prefix ((lo, hi) # bs) (c # s) = (lo \<le> of_char c \<and> of_char c \<le> hi \<and> byte_prefix bs s)"

text \<open>The bytes of the character at the front when it is in \<open>[\u0000-\u001F\u007F\s]\<close>, else 0.\<close>

definition space_len :: "string \<Rightarrow> nat" where
  "space_len s =
     (case s of [] \<Rightarrow> 0
      | c # _ \<Rightarrow>
          if (of_char c :: nat) < 32 \<or> (of_char c :: nat) = 127 \<or> is_space c then 1
          else (case find (\<lambda>bs. byte_prefix bs s) unicode_spaces of Some bs \<Rightarrow> length bs | None \<Rightarrow> 0))"

text \<open>\<open>replace(/[...]+/g, " ")\<close>; the flag says that the current run already has its blank.\<close>

function collapse :: "bool \<Rightarrow> string \<Rightarrow> string" where
  "collapse run [] = []"
| "collapse run (c # s) =
     (if space_len (c # s) = 0 then c # collapse False s
      else if run then collapse True (drop (space_len (c # s) - 1) s)
      else CHR '' '' # collapse True (drop (space_len (c # s) - 1) s))"
  by pat_completeness auto
termination by (relation "measure (length \<circ> snd)") auto

definition oneLine :: "string \<Rightarrow> string" where
  "oneLine s = trim (collapse False s)"

definition MARKDOWN_CHARS :: string where
  "MARKDOWN_CHARS = [CHR 0x5C, CHR 0x60] @ ''*_{}[]<>()#+-.!|~@&:''"

definition escape_char :: "char \<Rightarrow> string" where
  "escape_char c = (if c \<in> set MARKDOWN_CHARS then [CHR 0x5C, c] else [c])"

definition escapeMarkdown :: "string \<Rightarrow> string" where
  "escapeMarkdown s = concat (map escape_char (oneLine s))"

definition prTitle :: "string \<Rightarrow> string" where
  "prTitle endpoint = ''chore(gitops): update allowedGroups of '' @ endpoint @ '' via Manager''"

definition or_unknown :: "string option \<Rightarrow> string" where
  "or_unknown u = (case u of None \<Rightarrow> ''unknown'' | Some s \<Rightarrow> s)"

definition NL :: string where "NL = [CHR 0x0A]"

definition commitMessage :: "string \<Rightarrow> string option \<Rightarrow> string \<Rightarrow> string" where
  "commitMessage endpoint username sub =
     ''chore(sso): '' @ endpoint @ '' allowedGroups via Manager'' @ NL @ NL @
     ''Requested-by: '' @ oneLine (or_unknown username) @ '' ('' @ oneLine sub @ '')''"

text \<open>\<open>replace(/\r\n?/g, "\n")\<close>.\<close>

fun unix_lines :: "string \<Rightarrow> string" where
  "unix_lines [] = []"
| "unix_lines [c] = (if c = CHR 0x0D then NL else [c])"
| "unix_lines (c # d # s) =
     (if c = CHR 0x0D then CHR 0x0A # (if d = CHR 0x0A then unix_lines s else unix_lines (d # s))
      else c # unix_lines (d # s))"

definition fence_reason :: "string option \<Rightarrow> string" where
  "fence_reason r = (case r of None \<Rightarrow> ''(none given)''
     | Some s \<Rightarrow> if s = [] then ''(none given)'' else unix_lines (filter (\<lambda>c. c \<noteq> CHR 0x60) s))"

definition prBody :: "string option \<Rightarrow> string \<Rightarrow> string option \<Rightarrow> string \<Rightarrow> string \<Rightarrow> string \<Rightarrow> string" where
  "prBody username sub reason baseBlobSha sourceCommitSha diff =
     join NL
      [''Requested through Beluga Manager (ADR-0009). Review like any other change; the Manager never merges.'', '''',
       ''Requested-by: '' @ escapeMarkdown (or_unknown username) @ '' ('' @ escapeMarkdown sub @ '')'',
       ''Base-blob-sha: '' @ baseBlobSha, ''Source-commit-sha: '' @ sourceCommitSha, '''', ''Reason:'',
       replicate 3 (CHR 0x60) @ ''text'', fence_reason reason, replicate 3 (CHR 0x60), '''',
       replicate 4 (CHR 0x60) @ ''diff'', diff, replicate 4 (CHR 0x60)]"

section \<open>One line\<close>

lemma collapse_no_control: "c \<in> set (collapse run s) \<Longrightarrow> 32 \<le> (of_char c :: nat) \<and> (of_char c :: nat) \<noteq> 127"
proof (induction run s rule: collapse.induct)
  case (2 run d s)
  show ?case
  proof (cases "space_len (d # s) = 0")
    case True
    then have "32 \<le> (of_char d :: nat)" "(of_char d :: nat) \<noteq> 127"
      by (auto simp: space_len_def split: if_splits)
    then show ?thesis using 2 True by auto
  next
    case False
    then show ?thesis using 2 by (auto split: if_splits)
  qed
qed simp

lemma set_trim: "set (trim s) \<subseteq> set s"
  by (auto simp: trim_def dest!: set_dropWhileD)

lemma oneLine_no_control: "c \<in> set (oneLine s) \<Longrightarrow> 32 \<le> (of_char c :: nat) \<and> (of_char c :: nat) \<noteq> 127"
  using collapse_no_control set_trim unfolding oneLine_def by blast

lemma newline_notin_oneLine [simp]: "CHR 0x0A \<notin> set (oneLine s)" "CHR 0x0D \<notin> set (oneLine s)"
  using oneLine_no_control [of "CHR 0x0A" s] oneLine_no_control [of "CHR 0x0D" s] by auto

lemma commitMessage_lines:
  assumes "CHR 0x0A \<notin> set endpoint"
  shows "split_on (CHR 0x0A) (commitMessage endpoint username sub) =
    [''chore(sso): '' @ endpoint @ '' allowedGroups via Manager'', '''',
     ''Requested-by: '' @ oneLine (or_unknown username) @ '' ('' @ oneLine sub @ '')'']"
proof -
  let ?first = "''chore(sso): '' @ endpoint @ '' allowedGroups via Manager''"
  let ?last = "''Requested-by: '' @ oneLine (or_unknown username) @ '' ('' @ oneLine sub @ '')''"
  have "split_on (CHR 0x0A) (?first @ CHR 0x0A # [] @ CHR 0x0A # ?last) = ?first # split_on (CHR 0x0A) ([] @ CHR 0x0A # ?last)"
    by (rule split_on_append) (use assms in simp)
  also have "split_on (CHR 0x0A) ([] @ CHR 0x0A # ?last) = [] # split_on (CHR 0x0A) ?last"
    by (rule split_on_append) simp
  also have "split_on (CHR 0x0A) ?last = [?last]"
    by (rule split_on_no_sep) simp
  finally show ?thesis by (simp only: commitMessage_def NL_def append.simps append_assoc)
qed

section \<open>Markdown\<close>

text \<open>Markdown text in which every special character is escaped.\<close>

fun md_plain :: "string \<Rightarrow> bool" where
  "md_plain [] = True"
| "md_plain [c] = (c \<notin> set MARKDOWN_CHARS)"
| "md_plain (c # d # s) = (if c = CHR 0x5C then d \<in> set MARKDOWN_CHARS \<and> md_plain s
     else c \<notin> set MARKDOWN_CHARS \<and> md_plain (d # s))"

fun md_text :: "string \<Rightarrow> string" where
  "md_text [] = []"
| "md_text [c] = [c]"
| "md_text (c # d # s) = (if c = CHR 0x5C then d # md_text s else c # md_text (d # s))"

lemma backslash_special: "CHR 0x5C \<in> set MARKDOWN_CHARS"
  by (simp add: MARKDOWN_CHARS_def)

lemma md_Cons: "c \<noteq> CHR 0x5C \<Longrightarrow> md_plain (c # t) = (c \<notin> set MARKDOWN_CHARS \<and> md_plain t) \<and> md_text (c # t) = c # md_text t"
  by (cases t) simp_all

lemma md_escaped: "md_plain (concat (map escape_char s)) \<and> md_text (concat (map escape_char s)) = s"
proof (induction s)
  case (Cons c s)
  show ?case
  proof (cases "c \<in> set MARKDOWN_CHARS")
    case True
    then show ?thesis using Cons by (simp add: escape_char_def)
  next
    case False
    then have "c \<noteq> CHR 0x5C" using backslash_special by auto
    with False Cons show ?thesis by (simp add: escape_char_def md_Cons del: md_plain.simps md_text.simps)
  qed
qed simp

lemma newline_notin_escape: "CHR 0x0A \<notin> set (escapeMarkdown s)"
proof -
  have chars: "d \<in> set (escape_char c) \<Longrightarrow> d = CHR 0x5C \<or> d = c" for c d
    by (simp add: escape_char_def split: if_splits)
  show ?thesis
  proof
    assume "CHR 0x0A \<in> set (escapeMarkdown s)"
    then obtain c where "c \<in> set (oneLine s)" "CHR 0x0A \<in> set (escape_char c)"
      unfolding escapeMarkdown_def set_concat set_map by blast
    then have "CHR 0x0A \<in> set (oneLine s)" using chars [of "CHR 0x0A" c] by simp
    then show False by simp
  qed
qed

lemma no_backtick_unix_lines: "CHR 0x60 \<notin> set s \<Longrightarrow> CHR 0x60 \<notin> set (unix_lines s)"
  by (induction s rule: unix_lines.induct) (auto simp: NL_def)

lemma no_backtick_reason: "CHR 0x60 \<notin> set (fence_reason r)"
  by (auto simp: fence_reason_def no_backtick_unix_lines split: option.splits)

lemma no_cr_reason: "CHR 0x0D \<notin> set (unix_lines s)"
  by (induction s rule: unix_lines.induct) (auto simp: NL_def)

end
