(* ===== verification/SsoReconciler.thy ===== *)
theory SsoReconciler
  imports SsoProg PrText
begin

text \<open>
  The in-process reconciler: \<open>domain-api/src/sso-change/reconciler.ts\<close> and \<open>compensation.ts\<close>, as programs in
  continuation-passing style: a method that may throw hands its continuation \<open>Inl\<close> an exception. Log lines are left
  out. Times are epoch milliseconds; a difference is an \<open>int\<close> because the clocks of the process and of the
  database need not agree.
\<close>

section \<open>Constants and life of the timer\<close>

definition DEFAULT_RECONCILE_INTERVAL_MS :: nat where "DEFAULT_RECONCILE_INTERVAL_MS = 30000"
definition MIN_RECONCILE_INTERVAL_MS :: nat where "MIN_RECONCILE_INTERVAL_MS = 5000"
definition SUBMITTED_GRACE_MS :: int where "SUBMITTED_GRACE_MS = 120000"
definition LIST_LIMIT :: nat where "LIST_LIMIT = 100"
definition SWEEP_WINDOW_MS :: int where "SWEEP_WINDOW_MS = 7 * 24 * 3600000"
definition SWEEP_BATCH :: nat where "SWEEP_BATCH = 20"
definition SWEEP_RECHECK_MS :: int where "SWEEP_RECHECK_MS = 10 * 60000"
definition PR_ADOPT_SKEW_MS :: int where "PR_ADOPT_SKEW_MS = 5 * 60000"

text \<open>The timer handle, the single-flight flag, and the two in-memory tables of the sweep.\<close>

record reconciler =
  intervalMs :: nat
  handle :: "nat option"
  running :: bool
  sweptAt :: "string \<Rightarrow> nat option"
  loggedOrphans :: "int list"

definition new_reconciler :: "nat option \<Rightarrow> reconciler" where
  "new_reconciler interval =
     \<lparr>intervalMs = max (case interval of Some i \<Rightarrow> i | None \<Rightarrow> DEFAULT_RECONCILE_INTERVAL_MS) MIN_RECONCILE_INTERVAL_MS,
      handle = None, running = False, sweptAt = (\<lambda>_. None), loggedOrphans = []\<rparr>"

text \<open>\<open>start\<close> answers whether it armed a timer; \<open>h\<close> is the handle that \<open>setInterval\<close> returns.\<close>

definition start_reconciler :: "nat \<Rightarrow> reconciler \<Rightarrow> bool \<times> reconciler" where
  "start_reconciler h r = (if handle r \<noteq> None then (False, r) else (True, r\<lparr>handle := Some h\<rparr>))"

definition stop_reconciler :: "reconciler \<Rightarrow> nat option \<times> reconciler" where
  "stop_reconciler r = (case handle r of None \<Rightarrow> (None, r) | Some h \<Rightarrow> (Some h, r\<lparr>handle := None\<rparr>))"

definition SHUTDOWN_DRAIN_MS :: nat where "SHUTDOWN_DRAIN_MS = 10000"

text \<open>\<open>stopAndDrain\<close>: the timer is stopped; the wait for a tick in flight lasts until the tick ends or the limit.\<close>

definition stopAndDrain :: "nat \<Rightarrow> nat \<Rightarrow> reconciler \<Rightarrow> nat \<times> reconciler" where
  "stopAndDrain timeoutMs tickLeftMs r =
     (let r' = snd (stop_reconciler r) in (if running r' then min tickLeftMs timeoutMs else 0, r'))"

section \<open>Compensation\<close>

definition isTerminalLoss :: "change_stage \<Rightarrow> bool" where
  "isTerminalLoss s \<longleftrightarrow> s = Failed \<or> s = Rejected"

definition compensation_event ::
  "change_record \<Rightarrow> int \<Rightarrow> string \<Rightarrow> string option \<Rightarrow> string option \<Rightarrow> bool \<Rightarrow> new_event" where
  "compensation_event current n sub username source closed =
     \<lparr>ne_requestId = Some (cr_id current), ne_stage = Stage (cr_stage current), ne_actorSub = sub,
      ne_actorUsername = username, ne_endpoint = Some (cr_endpoint current), ne_idempotencyKey = None,
      ne_baseBlobSha = None, ne_payloadSha256 = None, ne_prNumber = Some n, ne_prUrl = None,
      ne_mergeCommitSha = None, ne_reason = None,
      ne_detail = Some (JObj ([(''compensation'', JStr (if closed then ''closed_orphan_pr'' else ''close_orphan_pr_failed'')),
        (''prNumber'', JNum n)] @ (case source of None \<Rightarrow> [] | Some s \<Rightarrow> [(''source'', JStr s)])))\<rparr>"

definition closeOrphanPr ::
  "change_record \<Rightarrow> int \<Rightarrow> string \<Rightarrow> string option \<Rightarrow> string option \<Rightarrow> 'a prog \<Rightarrow> 'a prog" where
  "closeOrphanPr current n sub username source k =
     ClosePr n (\<lambda>r.
     RecordEvent (compensation_event current n sub username source (case r of Inl _ \<Rightarrow> False | Inr _ \<Rightarrow> True)) (\<lambda>_. k))"

section \<open>One request\<close>

definition reconciler_event :: "string \<Rightarrow> (string \<times> json) list \<Rightarrow> transition_event" where
  "reconciler_event reason detail =
     \<lparr>te_reason = Some reason, te_detail = Some (JObj ((''source'', JStr ''reconciler'') # detail)),
      te_actorSub = None, te_actorUsername = None\<rparr>"

definition move ::
  "change_record \<Rightarrow> change_stage \<Rightarrow> transition_fields \<Rightarrow> string \<Rightarrow> (string \<times> json) list \<Rightarrow>
     ((exn, change_record option) res \<Rightarrow> 'a prog) \<Rightarrow> 'a prog" where
  "move record stage flds reason detail k =
     Transition (cr_id record) (cr_stage record) stage flds (reconciler_event reason detail) None k"

definition ignore_result :: "((exn, unit) res \<Rightarrow> 'a prog) \<Rightarrow> (exn, 'b) res \<Rightarrow> 'a prog" where
  "ignore_result k r = (case r of Inl e \<Rightarrow> k (Inl e) | Inr _ \<Rightarrow> k (Inr ()))"

definition pr_fields :: "int \<Rightarrow> string \<Rightarrow> transition_fields" where
  "pr_fields n u = \<lparr>tf_prNumber = Some n, tf_prUrl = Some u, tf_mergeCommitSha = None\<rparr>"

definition openPr ::
  "change_record \<Rightarrow> int \<Rightarrow> string \<Rightarrow> string \<Rightarrow> bool \<Rightarrow> ((exn, unit) res \<Rightarrow> 'a prog) \<Rightarrow> 'a prog" where
  "openPr record n u reason closeIfOrphan k =
     move record PrOpen (pr_fields n u) reason [] (\<lambda>moved.
       case moved of Inl e \<Rightarrow> k (Inl e)
       | Inr (Some _) \<Rightarrow> k (Inr ())
       | Inr None \<Rightarrow>
           if \<not> closeIfOrphan then k (Inr ())
           else GetRequest (cr_id record) (\<lambda>r.
             case r of Inl e \<Rightarrow> k (Inl e)
             | Inr None \<Rightarrow> k (Inr ())
             | Inr (Some current) \<Rightarrow>
                 if isTerminalLoss (cr_stage current)
                 then closeOrphanPr current n ''system:reconciler'' None None (k (Inr ()))
                 else k (Inr ())))"

definition rebuilt_input :: "change_record \<Rightarrow> built_change \<Rightarrow> create_change_pr" where
  "rebuilt_input record change =
     \<lparr>cp_branch = branch record, cp_baseCommitSha = sourceCommitSha record, cp_baseBlobSha = baseBlobSha record,
      cp_path = SSO_FILE_PATH, cp_content = editedText change,
      cp_title = prTitle (cr_endpoint record),
      cp_body = prBody (actorUsername record) (actorSub record)
        (Some ''(not available: the pull request was recreated by the recovery pass)'')
        (baseBlobSha record) (sourceCommitSha record) (bc_diff change),
      cp_notBefore = int (createdAt record) - PR_ADOPT_SKEW_MS,
      cp_commitMessage = commitMessage (cr_endpoint record) (actorUsername record) (actorSub record)\<rparr>"

definition rebuild_from ::
  "ext \<Rightarrow> string \<Rightarrow> change_record \<Rightarrow> file_at \<Rightarrow> file_at \<Rightarrow> (exn, create_change_pr) res" where
  "rebuild_from x baseDomain record sso groups =
     (if fa_blobSha sso \<noteq> baseBlobSha record \<or> gitBlobSha x (fa_text sso) \<noteq> baseBlobSha record
      then Inl (OtherExn ''base blob at the recorded commit does not match the request'')
      else case parseGroupNames x (fa_text groups) (GROUPS_FILE_PATH @ '' at '' @ sourceCommitSha record) of
          Inl (SsoConfigError m) \<Rightarrow> Inl (SsoConfigExn m)
        | Inr names \<Rightarrow>
            (case buildChange x (fa_text sso) baseDomain names
                \<lparr>p_endpoint = cr_endpoint record, p_allowedGroups = map JStr (cr_patch record)\<rparr> of
               Inl _ \<Rightarrow> Inl (OtherExn ''the change cannot be rebuilt'')
             | Inr change \<Rightarrow> Inr (rebuilt_input record change)))"

definition rebuild ::
  "ext \<Rightarrow> string \<Rightarrow> change_record \<Rightarrow> ((exn, create_change_pr) res \<Rightarrow> 'a prog) \<Rightarrow> 'a prog" where
  "rebuild x baseDomain record k =
     ReadFile SSO_FILE_PATH (sourceCommitSha record) (\<lambda>r1.
     ReadFile GROUPS_FILE_PATH (sourceCommitSha record) (\<lambda>r2.
       case (r1, r2) of
         (Inr sso, Inr groups) \<Rightarrow> k (rebuild_from x baseDomain record sso groups)
       | (Inl e, _) \<Rightarrow> k (Inl e)
       | (_, Inl e) \<Rightarrow> k (Inl e)))"

text \<open>The last leg of a recovery: write, then record the outcome.\<close>

definition rewrite_pr :: "change_record \<Rightarrow> create_change_pr \<Rightarrow> ((exn, unit) res \<Rightarrow> 'a prog) \<Rightarrow> 'a prog" where
  "rewrite_pr current input k =
     CreateChangePr input (\<lambda>r.
       case r of
         Inr created \<Rightarrow> openPr current (created_number created) (created_url created) ''pull request recreated'' True k
       | Inl (GitWriteExn kind m) \<Rightarrow>
           if kind \<noteq> UnknownWrite
           then move current Failed no_fields (if kind = Conflict then ''git conflict'' else ''git write rejected'') []
             (ignore_result k)
           else k (Inl (GitWriteExn kind m))
       | Inl e \<Rightarrow> k (Inl e))"

definition recover :: "ext \<Rightarrow> string \<Rightarrow> change_record \<Rightarrow> ((exn, unit) res \<Rightarrow> 'a prog) \<Rightarrow> 'a prog" where
  "recover x baseDomain record k =
     FindPrByBranch (branch record) (int (createdAt record) - PR_ADOPT_SKEW_MS) (\<lambda>found.
       case found of Inl e \<Rightarrow> k (Inl e)
       | Inr (Some pr) \<Rightarrow>
           openPr record (pr_number pr) (pr_url pr) ''pull request found on GitHub'' (pr_state pr = OpenPr) k
       | Inr None \<Rightarrow> FindBranch (branch record) (\<lambda>b.
           case b of Inl e \<Rightarrow> k (Inl e)
           | Inr None \<Rightarrow> move record Failed no_fields ''not found on GitHub'' [(''reason'', JStr ''not found on GitHub'')]
               (ignore_result k)
           | Inr (Some _) \<Rightarrow> rebuild x baseDomain record (\<lambda>rebuilt.
               case rebuilt of Inl e \<Rightarrow> k (Inl e)
               | Inr input \<Rightarrow>
                   move record Submitted no_fields ''re-running the idempotent writer''
                     (if cr_stage record = UnknownRecovering then [] else [(''recovery'', JStr ''started'')]) (\<lambda>moved.
                       case moved of Inl e \<Rightarrow> k (Inl e)
                       | Inr None \<Rightarrow> k (Inr ())
                       | Inr (Some current) \<Rightarrow> rewrite_pr current input k))))"

definition checkPr :: "change_record \<Rightarrow> ((exn, unit) res \<Rightarrow> 'a prog) \<Rightarrow> 'a prog" where
  "checkPr record k =
     (let decide = (\<lambda>r. case r of Inl e \<Rightarrow> k (Inl e)
        | Inr None \<Rightarrow> k (Inr ())
        | Inr (Some pr) \<Rightarrow>
            if pr_state pr = OpenPr then k (Inr ())
            else if pr_merged pr \<and> pr_mergeCommitSha pr \<noteq> None
            then move record Merged \<lparr>tf_prNumber = None, tf_prUrl = None, tf_mergeCommitSha = pr_mergeCommitSha pr\<rparr>
              ''pull request merged'' [] (ignore_result k)
            else if \<not> pr_merged pr
            then move record Rejected no_fields ''pull request closed without merge'' [] (ignore_result k)
            else k (Inr ()))
      in case prNumber record of
           Some n \<Rightarrow> GetPr n decide
         | None \<Rightarrow> FindPrByBranch (branch record) (int (createdAt record) - PR_ADOPT_SKEW_MS) decide)"

definition ARGOCD_APPS :: "string list" where
  "ARGOCD_APPS = [''beluga-platform'', ''beluga-data'']"

fun check_apps :: "string \<Rightarrow> string list \<Rightarrow> 'a prog \<Rightarrow> ((exn, unit) res \<Rightarrow> 'a prog) \<Rightarrow> 'a prog" where
  "check_apps sha [] applied k = applied"
| "check_apps sha (name # names) applied k =
     GetApplication name (\<lambda>a.
       case a of Inl e \<Rightarrow> k (Inl e)
       | Inr app \<Rightarrow>
           (case (syncStatus app = ''Synced'', revision app) of
              (True, Some head) \<Rightarrow> Compare sha head (\<lambda>c.
                case c of Inl e \<Rightarrow> k (Inl e)
                | Inr relation \<Rightarrow>
                    if relation \<noteq> Identical \<and> relation \<noteq> Ahead then k (Inr ()) else check_apps sha names applied k)
            | _ \<Rightarrow> k (Inr ())))"

definition checkApplied :: "bool \<Rightarrow> change_record \<Rightarrow> ((exn, unit) res \<Rightarrow> 'a prog) \<Rightarrow> 'a prog" where
  "checkApplied has_argocd record k =
     (case (has_argocd, mergeCommitSha record) of
        (True, Some sha) \<Rightarrow> check_apps sha ARGOCD_APPS
          (move record Applied no_fields ''both Applications synced at or after the merge commit'' [] (ignore_result k)) k
      | _ \<Rightarrow> k (Inr ()))"

definition reconcile ::
  "ext \<Rightarrow> string \<Rightarrow> bool \<Rightarrow> change_record \<Rightarrow> ((exn, unit) res \<Rightarrow> 'a prog) \<Rightarrow> 'a prog" where
  "reconcile x baseDomain has_argocd record k =
     (case cr_stage record of
        Submitted \<Rightarrow> Now (\<lambda>now. if int now - int (updatedAt record) < SUBMITTED_GRACE_MS then k (Inr ())
          else recover x baseDomain record k)
      | UnknownRecovering \<Rightarrow> recover x baseDomain record k
      | PrOpen \<Rightarrow> checkPr record k
      | Merged \<Rightarrow> checkApplied has_argocd record k
      | _ \<Rightarrow> k (Inr ()))"

section \<open>The tick\<close>

text \<open>An exception of one request is logged and the loop goes on.\<close>

fun reconcile_all :: "ext \<Rightarrow> string \<Rightarrow> bool \<Rightarrow> change_record list \<Rightarrow> 'a prog \<Rightarrow> 'a prog" where
  "reconcile_all x baseDomain has_argocd [] k = k"
| "reconcile_all x baseDomain has_argocd (r # rs) k =
     reconcile x baseDomain has_argocd r (\<lambda>_. reconcile_all x baseDomain has_argocd rs k)"

definition forget_swept :: "change_record list \<Rightarrow> (string \<Rightarrow> nat option) \<Rightarrow> (string \<Rightarrow> nat option)" where
  "forget_swept records m = (\<lambda>i. if i \<in> set (map cr_id records) then m i else None)"

fun sweep_all ::
  "nat \<Rightarrow> change_record list \<Rightarrow> (string \<Rightarrow> nat option) \<Rightarrow> ((string \<Rightarrow> nat option) \<Rightarrow> 'a prog) \<Rightarrow> 'a prog" where
  "sweep_all now [] m k = k m"
| "sweep_all now (record # rs) m k =
     (if (case m (cr_id record) of None \<Rightarrow> False | Some prev \<Rightarrow> int now - int prev < SWEEP_RECHECK_MS)
      then sweep_all now rs m k
      else (let m' = m(cr_id record := Some now) in
        FindPrByBranch (branch record) (int (createdAt record) - PR_ADOPT_SKEW_MS) (\<lambda>r.
          case r of
            Inr (Some pr) \<Rightarrow>
              if pr_state pr = OpenPr
              then closeOrphanPr record (pr_number pr) ''system:reconciler'' None (Some ''sweep'') (sweep_all now rs m' k)
              else sweep_all now rs m' k
          | _ \<Rightarrow> sweep_all now rs m' k)))"

definition sweepTerminal :: "reconciler \<Rightarrow> (reconciler \<Rightarrow> 'a prog) \<Rightarrow> 'a prog" where
  "sweepTerminal st k =
     Now (\<lambda>now. ListRecentTerminal (int now - SWEEP_WINDOW_MS) SWEEP_BATCH (\<lambda>r.
       case r of Inl _ \<Rightarrow> k st
       | Inr records \<Rightarrow>
           sweep_all now records (forget_swept records (sweptAt st)) (\<lambda>m. k (st\<lparr>sweptAt := m\<rparr>))))"

fun log_all :: "string list \<Rightarrow> (int \<times> string) list \<Rightarrow> reconciler \<Rightarrow> (reconciler \<Rightarrow> 'a prog) \<Rightarrow> 'a prog" where
  "log_all owned [] st k = k st"
| "log_all owned ((n, b) # prs) st k =
     (if b \<in> set owned \<or> n \<in> set (loggedOrphans st) then log_all owned prs st k
      else FindByBranch b (\<lambda>r.
        case r of Inl _ \<Rightarrow> k st
        | Inr (Some _) \<Rightarrow> log_all owned prs st k
        | Inr None \<Rightarrow> log_all owned prs (st\<lparr>loggedOrphans := loggedOrphans st @ [n]\<rparr>) k))"

definition logOrphans :: "change_record list \<Rightarrow> reconciler \<Rightarrow> (reconciler \<Rightarrow> 'a prog) \<Rightarrow> 'a prog" where
  "logOrphans records st k =
     ListOpenSsoPrs (\<lambda>r. case r of Inl _ \<Rightarrow> k st | Inr prs \<Rightarrow> log_all (map branch records) prs st k)"

definition tickBody :: "ext \<Rightarrow> string \<Rightarrow> bool \<Rightarrow> reconciler \<Rightarrow> (reconciler \<Rightarrow> 'a prog) \<Rightarrow> 'a prog" where
  "tickBody x baseDomain has_argocd st k =
     ListOpen LIST_LIMIT (\<lambda>r.
       case r of Inl _ \<Rightarrow> k st
       | Inr records \<Rightarrow>
           reconcile_all x baseDomain has_argocd records
             (sweepTerminal st (\<lambda>st'. logOrphans records st' k)))"

text \<open>\<open>tick\<close> and \<open>guardedTick\<close>: skipped while one runs in this process, or while another replica holds the lease.\<close>

definition tick :: "ext \<Rightarrow> string \<Rightarrow> bool \<Rightarrow> reconciler \<Rightarrow> reconciler prog" where
  "tick x baseDomain has_argocd st =
     (if running st then Ret st
      else TryLease (\<lambda>r.
        case r of Inr True \<Rightarrow> tickBody x baseDomain has_argocd (st\<lparr>running := True\<rparr>) (\<lambda>st'. Ret (st'\<lparr>running := False\<rparr>))
        | _ \<Rightarrow> Ret st))"

section \<open>The reconciler is disciplined\<close>

text \<open>Each method is disciplined when its continuation is, with what it knew before; \<open>knows\<close> is what a program
  that holds a record has been told.\<close>

definition knows :: "fact set \<Rightarrow> change_record \<Rightarrow> bool" where
  "knows K c \<longleftrightarrow> record_facts c \<subseteq> K"

lemma knows_row: "knows K c \<Longrightarrow> HasRow (cr_id c) (branch c) \<in> K"
  by (simp add: knows_def record_facts_def)

lemma knows_ended: "knows K c \<Longrightarrow> isTerminalLoss (cr_stage c) \<Longrightarrow> Ended (cr_id c) \<in> K"
  by (auto simp: knows_def record_facts_def isTerminalLoss_def)

lemma knows_pr: "knows K c \<Longrightarrow> prNumber c = Some n \<Longrightarrow> RowPr (cr_id c) n \<in> K"
  by (simp add: knows_def record_facts_def)

lemma knows_Un: "knows K c \<Longrightarrow> knows (K \<union> J) c"
  by (auto simp: knows_def)

lemma knows_opt [simp]: "opt_facts (Inr (Some c)) = record_facts c" "opt_facts (Inr None) = {}" "opt_facts (Inl e) = {}"
  by (simp_all add: opt_facts_def)

lemma disciplined_close:
  "may_close K n \<Longrightarrow> disciplined k K \<Longrightarrow> disciplined (closeOrphanPr c n sub user src k) K"
  by (simp add: closeOrphanPr_def disciplined_Un)

lemma disciplined_move:
  assumes "lifecycle (cr_stage c) s" "\<And>r. transition_answer (cr_id c) s r \<Longrightarrow> disciplined (k r) (K \<union> opt_facts r)"
  shows "disciplined (move c s f reason detail k) K"
  using assms by (simp add: move_def)

lemma disciplined_move_ignore:
  assumes "lifecycle (cr_stage c) s" "\<And>r. disciplined (k r) K"
  shows "disciplined (move c s f reason detail (ignore_result k)) K"
  using assms by (auto intro!: disciplined_move disciplined_weaken simp: ignore_result_def split: sum.splits)

lemma disciplined_openPr:
  assumes c: "cr_stage c \<in> {Submitted, UnknownRecovering}" "HasRow (cr_id c) b \<in> K"
    and pr: "Answered (ByBranch b) n \<in> K \<or> Answered (Created b) n \<in> K" and k: "\<And>r. disciplined (k r) K"
  shows "disciplined (openPr c n u reason close k) K"
proof -
  have "may_close (K \<union> record_facts c') n" if "cr_id c' = cr_id c" "isTerminalLoss (cr_stage c')" for c'
    using c(2) pr that knows_ended [of "K \<union> record_facts c'" c'] unfolding may_close_def knows_def by (metis UnI1 Un_upper2)
  then have "disciplined (closeOrphanPr c' n sub user src (k (Inr ()))) (K \<union> record_facts c')"
    if "cr_id c' = cr_id c" "isTerminalLoss (cr_stage c')" for c' sub user src
    using that k by (intro disciplined_close disciplined_weaken) auto
  then show ?thesis using c(1) k unfolding openPr_def
    by (intro disciplined_move) (auto simp: get_answer_def intro: disciplined_weaken split: sum.splits option.splits)
qed

lemma rebuild_from_input:
  assumes "rebuild_from x baseDomain c sso groups = Inr inp"
  shows "cp_path inp = SSO_FILE_PATH \<and> cp_branch inp = branch c"
  using assms
  by (auto simp: rebuild_from_def rebuilt_input_def split: if_splits sum.splits sso_config_error.splits)

lemma disciplined_rewrite:
  assumes "cr_stage current = Submitted" "cp_path inp = SSO_FILE_PATH" "HasRow (cr_id current) (cp_branch inp) \<in> K"
    and k: "\<And>r. disciplined (k r) K"
  shows "disciplined (rewrite_pr current inp k) K"
proof -
  have "disciplined (openPr current (created_number c) u reason True k) (K \<union> answer_facts (Created (cp_branch inp)) (Some (created_number c)))"
    for c u reason
    using assms by (intro disciplined_openPr [of _ "cp_branch inp"]) (auto simp: answer_facts_def intro: disciplined_weaken)
  then show ?thesis using assms
    by (auto simp: rewrite_pr_def may_create_def answer_created_def answer_facts_def
      intro!: disciplined_move_ignore intro: disciplined_weaken split: sum.splits exn.splits if_splits)
qed

lemma disciplined_recover:
  assumes c: "cr_stage c \<in> {Submitted, UnknownRecovering}" "knows K c" and k: "\<And>r. disciplined (k r) K"
  shows "disciplined (recover x baseDomain c k) K"
proof -
  note row = knows_row [OF c(2)]
  have opened: "disciplined (openPr c (pr_number pr) u reason close k) (K \<union> answer_facts (ByBranch (branch c)) (Some (pr_number pr)))"
    for pr u reason close
    using c(1) row k by (intro disciplined_openPr [of _ "branch c"]) (auto simp: answer_facts_def intro: disciplined_weaken)
  have rewritten: "disciplined (rewrite_pr current inp k) (K \<union> record_facts current)"
    if "cr_id current = cr_id c" "cr_stage current = Submitted" "cp_path inp = SSO_FILE_PATH" "cp_branch inp = branch c" for current inp
    using that row k by (intro disciplined_rewrite) (auto intro: disciplined_weaken)
  have rebuilt: "disciplined (rebuild x baseDomain c g) K"
    if "\<And>e. disciplined (g (Inl e)) K" "\<And>inp. cp_path inp = SSO_FILE_PATH \<Longrightarrow> cp_branch inp = branch c \<Longrightarrow> disciplined (g (Inr inp)) K" for g
  proof -
    have "disciplined (g (rebuild_from x baseDomain c sso groups)) K" for sso groups
      using that rebuild_from_input [of x baseDomain c sso groups] by (cases "rebuild_from x baseDomain c sso groups") auto
    then show ?thesis using that by (auto simp: rebuild_def split: sum.splits)
  qed
  have hop: "disciplined (move c Submitted no_fields reason detail (\<lambda>moved. case moved of Inl e \<Rightarrow> k (Inl e)
      | Inr None \<Rightarrow> k (Inr ()) | Inr (Some current) \<Rightarrow> rewrite_pr current inp k)) K"
    if "cp_path inp = SSO_FILE_PATH" "cp_branch inp = branch c" for reason detail inp
    using that c(1) k rewritten by (intro disciplined_move)
      (auto simp: transition_answer_def split: sum.splits option.splits)
  show ?thesis unfolding recover_def using c(1) k opened
    by (auto simp: answer_pr_def answer_facts_def intro!: disciplined_move_ignore rebuilt hop split: sum.splits option.splits)
qed

lemma disciplined_checkPr:
  assumes "cr_stage c = PrOpen" and k: "\<And>r. disciplined (k r) K"
  shows "disciplined (checkPr c k) K"
  using assms by (auto simp: checkPr_def Let_def intro!: disciplined_weaken disciplined_move_ignore split: sum.splits option.splits)

lemma disciplined_check_apps:
  "disciplined applied K \<Longrightarrow> (\<And>r. disciplined (k r) K) \<Longrightarrow> disciplined (check_apps sha names applied k) K"
  by (induction names) (auto split: sum.splits option.splits bool.splits)

lemma disciplined_reconcile:
  assumes "knows K c" and k: "\<And>r. disciplined (k r) K"
  shows "disciplined (reconcile x baseDomain has_argocd c k) K"
proof (cases "cr_stage c")
  case Merged
  then show ?thesis using k
    by (auto simp: reconcile_def checkApplied_def intro!: disciplined_check_apps disciplined_move_ignore split: option.splits bool.splits)
qed (use assms in \<open>auto simp: reconcile_def intro!: disciplined_recover disciplined_checkPr\<close>)

lemma disciplined_reconcile_all:
  "(\<And>c. c \<in> set cs \<Longrightarrow> knows K c) \<Longrightarrow> disciplined k K \<Longrightarrow> disciplined (reconcile_all x baseDomain has_argocd cs k) K"
  by (induction cs) (auto intro!: disciplined_reconcile)

lemma disciplined_sweep_all:
  "(\<And>c. c \<in> set cs \<Longrightarrow> knows K c \<and> isTerminalLoss (cr_stage c)) \<Longrightarrow> (\<And>m. disciplined (k m) K) \<Longrightarrow>
     disciplined (sweep_all now cs m k) K"
proof (induction cs arbitrary: m)
  case (Cons c cs)
  have c: "knows K c" "isTerminalLoss (cr_stage c)" using Cons.prems(1) by auto
  have IH: "disciplined (sweep_all now cs m' k) K" for m' using Cons by simp
  have "may_close (K \<union> {Answered (ByBranch (branch c)) n}) n" for n
    using knows_row [OF c(1)] knows_ended [OF c] unfolding may_close_def by blast
  then have "disciplined (closeOrphanPr c n sub user src (sweep_all now cs m' k)) (K \<union> {Answered (ByBranch (branch c)) n})"
    for n sub user src m'
    by (intro disciplined_close disciplined_weaken IH)
  then show ?case using IH
    by (auto simp: Let_def answer_pr_def answer_facts_def intro: disciplined_weaken split: sum.splits option.splits)
qed simp

lemma disciplined_log_all: "(\<And>s. disciplined (k s) K) \<Longrightarrow> disciplined (log_all owned prs st k) K"
  by (induction owned prs st k rule: log_all.induct) (auto intro!: disciplined_weaken split: sum.splits option.splits)

lemma knows_list_facts: "c \<in> set cs \<Longrightarrow> knows (K \<union> list_facts (Inr cs)) c"
  by (auto simp: knows_def list_facts_def)

lemma disciplined_tick: "disciplined (tick x baseDomain has_argocd st) K"
proof -
  have log: "disciplined (logOrphans cs s (\<lambda>s. Ret (g s))) J" for cs s J and g :: "reconciler \<Rightarrow> reconciler"
    by (auto simp: logOrphans_def intro!: disciplined_log_all split: sum.splits)
  have sweep: "disciplined (sweepTerminal s (\<lambda>s. logOrphans cs s (\<lambda>s. Ret (g s)))) J"
    for s cs J and g :: "reconciler \<Rightarrow> reconciler"
    using log knows_list_facts
    by (auto simp: sweepTerminal_def list_answer_def isTerminalLoss_def intro!: disciplined_sweep_all split: sum.splits)
  show ?thesis using sweep knows_list_facts
    by (auto simp: tick_def tickBody_def intro!: disciplined_reconcile_all split: sum.splits bool.splits)
qed

end
