(* ===== verification/SsoRoutes.thy ===== *)
theory SsoRoutes
  imports SsoReconciler "HOL-Library.AList"
begin

text \<open>
  The change-request routes: \<open>domain-api/src/routes/ssoChanges.ts\<close> with the request schemas of
  \<open>domain-api/src/schema/ssoChange.ts\<close>. Each route is a program: its gates, the validation of the request, its
  handler. An exception that no handler catches is the reply \<open>InternalError\<close> of \<open>app.onError\<close>; the text of a
  validation failure comes from the validation package and is left out.
\<close>

section \<open>Requests and replies\<close>

definition IDEMPOTENCY_KEY_RE :: "string \<Rightarrow> bool" where
  "IDEMPOTENCY_KEY_RE s \<longleftrightarrow> length s = 32 \<and> list_all is_hex s"

definition MAX_REASON_LENGTH :: nat where "MAX_REASON_LENGTH = 500"

record change_body =
  b_endpoint :: string
  b_allowedGroups :: "json list"
  b_reason :: "string option"
  b_baseBlobSha :: "string option"

definition ssoChangeRequestBodySchema :: "json \<Rightarrow> change_body option" where
  "ssoChangeRequestBodySchema j =
     (case j of
        JObj o1 \<Rightarrow> if \<not> strict_keys [''endpoint'', ''allowedGroups'', ''reason'', ''baseBlobSha''] o1 then None else do {
          e \<leftarrow> required (checked_str (\<lambda>s. 1 \<le> js_length s \<and> js_length s \<le> 64)) (map_of o1 ''endpoint'');
          gs \<leftarrow> required json_arr (map_of o1 ''allowedGroups'');
          _ \<leftarrow> (if length gs \<le> 64 then Some () else None);
          reason \<leftarrow> optional (checked_str (\<lambda>s. js_length s \<le> MAX_REASON_LENGTH)) (map_of o1 ''reason'');
          sha \<leftarrow> optional (checked_str SHA_RE) (map_of o1 ''baseBlobSha'');
          Some \<lparr>b_endpoint = e, b_allowedGroups = gs, b_reason = reason, b_baseBlobSha = sha\<rparr> }
      | _ \<Rightarrow> None)"

text \<open>The cancel body is optional; its value is the reason.\<close>

definition ssoChangeCancelBodySchema :: "json option \<Rightarrow> string option option" where
  "ssoChangeCancelBodySchema body =
     (case body of
        None \<Rightarrow> Some None
      | Some (JObj o1) \<Rightarrow> if \<not> strict_keys [''reason''] o1 then None
          else optional (checked_str (\<lambda>s. js_length s \<le> MAX_REASON_LENGTH)) (map_of o1 ''reason'')
      | Some _ \<Rightarrow> None)"

definition dry_run_query :: "string option \<Rightarrow> bool option" where
  "dry_run_query q = (case q of None \<Rightarrow> Some False
     | Some s \<Rightarrow> if s = ''true'' then Some True else if s = ''false'' then Some False else None)"

definition key_header :: "string option \<Rightarrow> string option option" where
  "key_header h = (case h of None \<Rightarrow> Some None | Some s \<Rightarrow> if IDEMPOTENCY_KEY_RE s then Some (Some s) else None)"

record principal =
  sub :: string
  username :: "string option"
  p_groups :: "string list"

record deps =
  has_store :: bool
  has_gitWriter :: bool
  writeEnabled :: bool
  has_readBase :: bool

record change_view =
  v_id :: string
  v_stage :: change_stage
  v_endpoint :: string
  v_patch :: "string list"
  v_baseBlobSha :: string
  v_sourceCommitSha :: string
  v_branch :: string
  v_pr :: "(int \<times> string) option"
  v_mergeCommitSha :: "string option"
  v_createdAt :: nat
  v_updatedAt :: nat
  v_diff :: "string option"

record preview =
  pv_endpoint :: string
  pv_before :: "string list option"
  pv_after :: "string list"
  pv_baseBlobSha :: string
  pv_sourceCommitSha :: string
  pv_diff :: string

record contract =
  editableEndpoints :: "string list"
  requiredGroups :: "string list"
  availableGroups :: "string list"
  current_groups :: "(string \<times> string list option) list"
  ct_sourceCommitSha :: string
  ct_baseBlobSha :: string
  gitWriterConfigured :: bool

datatype reply =
    Failure nat string string
  | ValidationFailed
  | InternalError
  | ViewReply nat change_view
  | ListReply "change_view list"
  | PreviewReply preview
  | ContractReply contract

definition view :: "change_record \<Rightarrow> string option \<Rightarrow> change_view" where
  "view c diff =
     \<lparr>v_id = cr_id c, v_stage = cr_stage c, v_endpoint = cr_endpoint c, v_patch = cr_patch c,
      v_baseBlobSha = baseBlobSha c, v_sourceCommitSha = sourceCommitSha c, v_branch = branch c,
      v_pr = (case (prNumber c, prUrl c) of (Some n, Some u) \<Rightarrow> Some (n, u) | _ \<Rightarrow> None),
      v_mergeCommitSha = mergeCommitSha c, v_createdAt = createdAt c, v_updatedAt = updatedAt c, v_diff = diff\<rparr>"

definition auditUnavailable :: "exn \<Rightarrow> reply" where
  "auditUnavailable e = (case e of StoreExn _ \<Rightarrow> Failure 503 ''AUDIT_UNAVAILABLE'' ''Audit store is unavailable'' | _ \<Rightarrow> InternalError)"

definition storeFailure :: "exn \<Rightarrow> reply" where
  "storeFailure e =
     (case e of
        StoreExn OPEN_REQUEST_EXISTS \<Rightarrow> Failure 409 ''OPEN_REQUEST_EXISTS'' ''An SSO change request is already open''
      | StoreExn IDEMPOTENCY_KEY_COLLISION \<Rightarrow> Failure 409 ''IDEMPOTENCY_KEY_COLLISION''
          ''Idempotency-Key collides with an earlier request; retry with a new key''
      | StoreExn IDEMPOTENCY_MISMATCH \<Rightarrow> Failure 422 ''IDEMPOTENCY_MISMATCH'' ''Idempotency-Key was used with a different payload''
      | StoreExn UNAVAILABLE \<Rightarrow> Failure 503 ''AUDIT_UNAVAILABLE'' ''Audit store is unavailable; no change was made''
      | _ \<Rightarrow> InternalError)"

section \<open>Gates\<close>

definition DENIED_AUDIT_INTERVAL_MS :: int where "DENIED_AUDIT_INTERVAL_MS = 10000"
definition DENIED_AUDIT_MAX_SUBJECTS :: nat where "DENIED_AUDIT_MAX_SUBJECTS = 1000"

type_synonym denied = "(string \<times> nat) list"

text \<open>\<open>auditDenied\<close>: whether a \<open>denied\<close> row is due for this subject, and the table of last times. The table is an
  association list with one entry per subject.\<close>

definition auditDenied :: "nat \<Rightarrow> string \<Rightarrow> denied \<Rightarrow> bool \<times> denied" where
  "auditDenied now s deniedAt =
     (if int now - int (case map_of deniedAt s of Some t \<Rightarrow> t | None \<Rightarrow> 0) < DENIED_AUDIT_INTERVAL_MS then (False, deniedAt)
      else (True, AList.update s now (if DENIED_AUDIT_MAX_SUBJECTS \<le> length deniedAt then [] else deniedAt)))"

definition denied_event :: "principal \<Rightarrow> string \<Rightarrow> string \<Rightarrow> new_event" where
  "denied_event p method path =
     \<lparr>ne_requestId = None, ne_stage = Denied, ne_actorSub = sub p, ne_actorUsername = username p, ne_endpoint = None,
      ne_idempotencyKey = None, ne_baseBlobSha = None, ne_payloadSha256 = None, ne_prNumber = None, ne_prUrl = None,
      ne_mergeCommitSha = None, ne_reason = None,
      ne_detail = Some (JObj [(''method'', JStr method), (''path'', JStr path)])\<rparr>"

text \<open>The insert of a \<open>denied\<close> row is not awaited in the code; its answer is ignored here.\<close>

definition adminGate ::
  "deps \<Rightarrow> denied \<Rightarrow> principal option \<Rightarrow> string \<Rightarrow> string \<Rightarrow> (principal \<Rightarrow> (reply \<times> denied) prog) \<Rightarrow> (reply \<times> denied) prog" where
  "adminGate dp deniedAt p method path k =
     (case p of
        None \<Rightarrow> Ret (Failure 401 ''UNAUTHENTICATED'' ''Authentication required'', deniedAt)
      | Some pr \<Rightarrow>
          if REQUIRED_GROUP \<in> set (p_groups pr) then k pr
          else (let forbidden = Failure 403 ''FORBIDDEN'' (''Membership of group '' @ [CHR 0x27] @ REQUIRED_GROUP @ [CHR 0x27] @ '' is required'')
            in if \<not> has_store dp then Ret (forbidden, deniedAt)
               else Now (\<lambda>now. case auditDenied now (sub pr) deniedAt of
                   (True, deniedAt') \<Rightarrow> RecordEvent (denied_event pr method path) (\<lambda>_. Ret (forbidden, deniedAt'))
                 | (False, deniedAt') \<Rightarrow> Ret (forbidden, deniedAt'))))"

definition writeEnabledGate :: "deps \<Rightarrow> reply prog \<Rightarrow> reply prog" where
  "writeEnabledGate dp k = (if writeEnabled dp then k
     else Ret (Failure 503 ''CONSUMER_NOT_DEPLOYED'' ''SSO changes are not enabled on this deployment''))"

definition storeGate :: "deps \<Rightarrow> reply prog \<Rightarrow> reply prog" where
  "storeGate dp k =
     (let refuse = Ret (Failure 503 ''AUDIT_UNAVAILABLE'' ''Audit store is unavailable; no change was made'')
      in if \<not> has_store dp then refuse else Ready (\<lambda>ok. if ok then k else refuse))"

section \<open>Submit and preview\<close>

definition local_record :: "change_record \<Rightarrow> change_stage \<Rightarrow> transition_fields \<Rightarrow> change_record" where
  "local_record c stage flds =
     c\<lparr>cr_stage := stage, prNumber := coalesce (tf_prNumber flds) (prNumber c), prUrl := coalesce (tf_prUrl flds) (prUrl c)\<rparr>"

definition transitionOrLocal ::
  "change_record \<Rightarrow> change_stage \<Rightarrow> transition_fields \<Rightarrow> transition_event \<Rightarrow> (change_record \<Rightarrow> 'a prog) \<Rightarrow> 'a prog" where
  "transitionOrLocal c stage flds ev k =
     Transition (cr_id c) (cr_stage c) stage flds ev None (\<lambda>r.
       case r of
         Inr (Some moved) \<Rightarrow> k moved
       | Inr None \<Rightarrow> GetRequest (cr_id c) (\<lambda>g. case g of Inr (Some current) \<Rightarrow> k current | _ \<Rightarrow> k (local_record c stage flds))
       | Inl _ \<Rightarrow> k (local_record c stage flds))"

definition reason_event :: "string \<Rightarrow> transition_event" where
  "reason_event r = no_event\<lparr>te_reason := Some r\<rparr>"

definition stage_name :: "change_stage \<Rightarrow> string" where
  "stage_name s = (case s of Submitted \<Rightarrow> ''submitted'' | PrOpen \<Rightarrow> ''pr_open'' | UnknownRecovering \<Rightarrow> ''unknown_recovering''
     | Merged \<Rightarrow> ''merged'' | Applied \<Rightarrow> ''applied'' | Rejected \<Rightarrow> ''rejected'' | Failed \<Rightarrow> ''failed'')"

definition write_kind_of :: "exn \<Rightarrow> write_kind" where
  "write_kind_of e = (case e of GitWriteExn k _ \<Rightarrow> k | _ \<Rightarrow> UnknownWrite)"

text \<open>After the committed \<open>submitted\<close> row: the GitHub write and the recording of its outcome.\<close>

definition submit_write :: "principal \<Rightarrow> built_change \<Rightarrow> change_record \<Rightarrow> create_change_pr \<Rightarrow> reply prog" where
  "submit_write p change c input =
     CreateChangePr input (\<lambda>r.
       case r of
         Inr pr \<Rightarrow>
           transitionOrLocal c PrOpen (pr_fields (created_number pr) (created_url pr)) no_event (\<lambda>record.
             if isTerminalLoss (cr_stage record)
             then closeOrphanPr record (created_number pr) (sub p) (username p) None
               (Ret (Failure 409 ''REQUEST_NOT_ACTIVE'' (''Request '' @ cr_id c @ '' was '' @ stage_name (cr_stage record) @
                  '' while the pull request was created; the pull request was closed'')))
             else Ret (ViewReply 201 (view record (Some (bc_diff change)))))
       | Inl e \<Rightarrow>
           (case write_kind_of e of
              UnknownWrite \<Rightarrow>
                transitionOrLocal c UnknownRecovering no_fields (reason_event ''git write outcome unknown'') (\<lambda>_.
                  Ret (Failure 502 ''GIT_WRITE_UNKNOWN'' (''GitHub did not confirm the pull request; request '' @ cr_id c @ '' is recovering'')))
            | Conflict \<Rightarrow>
                transitionOrLocal c Failed no_fields (reason_event ''git conflict'') (\<lambda>_.
                  Ret (Failure 409 ''STALE_BASE'' ''GitHub reported a conflict; preview again''))
            | RejectedWrite \<Rightarrow>
                transitionOrLocal c Failed no_fields (reason_event ''git write rejected'') (\<lambda>_.
                  Ret (Failure 502 ''GIT_WRITE_FAILED'' (''GitHub refused the change; request '' @ cr_id c @ '' failed'')))))"

definition change_branch :: "string \<Rightarrow> string \<Rightarrow> string" where
  "change_branch endpoint key = ''sso/'' @ endpoint @ ''-'' @ take 12 key"

definition submit_of :: "principal \<Rightarrow> change_body \<Rightarrow> string \<Rightarrow> sso_base \<Rightarrow> built_change \<Rightarrow> submit_input" where
  "submit_of p body key base change =
     \<lparr>si_filePath = SSO_FILE_PATH, si_endpoint = bc_endpoint change, si_idempotencyKey = key,
      si_payloadSha256 = bc_payloadSha256 change, si_baseBlobSha = blobSha base, si_sourceCommitSha = commitSha base,
      si_allowedGroups = bc_after change, si_actorSub = sub p, si_actorUsername = username p,
      si_branch = change_branch (bc_endpoint change) key, si_reason = b_reason body\<rparr>"

definition create_of :: "principal \<Rightarrow> change_body \<Rightarrow> string \<Rightarrow> sso_base \<Rightarrow> built_change \<Rightarrow> change_record \<Rightarrow> create_change_pr" where
  "create_of p body key base change c =
     \<lparr>cp_branch = change_branch (bc_endpoint change) key, cp_baseCommitSha = commitSha base, cp_baseBlobSha = blobSha base,
      cp_path = SSO_FILE_PATH, cp_content = editedText change, cp_title = prTitle (bc_endpoint change),
      cp_body = prBody (username p) (sub p) (b_reason body) (blobSha base) (commitSha base) (bc_diff change),
      cp_notBefore = int (createdAt c) - PR_ADOPT_SKEW_MS,
      cp_commitMessage = commitMessage (bc_endpoint change) (username p) (sub p)\<rparr>"

definition post_submit :: "principal \<Rightarrow> change_body \<Rightarrow> string \<Rightarrow> sso_base \<Rightarrow> built_change \<Rightarrow> reply prog" where
  "post_submit p body key base change =
     Submit (submit_of p body key base change) (\<lambda>r.
       case r of
         Inl e \<Rightarrow> Ret (storeFailure e)
       | Inr (c, replay) \<Rightarrow>
           if replay then Ret (ViewReply 200 (view c None))
           else submit_write p change c (create_of p body key base change c))"

definition string_list_json :: "string list option \<Rightarrow> json" where
  "string_list_json l = (case l of None \<Rightarrow> JNull | Some gs \<Rightarrow> JArr (map JStr gs))"

definition preview_event :: "principal \<Rightarrow> change_body \<Rightarrow> sso_base \<Rightarrow> built_change \<Rightarrow> new_event" where
  "preview_event p body base change =
     \<lparr>ne_requestId = None, ne_stage = Previewed, ne_actorSub = sub p, ne_actorUsername = username p,
      ne_endpoint = Some (bc_endpoint change), ne_idempotencyKey = None, ne_baseBlobSha = Some (blobSha base),
      ne_payloadSha256 = Some (bc_payloadSha256 change), ne_prNumber = None, ne_prUrl = None, ne_mergeCommitSha = None,
      ne_reason = b_reason body,
      ne_detail = Some (JObj [(''sourceCommitSha'', JStr (commitSha base)), (''before'', string_list_json (bc_before change)),
        (''after'', string_list_json (Some (bc_after change)))])\<rparr>"

definition post_preview :: "principal \<Rightarrow> change_body \<Rightarrow> sso_base \<Rightarrow> built_change \<Rightarrow> reply prog" where
  "post_preview p body base change =
     RecordEvent (preview_event p body base change) (\<lambda>r.
       case r of
         Inl e \<Rightarrow> Ret (storeFailure e)
       | Inr _ \<Rightarrow> Ret (PreviewReply \<lparr>pv_endpoint = bc_endpoint change, pv_before = bc_before change, pv_after = bc_after change,
           pv_baseBlobSha = blobSha base, pv_sourceCommitSha = commitSha base, pv_diff = bc_diff change\<rparr>))"

definition read_base :: "deps \<Rightarrow> bool \<Rightarrow> (sso_base \<Rightarrow> reply prog) \<Rightarrow> reply prog" where
  "read_base dp fresh k =
     (if \<not> has_readBase dp then Ret (Failure 503 ''SERVICE_UNAVAILABLE'' ''SSO source does not support change requests'')
      else ReadBase fresh (\<lambda>r. case r of
          Inr base \<Rightarrow> k base
        | Inl (SsoConfigExn m) \<Rightarrow> Ret (Failure 503 ''SERVICE_UNAVAILABLE'' m)
        | Inl _ \<Rightarrow> Ret InternalError))"

text \<open>From the base file on: stale check, edit, then preview or submit.\<close>

definition post_change :: "ext \<Rightarrow> principal \<Rightarrow> change_body \<Rightarrow> bool \<Rightarrow> string option \<Rightarrow> sso_base \<Rightarrow> reply prog" where
  "post_change x p body dryRun key base =
     (if \<not> dryRun \<and> b_baseBlobSha body \<noteq> Some (blobSha base)
      then Ret (Failure 409 ''STALE_BASE'' ''gitops/values/sso.yaml changed since the preview; preview again'')
      else case buildChange x (sb_text base) (sb_baseDomain base) (groupNames base)
            \<lparr>p_endpoint = b_endpoint body, p_allowedGroups = b_allowedGroups body\<rparr> of
          Inl (PatchRejected m) \<Rightarrow> Ret (Failure 422 ''PATCH_REJECTED'' m)
        | Inl (NoEffectiveChange m) \<Rightarrow> Ret (Failure 422 ''NO_EFFECTIVE_CHANGE'' m)
        | Inl Thrown \<Rightarrow> Ret InternalError
        | Inr change \<Rightarrow>
            if dryRun then post_preview p body base change
            else (case key of
                None \<Rightarrow> Ret (Failure 400 ''VALIDATION_ERROR'' ''Idempotency-Key header is required'')
              | Some k \<Rightarrow> post_submit p body k base change))"

definition post_handler :: "ext \<Rightarrow> deps \<Rightarrow> principal \<Rightarrow> change_body \<Rightarrow> bool \<Rightarrow> string option \<Rightarrow> reply prog" where
  "post_handler x dp p body dryRun key =
     (let proceed = read_base dp (\<not> dryRun) (post_change x p body dryRun key)
      in if dryRun then proceed
         else if \<not> has_gitWriter dp then Ret (Failure 503 ''GIT_WRITER_UNCONFIGURED'' ''Git write path is not configured'')
         else (case key of
             None \<Rightarrow> Ret (Failure 400 ''VALIDATION_ERROR'' ''Idempotency-Key header is required'')
           | Some k \<Rightarrow>
               if b_baseBlobSha body = None
               then Ret (Failure 400 ''VALIDATION_ERROR'' ''baseBlobSha (from the preview) is required'')
               else FindByKey k (\<lambda>r. case r of
                   Inl e \<Rightarrow> Ret (storeFailure e)
                 | Inr (Some existing) \<Rightarrow>
                     if cr_payloadSha256 existing \<noteq> payloadSha256 x (b_endpoint body) (b_allowedGroups body)
                     then Ret (Failure 422 ''IDEMPOTENCY_MISMATCH'' ''Idempotency-Key was used with a different payload'')
                     else Ret (ViewReply 200 (view existing None))
                 | Inr None \<Rightarrow> proceed)))"

section \<open>Contract, list and get\<close>

definition contract_handler :: "deps \<Rightarrow> reply prog" where
  "contract_handler dp =
     read_base dp False (\<lambda>base. Ret (ContractReply
       \<lparr>editableEndpoints = EDITABLE_ENDPOINTS, requiredGroups = [REQUIRED_GROUP], availableGroups = groupNames base,
        current_groups = map (\<lambda>n. (n, Option.bind (find (\<lambda>e. ep_name e = n) (endpoints (sb_config base))) allowedGroups)) EDITABLE_ENDPOINTS,
        ct_sourceCommitSha = commitSha base, ct_baseBlobSha = blobSha base, gitWriterConfigured = has_gitWriter dp\<rparr>))"

definition ROUTE_LIST_LIMIT :: nat where "ROUTE_LIST_LIMIT = 20"

definition list_handler :: "reply prog" where
  "list_handler = ListOpen ROUTE_LIST_LIMIT (\<lambda>r. case r of
     Inl e \<Rightarrow> Ret (auditUnavailable e) | Inr cs \<Rightarrow> Ret (ListReply (map (\<lambda>c. view c None) cs)))"

definition get_handler :: "string \<Rightarrow> reply prog" where
  "get_handler i = GetRequest i (\<lambda>r. case r of
     Inl e \<Rightarrow> Ret (auditUnavailable e)
   | Inr None \<Rightarrow> Ret (Failure 404 ''NOT_FOUND'' ''No such change request'')
   | Inr (Some c) \<Rightarrow> Ret (ViewReply 200 (view c None)))"

section \<open>Cancel\<close>

definition cancel_event :: "principal \<Rightarrow> change_record \<Rightarrow> json \<Rightarrow> new_event" where
  "cancel_event p c detail =
     \<lparr>ne_requestId = Some (cr_id c), ne_stage = Stage (cr_stage c), ne_actorSub = sub p, ne_actorUsername = username p,
      ne_endpoint = Some (cr_endpoint c), ne_idempotencyKey = None, ne_baseBlobSha = None, ne_payloadSha256 = None,
      ne_prNumber = None, ne_prUrl = None, ne_mergeCommitSha = None, ne_reason = None, ne_detail = Some detail\<rparr>"

definition cancel_transition :: "principal \<Rightarrow> string option \<Rightarrow> change_record \<Rightarrow> reply prog" where
  "cancel_transition p reason c =
     Transition (cr_id c) (cr_stage c) Failed no_fields
       \<lparr>te_reason = Some (case reason of Some r \<Rightarrow> r | None \<Rightarrow> ''cancelled by admin''),
        te_detail = Some (JObj [(''cancelledBy'', JStr (sub p))]), te_actorSub = Some (sub p), te_actorUsername = username p\<rparr>
       (Some (version c)) (\<lambda>r. case r of
         Inl e \<Rightarrow> Ret (auditUnavailable e)
       | Inr None \<Rightarrow> Ret (Failure 409 ''REQUEST_NOT_ACTIVE'' ''Request changed state meanwhile'')
       | Inr (Some c') \<Rightarrow> Ret (ViewReply 200 (view c' None)))"

definition close_failed :: "principal \<Rightarrow> change_record \<Rightarrow> exn \<Rightarrow> reply prog" where
  "close_failed p c e =
     RecordEvent (cancel_event p c (JObj [(''cancel'', JStr ''close_failed''),
       (''error'', JStr (case e of GithubUnavailableExn m \<Rightarrow> m | _ \<Rightarrow> ''unexpected error''))])) (\<lambda>_.
       Ret (Failure 502 ''GITHUB_UNAVAILABLE'' (''GitHub could not close the pull request; request '' @ cr_id c @ '' is still active'')))"

definition cancel_close :: "principal \<Rightarrow> string option \<Rightarrow> change_record \<Rightarrow> (exn, pr_info option) res \<Rightarrow> reply prog" where
  "cancel_close p reason c r =
     (case r of
        Inl e \<Rightarrow> close_failed p c e
      | Inr None \<Rightarrow> cancel_transition p reason c
      | Inr (Some pr) \<Rightarrow>
          if pr_merged pr then Ret (Failure 409 ''REQUEST_NOT_ACTIVE'' ''The pull request is already merged'')
          else if pr_state pr = OpenPr
          then ClosePr (pr_number pr) (\<lambda>closed. case closed of Inl e \<Rightarrow> close_failed p c e | Inr _ \<Rightarrow> cancel_transition p reason c)
          else cancel_transition p reason c)"

definition cancel_active :: "principal \<Rightarrow> string option \<Rightarrow> change_record \<Rightarrow> reply prog" where
  "cancel_active p reason c =
     RecordEvent (cancel_event p c (JObj [(''cancel'', JStr ''requested''), (''by'', JStr (sub p))])) (\<lambda>r.
       case r of
         Inl e \<Rightarrow> Ret (auditUnavailable e)
       | Inr _ \<Rightarrow>
           (case prNumber c of
              Some n \<Rightarrow> GetPr n (cancel_close p reason c)
            | None \<Rightarrow> FindPrByBranch (branch c) (int (createdAt c) - PR_ADOPT_SKEW_MS) (cancel_close p reason c)))"

definition cancel_handler :: "deps \<Rightarrow> principal \<Rightarrow> string \<Rightarrow> string option \<Rightarrow> reply prog" where
  "cancel_handler dp p i reason =
     (if \<not> has_gitWriter dp then Ret (Failure 503 ''GIT_WRITER_UNCONFIGURED'' ''Git write path is not configured'')
      else GetRequest i (\<lambda>r. case r of
          Inl e \<Rightarrow> Ret (auditUnavailable e)
        | Inr None \<Rightarrow> Ret (Failure 404 ''NOT_FOUND'' ''No such change request'')
        | Inr (Some c) \<Rightarrow>
            if cr_stage c \<notin> set ACTIVE_STAGES
            then Ret (Failure 409 ''REQUEST_NOT_ACTIVE'' (''Request is '' @ stage_name (cr_stage c) @ '', not active''))
            else if cr_stage c = Submitted
            then Now (\<lambda>now. if int now - int (updatedAt c) < SUBMITTED_GRACE_MS
              then Ret (Failure 409 ''REQUEST_IN_FLIGHT''
                ''The request was submitted moments ago and may still be creating its pull request; retry shortly'')
              else cancel_active p reason c)
            else cancel_active p reason c))"

section \<open>The routes\<close>

datatype request =
    Post "string option" "string option" json
  | Contract
  | ListRequests
  | Cancel string "json option"
  | Get string

text \<open>The result of a gated route, with the throttle table passed through.\<close>

primrec with_denied :: "denied \<Rightarrow> 'a prog \<Rightarrow> ('a \<times> denied) prog" where
  "with_denied m (Ret a) = Ret (a, m)"
| "with_denied m (Now k) = Now (\<lambda>t. with_denied m (k t))"
| "with_denied m (Ready k) = Ready (\<lambda>b. with_denied m (k b))"
| "with_denied m (TryLease k) = TryLease (\<lambda>r. with_denied m (k r))"
| "with_denied m (RecordEvent e k) = RecordEvent e (\<lambda>r. with_denied m (k r))"
| "with_denied m (FindByKey key k) = FindByKey key (\<lambda>r. with_denied m (k r))"
| "with_denied m (Submit inp k) = Submit inp (\<lambda>r. with_denied m (k r))"
| "with_denied m (Transition i e s f ev v k) = Transition i e s f ev v (\<lambda>r. with_denied m (k r))"
| "with_denied m (GetRequest i k) = GetRequest i (\<lambda>r. with_denied m (k r))"
| "with_denied m (ListOpen n k) = ListOpen n (\<lambda>r. with_denied m (k r))"
| "with_denied m (FindByBranch b k) = FindByBranch b (\<lambda>r. with_denied m (k r))"
| "with_denied m (ListRecentTerminal s n k) = ListRecentTerminal s n (\<lambda>r. with_denied m (k r))"
| "with_denied m (ReadBase f k) = ReadBase f (\<lambda>r. with_denied m (k r))"
| "with_denied m (CreateChangePr inp k) = CreateChangePr inp (\<lambda>r. with_denied m (k r))"
| "with_denied m (FindBranch b k) = FindBranch b (\<lambda>r. with_denied m (k r))"
| "with_denied m (FindPrByBranch b nb k) = FindPrByBranch b nb (\<lambda>r. with_denied m (k r))"
| "with_denied m (GetPr n k) = GetPr n (\<lambda>r. with_denied m (k r))"
| "with_denied m (ClosePr n k) = ClosePr n (\<lambda>r. with_denied m (k r))"
| "with_denied m (Compare a b k) = Compare a b (\<lambda>r. with_denied m (k r))"
| "with_denied m (ListOpenSsoPrs k) = ListOpenSsoPrs (\<lambda>r. with_denied m (k r))"
| "with_denied m (ReadFile p ref k) = ReadFile p ref (\<lambda>r. with_denied m (k r))"
| "with_denied m (GetApplication a k) = GetApplication a (\<lambda>r. with_denied m (k r))"

text \<open>\<open>z.string().uuid()\<close>: versions 1 to 8 of RFC 9562, or the nil or max UUID.\<close>

definition is_uuid :: "string \<Rightarrow> bool" where
  "is_uuid s \<longleftrightarrow>
     (case split_on (CHR ''-'') s of
        [a, b, c, d, e] \<Rightarrow>
          map length [a, b, c, d, e] = [8, 4, 4, 4, 12] \<and> list_all (\<lambda>h. h \<in> set ''0123456789abcdefABCDEF'') (a @ b @ c @ d @ e)
          \<and> (hd c \<in> set ''12345678'' \<and> hd d \<in> set ''89abAB'' \<or> list_all (\<lambda>h. h = CHR ''0'') (a @ b @ c @ d @ e)
             \<or> list_all (\<lambda>h. h = CHR ''f'') (a @ b @ c @ d @ e))
      | _ \<Rightarrow> False)"

definition dispatch :: "ext \<Rightarrow> deps \<Rightarrow> principal \<Rightarrow> request \<Rightarrow> reply prog" where
  "dispatch x dp p req =
     (case req of
        Post dryRun key body \<Rightarrow>
          writeEnabledGate dp (storeGate dp
            (case (dry_run_query dryRun, key_header key, ssoChangeRequestBodySchema body) of
               (Some d, Some k, Some b) \<Rightarrow> post_handler x dp p b d k
             | _ \<Rightarrow> Ret ValidationFailed))
      | Contract \<Rightarrow> writeEnabledGate dp (storeGate dp (contract_handler dp))
      | ListRequests \<Rightarrow> writeEnabledGate dp (storeGate dp list_handler)
      | Cancel i body \<Rightarrow>
          writeEnabledGate dp (storeGate dp
            (case (is_uuid i, ssoChangeCancelBodySchema body) of
               (True, Some reason) \<Rightarrow> cancel_handler dp p i reason
             | _ \<Rightarrow> Ret ValidationFailed))
      | Get i \<Rightarrow> storeGate dp (if is_uuid i then get_handler i else Ret ValidationFailed))"

definition registerSsoChangeRoutes ::
  "ext \<Rightarrow> deps \<Rightarrow> denied \<Rightarrow> principal option \<Rightarrow> string \<Rightarrow> string \<Rightarrow> request \<Rightarrow> (reply \<times> denied) prog" where
  "registerSsoChangeRoutes x dp deniedAt p method path req =
     adminGate dp deniedAt p method path (\<lambda>pr. with_denied deniedAt (dispatch x dp pr req))"

section \<open>The routes are disciplined\<close>

lemma disciplined_with_denied: "disciplined (with_denied m p) K = disciplined p K"
  by (induction p arbitrary: K) simp_all

lemma disciplined_transitionOrLocal:
  assumes "lifecycle (cr_stage c) s" "disciplined (k (local_record c s f)) K"
    and "\<And>c'. cr_id c' = cr_id c \<Longrightarrow> disciplined (k c') (K \<union> record_facts c')"
  shows "disciplined (transitionOrLocal c s f ev k) K"
  using assms
  by (auto simp: transitionOrLocal_def transition_answer_def get_answer_def intro: disciplined_weaken split: sum.splits option.splits)

lemma disciplined_submit_write:
  assumes "cr_stage c = Submitted" "cp_path inp = SSO_FILE_PATH" "HasRow (cr_id c) (cp_branch inp) \<in> K"
  shows "disciplined (submit_write p change c inp) K"
proof -
  let ?K = "\<lambda>n. K \<union> answer_facts (Created (cp_branch inp)) (Some n)"
  have close: "disciplined (closeOrphanPr c' n sub user src (Ret a)) (?K n \<union> record_facts c')"
    if "cr_id c' = cr_id c" "isTerminalLoss (cr_stage c')" for c' n sub user src and a :: reply
  proof (rule disciplined_close)
    have "knows (?K n \<union> record_facts c') c'" by (simp add: knows_def)
    from knows_ended [OF this that(2)] show "may_close (?K n \<union> record_facts c') n"
      using assms(3) that(1) unfolding may_close_def by (auto simp: answer_facts_def)
  qed simp
  have opened: "disciplined (transitionOrLocal c PrOpen f ev (\<lambda>record. if isTerminalLoss (cr_stage record)
      then closeOrphanPr record n sub user src (Ret (a record)) else Ret (b record))) (?K n)"
    for n f ev sub user src and a b :: "change_record \<Rightarrow> reply"
    using assms(1) close
    by (intro disciplined_transitionOrLocal) (auto simp: local_record_def isTerminalLoss_def)
  have other: "disciplined (transitionOrLocal c s f ev (\<lambda>_. Ret a)) J" if "s \<in> {UnknownRecovering, Failed}" for s f ev J and a :: reply
    using assms(1) that by (intro disciplined_transitionOrLocal) auto
  show ?thesis using assms opened other
    by (auto simp: submit_write_def may_create_def answer_created_def split: sum.splits write_kind.splits)
qed

lemma disciplined_post_submit: "disciplined (post_submit p body key base change) K"
proof -
  have "disciplined (submit_write p change c (create_of p body key base change c)) (K \<union> record_facts c)"
    if "branch c = change_branch (bc_endpoint change) key" "cr_stage c = Submitted" for c
    using that by (intro disciplined_submit_write) (auto simp: create_of_def record_facts_def)
  then show ?thesis
    by (auto simp: post_submit_def submit_answer_def submit_facts_def submit_of_def split: sum.splits prod.splits)
qed

lemma disciplined_read_base: "(\<And>b. disciplined (k b) K) \<Longrightarrow> disciplined (read_base dp fresh k) K"
  by (auto simp: read_base_def split: sum.splits exn.splits)

lemma disciplined_post_handler: "disciplined (post_handler x dp p body dryRun key) K"
proof -
  have "disciplined (post_change x p body dryRun key base) J" for base J
    by (auto simp: post_change_def post_preview_def disciplined_post_submit split: sum.splits change_error.splits option.splits)
  then have "disciplined (read_base dp fresh (post_change x p body dryRun key)) J" for fresh J
    by (rule disciplined_read_base)
  then show ?thesis by (auto simp: post_handler_def Let_def split: option.splits sum.splits)
qed

lemma disciplined_cancel_active:
  assumes "cr_stage c \<in> set ACTIVE_STAGES" "knows K c"
  shows "disciplined (cancel_active p reason c) K"
proof -
  let ?ev = "cancel_event p c (JObj [(''cancel'', JStr ''requested''), (''by'', JStr (sub p))])"
  let ?K = "insert (Audited (cr_id c)) K"
  have facts: "event_facts ?ev (Inr ()) = {Audited (cr_id c)}"
    by (simp add: event_facts_def cancel_event_def is_cancel_request_def)
  have "disciplined (cancel_transition p reason c) J" for J
    using assms(1) by (auto simp: cancel_transition_def ACTIVE_STAGES_def split: sum.splits option.splits)
  moreover have "disciplined (close_failed p c e) J" for e J
    by (simp add: close_failed_def)
  ultimately have close: "disciplined (cancel_close p reason c r) J"
    if "\<And>pr. r = Inr (Some pr) \<Longrightarrow> may_close J (pr_number pr)" for r J
    using that by (auto simp: cancel_close_def split: sum.splits option.splits)
  have "may_close (?K \<union> answer_facts (ByNumber m) (Some n)) n" if "prNumber c = Some m" for m n
    using knows_row [OF assms(2)] knows_pr [OF assms(2) that] unfolding may_close_def by (auto simp: answer_facts_def)
  moreover have "may_close (?K \<union> answer_facts (ByBranch (branch c)) (Some n)) n" for n
    using knows_row [OF assms(2)] unfolding may_close_def by (auto simp: answer_facts_def)
  ultimately have "disciplined (case prNumber c of Some n \<Rightarrow> GetPr n (cancel_close p reason c)
      | None \<Rightarrow> FindPrByBranch (branch c) nb (cancel_close p reason c)) ?K" for nb
    by (auto simp: answer_pr_def intro!: close split: option.splits)
  then show ?thesis by (auto simp: cancel_active_def facts split: sum.splits)
qed

lemma disciplined_cancel_handler: "disciplined (cancel_handler dp p i reason) K"
proof -
  have "disciplined (cancel_active p reason c) (K \<union> record_facts c)" if "cr_stage c \<in> set ACTIVE_STAGES" for c
    using that by (intro disciplined_cancel_active) (auto simp: knows_def)
  then show ?thesis by (auto simp: cancel_handler_def split: sum.splits option.splits)
qed

lemma disciplined_gates:
  "disciplined k K \<Longrightarrow> disciplined (writeEnabledGate dp k) K" "disciplined k K \<Longrightarrow> disciplined (storeGate dp k) K"
  by (simp_all add: writeEnabledGate_def storeGate_def Let_def)

lemma disciplined_routes: "disciplined (registerSsoChangeRoutes x dp deniedAt p method path req) K"
proof -
  have "disciplined (dispatch x dp pr req) J" for pr J
    by (auto simp: dispatch_def contract_handler_def list_handler_def get_handler_def
      intro!: disciplined_gates disciplined_read_base disciplined_post_handler disciplined_cancel_handler
      split: request.splits option.splits sum.splits bool.splits)
  then show ?thesis
    by (auto simp: registerSsoChangeRoutes_def adminGate_def disciplined_with_denied Let_def split: option.splits prod.splits bool.splits)
qed

end
