(* ===== verification/Interleaving.thy ===== *)
theory Interleaving
  imports Main
begin

text \<open>
  Programs in flight over a shared world. A configuration is a world and the programs in flight; a step starts a
  program, lets one of them take one step against the world, or loses one (a process dies between two calls). The
  locale \<open>interleaving\<close> is the contract under which such a system keeps an invariant: what a program knows is kept by
  its own steps and by the steps of the others.
\<close>

inductive sys_step :: "('t \<Rightarrow> 'w \<Rightarrow> 't \<Rightarrow> 'w \<Rightarrow> bool) \<Rightarrow> ('t \<Rightarrow> bool) \<Rightarrow> 'w \<times> 't list \<Rightarrow> 'w \<times> 't list \<Rightarrow> bool"
  for tstep :: "'t \<Rightarrow> 'w \<Rightarrow> 't \<Rightarrow> 'w \<Rightarrow> bool" and start :: "'t \<Rightarrow> bool" where
  spawn: "start t \<Longrightarrow> sys_step tstep start (w, ts) (w, ts @ [t])"
| run: "tstep t w t' w' \<Longrightarrow> sys_step tstep start (w, pre @ t # post) (w', pre @ t' # post)"
| crash: "sys_step tstep start (w, pre @ t # post) (w, pre @ post)"

inductive_cases sys_stepE: "sys_step tstep start c c'"

locale interleaving =
  fixes tstep :: "'t \<Rightarrow> 'w \<Rightarrow> 't \<Rightarrow> 'w \<Rightarrow> bool"
    and start :: "'t \<Rightarrow> bool"
    and winv :: "'w \<Rightarrow> bool"
    and ok :: "'w \<Rightarrow> 't \<Rightarrow> bool"
    and allowed :: "'w \<Rightarrow> 'w \<Rightarrow> bool"
  assumes start_ok: "start t \<Longrightarrow> ok w t"
    and own_step: "winv w \<Longrightarrow> ok w t \<Longrightarrow> tstep t w t' w' \<Longrightarrow> allowed w w' \<and> ok w' t'"
    and stable: "allowed w w' \<Longrightarrow> ok w t \<Longrightarrow> ok w' t"
    and allowed_refl: "allowed w w"
    and allowed_inv: "allowed w w' \<Longrightarrow> winv w \<Longrightarrow> winv w'"
begin

definition safe :: "'w \<times> 't list \<Rightarrow> bool" where
  "safe c \<longleftrightarrow> winv (fst c) \<and> (\<forall>t \<in> set (snd c). ok (fst c) t)"

lemma safe_step:
  assumes "sys_step tstep start c c'" "safe c"
  shows "safe c' \<and> allowed (fst c) (fst c')"
  using assms(1)
proof cases
  case (run t w t' w' pre post)
  then have "winv w" "ok w t" using assms(2) by (auto simp: safe_def)
  with own_step run(3) have own: "allowed w w'" "ok w' t'" by blast+
  moreover have "ok w' u" if "u \<in> set pre \<union> set post" for u
    using stable [OF own(1)] that assms(2) run(1) by (auto simp: safe_def)
  ultimately show ?thesis using allowed_inv \<open>winv w\<close> run by (auto simp: safe_def)
qed (use assms(2) in \<open>auto simp: safe_def start_ok allowed_refl\<close>)

lemma safe_reachable: "(sys_step tstep start)\<^sup>*\<^sup>* c c' \<Longrightarrow> safe c \<Longrightarrow> safe c'"
  by (induction rule: rtranclp_induct) (auto dest: safe_step)

lemma reachable_step:
  assumes "(sys_step tstep start)\<^sup>*\<^sup>* (w0, []) c" "winv w0" "sys_step tstep start c c'"
  shows "safe c \<and> safe c' \<and> allowed (fst c) (fst c')"
proof -
  have "safe c" using safe_reachable [OF assms(1)] assms(2) by (simp add: safe_def)
  with safe_step [OF assms(3)] show ?thesis by blast
qed

lemma reachable_ok:
  assumes "(sys_step tstep start)\<^sup>*\<^sup>* (w0, []) (w, ts)" "winv w0"
  shows "winv w" "t \<in> set ts \<Longrightarrow> ok w t"
  using safe_reachable [OF assms(1)] assms(2) by (auto simp: safe_def)

end

end
