(* ===== verification/SsoSystem.thy ===== *)
theory SsoSystem
  imports SsoRoutes Interleaving
begin

text \<open>
  Any number of handlers and reconciler ticks, of any number of replicas, over one database. A configuration is a
  world and the programs in flight; a step starts a program, lets one of them take one step against the world, or
  loses one (a process dies between two calls). The system is an instance of the locale \<open>interleaving\<close>.
\<close>

section \<open>The Manager\<close>

datatype manager_thread = Handler "(reply \<times> denied) prog" | Tick "reconciler prog"

inductive thread_step :: "manager_thread \<Rightarrow> world \<Rightarrow> manager_thread \<Rightarrow> world \<Rightarrow> bool" where
  handler: "prog_step p w p' w' \<Longrightarrow> thread_step (Handler p) w (Handler p') w'"
| tick: "prog_step q w q' w' \<Longrightarrow> thread_step (Tick q) w (Tick q') w'"

text \<open>What may be started: any request of anybody to the routes, and a tick of a reconciler in any state.\<close>

inductive started :: "manager_thread \<Rightarrow> bool" where
  request: "started (Handler (registerSsoChangeRoutes x dp deniedAt p method path req))"
| tick: "started (Tick (tick x baseDomain has_argocd st))"

definition thread_good :: "world \<Rightarrow> manager_thread \<Rightarrow> bool" where
  "thread_good w t = (case t of Handler p \<Rightarrow> good w p | Tick q \<Rightarrow> good w q)"

lemma started_good: "started t \<Longrightarrow> thread_good w t"
  by (erule started.cases) (auto simp: thread_good_def intro!: goodI [where K = "{}"] disciplined_routes disciplined_tick)

lemma thread_step_good:
  assumes "world_inv w" "thread_good w t" "thread_step t w t' w'"
  shows "world_step w w' \<and> thread_good w' t'"
  using assms(3) assms(1,2) unfolding thread_good_def
  by cases (auto simp: good_def [of w] dest: prog_step_sound)

interpretation manager: interleaving thread_step started world_inv thread_good world_step
proof unfold_locales
  show "thread_good w t" if "started t" for t w using that by (rule started_good)
  show "world_step w w' \<and> thread_good w' t'" if "world_inv w" "thread_good w t" "thread_step t w t' w'" for w t t' w'
    using that by (rule thread_step_good)
  show "thread_good w' t" if "world_step w w'" "thread_good w t" for w w' t
    using that by (auto simp: thread_good_def intro: good_stable split: manager_thread.splits)
  show "world_inv w'" if "world_step w w'" "world_inv w" for w w' using that by (rule world_step_inv)
qed simp

definition manager_step :: "world \<times> manager_thread list \<Rightarrow> world \<times> manager_thread list \<Rightarrow> bool" where
  "manager_step = sys_step thread_step started"

definition reachable :: "world \<times> manager_thread list \<Rightarrow> bool" where
  "reachable c \<longleftrightarrow> manager_step\<^sup>*\<^sup>* (empty_world, []) c"

lemma world_inv_empty [simp]: "world_inv empty_world"
  by (simp add: world_inv_def empty_world_def)

lemma reachable_inv: "reachable (w, ts) \<Longrightarrow> world_inv w"
  unfolding reachable_def manager_step_def by (rule manager.reachable_ok(1) [of empty_world w ts]) simp_all

lemma reachable_good: "reachable (w, ts) \<Longrightarrow> t \<in> set ts \<Longrightarrow> thread_good w t"
  unfolding reachable_def manager_step_def by (erule manager.reachable_ok(2)) simp_all

lemma reachable_world_step:
  assumes "reachable c" "manager_step c c'"
  shows "world_step (fst c) (fst c')"
  using manager.reachable_step [of empty_world c c'] assms unfolding reachable_def manager_step_def by simp

text \<open>The call a thread is about to make.\<close>

definition next_create :: "manager_thread \<Rightarrow> create_change_pr option" where
  "next_create t = (case t of Handler (CreateChangePr inp k) \<Rightarrow> Some inp | Tick (CreateChangePr inp k) \<Rightarrow> Some inp | _ \<Rightarrow> None)"

definition next_close :: "manager_thread \<Rightarrow> int option" where
  "next_close t = (case t of Handler (ClosePr n k) \<Rightarrow> Some n | Tick (ClosePr n k) \<Rightarrow> Some n | _ \<Rightarrow> None)"

lemma good_create: "good w (CreateChangePr inp k) \<Longrightarrow> cp_path inp = SSO_FILE_PATH \<and> (\<exists>i. holds w (HasRow i (cp_branch inp)))"
  unfolding good_def by (auto simp: may_create_def simp del: holds.simps)

lemma good_close:
  assumes "good w (ClosePr n k)"
  shows "\<exists>i b. holds w (HasRow i b) \<and> (holds w (Audited i) \<or> holds w (Ended i)) \<and>
     (holds w (Answered (ByBranch b) n) \<or> holds w (Answered (Created b) n)
       \<or> (\<exists>m. holds w (RowPr i m) \<and> holds w (Answered (ByNumber m) n)))"
  using assms unfolding good_def disciplined.simps may_close_def by blast

lemma next_create_good:
  "thread_good w t \<Longrightarrow> next_create t = Some inp \<Longrightarrow> cp_path inp = SSO_FILE_PATH \<and> (\<exists>i. holds w (HasRow i (cp_branch inp)))"
  unfolding next_create_def thread_good_def
  by (auto split: manager_thread.splits prog.splits dest!: good_create simp del: holds.simps)

lemma next_close_good:
  "thread_good w t \<Longrightarrow> next_close t = Some n \<Longrightarrow> \<exists>i b. holds w (HasRow i b) \<and> (holds w (Audited i) \<or> holds w (Ended i)) \<and>
     (holds w (Answered (ByBranch b) n) \<or> holds w (Answered (Created b) n)
       \<or> (\<exists>m. holds w (RowPr i m) \<and> holds w (Answered (ByNumber m) n)))"
  unfolding next_close_def thread_good_def
  by (auto split: manager_thread.splits prog.splits dest!: good_close simp del: holds.simps)

section \<open>What a step does to a request\<close>

text \<open>The parts of a request that never change.\<close>

definition same_request :: "request_row \<Rightarrow> request_row \<Rightarrow> bool" where
  "same_request r r' \<longleftrightarrow> rq_id r' = rq_id r \<and> rq_file_path r' = rq_file_path r \<and> rq_endpoint r' = rq_endpoint r
     \<and> rq_idempotency_key r' = rq_idempotency_key r \<and> rq_payload_sha256 r' = rq_payload_sha256 r
     \<and> rq_base_blob_sha r' = rq_base_blob_sha r \<and> rq_source_commit_sha r' = rq_source_commit_sha r
     \<and> rq_patch r' = rq_patch r \<and> rq_actor_sub r' = rq_actor_sub r \<and> rq_branch r' = rq_branch r
     \<and> rq_created_at r' = rq_created_at r"

lemma same_request_updated [simp]: "same_request r (updated_row now s f r)"
  by (simp add: same_request_def updated_row_def)

lemma same_request_refl [simp]: "same_request r r"
  by (simp add: same_request_def)

lemma db_step_row:
  assumes "db_step L d d'" "r \<in> set (requests d)"
  shows "\<exists>r' \<in> set (requests d'). same_request r r' \<and> (r' = r \<or> L (rq_stage r) (rq_stage r'))"
  using assms(1)
proof cases
  case (move pre row post stage now flds ev)
  show ?thesis
  proof (cases "r = row")
    case True
    then show ?thesis using move by (intro bexI [of _ "updated_row now stage flds row"]) auto
  next
    case False
    then show ?thesis using move assms(2) by (intro bexI [of _ r]) auto
  qed
qed (use assms(2) in \<open>auto intro!: bexI [of _ r]\<close>)

end
