(* ===== verification/SsoRun.thy ===== *)
theory SsoRun
  imports SsoSystem
begin

text \<open>
  Running a program alone, against a database that answers: \<open>run\<close> evaluates a program with an oracle for everything
  outside the database. Every run is a sequence of steps of \<open>prog_step\<close>. On it rest the specification of one
  reconciliation (\<open>next_stage\<close>) and the bound on the calls of a request (\<open>calls_at_most\<close>).
\<close>

section \<open>Running with an oracle\<close>

record outside =
  o_now :: nat
  o_dbnow :: nat
  o_uuid :: string
  o_ready :: bool
  o_lease :: "(exn, bool) res"
  o_readBase :: "bool \<Rightarrow> (exn, sso_base) res"
  o_create :: "create_change_pr \<Rightarrow> (exn, created_pr) res"
  o_findBranch :: "string \<Rightarrow> (exn, string option) res"
  o_findPr :: "string \<Rightarrow> int \<Rightarrow> (exn, pr_info option) res"
  o_getPr :: "int \<Rightarrow> (exn, pr_info option) res"
  o_close :: "int \<Rightarrow> (exn, pr_info) res"
  o_compare :: "string \<Rightarrow> string \<Rightarrow> (exn, compare_status) res"
  o_listPrs :: "(exn, (int \<times> string) list) res"
  o_readFile :: "string \<Rightarrow> string \<Rightarrow> (exn, file_at) res"
  o_app :: "string \<Rightarrow> (exn, argocd_app) res"

definition on_db :: "(db \<Rightarrow> (store_error, 'a) res \<times> db) \<Rightarrow> world \<Rightarrow> (exn, 'a) res \<times> world" where
  "on_db f w = (case f (w_db w) of (r, d) \<Rightarrow> (lift_res r, w\<lparr>w_db := d\<rparr>))"

definition feed :: "((exn, 'b) res \<Rightarrow> world \<Rightarrow> 'a \<times> world) \<Rightarrow> (exn, 'b) res \<times> world \<Rightarrow> 'a \<times> world" where
  "feed g rw = g (fst rw) (snd rw)"

primrec run :: "outside \<Rightarrow> 'a prog \<Rightarrow> world \<Rightarrow> 'a \<times> world" where
  "run orc (Ret a) = (\<lambda>w. (a, w))"
| "run orc (Now k) = (\<lambda>w. run orc (k (o_now orc)) w)"
| "run orc (Ready k) = (\<lambda>w. run orc (k (o_ready orc)) w)"
| "run orc (TryLease k) = (\<lambda>w. run orc (k (o_lease orc)) w)"
| "run orc (RecordEvent e k) = (\<lambda>w. feed (\<lambda>r. run orc (k r)) (on_db (writing_event e) w))"
| "run orc (FindByKey key k) = (\<lambda>w. feed (\<lambda>r. run orc (k r)) (on_db (reading (findByKey key)) w))"
| "run orc (Submit inp k) = (\<lambda>w. feed (\<lambda>r. run orc (k r)) (on_db (submit (o_dbnow orc) (o_uuid orc) inp) w))"
| "run orc (Transition i e s f ev v k) =
     (\<lambda>w. feed (\<lambda>r. run orc (k r)) (on_db (transition (o_dbnow orc) i e s f ev v) w))"
| "run orc (GetRequest i k) = (\<lambda>w. feed (\<lambda>r. run orc (k r)) (on_db (reading (get_request i)) w))"
| "run orc (ListOpen n k) = (\<lambda>w. feed (\<lambda>r. run orc (k r)) (on_db (reading (listOpen n)) w))"
| "run orc (FindByBranch b k) = (\<lambda>w. feed (\<lambda>r. run orc (k r)) (on_db (reading (findByBranch b)) w))"
| "run orc (ListRecentTerminal since n k) =
     (\<lambda>w. feed (\<lambda>r. run orc (k r)) (on_db (reading (listRecentTerminal (nat since) n)) w))"
| "run orc (ReadBase fresh k) = (\<lambda>w. run orc (k (o_readBase orc fresh)) w)"
| "run orc (CreateChangePr inp k) =
     (\<lambda>w. run orc (k (o_create orc inp)) (answer (Created (cp_branch inp)) (answer_created (o_create orc inp)) w))"
| "run orc (FindBranch b k) = (\<lambda>w. run orc (k (o_findBranch orc b)) w)"
| "run orc (FindPrByBranch b nb k) =
     (\<lambda>w. run orc (k (o_findPr orc b nb)) (answer (ByBranch b) (answer_pr (o_findPr orc b nb)) w))"
| "run orc (GetPr n k) = (\<lambda>w. run orc (k (o_getPr orc n)) (answer (ByNumber n) (answer_pr (o_getPr orc n)) w))"
| "run orc (ClosePr n k) = (\<lambda>w. run orc (k (o_close orc n)) w)"
| "run orc (Compare a b k) = (\<lambda>w. run orc (k (o_compare orc a b)) w)"
| "run orc (ListOpenSsoPrs k) = (\<lambda>w. run orc (k (o_listPrs orc)) w)"
| "run orc (ReadFile p ref k) = (\<lambda>w. run orc (k (o_readFile orc p ref)) w)"
| "run orc (GetApplication a k) = (\<lambda>w. run orc (k (o_app orc a)) w)"

definition prog_pair_step :: "'a prog \<times> world \<Rightarrow> 'a prog \<times> world \<Rightarrow> bool" where
  "prog_pair_step c c' \<longleftrightarrow> prog_step (fst c) (snd c) (fst c') (snd c')"

lemma on_db_call: "store_call f w (fst (on_db f w)) (snd (on_db f w))"
proof -
  obtain r d where fd: "f (w_db w) = (r, d)" by (cases "f (w_db w)")
  then have "on_db f w = (lift_res r, w\<lparr>w_db := d\<rparr>)" by (simp add: on_db_def)
  moreover have "db_call f (w_db w) r d" using fd by (rule db_call.completed)
  ultimately show ?thesis unfolding store_call_def by (intro exI [of _ r] exI [of _ d]) simp
qed

lemma steps_Cons:
  assumes "prog_step p w q v" "prog_pair_step\<^sup>*\<^sup>* (q, v) c"
  shows "prog_pair_step\<^sup>*\<^sup>* (p, w) c"
  using converse_rtranclp_into_rtranclp [of prog_pair_step "(p, w)" "(q, v)" c] assms by (simp add: prog_pair_step_def)

text \<open>A run is a sequence of steps that ends with the program's result.\<close>

lemma run_steps: "prog_pair_step\<^sup>*\<^sup>* (p, w) (Ret (fst (run orc p w)), snd (run orc p w))"
proof (induction p arbitrary: w)
  case (RecordEvent e k)
  show ?case
    by (simp only: run.simps feed_def) (rule steps_Cons [OF prog_step.recordEvent [OF on_db_call] RecordEvent.IH [OF rangeI]])
next
  case (FindByKey key k)
  show ?case
    by (simp only: run.simps feed_def) (rule steps_Cons [OF prog_step.findByKey [OF on_db_call] FindByKey.IH [OF rangeI]])
next
  case (Submit inp k)
  show ?case
    by (simp only: run.simps feed_def) (rule steps_Cons [OF prog_step.submit [OF on_db_call] Submit.IH [OF rangeI]])
next
  case (Transition i e s f ev v k)
  show ?case
    by (simp only: run.simps feed_def) (rule steps_Cons [OF prog_step.transition [OF on_db_call] Transition.IH [OF rangeI]])
next
  case (GetRequest i k)
  show ?case
    by (simp only: run.simps feed_def) (rule steps_Cons [OF prog_step.getRequest [OF on_db_call] GetRequest.IH [OF rangeI]])
next
  case (ListOpen n k)
  show ?case
    by (simp only: run.simps feed_def) (rule steps_Cons [OF prog_step.listOpen [OF on_db_call] ListOpen.IH [OF rangeI]])
next
  case (FindByBranch b k)
  show ?case
    by (simp only: run.simps feed_def) (rule steps_Cons [OF prog_step.findByBranch [OF on_db_call] FindByBranch.IH [OF rangeI]])
next
  case (ListRecentTerminal since n k)
  show ?case
    by (simp only: run.simps feed_def) (rule steps_Cons [OF prog_step.listRecentTerminal [OF on_db_call] ListRecentTerminal.IH [OF rangeI]])
next
  case (Now k)
  show ?case by (simp only: run.simps) (rule steps_Cons [OF prog_step.now Now.IH [OF rangeI]])
next
  case (Ready k)
  show ?case by (simp only: run.simps) (rule steps_Cons [OF prog_step.ready Ready.IH [OF rangeI]])
next
  case (TryLease k)
  show ?case by (simp only: run.simps) (rule steps_Cons [OF prog_step.lease TryLease.IH [OF rangeI]])
next
  case (ReadBase fresh k)
  show ?case by (simp only: run.simps) (rule steps_Cons [OF prog_step.readBase ReadBase.IH [OF rangeI]])
next
  case (CreateChangePr inp k)
  show ?case by (simp only: run.simps) (rule steps_Cons [OF prog_step.createChangePr CreateChangePr.IH [OF rangeI]])
next
  case (FindBranch b k)
  show ?case by (simp only: run.simps) (rule steps_Cons [OF prog_step.findBranch FindBranch.IH [OF rangeI]])
next
  case (FindPrByBranch b nb k)
  show ?case by (simp only: run.simps) (rule steps_Cons [OF prog_step.findPrByBranch FindPrByBranch.IH [OF rangeI]])
next
  case (GetPr n k)
  show ?case by (simp only: run.simps) (rule steps_Cons [OF prog_step.getPr GetPr.IH [OF rangeI]])
next
  case (ClosePr n k)
  show ?case by (simp only: run.simps) (rule steps_Cons [OF prog_step.closePr ClosePr.IH [OF rangeI]])
next
  case (Compare a b k)
  show ?case by (simp only: run.simps) (rule steps_Cons [OF prog_step.compare Compare.IH [OF rangeI]])
next
  case (ListOpenSsoPrs k)
  show ?case by (simp only: run.simps) (rule steps_Cons [OF prog_step.listOpenSsoPrs ListOpenSsoPrs.IH [OF rangeI]])
next
  case (ReadFile p ref k)
  show ?case by (simp only: run.simps) (rule steps_Cons [OF prog_step.readFile ReadFile.IH [OF rangeI]])
next
  case (GetApplication a k)
  show ?case by (simp only: run.simps) (rule steps_Cons [OF prog_step.getApplication GetApplication.IH [OF rangeI]])
qed simp

section \<open>One step at a time\<close>

definition hand :: "((exn, 'b) res \<Rightarrow> 'a prog) \<Rightarrow> (exn, 'b) res \<times> world \<Rightarrow> 'a prog \<times> world" where
  "hand k rw = (k (fst rw), snd rw)"

fun advance :: "outside \<Rightarrow> 'a prog \<times> world \<Rightarrow> 'a prog \<times> world" where
  "advance orc (Ret a, w) = (Ret a, w)"
| "advance orc (Now k, w) = (k (o_now orc), w)"
| "advance orc (Ready k, w) = (k (o_ready orc), w)"
| "advance orc (TryLease k, w) = (k (o_lease orc), w)"
| "advance orc (RecordEvent e k, w) = hand k (on_db (writing_event e) w)"
| "advance orc (FindByKey key k, w) = hand k (on_db (reading (findByKey key)) w)"
| "advance orc (Submit inp k, w) = hand k (on_db (submit (o_dbnow orc) (o_uuid orc) inp) w)"
| "advance orc (Transition i e s f ev v k, w) = hand k (on_db (transition (o_dbnow orc) i e s f ev v) w)"
| "advance orc (GetRequest i k, w) = hand k (on_db (reading (get_request i)) w)"
| "advance orc (ListOpen n k, w) = hand k (on_db (reading (listOpen n)) w)"
| "advance orc (FindByBranch b k, w) = hand k (on_db (reading (findByBranch b)) w)"
| "advance orc (ListRecentTerminal since n k, w) = hand k (on_db (reading (listRecentTerminal (nat since) n)) w)"
| "advance orc (ReadBase fresh k, w) = (k (o_readBase orc fresh), w)"
| "advance orc (CreateChangePr inp k, w) =
     (k (o_create orc inp), answer (Created (cp_branch inp)) (answer_created (o_create orc inp)) w)"
| "advance orc (FindBranch b k, w) = (k (o_findBranch orc b), w)"
| "advance orc (FindPrByBranch b nb k, w) = (k (o_findPr orc b nb), answer (ByBranch b) (answer_pr (o_findPr orc b nb)) w)"
| "advance orc (GetPr n k, w) = (k (o_getPr orc n), answer (ByNumber n) (answer_pr (o_getPr orc n)) w)"
| "advance orc (ClosePr n k, w) = (k (o_close orc n), w)"
| "advance orc (Compare a b k, w) = (k (o_compare orc a b), w)"
| "advance orc (ListOpenSsoPrs k, w) = (k (o_listPrs orc), w)"
| "advance orc (ReadFile p ref k, w) = (k (o_readFile orc p ref), w)"
| "advance orc (GetApplication a k, w) = (k (o_app orc a), w)"

lemma advance_step:
  "(\<exists>a. fst c = Ret a) \<or> prog_step (fst c) (snd c) (fst (advance orc c)) (snd (advance orc c))"
  by (cases "(orc, c)" rule: advance.cases)
    (auto simp: hand_def intro: prog_step.intros on_db_call)

lemma advances_steps: "prog_pair_step\<^sup>*\<^sup>* c (((advance orc) ^^ n) c)"
proof (induction n)
  case (Suc n)
  let ?d = "((advance orc) ^^ n) c"
  have "prog_pair_step\<^sup>*\<^sup>* ?d (advance orc ?d)"
    using advance_step [of ?d orc]
  proof
    assume "\<exists>a. fst ?d = Ret a"
    then show ?thesis by (cases ?d) auto
  qed (simp add: prog_pair_step_def r_into_rtranclp)
  with Suc show ?case by simp
qed simp

lemma advance_reachable:
  assumes "reachable (snd c, pre @ Handler (fst c) # post)"
  shows "reachable (snd (advance orc c), pre @ Handler (fst (advance orc c)) # post)"
  using advance_step [of c orc]
proof
  assume "\<exists>a. fst c = Ret a"
  then show ?thesis using assms by (cases c) auto
next
  assume "prog_step (fst c) (snd c) (fst (advance orc c)) (snd (advance orc c))"
  then have "manager_step (snd c, pre @ Handler (fst c) # post) (snd (advance orc c), pre @ Handler (fst (advance orc c)) # post)"
    unfolding manager_step_def by (intro sys_step.run thread_step.handler)
  then show ?thesis using assms unfolding reachable_def by (rule rtranclp.rtrancl_into_rtrancl [rotated])
qed

lemma advances_reachable:
  assumes "reachable (w, pre @ Handler p # post)" "((advance orc) ^^ n) (p, w) = (q, v)"
  shows "reachable (v, pre @ Handler q # post)"
  using assms(2)
proof (induction n arbitrary: q v)
  case 0
  then show ?case using assms(1) by simp
next
  case (Suc n)
  obtain q' v' where prev: "((advance orc) ^^ n) (p, w) = (q', v')" by fastforce
  from advance_reachable [of "(q', v')" pre post orc] Suc.IH [OF prev] Suc.prems prev show ?case by simp
qed

lemma reachable_request:
  "reachable (w, ts) \<Longrightarrow> reachable (w, ts @ [Handler (registerSsoChangeRoutes x dp deniedAt p method path req)])"
  unfolding reachable_def manager_step_def
  by (rule rtranclp.rtrancl_into_rtrancl, assumption) (intro sys_step.spawn started.request)

lemma reachable_empty [simp]: "reachable (empty_world, [])"
  by (simp add: reachable_def)

section \<open>One reconciliation\<close>

text \<open>Where a request goes when the reconciler looks at it, as the design states it.\<close>

definition rebuilt :: "ext \<Rightarrow> string \<Rightarrow> outside \<Rightarrow> change_record \<Rightarrow> (exn, create_change_pr) res" where
  "rebuilt x baseDomain orc c =
     (case (o_readFile orc SSO_FILE_PATH (sourceCommitSha c), o_readFile orc GROUPS_FILE_PATH (sourceCommitSha c)) of
        (Inr sso, Inr groups) \<Rightarrow> rebuild_from x baseDomain c sso groups
      | (Inl e, _) \<Rightarrow> Inl e | (_, Inl e) \<Rightarrow> Inl e)"

definition recover_stage :: "ext \<Rightarrow> string \<Rightarrow> outside \<Rightarrow> change_record \<Rightarrow> change_stage" where
  "recover_stage x baseDomain orc c =
     (case o_findPr orc (branch c) (int (createdAt c) - PR_ADOPT_SKEW_MS) of
        Inl _ \<Rightarrow> cr_stage c
      | Inr (Some _) \<Rightarrow> PrOpen
      | Inr None \<Rightarrow>
          (case o_findBranch orc (branch c) of
             Inl _ \<Rightarrow> cr_stage c
           | Inr None \<Rightarrow> Failed
           | Inr (Some _) \<Rightarrow>
               (case rebuilt x baseDomain orc c of
                  Inl _ \<Rightarrow> cr_stage c
                | Inr inp \<Rightarrow>
                    (case o_create orc inp of
                       Inr _ \<Rightarrow> PrOpen
                     | Inl e \<Rightarrow> if write_kind_of e = UnknownWrite then Submitted else Failed))))"

definition pr_stage :: "outside \<Rightarrow> change_record \<Rightarrow> change_stage" where
  "pr_stage orc c =
     (case (case prNumber c of Some n \<Rightarrow> o_getPr orc n | None \<Rightarrow> o_findPr orc (branch c) (int (createdAt c) - PR_ADOPT_SKEW_MS)) of
        Inr (Some pr) \<Rightarrow>
          if pr_state pr = OpenPr then PrOpen
          else if \<not> pr_merged pr then Rejected
          else if pr_mergeCommitSha pr = None then PrOpen else Merged
      | _ \<Rightarrow> PrOpen)"

text \<open>ArgoCD runs an application at or after the merge commit.\<close>

definition app_applied :: "outside \<Rightarrow> string \<Rightarrow> string \<Rightarrow> bool" where
  "app_applied orc sha name =
     (case o_app orc name of
        Inr app \<Rightarrow> syncStatus app = ''Synced'' \<and> (case revision app of None \<Rightarrow> False
          | Some head \<Rightarrow> o_compare orc sha head \<in> {Inr Identical, Inr Ahead})
      | Inl _ \<Rightarrow> False)"

definition next_stage :: "ext \<Rightarrow> string \<Rightarrow> bool \<Rightarrow> outside \<Rightarrow> change_record \<Rightarrow> change_stage" where
  "next_stage x baseDomain has_argocd orc c =
     (case cr_stage c of
        Submitted \<Rightarrow> if int (o_now orc) - int (updatedAt c) < SUBMITTED_GRACE_MS then Submitted else recover_stage x baseDomain orc c
      | UnknownRecovering \<Rightarrow> recover_stage x baseDomain orc c
      | PrOpen \<Rightarrow> pr_stage orc c
      | Merged \<Rightarrow> (case mergeCommitSha c of
          Some sha \<Rightarrow> if has_argocd \<and> list_all (app_applied orc sha) ARGOCD_APPS then Applied else Merged
        | None \<Rightarrow> Merged)
      | s \<Rightarrow> s)"

definition row_in :: "world \<Rightarrow> request_row \<Rightarrow> bool" where
  "row_in w row \<longleftrightarrow> db_inv (w_db w) \<and> row \<in> set (requests (w_db w))"

lemma row_in_answer [simp]: "row_in (answer q n w) row \<longleftrightarrow> row_in w row"
  by (simp add: row_in_def answer_def split: option.splits)

text \<open>A move of the life cycle from the stage the row has always succeeds.\<close>

lemma transition_succeeds:
  assumes "row_in w row" "lifecycle (rq_stage row) s"
  shows "\<exists>w'. on_db (transition now (rq_id row) (rq_stage row) s f ev None) w =
      (Inr (Some (toRecord (updated_row now s f row))), w') \<and> row_in w' (updated_row now s f row)"
proof -
  have inv: "db_inv (w_db w)" and row: "row \<in> set (requests (w_db w))" using assms(1) by (auto simp: row_in_def)
  let ?t = "transition now (rq_id row) (rq_stage row) s f ev None (w_db w)"
  have same: "r = row" if "r \<in> set (requests (w_db w))" "cas_matches (rq_id row) (rq_stage row) None r" for r
    using row_by_id [OF inv that(1) row] that(2) by (simp add: cas_matches_def)
  have free: "\<not> active_conflict (rq_id row) (rq_file_path row) (w_db w)" if "is_active s"
  proof
    assume "active_conflict (rq_id row) (rq_file_path row) (w_db w)"
    then obtain r where r: "r \<in> set (requests (w_db w))" "rq_id r \<noteq> rq_id row" "rq_file_path r = rq_file_path row"
      "is_active (rq_stage r)"
      by (auto simp: active_conflict_def list_ex_iff)
    have "one_active_per_file (w_db w)" using inv by (simp add: db_inv_def)
    from one_activeD [OF this r(1) row r(4) lifecycle_active [OF assms(2) that] r(3)] r(2) show False by simp
  qed
  have "?t = (Inr (Some (toRecord (updated_row now s f row))), snd ?t) \<and> updated_row now s f row \<in> set (requests (snd ?t))"
    using inv
  proof (cases rule: transition_cases [where i = "rq_id row" and expected = "rq_stage row" and v = None and now = now
        and stage = s and flds = f and ev = ev])
    case lost
    then show ?thesis using row by (auto simp: cas_matches_def)
  next
    case (backstop r)
    then show ?thesis using free same [of r] by auto
  next
    case (moved r pre post)
    then show ?thesis using same [of r] by auto
  qed
  then show ?thesis using transition_inv [OF inv, of now "rq_id row" "rq_stage row" s f ev None]
    by (intro exI [of _ "w\<lparr>w_db := snd ?t\<rparr>"]) (auto simp: on_db_def row_in_def lift_res_def split: prod.splits)
qed

lemma run_move:
  assumes "row_in w row" "lifecycle (rq_stage row) s"
  shows "\<exists>w'. run orc (move (toRecord row) s f reason detail k) w =
      run orc (k (Inr (Some (toRecord (updated_row (o_dbnow orc) s f row))))) w' \<and> row_in w' (updated_row (o_dbnow orc) s f row)"
  using transition_succeeds [OF assms, of "o_dbnow orc" f "reconciler_event reason detail"]
  by (auto simp: move_def feed_def)

definition reached :: "world \<Rightarrow> request_row \<Rightarrow> change_stage \<Rightarrow> bool" where
  "reached w row s \<longleftrightarrow> (\<exists>row'. row_in w row' \<and> rq_id row' = rq_id row \<and> rq_stage row' = s)"

text \<open>A continuation that ignores how the method ended.\<close>

abbreviation fin :: "(exn, unit) res \<Rightarrow> unit prog" where
  "fin \<equiv> \<lambda>_. Ret ()"

lemma reached_self: "row_in w row \<Longrightarrow> reached w row (rq_stage row)"
  unfolding reached_def by blast

lemma run_move_reached:
  assumes "row_in w row" "lifecycle (rq_stage row) s"
  shows "reached (snd (run orc (move (toRecord row) s f reason detail (ignore_result fin)) w)) row s"
proof -
  obtain w' where "run orc (move (toRecord row) s f reason detail (ignore_result fin)) w = ((), w')"
    "row_in w' (updated_row (o_dbnow orc) s f row)"
    using run_move [OF assms, of orc f reason detail "ignore_result fin"] by (auto simp: ignore_result_def)
  then show ?thesis unfolding reached_def by (intro exI [of _ "updated_row (o_dbnow orc) s f row"]) simp
qed

lemma run_move_cont:
  assumes "row_in w row" "lifecycle (rq_stage row) s"
    and "\<And>w'. row_in w' (updated_row (o_dbnow orc) s f row) \<Longrightarrow> P (run orc (k (Inr (Some (toRecord (updated_row (o_dbnow orc) s f row))))) w')"
  shows "P (run orc (move (toRecord row) s f reason detail k) w)"
  using run_move [OF assms(1,2), of orc f reason detail k] assms(3) by auto

lemma run_openPr_reached:
  assumes "row_in w row" "rq_stage row \<in> {Submitted, UnknownRecovering}"
  shows "reached (snd (run orc (openPr (toRecord row) n u reason close fin) w)) row PrOpen"
  unfolding openPr_def
proof (rule run_move_cont [OF assms(1)])
  show "lifecycle (rq_stage row) PrOpen" using assms(2) by auto
qed (auto simp: reached_def intro!: exI [of _ "updated_row (o_dbnow orc) PrOpen (pr_fields n u) row"])

lemma run_rewrite_reached:
  assumes "row_in w row" "rq_stage row = Submitted"
  shows "reached (snd (run orc (rewrite_pr (toRecord row) inp fin) w)) row
    (case o_create orc inp of Inr _ \<Rightarrow> PrOpen | Inl e \<Rightarrow> if write_kind_of e = UnknownWrite then Submitted else Failed)"
proof (cases "o_create orc inp")
  case (Inr c)
  then show ?thesis using run_openPr_reached [of "answer _ _ w" row] assms by (simp add: rewrite_pr_def)
next
  case (Inl e)
  have "lifecycle (rq_stage row) Failed" using assms(2) by simp
  then show ?thesis using Inl assms run_move_reached [of "answer q n w" row Failed for q n] reached_self [of "answer q n w" row for q n]
    by (cases e) (auto simp: rewrite_pr_def write_kind_of_def)
qed

lemma run_rebuild: "run orc (rebuild x baseDomain c k) w = run orc (k (rebuilt x baseDomain orc c)) w"
  by (auto simp: rebuild_def rebuilt_def split: sum.splits)

lemma run_recover_reached:
  assumes row: "row_in w row" "rq_stage row \<in> {Submitted, UnknownRecovering}"
  shows "reached (snd (run orc (recover x baseDomain (toRecord row) fin) w)) row (recover_stage x baseDomain orc (toRecord row))"
proof -
  let ?c = "toRecord row" and ?nb = "int (createdAt (toRecord row)) - PR_ADOPT_SKEW_MS"
  let ?w = "answer (ByBranch (branch ?c)) (answer_pr (o_findPr orc (branch ?c) ?nb)) w"
  have w: "row_in ?w row" using row(1) by simp
  have moves: "lifecycle (rq_stage row) Failed" "lifecycle (rq_stage row) Submitted" using row(2) by auto
  show ?thesis
  proof (cases "o_findPr orc (branch ?c) ?nb")
    case (Inl e)
    then show ?thesis using reached_self [OF w] by (simp add: recover_def recover_stage_def)
  next
    case found: (Inr found)
    show ?thesis
    proof (cases found)
      case (Some pr)
      then show ?thesis using found run_openPr_reached [OF w row(2)] by (simp add: recover_def recover_stage_def)
    next
      case None
      note absent = found [unfolded None]
      show ?thesis
      proof (cases "o_findBranch orc (branch ?c)")
        case (Inl e)
        then show ?thesis using absent reached_self [OF w] by (simp add: recover_def recover_stage_def)
      next
        case (Inr b)
        show ?thesis
        proof (cases "b = None \<or> (\<exists>e. rebuilt x baseDomain orc ?c = Inl e)")
          case True
          then show ?thesis using absent Inr reached_self [OF w] run_move_reached [OF w moves(1)]
            by (cases b) (auto simp: recover_def recover_stage_def run_rebuild)
        next
          case False
          then obtain sha inp where inp: "b = Some sha" "rebuilt x baseDomain orc ?c = Inr inp"
            by (cases b; cases "rebuilt x baseDomain orc ?c") auto
          let ?row' = "updated_row (o_dbnow orc) Submitted no_fields row"
          let ?hop = "\<lambda>moved. case moved of Inl e \<Rightarrow> fin (Inl e) | Inr None \<Rightarrow> fin (Inr ())
            | Inr (Some current) \<Rightarrow> rewrite_pr current inp fin"
          let ?detail = "if cr_stage ?c = UnknownRecovering then [] else [(''recovery'', JStr ''started'')]"
          obtain w' where w': "run orc (move ?c Submitted no_fields ''re-running the idempotent writer'' ?detail ?hop) ?w
              = run orc (rewrite_pr (toRecord ?row') inp fin) w'" "row_in w' ?row'"
            using run_move [OF w moves(2), of orc no_fields "''re-running the idempotent writer''" ?detail ?hop] by auto
          have "reached (snd (run orc (rewrite_pr (toRecord ?row') inp fin) w')) ?row' (recover_stage x baseDomain orc ?c)"
            using run_rewrite_reached [OF w'(2), of orc inp] absent Inr inp by (simp add: recover_stage_def)
          then show ?thesis using absent Inr inp w'(1) by (simp add: recover_def run_rebuild reached_def)
        qed
      qed
    qed
  qed
qed

lemma run_checkPr_reached:
  assumes "row_in w row" "rq_stage row = PrOpen"
  shows "reached (snd (run orc (checkPr (toRecord row) fin) w)) row (pr_stage orc (toRecord row))"
proof -
  have moves: "lifecycle (rq_stage row) Merged" "lifecycle (rq_stage row) Rejected" using assms(2) by auto
  have w: "row_in (answer q n w) row" for q n using assms(1) by simp
  show ?thesis
    using run_move_reached [OF w moves(1)] run_move_reached [OF w moves(2)] reached_self [OF w] assms(2)
    by (auto simp: checkPr_def pr_stage_def Let_def split: option.splits sum.splits)
qed

lemma run_check_apps:
  "run orc (check_apps sha names applied fin) w =
     (if list_all (app_applied orc sha) names then run orc applied w else ((), w))"
proof (induction names)
  case (Cons a names)
  have "run orc (check_apps sha (a # names) applied fin) w =
      (if app_applied orc sha a then run orc (check_apps sha names applied fin) w else ((), w))"
    by (auto simp: app_applied_def split: sum.splits option.splits bool.splits)
  then show ?case using Cons by simp
qed simp

lemma run_reconcile_reached:
  assumes "row_in w row"
  shows "reached (snd (run orc (reconcile x baseDomain has_argocd (toRecord row) fin) w)) row
    (next_stage x baseDomain has_argocd orc (toRecord row))"
proof (cases "rq_stage row")
  case Merged
  then have "lifecycle (rq_stage row) Applied" by simp
  from run_move_reached [OF assms this] reached_self [OF assms] Merged show ?thesis
    by (auto simp: reconcile_def checkApplied_def next_stage_def run_check_apps split: option.splits bool.splits)
qed (use assms run_recover_reached [OF assms] run_checkPr_reached [OF assms] reached_self [OF assms]
  in \<open>auto simp: reconcile_def next_stage_def\<close>)

section \<open>The number of calls\<close>

text \<open>Whatever is answered, the program ends after at most \<open>n\<close> calls.\<close>

primrec calls_at_most :: "'a prog \<Rightarrow> nat \<Rightarrow> bool" where
  "calls_at_most (Ret a) n = True"
| "calls_at_most (Now k) n = (0 < n \<and> (\<forall>t. calls_at_most (k t) (n - 1)))"
| "calls_at_most (Ready k) n = (0 < n \<and> (\<forall>b. calls_at_most (k b) (n - 1)))"
| "calls_at_most (TryLease k) n = (0 < n \<and> (\<forall>r. calls_at_most (k r) (n - 1)))"
| "calls_at_most (RecordEvent e k) n = (0 < n \<and> (\<forall>r. calls_at_most (k r) (n - 1)))"
| "calls_at_most (FindByKey key k) n = (0 < n \<and> (\<forall>r. calls_at_most (k r) (n - 1)))"
| "calls_at_most (Submit inp k) n = (0 < n \<and> (\<forall>r. calls_at_most (k r) (n - 1)))"
| "calls_at_most (Transition i e s f ev v k) n = (0 < n \<and> (\<forall>r. calls_at_most (k r) (n - 1)))"
| "calls_at_most (GetRequest i k) n = (0 < n \<and> (\<forall>r. calls_at_most (k r) (n - 1)))"
| "calls_at_most (ListOpen m k) n = (0 < n \<and> (\<forall>r. calls_at_most (k r) (n - 1)))"
| "calls_at_most (FindByBranch b k) n = (0 < n \<and> (\<forall>r. calls_at_most (k r) (n - 1)))"
| "calls_at_most (ListRecentTerminal since m k) n = (0 < n \<and> (\<forall>r. calls_at_most (k r) (n - 1)))"
| "calls_at_most (ReadBase fresh k) n = (0 < n \<and> (\<forall>r. calls_at_most (k r) (n - 1)))"
| "calls_at_most (CreateChangePr inp k) n = (0 < n \<and> (\<forall>r. calls_at_most (k r) (n - 1)))"
| "calls_at_most (FindBranch b k) n = (0 < n \<and> (\<forall>r. calls_at_most (k r) (n - 1)))"
| "calls_at_most (FindPrByBranch b nb k) n = (0 < n \<and> (\<forall>r. calls_at_most (k r) (n - 1)))"
| "calls_at_most (GetPr m k) n = (0 < n \<and> (\<forall>r. calls_at_most (k r) (n - 1)))"
| "calls_at_most (ClosePr m k) n = (0 < n \<and> (\<forall>r. calls_at_most (k r) (n - 1)))"
| "calls_at_most (Compare a b k) n = (0 < n \<and> (\<forall>r. calls_at_most (k r) (n - 1)))"
| "calls_at_most (ListOpenSsoPrs k) n = (0 < n \<and> (\<forall>r. calls_at_most (k r) (n - 1)))"
| "calls_at_most (ReadFile p ref k) n = (0 < n \<and> (\<forall>r. calls_at_most (k r) (n - 1)))"
| "calls_at_most (GetApplication a k) n = (0 < n \<and> (\<forall>r. calls_at_most (k r) (n - 1)))"

lemma calls_Suc: "calls_at_most p n \<Longrightarrow> calls_at_most p (Suc n)"
  by (induction p arbitrary: n) (auto simp: gr0_conv_Suc)

lemma calls_more: "calls_at_most p n \<Longrightarrow> n \<le> m \<Longrightarrow> calls_at_most p m"
  by (induction m) (auto simp: le_Suc_eq intro: calls_Suc)

lemma calls_with_denied [simp]: "calls_at_most (with_denied d p) n = calls_at_most p n"
  by (induction p arbitrary: n) simp_all

lemma calls_gates:
  "calls_at_most k n \<Longrightarrow> calls_at_most (writeEnabledGate dp k) n"
  "calls_at_most k n \<Longrightarrow> calls_at_most (storeGate dp k) (Suc n)"
  by (simp_all add: writeEnabledGate_def storeGate_def Let_def)

lemma calls_transitionOrLocal: "(\<And>c. calls_at_most (k c) n) \<Longrightarrow> calls_at_most (transitionOrLocal c s f ev k) (Suc (Suc n))"
  by (auto simp: transitionOrLocal_def intro: calls_Suc split: sum.splits option.splits)

lemma calls_closeOrphanPr: "calls_at_most k n \<Longrightarrow> calls_at_most (closeOrphanPr c m actor user src k) (Suc (Suc n))"
  by (simp add: closeOrphanPr_def)

lemma calls_submit_write: "calls_at_most (submit_write p change c inp) 5"
proof -
  have four: "(4 :: nat) = Suc (Suc 2)" "(2 :: nat) = Suc (Suc 0)" by simp_all
  have "calls_at_most (transitionOrLocal c PrOpen f ev (\<lambda>record. if isTerminalLoss (cr_stage record)
      then closeOrphanPr record n actor user src (Ret (a record)) else Ret (b record))) 4"
    for f ev n actor user src and a b :: "change_record \<Rightarrow> reply"
    unfolding four(1) by (rule calls_transitionOrLocal) (simp add: four(2) calls_closeOrphanPr)
  moreover have "calls_at_most (transitionOrLocal c s f ev (\<lambda>_. Ret a)) 4" for s f ev and a :: reply
    unfolding four(1) by (rule calls_transitionOrLocal) simp
  ultimately show ?thesis by (auto simp: submit_write_def split: sum.splits write_kind.splits)
qed

lemma calls_read_base: "(\<And>b. calls_at_most (k b) n) \<Longrightarrow> calls_at_most (read_base dp fresh k) (Suc n)"
  by (auto simp: read_base_def split: sum.splits exn.splits)

lemma calls_post_handler: "calls_at_most (post_handler x dp p body dryRun key) 8"
proof -
  have "calls_at_most (post_submit p body k base change) 6" for k base change
    using calls_submit_write by (auto simp: post_submit_def split: sum.splits prod.splits)
  then have "calls_at_most (post_change x p body dryRun key base) 6" for base
    by (auto simp: post_change_def post_preview_def split: sum.splits change_error.splits option.splits)
  then have "calls_at_most (read_base dp fresh (post_change x p body dryRun key)) 7" for fresh
    using calls_read_base [of _ 6] by (simp add: numeral_eq_Suc)
  then show ?thesis
    by (auto simp: post_handler_def Let_def intro: calls_more [of _ 7 8] split: option.splits sum.splits)
qed

lemma calls_cancel_handler: "calls_at_most (cancel_handler dp p i reason) 8"
proof -
  have last: "calls_at_most (cancel_transition p reason c) 1" "calls_at_most (close_failed p c e) 1" for c e
    by (auto simp: cancel_transition_def close_failed_def split: sum.splits option.splits)
  then have "calls_at_most (cancel_close p reason c r) 2" for c r
    by (auto simp: cancel_close_def intro: calls_more [of _ 1] split: sum.splits option.splits)
  then have "calls_at_most (cancel_active p reason c) 4" for c
    by (auto simp: cancel_active_def split: sum.splits option.splits)
  then show ?thesis
    by (auto simp: cancel_handler_def intro: calls_more [of _ 4] split: sum.splits option.splits)
qed

lemma calls_routes: "calls_at_most (registerSsoChangeRoutes x dp deniedAt p method path req) 9"
proof -
  have gated: "calls_at_most (storeGate dp q) 9" if "calls_at_most q 8" for q
    using calls_gates(2) [OF that] by (simp add: numeral_eq_Suc)
  have small: "calls_at_most (contract_handler dp) 8" "calls_at_most list_handler 8" "calls_at_most (get_handler i) 8" for i
    using calls_read_base [of _ 7]
    by (auto simp: contract_handler_def list_handler_def get_handler_def numeral_eq_Suc split: sum.splits option.splits)
  have "calls_at_most (dispatch x dp pr req) 9" for pr
    using calls_post_handler calls_cancel_handler small
    by (auto simp: dispatch_def intro!: gated calls_gates(1) split: request.splits option.splits bool.splits)
  then show ?thesis
    by (auto simp: registerSsoChangeRoutes_def adminGate_def Let_def split: option.splits prod.splits bool.splits)
qed

section \<open>Callers who are not admins\<close>

definition is_refusal :: "(reply \<times> denied) prog \<Rightarrow> bool" where
  "is_refusal q \<longleftrightarrow> (\<exists>m msg. q = Ret (Failure 401 ''UNAUTHENTICATED'' msg, m) \<or> q = Ret (Failure 403 ''FORBIDDEN'' msg, m))"

definition denied_stage :: "(reply \<times> denied) prog \<Rightarrow> bool" where
  "denied_stage q \<longleftrightarrow> is_refusal q \<or> (\<exists>e k. q = RecordEvent e k \<and> ne_stage e = Denied \<and> (\<forall>r. is_refusal (k r)))
     \<or> (\<exists>k. q = Now k \<and> (\<forall>t. is_refusal (k t) \<or> (\<exists>e g. k t = RecordEvent e g \<and> ne_stage e = Denied \<and> (\<forall>r. is_refusal (g r)))))"

definition denied_config :: "world \<Rightarrow> (reply \<times> denied) prog \<times> world \<Rightarrow> bool" where
  "denied_config w c \<longleftrightarrow> denied_stage (fst c)
     \<and> requests (w_db (snd c)) = requests (w_db w) \<and> w_answers (snd c) = w_answers w
     \<and> (\<exists>new. events (w_db (snd c)) = events (w_db w) @ new \<and> (\<forall>e \<in> set new. ne_stage e = Denied))"

lemma denied_start:
  assumes "\<And>pr. p = Some pr \<Longrightarrow> ''admins'' \<notin> set (p_groups pr)"
  shows "denied_config w (registerSsoChangeRoutes x dp deniedAt p method path req, w)"
proof -
  have "denied_stage (adminGate dp deniedAt p method path k)" for k
  proof (cases p)
    case None
    then show ?thesis by (simp add: adminGate_def denied_stage_def is_refusal_def)
  next
    case (Some pr)
    then have "REQUIRED_GROUP \<notin> set (p_groups pr)" using assms by (simp add: REQUIRED_GROUP_def)
    then show ?thesis using Some
      by (cases "has_store dp") (auto simp: adminGate_def denied_stage_def is_refusal_def Let_def denied_event_def split: prod.splits bool.splits)
  qed
  then show ?thesis by (simp add: denied_config_def registerSsoChangeRoutes_def)
qed

lemma writing_event_call:
  "store_call (writing_event e) w r w' \<Longrightarrow> (w_db w' = w_db w \<or> w_db w' = recordEvent e (w_db w)) \<and> w_answers w' = w_answers w"
  by (auto simp: store_call_def writing_event_def elim!: db_callE)

lemma denied_step:
  assumes "prog_pair_step c c'" "denied_config w c"
  shows "denied_config w c'"
  using assms(1) unfolding prog_pair_step_def
proof cases
  case (recordEvent e r k)
  then have "ne_stage e = Denied" "is_refusal (k r)" using assms(2) by (auto simp: denied_config_def denied_stage_def is_refusal_def)
  then show ?thesis using assms(2) recordEvent(2) writing_event_call [OF recordEvent(3)]
    by (auto simp: denied_config_def denied_stage_def)
next
  case (now k t)
  have "\<not> is_refusal (Now k)" by (simp add: is_refusal_def)
  then have "denied_stage (k t)" using assms(2) unfolding denied_config_def now(1) denied_stage_def by blast
  then show ?thesis using assms(2) now by (simp add: denied_config_def)
qed (use assms(2) in \<open>auto simp: denied_config_def denied_stage_def is_refusal_def\<close>)

lemma denied_steps: "prog_pair_step\<^sup>*\<^sup>* c c' \<Longrightarrow> denied_config w c \<Longrightarrow> denied_config w c'"
  by (induction rule: rtranclp_induct) (auto intro: denied_step)

end
