(* ===== verification/SsoSample.thy ===== *)
theory SsoSample
  imports SsoRun
begin

text \<open>
  One concrete run of the change-request flow, on which the properties are exhibited: a small SSO file, packages
  that know this file and its edit, an admin who asks for access of the engineers to Flink, and GitHub.
\<close>

definition sample_endpoint :: "string \<Rightarrow> string list option \<Rightarrow> sso_endpoint" where
  "sample_endpoint n gs = \<lparr>ep_name = n, ep_host = n, ep_mode = GatewayOidc, clientId = ''apisix-gateway'',
     protectedPathPrefixes = [''/*''], bypassPathPrefixes = [], redirectPath = ''/cb'', logoutPath = Some ''/logout'',
     allowedGroups = gs\<rparr>"

definition sample_file :: "string list \<Rightarrow> json" where
  "sample_file gs = JObj [(''sso'', JObj [(''realm'', JStr ''beluga''), (''issuerHost'', JStr ''sso''),
     (''endpoints'', JArr [endpoint_json (sample_endpoint ''flink'' (Some gs)), endpoint_json (sample_endpoint ''filer'' None)])])]"

fun node_of :: "json \<Rightarrow> ynode" where
  "node_of (JArr xs) = YSeq (map node_of xs) []"
| "node_of (JObj es) = YMap (map (\<lambda>e. (YScalar (JStr (fst e)) None [], node_of (snd e))) es) []"
| "node_of j = YScalar j None []"

definition sample_doc :: "string list \<Rightarrow> ydoc" where
  "sample_doc gs = \<lparr>doc_errors = False, contents = Some (node_of (sample_file gs)), doc_rest = []\<rparr>"

definition BASE :: string where "BASE = ''base''"
definition EDITED :: string where "EDITED = ''edited''"
definition OLD_GROUPS :: "string list" where "OLD_GROUPS = [''admins'']"
definition NEW_GROUPS :: "string list" where "NEW_GROUPS = [''admins'', ''engineers'']"

text \<open>\<open>new URL\<close> on the issuers of the sample.\<close>

definition sample_url :: "string \<Rightarrow> url option" where
  "sample_url s = (if s = ''https://sso.local.beluga.internal/realms/beluga''
     then Some \<lparr>protocol = ''https:'', hostname = ''sso.local.beluga.internal'', url_host = ''sso.local.beluga.internal'',
       pathname = ''/realms/beluga''\<rparr> else None)"

definition sample_ext :: ext where
  "sample_ext =
     \<lparr>x_parseDocument = (\<lambda>_. sample_doc OLD_GROUPS), x_toJS = (\<lambda>_. Some (sample_file OLD_GROUPS)),
      x_parse = (\<lambda>s. Some (sample_file (if s = EDITED then NEW_GROUPS else OLD_GROUPS))),
      x_toString = (\<lambda>d. if d = sample_doc OLD_GROUPS then BASE else EDITED),
      x_twoFilesPatch = (\<lambda>a b s t. ''==='' @ [CHR 0x0A] @ ''--- '' @ a), x_sha256 = (\<lambda>s. s), x_sha1 = (\<lambda>s. s),
      x_parse_url = sample_url\<rparr>"

definition sample_patch :: patch where
  "sample_patch = \<lparr>p_endpoint = ''flink'', p_allowedGroups = map JStr NEW_GROUPS\<rparr>"

definition sample_groups :: "string list" where
  "sample_groups = [''admins'', ''engineers'', ''analysts'']"

definition sample_change :: built_change where
  "sample_change = \<lparr>bc_endpoint = ''flink'', bc_before = Some OLD_GROUPS, bc_after = NEW_GROUPS, editedText = EDITED,
     bc_diff = ''--- a/gitops/values/sso.yaml'', bc_payloadSha256 = payloadSha256 sample_ext ''flink'' (map JStr NEW_GROUPS)\<rparr>"

lemma sample_built: "buildChange sample_ext BASE ''local.beluga.internal'' sample_groups sample_patch = Inr sample_change"
  by code_simp

definition sample_config :: sso_config where
  "sample_config = \<lparr>realm = ''beluga'', issuerHost = ''sso.local.beluga.internal'',
     issuer = ''https://sso.local.beluga.internal/realms/beluga'',
     endpoints = [(sample_endpoint ''flink'' (Some OLD_GROUPS))\<lparr>ep_host := ''flink.local.beluga.internal''\<rparr>,
       (sample_endpoint ''filer'' None)\<lparr>ep_host := ''filer.local.beluga.internal''\<rparr>]\<rparr>"

lemma sample_resolved:
  "resolveSsoFile sample_url (sample_file OLD_GROUPS) ''local.beluga.internal'' = Inr sample_config"
  by code_simp

definition sample_base :: sso_base where
  "sample_base = \<lparr>commitSha = replicate 40 (CHR ''c''), blobSha = replicate 40 (CHR ''b''), sb_text = BASE,
     sb_baseDomain = ''local.beluga.internal'', sb_config = sample_config, groupNames = sample_groups\<rparr>"

definition sample_id :: string where
  "sample_id = ''11111111-1111-4111-8111-111111111111''"

definition sample_outside :: outside where
  "sample_outside =
     \<lparr>o_now = 1000000, o_dbnow = 1000000000, o_uuid = sample_id, o_ready = True, o_lease = Inr True, o_readBase = (\<lambda>_. Inr sample_base),
      o_create = (\<lambda>_. Inr \<lparr>created_number = 7, created_url = ''pr7''\<rparr>), o_findBranch = (\<lambda>_. Inr None),
      o_findPr = (\<lambda>_ _. Inr None),
      o_getPr = (\<lambda>n. Inr (Some \<lparr>pr_number = n, pr_url = ''pr7'', pr_state = OpenPr, pr_merged = False,
        pr_mergeCommitSha = None, pr_createdAt = Some 1000000\<rparr>)),
      o_close = (\<lambda>n. Inr \<lparr>pr_number = n, pr_url = ''pr7'', pr_state = ClosedPr, pr_merged = False,
        pr_mergeCommitSha = None, pr_createdAt = Some 1000000\<rparr>),
      o_compare = (\<lambda>_ _. Inr Identical), o_listPrs = Inr [], o_readFile = (\<lambda>_ _. Inl (OtherExn [])),
      o_app = (\<lambda>_. Inl (OtherExn []))\<rparr>"

definition sample_admin :: principal where
  "sample_admin = \<lparr>sub = ''alice-sub'', username = Some ''alice'', p_groups = [''admins'']\<rparr>"

definition sample_deps :: deps where
  "sample_deps = \<lparr>has_store = True, has_gitWriter = True, writeEnabled = True, has_readBase = True\<rparr>"

definition sample_body :: json where
  "sample_body = JObj [(''endpoint'', JStr ''flink''), (''allowedGroups'', JArr (map JStr NEW_GROUPS)),
     (''baseBlobSha'', JStr (replicate 40 (CHR ''b'')))]"

definition sample_key :: string where "sample_key = replicate 32 (CHR ''a'')"

definition sample_submit :: "(reply \<times> denied) prog" where
  "sample_submit = registerSsoChangeRoutes sample_ext sample_deps [] (Some sample_admin) ''POST'' ''/api/v1/sso/change-requests''
     (Post None (Some sample_key) sample_body)"

definition sample_parsed :: change_body where
  "sample_parsed = \<lparr>b_endpoint = ''flink'', b_allowedGroups = map JStr NEW_GROUPS, b_reason = None,
     b_baseBlobSha = Some (replicate 40 (CHR ''b''))\<rparr>"

lemma sample_body_parsed:
  "ssoChangeRequestBodySchema sample_body = Some sample_parsed" "key_header (Some sample_key) = Some (Some sample_key)"
  by code_simp+

lemma sample_deps_simps [simp]:
  "has_store sample_deps" "has_gitWriter sample_deps" "writeEnabled sample_deps" "has_readBase sample_deps"
  by (simp_all add: sample_deps_def)

lemma sample_gates:
  "advance sample_outside (sample_submit, empty_world) =
     (with_denied [] (post_handler sample_ext sample_deps sample_admin sample_parsed False (Some sample_key)), empty_world)"
  unfolding sample_submit_def registerSsoChangeRoutes_def adminGate_def
  by (simp add: dispatch_def writeEnabledGate_def storeGate_def sample_admin_def REQUIRED_GROUP_def dry_run_query_def
    sample_body_parsed sample_outside_def)

lemma sample_lookup:
  "advance sample_outside (with_denied [] (post_handler sample_ext sample_deps sample_admin sample_parsed False (Some sample_key)), empty_world) =
     (with_denied [] (read_base sample_deps True (post_change sample_ext sample_admin sample_parsed False (Some sample_key))), empty_world)"
  by (simp add: post_handler_def Let_def hand_def on_db_def reading_def findByKey_def first_record_def select_rows_def
    empty_world_def empty_db_def lift_res_def sample_parsed_def)

definition sample_input :: submit_input where
  "sample_input = submit_of sample_admin sample_parsed sample_key sample_base sample_change"

lemma sample_read:
  "advance sample_outside (with_denied [] (read_base sample_deps True (post_change sample_ext sample_admin sample_parsed False (Some sample_key))), empty_world) =
     (with_denied [] (post_submit sample_admin sample_parsed sample_key sample_base sample_change), empty_world)"
  using sample_built
  by (simp add: read_base_def post_change_def sample_outside_def sample_parsed_def sample_base_def sample_patch_def)

definition sample_row :: request_row where
  "sample_row = new_row 1000000000 sample_id sample_input"

definition sample_world :: world where
  "sample_world = \<lparr>w_db = \<lparr>requests = [sample_row], events = [submitted_event sample_id sample_input]\<rparr>, w_answers = []\<rparr>"

definition sample_pr :: create_change_pr where
  "sample_pr = create_of sample_admin sample_parsed sample_key sample_base sample_change (toRecord sample_row)"

lemma sample_submitted:
  "advance sample_outside (with_denied [] (post_submit sample_admin sample_parsed sample_key sample_base sample_change), empty_world) =
     (with_denied [] (submit_write sample_admin sample_change (toRecord sample_row) sample_pr), sample_world)"
  by (simp add: post_submit_def hand_def on_db_def submit_def select_rows_def empty_world_def empty_db_def lift_res_def
    recordEvent_def sample_world_def sample_row_def sample_input_def sample_pr_def sample_outside_def)

text \<open>The submit is about to write to GitHub.\<close>

lemma sample_writing:
  "reachable (sample_world, [Handler (with_denied [] (submit_write sample_admin sample_change (toRecord sample_row) sample_pr))])"
proof -
  have "((advance sample_outside) ^^ 4) (sample_submit, empty_world) =
      (with_denied [] (submit_write sample_admin sample_change (toRecord sample_row) sample_pr), sample_world)"
    by (simp add: numeral_eq_Suc sample_gates sample_lookup sample_read sample_submitted)
  moreover have "reachable (empty_world, [] @ Handler sample_submit # [])"
    using reachable_request [of empty_world "[]"] by (simp add: sample_submit_def)
  ultimately show ?thesis using advances_reachable [of empty_world "[]" sample_submit "[]" 4 sample_outside] by simp
qed

text \<open>The pull request is open; an admin cancels the request and is about to close it.\<close>

definition sample_open_row :: request_row where
  "sample_open_row = updated_row 1000000000 PrOpen (pr_fields 7 ''pr7'') sample_row"

definition sample_opened :: world where
  "sample_opened = \<lparr>w_db = \<lparr>requests = [sample_open_row],
      events = [submitted_event sample_id sample_input, moved_event PrOpen no_event sample_open_row]\<rparr>,
     w_answers = [(Created ''sso/flink-aaaaaaaaaaaa'', 7)]\<rparr>"

definition sample_reply :: reply where
  "sample_reply = ViewReply 201 (view (toRecord sample_open_row) (Some (bc_diff sample_change)))"

lemma sample_change_branch: "change_branch (bc_endpoint sample_change) sample_key = ''sso/flink-aaaaaaaaaaaa''"
proof -
  have "take 12 sample_key = ''aaaaaaaaaaaa''" by code_simp
  then show ?thesis by (simp add: change_branch_def sample_change_def)
qed

lemma sample_branch: "cp_branch sample_pr = ''sso/flink-aaaaaaaaaaaa''"
  unfolding sample_pr_def create_of_def create_change_pr.select_convs by (rule sample_change_branch)

lemma sample_row_simps [simp]:
  "rq_id sample_row = sample_id" "rq_stage sample_row = Submitted" "rq_updated_at sample_row = 1000000000"
  "rq_id sample_open_row = sample_id" "rq_stage sample_open_row = PrOpen" "rq_pr_number sample_open_row = Some 7"
  by (simp_all add: sample_open_row_def sample_row_def pr_fields_def coalesce_def)

definition sample_created :: world where
  "sample_created = sample_world\<lparr>w_answers := [(Created ''sso/flink-aaaaaaaaaaaa'', 7)]\<rparr>"

definition sample_finish :: "change_record \<Rightarrow> reply prog" where
  "sample_finish record =
     (if isTerminalLoss (cr_stage record)
      then closeOrphanPr record 7 (sub sample_admin) (username sample_admin) None
        (Ret (Failure 409 ''REQUEST_NOT_ACTIVE'' (''Request '' @ cr_id (toRecord sample_row) @ '' was '' @ stage_name (cr_stage record) @
           '' while the pull request was created; the pull request was closed'')))
      else Ret (ViewReply 201 (view record (Some (bc_diff sample_change)))))"

lemma sample_create_step:
  "advance sample_outside (with_denied [] (submit_write sample_admin sample_change (toRecord sample_row) sample_pr), sample_world) =
     (with_denied [] (transitionOrLocal (toRecord sample_row) PrOpen (pr_fields 7 ''pr7'') no_event sample_finish), sample_created)"
proof -
  have create: "o_create sample_outside inp = Inr \<lparr>created_number = 7, created_url = ''pr7''\<rparr>" for inp
    by (simp add: sample_outside_def)
  show ?thesis
    unfolding submit_write_def with_denied.simps advance.simps create sum.case created_pr.select_convs
    by (simp add: sample_finish_def [abs_def] sample_branch answer_def answer_created_def sample_created_def sample_world_def)
qed

lemma sample_transition:
  "on_db (transition (o_dbnow sample_outside) sample_id Submitted PrOpen (pr_fields 7 ''pr7'') no_event None) sample_created =
     (Inr (Some (toRecord sample_open_row)), sample_opened)"
  by (simp add: on_db_def transition_def select_rows_def cas_matches_def active_conflict_def sample_created_def sample_world_def
    lift_res_def recordEvent_def sample_opened_def sample_outside_def Let_def sample_open_row_def [symmetric])

lemma sample_open_step:
  "advance sample_outside (with_denied [] (transitionOrLocal (toRecord sample_row) PrOpen (pr_fields 7 ''pr7'') no_event sample_finish), sample_created) =
     (Ret (sample_reply, []), sample_opened)"
proof -
  have "sample_finish (toRecord sample_open_row) = Ret sample_reply"
    by (simp add: sample_finish_def sample_reply_def isTerminalLoss_def)
  then show ?thesis
    by (simp add: transitionOrLocal_def hand_def sample_transition)
qed

lemma sample_written:
  "((advance sample_outside) ^^ 2) (with_denied [] (submit_write sample_admin sample_change (toRecord sample_row) sample_pr), sample_world) =
     (Ret (sample_reply, []), sample_opened)"
  by (simp add: numeral_2_eq_2 sample_create_step sample_open_step)

definition sample_cancel :: "(reply \<times> denied) prog" where
  "sample_cancel = registerSsoChangeRoutes sample_ext sample_deps [] (Some sample_admin) ''POST'' ''/api/v1/sso/change-requests/cancel''
     (Cancel sample_id None)"

lemma sample_now_open: "reachable (sample_opened, [Handler (Ret (sample_reply, []))])"
  using advances_reachable [of sample_world "[]" _ "[]" 2 sample_outside, OF _ sample_written] sample_writing by simp

lemma sample_cancel_gates:
  "advance sample_outside (sample_cancel, w) = (with_denied [] (cancel_handler sample_deps sample_admin sample_id None), w)"
proof -
  have "split_on (CHR ''-'') sample_id = [''11111111'', ''1111'', ''4111'', ''8111'', ''111111111111'']"
    by (simp add: sample_id_def)
  then have "is_uuid sample_id" by (simp add: is_uuid_def)
  then show ?thesis
    unfolding sample_cancel_def registerSsoChangeRoutes_def adminGate_def
    by (simp add: dispatch_def writeEnabledGate_def storeGate_def sample_admin_def REQUIRED_GROUP_def
      ssoChangeCancelBodySchema_def sample_outside_def)
qed

lemma sample_cancel_get:
  "advance sample_outside (with_denied [] (cancel_handler sample_deps sample_admin sample_id None), sample_opened) =
     (with_denied [] (cancel_active sample_admin None (toRecord sample_open_row)), sample_opened)"
  by (simp add: cancel_handler_def hand_def on_db_def reading_def get_request_def first_record_def select_rows_def
    sample_opened_def lift_res_def ACTIVE_STAGES_def)

definition sample_cancel_event :: new_event where
  "sample_cancel_event = cancel_event sample_admin (toRecord sample_open_row)
     (JObj [(''cancel'', JStr ''requested''), (''by'', JStr (sub sample_admin))])"

definition sample_cancelling :: world where
  "sample_cancelling = \<lparr>w_db = recordEvent sample_cancel_event (w_db sample_opened),
     w_answers = (ByNumber 7, 7) # w_answers sample_opened\<rparr>"

definition sample_closing :: "(reply \<times> denied) prog" where
  "sample_closing = with_denied [] (ClosePr 7 (\<lambda>closed. case closed of
     Inl e \<Rightarrow> close_failed sample_admin (toRecord sample_open_row) e
   | Inr _ \<Rightarrow> cancel_transition sample_admin None (toRecord sample_open_row)))"

lemma sample_cancel_close:
  "((advance sample_outside) ^^ 2) (with_denied [] (cancel_active sample_admin None (toRecord sample_open_row)), sample_opened) =
     (sample_closing, sample_cancelling)"
proof -
  have "prNumber (toRecord sample_open_row) = Some 7" by simp
  moreover have "o_getPr sample_outside n = Inr (Some \<lparr>pr_number = n, pr_url = ''pr7'', pr_state = OpenPr, pr_merged = False,
        pr_mergeCommitSha = None, pr_createdAt = Some 1000000\<rparr>)" for n
    by (simp add: sample_outside_def)
  ultimately show ?thesis
    by (simp add: numeral_2_eq_2 cancel_active_def hand_def on_db_def writing_event_def lift_res_def cancel_close_def
      sample_closing_def sample_cancelling_def answer_def answer_pr_def sample_opened_def sample_cancel_event_def recordEvent_def)
qed

lemma sample_cancel_reachable: "reachable (sample_cancelling, [Handler (Ret (sample_reply, [])), Handler sample_closing])"
proof -
  have "((advance sample_outside) ^^ 4) (sample_cancel, sample_opened) =
      ((advance sample_outside) ^^ 2) (((advance sample_outside) ^^ 2) (sample_cancel, sample_opened))"
    by (simp add: numeral_eq_Suc)
  then have "((advance sample_outside) ^^ 4) (sample_cancel, sample_opened) = (sample_closing, sample_cancelling)"
    using sample_cancel_close by (simp add: numeral_2_eq_2 sample_cancel_gates sample_cancel_get)
  moreover have "reachable (sample_opened, [Handler (Ret (sample_reply, []))] @ Handler sample_cancel # [])"
    using reachable_request [OF sample_now_open] by (simp add: sample_cancel_def)
  ultimately show ?thesis
    using advances_reachable [of sample_opened "[Handler (Ret (sample_reply, []))]" sample_cancel "[]" 4 sample_outside] by simp
qed

end
