(* ===== verification/SsoProperties.thy ===== *)
theory SsoProperties
  imports SsoSample
begin

text \<open>
  The properties of the SSO change-request flow, each followed by its witness on the concrete run of
  \<open>SsoSample\<close>.
\<close>

section \<open>The Manager and GitHub\<close>

text \<open>C2. Fail-closed writes: whatever requests and ticks of any number of replicas are interleaved, whatever GitHub
  answers and wherever the database connection breaks, a thread about to write a change to GitHub writes the SSO
  file, on the branch of a request whose row and \<open>submitted\<close> event are committed.\<close>

theorem github_write_after_commit:
  assumes "reachable (w, ts)" "t \<in> set ts" "next_create t = Some inp"
  shows "cp_path inp = SSO_FILE_PATH \<and>
    (\<exists>row \<in> set (requests (w_db w)). rq_branch row = cp_branch inp \<and>
       (\<exists>e \<in> set (events (w_db w)). ne_requestId e = Some (rq_id row) \<and> ne_stage e = Stage Submitted))"
proof -
  from next_create_good [OF reachable_good [OF assms(1,2)] assms(3)] obtain i
    where "cp_path inp = SSO_FILE_PATH" "holds w (HasRow i (cp_branch inp))" by blast
  then show ?thesis by (auto simp: list_ex_iff logged_def)
qed

theorem github_write_after_commit_witness:
  "cp_path sample_pr = SSO_FILE_PATH \<and>
    (\<exists>row \<in> set (requests (w_db sample_world)). rq_branch row = cp_branch sample_pr \<and>
       (\<exists>e \<in> set (events (w_db sample_world)). ne_requestId e = Some (rq_id row) \<and> ne_stage e = Stage Submitted))"
proof (rule github_write_after_commit [OF sample_writing])
  show "next_create (Handler (with_denied [] (submit_write sample_admin sample_change (toRecord sample_row) sample_pr))) = Some sample_pr"
    by (simp add: submit_write_def next_create_def)
qed simp

text \<open>C4. A pull request is closed only on account of a request: GitHub itself named its number for the branch of
  that request, for the write of that request or for the number recorded with it, and an audited cancel of the
  request is on the log, or the request is failed or rejected.\<close>

theorem close_only_owned:
  assumes "reachable (w, ts)" "t \<in> set ts" "next_close t = Some n"
  shows "\<exists>row \<in> set (requests (w_db w)).
    ((\<exists>e \<in> set (events (w_db w)). ne_requestId e = Some (rq_id row) \<and> is_cancel_request e) \<or> rq_stage row \<in> {Failed, Rejected}) \<and>
    ((ByBranch (rq_branch row), n) \<in> set (w_answers w) \<or> (Created (rq_branch row), n) \<in> set (w_answers w) \<or>
     (\<exists>m. (ByNumber m, n) \<in> set (w_answers w) \<and> (\<exists>e \<in> set (events (w_db w)). ne_requestId e = Some (rq_id row) \<and> ne_prNumber e = Some m)))"
proof -
  from next_close_good [OF reachable_good [OF assms(1,2)] assms(3)] obtain i b
    where f: "holds w (HasRow i b)" "holds w (Audited i) \<or> holds w (Ended i)"
      "holds w (Answered (ByBranch b) n) \<or> holds w (Answered (Created b) n) \<or> (\<exists>m. holds w (RowPr i m) \<and> holds w (Answered (ByNumber m) n))"
    by blast
  from f(1) obtain row where row: "row \<in> set (requests (w_db w))" "rq_id row = i" "rq_branch row = b"
    by (auto simp: list_ex_iff)
  have inv: "db_inv (w_db w)" using reachable_inv [OF assms(1)] by (simp add: world_inv_def)
  have "rq_stage row \<in> {Failed, Rejected}" if "holds w (Ended i)"
    using that row_by_id [OF inv _ row(1)] row(2) by (auto simp: list_ex_iff)
  then show ?thesis using row f(2,3) by (intro bexI [OF _ row(1)]) (auto simp: logged_def list_ex_iff)
qed

theorem close_only_owned_witness:
  "\<exists>row \<in> set (requests (w_db sample_cancelling)).
    ((\<exists>e \<in> set (events (w_db sample_cancelling)). ne_requestId e = Some (rq_id row) \<and> is_cancel_request e) \<or> rq_stage row \<in> {Failed, Rejected}) \<and>
    ((ByBranch (rq_branch row), 7) \<in> set (w_answers sample_cancelling) \<or> (Created (rq_branch row), 7) \<in> set (w_answers sample_cancelling) \<or>
     (\<exists>m. (ByNumber m, 7) \<in> set (w_answers sample_cancelling) \<and>
       (\<exists>e \<in> set (events (w_db sample_cancelling)). ne_requestId e = Some (rq_id row) \<and> ne_prNumber e = Some m)))"
  by (rule close_only_owned [OF sample_cancel_reachable, of "Handler sample_closing"])
    (simp_all add: next_close_def sample_closing_def)

text \<open>C6. The life cycle: no step of the system removes a request or changes what was asked for; a stage changes only
  along \<open>submitted, unknown_recovering \<rightarrow> pr_open \<rightarrow> merged \<rightarrow> applied\<close> with the failure and recovery edges of the
  design, an applied, rejected or failed request never changes again, and the audit log only grows.\<close>

theorem lifecycle_respected:
  assumes "reachable c" "manager_step c c'" "row \<in> set (requests (w_db (fst c)))"
  shows "(\<exists>row' \<in> set (requests (w_db (fst c'))). same_request row row' \<and>
      (row' = row \<or> (rq_stage row, rq_stage row') \<in>
        {(Submitted, Submitted), (Submitted, PrOpen), (Submitted, UnknownRecovering), (Submitted, Failed),
         (UnknownRecovering, Submitted), (UnknownRecovering, PrOpen), (UnknownRecovering, Failed),
         (PrOpen, Merged), (PrOpen, Rejected), (PrOpen, Failed), (Merged, Applied)}))
    \<and> (\<exists>new. events (w_db (fst c')) = events (w_db (fst c)) @ new)"
proof -
  have step: "db_step lifecycle (w_db (fst c)) (w_db (fst c'))"
    using reachable_world_step [OF assms(1,2)] by (simp add: world_step_def)
  have edges: "lifecycle s t \<Longrightarrow> (s, t) \<in> {(Submitted, Submitted), (Submitted, PrOpen), (Submitted, UnknownRecovering), (Submitted, Failed),
         (UnknownRecovering, Submitted), (UnknownRecovering, PrOpen), (UnknownRecovering, Failed),
         (PrOpen, Merged), (PrOpen, Rejected), (PrOpen, Failed), (Merged, Applied)}" for s t
    by (cases s) auto
  from db_step_row [OF step assms(3)] obtain row' where "row' \<in> set (requests (w_db (fst c')))" "same_request row row'"
    "row' = row \<or> lifecycle (rq_stage row) (rq_stage row')" by blast
  then show ?thesis using edges db_step_events [OF step] by blast
qed

theorem lifecycle_respected_witness:
  "(\<exists>row' \<in> set (requests (w_db sample_world)). same_request sample_row row' \<and>
      (row' = sample_row \<or> (rq_stage sample_row, rq_stage row') \<in>
        {(Submitted, Submitted), (Submitted, PrOpen), (Submitted, UnknownRecovering), (Submitted, Failed),
         (UnknownRecovering, Submitted), (UnknownRecovering, PrOpen), (UnknownRecovering, Failed),
         (PrOpen, Merged), (PrOpen, Rejected), (PrOpen, Failed), (Merged, Applied)}))
    \<and> (\<exists>new. events (w_db sample_world) = events (w_db sample_world) @ new)"
proof -
  let ?c = "(sample_world, [Handler (with_denied [] (submit_write sample_admin sample_change (toRecord sample_row) sample_pr))])"
  have "manager_step ?c (fst ?c, snd ?c @ [Handler sample_submit])"
    unfolding manager_step_def sample_submit_def prod.sel by (intro sys_step.spawn started.request)
  from lifecycle_respected [OF sample_writing this, of sample_row] show ?thesis by (simp add: sample_world_def)
qed

text \<open>C9. In every reachable state the ids, idempotency keys and branches of the requests are unique, at most one
  request per file is active, and the submission, the current stage and the pull request number of every request
  are on the audit log.\<close>

theorem requests_consistent:
  assumes "reachable (w, ts)"
  shows "distinct (map rq_id (requests (w_db w))) \<and> distinct (map rq_idempotency_key (requests (w_db w)))
    \<and> distinct (map rq_branch (requests (w_db w))) \<and> one_active_per_file (w_db w) \<and> audited (w_db w)"
  using reachable_inv [OF assms] by (simp add: world_inv_def db_inv_def)

theorem requests_consistent_witness:
  "distinct (map rq_id (requests (w_db sample_opened))) \<and> distinct (map rq_idempotency_key (requests (w_db sample_opened)))
    \<and> distinct (map rq_branch (requests (w_db sample_opened))) \<and> one_active_per_file (w_db sample_opened) \<and> audited (w_db sample_opened)"
  by (rule requests_consistent [OF sample_now_open])

text \<open>C28. Idempotency: once a key has a request, every later submit with that key, after any further steps of the
  system, writes nothing and returns that same request when the payload is the same, and \<open>IDEMPOTENCY_MISMATCH\<close>
  when it is not.\<close>

theorem submit_idempotent:
  assumes "reachable (w, ts)" "manager_step\<^sup>*\<^sup>* (w, ts) (w', ts')" "row \<in> set (requests (w_db w))"
    "si_idempotencyKey inp = rq_idempotency_key row"
  shows "\<exists>row' \<in> set (requests (w_db w')). same_request row row' \<and>
    submit now u inp (w_db w') =
      (if si_payloadSha256 inp = rq_payload_sha256 row then Inr (toRecord row', True) else Inl IDEMPOTENCY_MISMATCH, w_db w')"
proof -
  have "\<exists>row' \<in> set (requests (w_db (fst c))). same_request row row'" if "manager_step\<^sup>*\<^sup>* (w, ts) c" for c
    using that
  proof induction
    case base
    then show ?case using assms(3) by (auto intro: bexI [of _ row])
  next
    case (step c c')
    have "reachable c" using assms(1) step(1) unfolding reachable_def by (rule rtranclp_trans)
    from reachable_world_step [OF this step(2)] have "db_step lifecycle (w_db (fst c)) (w_db (fst c'))" by (simp add: world_step_def)
    with db_step_row step.IH show ?case by (fastforce simp: same_request_def)
  qed
  from this [OF assms(2)] obtain row' where row': "row' \<in> set (requests (w_db w'))" "same_request row row'" by auto
  have "reachable (w', ts')" using assms(1,2) unfolding reachable_def by (rule rtranclp_trans)
  then have "db_inv (w_db w')" using reachable_inv world_inv_def by blast
  from submit_replay_iff [OF this row'(1), of inp now u] row' assms(4) show ?thesis
    by (intro bexI [of _ row']) (auto simp: same_request_def)
qed

theorem submit_idempotent_witness:
  "\<exists>row' \<in> set (requests (w_db sample_world)). same_request sample_row row' \<and>
    submit 5 ''u2'' sample_input (w_db sample_world) =
      (if si_payloadSha256 sample_input = rq_payload_sha256 sample_row then Inr (toRecord row', True) else Inl IDEMPOTENCY_MISMATCH,
       w_db sample_world)"
  by (rule submit_idempotent [OF sample_writing rtranclp.rtrancl_refl]) (simp_all add: sample_world_def sample_row_def)

section \<open>The store\<close>

text \<open>C8. Compare-and-set: a transition changes the one request whose id, stage and, when given, version it names, and
  appends one event; with no such request it answers \<open>undefined\<close> and writes neither.\<close>

theorem transition_compare_and_set:
  assumes "db_inv d"
  shows "(case transition now i expected stage flds ev v d of
      (Inr (Some c), d') \<Rightarrow> \<exists>row pre post. requests d = pre @ row # post \<and> rq_id row = i \<and> rq_stage row = expected
        \<and> (\<forall>t. v = Some t \<longrightarrow> rq_updated_at row = t) \<and> c = toRecord (updated_row now stage flds row)
        \<and> requests d' = pre @ updated_row now stage flds row # post
        \<and> events d' = events d @ [moved_event stage ev (updated_row now stage flds row)]
    | (Inr None, d') \<Rightarrow> d' = d \<and> (\<forall>row \<in> set (requests d). rq_id row = i \<longrightarrow> rq_stage row \<noteq> expected \<or> (\<exists>t. v = Some t \<and> rq_updated_at row \<noteq> t))
    | (Inl e, d') \<Rightarrow> d' = d \<and> e = UNAVAILABLE \<and> is_active stage)"
  using assms
proof (cases rule: transition_cases [where i = i and expected = expected and v = v and now = now and stage = stage
      and flds = flds and ev = ev])
  case lost
  then show ?thesis by (auto simp: cas_matches_def split: option.splits)
next
  case (moved row pre post)
  show ?thesis
    unfolding moved(4) prod.case sum.case option.case
    by (rule exI [of _ row], rule exI [of _ pre], rule exI [of _ post])
      (use moved(1,2) in \<open>auto simp: cas_matches_def split: option.splits\<close>)
qed auto

theorem transition_compare_and_set_witness:
  "(case transition 3 sample_id Submitted Failed no_fields no_event (Some 2) (w_db sample_world) of
      (Inr (Some c), d') \<Rightarrow> \<exists>row pre post. requests (w_db sample_world) = pre @ row # post \<and> rq_id row = sample_id \<and> rq_stage row = Submitted
        \<and> (\<forall>t. Some (2 :: nat) = Some t \<longrightarrow> rq_updated_at row = t) \<and> c = toRecord (updated_row 3 Failed no_fields row)
        \<and> requests d' = pre @ updated_row 3 Failed no_fields row # post
        \<and> events d' = events (w_db sample_world) @ [moved_event Failed no_event (updated_row 3 Failed no_fields row)]
    | (Inr None, d') \<Rightarrow> d' = w_db sample_world \<and> (\<forall>row \<in> set (requests (w_db sample_world)). rq_id row = sample_id \<longrightarrow>
        rq_stage row \<noteq> Submitted \<or> (\<exists>t. Some (2 :: nat) = Some t \<and> rq_updated_at row \<noteq> t))
    | (Inl e, d') \<Rightarrow> d' = w_db sample_world \<and> e = UNAVAILABLE \<and> is_active Failed)"
proof (rule transition_compare_and_set)
  show "db_inv (w_db sample_world)" using reachable_inv [OF sample_writing] by (simp add: world_inv_def)
qed

section \<open>The reconciler\<close>

text \<open>C24. The reconciler implements the design: looking at a request of a database that answers, it leaves the request in
  the stage that \<open>next_stage\<close> gives from what GitHub and ArgoCD say, for every stage and every answer, exceptions
  included.\<close>

theorem reconcile_refines:
  assumes "db_inv (w_db w)" "row \<in> set (requests (w_db w))"
  shows "\<exists>row' \<in> set (requests (w_db (snd (run orc (reconcile x baseDomain has_argocd (toRecord row) (\<lambda>_. Ret ())) w)))).
    rq_id row' = rq_id row \<and> rq_stage row' = next_stage x baseDomain has_argocd orc (toRecord row)"
  using run_reconcile_reached [of w row orc x baseDomain has_argocd] assms unfolding reached_def row_in_def by blast

theorem reconcile_refines_witness:
  "\<exists>row' \<in> set (requests (w_db (snd (run sample_outside (reconcile sample_ext ''local.beluga.internal'' True (toRecord sample_open_row) (\<lambda>_. Ret ())) sample_opened)))).
    rq_id row' = rq_id sample_open_row \<and>
    rq_stage row' = next_stage sample_ext ''local.beluga.internal'' True sample_outside (toRecord sample_open_row)"
proof (rule reconcile_refines)
  show "db_inv (w_db sample_opened)" using reachable_inv [OF sample_now_open] by (simp add: world_inv_def)
qed (simp add: sample_opened_def)

section \<open>The routes\<close>

text \<open>C35. Every request is answered after at most nine awaited calls, whatever they answer.\<close>

theorem routes_terminate: "calls_at_most (registerSsoChangeRoutes x dp deniedAt p method path req) 9"
  by (rule calls_routes)

text \<open>Deny by default: for a caller without the group \<open>admins\<close>, or without an identity, no route reads or changes
  a request or calls GitHub: every sequence of steps leaves the requests as they are, appends nothing but
  \<open>denied\<close> events, and can only end with 401 or 403.\<close>

lemma deny_by_default:
  assumes "\<And>pr. p = Some pr \<Longrightarrow> ''admins'' \<notin> set (p_groups pr)"
    and "prog_pair_step\<^sup>*\<^sup>* (registerSsoChangeRoutes x dp deniedAt p method path req, w) (q, w')"
  shows "requests (w_db w') = requests (w_db w) \<and> w_answers w' = w_answers w
    \<and> (\<exists>new. events (w_db w') = events (w_db w) @ new \<and> (\<forall>e \<in> set new. ne_stage e = Denied))
    \<and> (\<forall>reply m. q = Ret (reply, m) \<longrightarrow> (\<exists>msg. reply = Failure 401 ''UNAUTHENTICATED'' msg \<or> reply = Failure 403 ''FORBIDDEN'' msg))"
  using denied_steps [OF assms(2) denied_start [OF assms(1)]] by (auto simp: denied_config_def denied_stage_def is_refusal_def)

text \<open>The table of denied subjects stays bounded, and one subject gets a new audit row only after the interval since
  its last one.\<close>

lemma denied_audit_throttled:
  assumes "length deniedAt \<le> DENIED_AUDIT_MAX_SUBJECTS" "auditDenied now s deniedAt = (due, deniedAt')"
  shows "length deniedAt' \<le> DENIED_AUDIT_MAX_SUBJECTS
    \<and> (due \<longrightarrow> map_of deniedAt' s = Some now \<and> (\<forall>t. map_of deniedAt s = Some t \<longrightarrow> t + 10000 \<le> now))
    \<and> (\<not> due \<longrightarrow> deniedAt' = deniedAt)"
proof -
  have upd: "length (AList.update s now m) \<le> Suc (length m)" for m :: denied
    by (induction m) auto
  show ?thesis
    using assms upd [of deniedAt]
    by (auto simp: auditDenied_def DENIED_AUDIT_MAX_SUBJECTS_def DENIED_AUDIT_INTERVAL_MS_def AList.update_conv'
      split: if_splits option.splits)
qed

section \<open>The edit\<close>

text \<open>C36. Minimal edit, without trust in the YAML package: whatever its parser and printer do, a change that
  \<open>buildChange\<close> returns is a text that parses to the base file with the \<open>allowedGroups\<close> of the one editable endpoint
  replaced and nothing else, that satisfies the SSO rules, and that is an effective change.\<close>

theorem buildChange_minimal:
  assumes "buildChange x baseText baseDomain known p = Inr bc"
  shows "\<exists>baseObj base ep edited c.
    x_toJS x (x_parseDocument x baseText) = Some baseObj \<and> rawSsoFileSchema (x_parse_url x) baseObj = Some base
    \<and> find (\<lambda>e. ep_name e = p_endpoint p) (raw_endpoints base) = Some ep \<and> p_endpoint p \<in> set EDITABLE_ENDPOINTS
    \<and> x_parse x (editedText bc) = Some edited
    \<and> rawSsoFileSchema (x_parse_url x) edited = Some (set_groups (p_endpoint p) (bc_after bc) base)
    \<and> resolveSsoFile (x_parse_url x) edited baseDomain = Inr c
    \<and> p_allowedGroups p = map JStr (bc_after bc) \<and> distinct (bc_after bc) \<and> ''admins'' \<in> set (bc_after bc)
    \<and> set (bc_after bc) \<subseteq> set known
    \<and> (\<forall>b. allowedGroups ep = Some b \<longrightarrow> distinct b \<longrightarrow> set b \<noteq> set (bc_after bc))"
proof -
  from buildChange_Inr [OF assms] obtain baseObj base ep doc' where
    patch: "patch_ok known (p_endpoint p) (bc_after bc)" "p_allowedGroups p = map JStr (bc_after bc)"
    and base: "x_toJS x (x_parseDocument x baseText) = Some baseObj" "rawSsoFileSchema (x_parse_url x) baseObj = Some base"
      "find (\<lambda>e. ep_name e = p_endpoint p) (raw_endpoints base) = Some ep"
    and effective: "bc_before bc = allowedGroups ep" "\<forall>b. bc_before bc = Some b \<longrightarrow> \<not> sameSet b (bc_after bc)"
    and edited: "check_edited x baseDomain (p_endpoint p) (bc_after bc) base (editedText bc) = Inr ()"
    by blast
  from check_edited_Inr [OF edited] obtain j c where j: "x_parse x (editedText bc) = Some j"
    "rawSsoFileSchema (x_parse_url x) j = Some (set_groups (p_endpoint p) (bc_after bc) base)"
    "resolveSsoFile (x_parse_url x) j baseDomain = Inr c" by blast
  have new: "set b \<noteq> set (bc_after bc)" if "allowedGroups ep = Some b" "distinct b" for b
    using effective that sameSet_iff [OF that(2), of "bc_after bc"] patch(1) by (auto simp: patch_ok_def)
  show ?thesis
    by (rule exI [of _ baseObj], rule exI [of _ base], rule exI [of _ ep], rule exI [of _ j], rule exI [of _ c])
      (use patch base j new in \<open>auto simp: patch_ok_def REQUIRED_GROUP_def list_all_iff\<close>)
qed

theorem buildChange_minimal_witness:
  "\<exists>baseObj base ep edited c.
    x_toJS sample_ext (x_parseDocument sample_ext BASE) = Some baseObj \<and> rawSsoFileSchema (x_parse_url sample_ext) baseObj = Some base
    \<and> find (\<lambda>e. ep_name e = p_endpoint sample_patch) (raw_endpoints base) = Some ep \<and> p_endpoint sample_patch \<in> set EDITABLE_ENDPOINTS
    \<and> x_parse sample_ext (editedText sample_change) = Some edited
    \<and> rawSsoFileSchema (x_parse_url sample_ext) edited = Some (set_groups (p_endpoint sample_patch) (bc_after sample_change) base)
    \<and> resolveSsoFile (x_parse_url sample_ext) edited ''local.beluga.internal'' = Inr c
    \<and> p_allowedGroups sample_patch = map JStr (bc_after sample_change) \<and> distinct (bc_after sample_change) \<and> ''admins'' \<in> set (bc_after sample_change)
    \<and> set (bc_after sample_change) \<subseteq> set sample_groups
    \<and> (\<forall>b. allowedGroups ep = Some b \<longrightarrow> distinct b \<longrightarrow> set b \<noteq> set (bc_after sample_change))"
  by (rule buildChange_minimal [OF sample_built])

text \<open>Exactly the patches of the contract pass validation: an editable endpoint, a list of known group names without
  duplicates that keeps \<open>admins\<close>.\<close>

lemma validatePatch_exact:
  "validatePatch p known = Inr gs \<longleftrightarrow>
     p_endpoint p \<in> {''flink'', ''filer''} \<and> p_allowedGroups p = map JStr gs \<and> distinct gs \<and> ''admins'' \<in> set gs
     \<and> (\<forall>g \<in> set gs. g \<in> set known \<and> allowedGroupSchema g)"
  by (auto simp: validatePatch_Inr_iff patch_ok_def EDITABLE_ENDPOINTS_def REQUIRED_GROUP_def list_all_iff)

text \<open>The identity of a payload: two patches of group names have the same canonical JSON only if they name the same
  endpoint and the same groups in the same order.\<close>

lemma payload_identity:
  "payload_text e (map JStr gs) = payload_text e' (map JStr gs') \<longleftrightarrow> e = e' \<and> gs = gs'"
  using payload_text_inject by blast

section \<open>The declared state\<close>

text \<open>C37. Normal form: what \<open>resolveSsoFile\<close> returns, from either form of the file, is a configuration whose hosts are
  qualified and whose endpoints have distinct names and obey the rules, and printing it as a file of the FQDN form
  resolves to the same configuration.\<close>

theorem resolve_roundtrip:
  assumes "resolveSsoFile parse_url j baseDomain = Inr c"
  shows "resolveSsoFile parse_url (config_json c) baseDomain = Inr c
    \<and> (\<forall>ep \<in> set (endpoints c). dotted (ep_host ep) \<and> isValidDnsName (ep_host ep) \<and> endpoint_rules ep)
    \<and> distinct (map ep_name (endpoints c))"
proof -
  from assms have c: "ssoConfigSchema parse_url c" "isValidDnsName baseDomain" "dotted baseDomain"
    by (auto simp: resolveSsoFile_Inr_iff)
  from config_roundtrip [OF c(1) resolved_dotted [OF assms] c(2,3)] resolved_dotted [OF assms] c(1) show ?thesis
    by (auto simp: ssoConfigSchema_def list_all_iff ssoEndpointSchema_def endpoint_issues_Nil_iff dnsHostSchema_def duplicate_issues_Nil_iff)
qed

theorem resolve_roundtrip_witness:
  "resolveSsoFile sample_url (config_json sample_config) ''local.beluga.internal'' = Inr sample_config
    \<and> list_all (\<lambda>ep. dotted (ep_host ep) \<and> isValidDnsName (ep_host ep) \<and> endpoint_rules ep) (endpoints sample_config)
    \<and> distinct (map ep_name (endpoints sample_config))"
  using resolve_roundtrip [OF sample_resolved] unfolding list_all_iff .

text \<open>The file cache is transparent: as long as the content of the file is a function of its modification time, a
  cached answer carries the configuration that loading the file now would give.\<close>

lemma config_cache_transparent:
  assumes "cache_inv x cfg content c" "ac_filePath cfg = Some fp"
    "\<And>m. fs_mtimeMs f fp = Some m \<Longrightarrow> fs_read f fp = Some (content m)"
  shows "answer_config (fst (getSsoConfig x f now cfg c)) = answer_config (fst (getSsoConfig x f now cfg no_cache))
    \<and> cache_inv x cfg content (snd (getSsoConfig x f now cfg c))"
  using getSsoConfig_cached [OF assms] by blast

section \<open>Texts\<close>

text \<open>A commit message has exactly three lines, the subject, an empty line and one \<open>Requested-by\<close> trailer, whatever
  the user name and subject contain, and the trailer has no control character.\<close>

lemma commit_one_trailer:
  assumes "CHR 0x0A \<notin> set endpoint"
  shows "split_on (CHR 0x0A) (commitMessage endpoint user subject) =
    [''chore(sso): '' @ endpoint @ '' allowedGroups via Manager'', '''',
     ''Requested-by: '' @ oneLine (or_unknown user) @ '' ('' @ oneLine subject @ '')'']
    \<and> (\<forall>c \<in> set (oneLine (or_unknown user)) \<union> set (oneLine subject). 32 \<le> (of_char c :: nat) \<and> (of_char c :: nat) \<noteq> 127)"
  using commitMessage_lines [OF assms] oneLine_no_control by blast

lemma commit_one_trailer_witness:
  "split_on (CHR 0x0A) (commitMessage ''flink'' (Some (''eve'' @ [CHR 0x0A] @ ''Signed-off-by: bob'')) ''s'') =
    [''chore(sso): '' @ ''flink'' @ '' allowedGroups via Manager'', '''',
     ''Requested-by: '' @ oneLine (or_unknown (Some (''eve'' @ [CHR 0x0A] @ ''Signed-off-by: bob''))) @ '' ('' @ oneLine ''s'' @ '')'']"
proof -
  have "CHR 0x0A \<notin> set ''flink''" by simp
  from commit_one_trailer [OF this] show ?thesis by blast
qed

text \<open>User text in a pull request stays inert: every Markdown character of a requester name is escaped and reads back as
  the name, on one line, and the reason has no backtick that could close its code block.\<close>

lemma pr_text_inert:
  "md_plain (escapeMarkdown s) \<and> md_text (escapeMarkdown s) = oneLine s \<and> CHR 0x0A \<notin> set (escapeMarkdown s)
    \<and> CHR 0x60 \<notin> set (fence_reason r)"
  using md_escaped [of "oneLine s"] newline_notin_escape no_backtick_reason by (simp add: escapeMarkdown_def)

end
