(* ===== verification/JsText.thy ===== *)
theory JsText
  imports Prelude
begin

text \<open>
  String functions of JavaScript that the HTTP clients and the configuration use, on UTF-8 bytes:
  \<open>encodeURIComponent\<close>, \<open>includes\<close>, \<open>trim\<close> and stripping at the ends.
\<close>

definition unreserved :: "char \<Rightarrow> bool" where
  "unreserved c \<longleftrightarrow> is_alpha c \<or> is_digit c \<or> c \<in> set ''-_.!~*()'' \<or> c = CHR 0x27"

definition hex_digit :: "nat \<Rightarrow> char" where
  "hex_digit n = ''0123456789ABCDEF'' ! n"

definition encodeURIComponent :: "string \<Rightarrow> string" where
  "encodeURIComponent s = concat (map (\<lambda>c. if unreserved c then [c]
     else [CHR ''%'', hex_digit (of_char c div 16), hex_digit (of_char c mod 16)]) s)"

text \<open>\<open>path.split("/").map(encodeURIComponent).join("/")\<close>\<close>

definition encode_path :: "string \<Rightarrow> string" where
  "encode_path p = join ''/'' (map encodeURIComponent (split_on (CHR ''/'') p))"

definition is_prefix :: "string \<Rightarrow> string \<Rightarrow> bool" where
  "is_prefix p s \<longleftrightarrow> take (length p) s = p"

lemma is_prefix_simps:
  "is_prefix [] s" "\<not> is_prefix (a # p) []" "is_prefix (a # p) (c # s) \<longleftrightarrow> a = c \<and> is_prefix p s"
  by (auto simp: is_prefix_def)

lemma is_prefix_append: "is_prefix p (p @ s)"
  by (simp add: is_prefix_def)

fun contains :: "string \<Rightarrow> string \<Rightarrow> bool" where
  "contains p [] = (p = [])"
| "contains p (c # s) = (is_prefix p (c # s) \<or> contains p s)"

lemma contains_iff: "contains p s \<longleftrightarrow> (\<exists>u v. s = u @ p @ v)"
proof (induction s)
  case (Cons c s)
  have "is_prefix p (c # s) \<longleftrightarrow> (\<exists>v. c # s = p @ v)"
    unfolding is_prefix_def by (metis append_eq_conv_conj append_take_drop_id)
  moreover have "(\<exists>u v. c # s = u @ p @ v) \<longleftrightarrow> (\<exists>v. c # s = p @ v) \<or> (\<exists>u v. s = u @ p @ v)"
  proof
    assume "\<exists>u v. c # s = u @ p @ v"
    then obtain u v where "c # s = u @ p @ v" by blast
    then show "(\<exists>v. c # s = p @ v) \<or> (\<exists>u v. s = u @ p @ v)" by (cases u) auto
  next
    assume "(\<exists>v. c # s = p @ v) \<or> (\<exists>u v. s = u @ p @ v)"
    then show "\<exists>u v. c # s = u @ p @ v" by (metis append_Cons append_Nil)
  qed
  ultimately show ?case using Cons.IH by simp
qed auto

text \<open>\<open>s.trim()\<close>: the white space of JavaScript, as UTF-8 sequences.\<close>

definition js_spaces :: "string list" where
  "js_spaces = [[CHR 0x09], [CHR 0x0A], [CHR 0x0B], [CHR 0x0C], [CHR 0x0D], [CHR 0x20], [CHR 0xC2, CHR 0xA0],
     [CHR 0xE1, CHR 0x9A, CHR 0x80], [CHR 0xE2, CHR 0x80, CHR 0xA8], [CHR 0xE2, CHR 0x80, CHR 0xA9],
     [CHR 0xE2, CHR 0x80, CHR 0xAF], [CHR 0xE2, CHR 0x81, CHR 0x9F], [CHR 0xE3, CHR 0x80, CHR 0x80],
     [CHR 0xEF, CHR 0xBB, CHR 0xBF]] @ map (\<lambda>n. [CHR 0xE2, CHR 0x80, char_of (0x80 + n)]) [0..<11]"

function strip_start :: "string list \<Rightarrow> string \<Rightarrow> string" where
  "strip_start ws s = (case find (\<lambda>w. w \<noteq> [] \<and> is_prefix w s) ws of None \<Rightarrow> s | Some w \<Rightarrow> strip_start ws (drop (length w) s))"
  by pat_completeness auto
termination
proof (relation "measure (\<lambda>(ws, s). length s)")
  fix ws :: "string list" and s w
  assume "find (\<lambda>w. w \<noteq> [] \<and> is_prefix w s) ws = Some w"
  then have "w \<noteq> []" "is_prefix w s" by (auto simp: find_Some_iff)
  then have "s \<noteq> []" by (auto simp: is_prefix_def)
  with \<open>w \<noteq> []\<close> show "((ws, drop (length w) s), (ws, s)) \<in> measure (\<lambda>(ws, s). length s)" by simp
qed simp

declare strip_start.simps [simp del]

definition js_trim :: "string \<Rightarrow> string" where
  "js_trim s = rev (strip_start (map rev js_spaces) (rev (strip_start js_spaces s)))"

text \<open>\<open>s.replaceAll(p, r)\<close> for a non-empty \<open>p\<close>: occurrences from the left, not overlapping.\<close>

function replaceAll :: "string \<Rightarrow> string \<Rightarrow> string \<Rightarrow> string" where
  "replaceAll p r [] = []"
| "replaceAll p r (c # s) =
     (if p \<noteq> [] \<and> is_prefix p (c # s) then r @ replaceAll p r (drop (length p) (c # s)) else c # replaceAll p r s)"
  by pat_completeness auto
termination by (relation "measure (\<lambda>(p, r, s). length s)") auto

lemma replaceAll_char: "replaceAll [d] r s = concat (map (\<lambda>c. if c = d then r else [c]) s)"
  by (induction s) (auto simp: is_prefix_def)

text \<open>Bearer tokens: \<open>[A-Za-z0-9\-._~+/]+=*\<close>.\<close>

definition token_char :: "char \<Rightarrow> bool" where
  "token_char c \<longleftrightarrow> is_alpha c \<or> is_digit c \<or> c \<in> set ''-._~+/''"

definition token_shape :: "string \<Rightarrow> bool" where
  "token_shape s \<longleftrightarrow> takeWhile token_char s \<noteq> [] \<and> list_all (\<lambda>c. c = CHR ''='') (dropWhile token_char s)"

end
