(* ===== verification/Http.thy ===== *)
theory Http
  imports Complex_Main JsText Interleaving
begin

text \<open>
  Asynchronous methods of an object that talks to a service over HTTP (\<open>domain-api/src/sso-change/githubApp.ts\<close>,
  \<open>domain-api/src/adapters/sso/githubSsoAdapter.ts\<close>).

  A method is a tree. \<open>Sync\<close> is a piece of code between two awaits: it reads the clock, reads and updates the fields
  of the object, and goes on. \<open>Fetch\<close> is one awaited \<open>fetch\<close>, with its answer. \<open>Join\<close> is
  \<open>this.inflight ??= f()\<close>: with \<open>Some r\<close> another call was in flight and its outcome \<open>r\<close> is awaited, with
  \<open>None\<close> the call is made here, and \<open>Deliver\<close> resolves the shared promise.

  Times are milliseconds; JavaScript numbers in time arithmetic are rationals.
\<close>

section \<open>Messages\<close>

type_synonym ms = rat

text \<open>\<open>h_at\<close> is the clock value the time-out was computed from.\<close>

record http_request =
  h_method :: string
  h_url :: string
  h_headers :: "(string \<times> string) list"
  h_body :: "json option"
  h_at :: ms
  h_timeoutMs :: ms

text \<open>\<open>s_text\<close> is what the body delivers; with \<open>s_broken\<close> reading it fails after that.\<close>

record http_response =
  s_status :: nat
  s_headers :: "(string \<times> string) list"
  s_text :: string
  s_broken :: bool

datatype fetch_result = TimedOut | Unreachable | Response http_response

text \<open>Run-time functions that are not part of the sources: \<open>JSON.parse\<close>, \<open>Number\<close> of a header text, \<open>Date.parse\<close>
  (\<open>None\<close> for \<open>NaN\<close>), base64 of \<open>Buffer\<close>, the RSA signature.\<close>

datatype js_num = Finite rat | PosInf | NegInf | NaN

record net =
  n_json_parse :: "string \<Rightarrow> json option"
  n_number :: "string \<Rightarrow> js_num"
  n_date_parse :: "string \<Rightarrow> rat option"
  n_base64 :: "string \<Rightarrow> string"
  n_unbase64 :: "string \<Rightarrow> string"
  n_base64url :: "string \<Rightarrow> string"
  n_sign :: "string \<Rightarrow> string"

definition header :: "http_response \<Rightarrow> string \<Rightarrow> string option" where
  "header res k = map_of (s_headers res) k"

text \<open>\<open>Number(res.headers.get(k))\<close>: \<open>Number(null)\<close> is 0.\<close>

definition header_number :: "net \<Rightarrow> http_response \<Rightarrow> string \<Rightarrow> js_num" where
  "header_number n res k = (case header res k of None \<Rightarrow> Finite 0 | Some v \<Rightarrow> n_number n v)"

definition exceeds :: "js_num \<Rightarrow> nat \<Rightarrow> bool" where
  "exceeds x m \<longleftrightarrow> (case x of Finite r \<Rightarrow> of_nat m < r | PosInf \<Rightarrow> True | _ \<Rightarrow> False)"

text \<open>\<open>Number.isFinite(x) && x > 0\<close>, with the value.\<close>

definition positive :: "js_num \<Rightarrow> rat option" where
  "positive x = (case x of Finite r \<Rightarrow> if 0 < r then Some r else None | _ \<Rightarrow> None)"

definition rate_limited :: "http_response \<Rightarrow> bool" where
  "rate_limited res \<longleftrightarrow> s_status res = 429 \<or> s_status res = 403 \<and> header res ''x-ratelimit-remaining'' = Some ''0''"

section \<open>Methods\<close>

datatype ('s, 'j, 'a) io =
    Done 'a
  | Sync "ms \<Rightarrow> 's \<Rightarrow> 's" "ms \<Rightarrow> 's \<Rightarrow> ('s, 'j, 'a) io"
  | Fetch http_request "fetch_result \<Rightarrow> ('s, 'j, 'a) io"
  | Join "'j option \<Rightarrow> ('s, 'j, 'a) io"
  | Deliver 'j "('s, 'j, 'a) io"

lemma io_induct [case_names Done Sync Fetch Join Deliver]:
  assumes "\<And>a. P (Done a)" "\<And>u k. (\<And>t s. P (k t s)) \<Longrightarrow> P (Sync u k)" "\<And>q k. (\<And>a. P (k a)) \<Longrightarrow> P (Fetch q k)"
    "\<And>k. (\<And>r. P (k r)) \<Longrightarrow> P (Join k)" "\<And>j p. P p \<Longrightarrow> P (Deliver j p)"
  shows "P p"
proof (induction p rule: io.induct)
  case (Sync u k)
  show ?case by (rule assms(2), rule Sync [OF rangeI rangeI])
next
  case (Fetch q k)
  show ?case by (rule assms(3), rule Fetch [OF rangeI])
next
  case (Join k)
  show ?case by (rule assms(4), rule Join [OF rangeI])
qed (simp_all add: assms(1,5))

primrec io_bind :: "('s, 'j, 'a) io \<Rightarrow> ('a \<Rightarrow> ('s, 'j, 'b) io) \<Rightarrow> ('s, 'j, 'b) io" where
  "io_bind (Done a) f = f a"
| "io_bind (Sync u k) f = Sync u (\<lambda>t s. io_bind (k t s) f)"
| "io_bind (Fetch q k) f = Fetch q (\<lambda>a. io_bind (k a) f)"
| "io_bind (Join k) f = Join (\<lambda>r. io_bind (k r) f)"
| "io_bind (Deliver j p) f = Deliver j (io_bind p f)"

text \<open>Sequencing of methods that may throw.\<close>

definition io_try :: "('s, 'j, ('e, 'a) res) io \<Rightarrow> ('a \<Rightarrow> ('s, 'j, ('e, 'b) res) io) \<Rightarrow> ('s, 'j, ('e, 'b) res) io" where
  "io_try p f = io_bind p (\<lambda>r. case r of Inl e \<Rightarrow> Done (Inl e) | Inr a \<Rightarrow> f a)"

definition throw :: "'e \<Rightarrow> ('s, 'j, ('e, 'a) res) io" where
  "throw e = Done (Inl e)"

definition give :: "'a \<Rightarrow> ('s, 'j, ('e, 'a) res) io" where
  "give a = Done (Inr a)"

definition clock :: "(ms \<Rightarrow> ('s, 'j, 'a) io) \<Rightarrow> ('s, 'j, 'a) io" where
  "clock k = Sync (\<lambda>_ s. s) (\<lambda>t _. k t)"

definition look :: "(ms \<Rightarrow> 's \<Rightarrow> ('s, 'j, 'a) io) \<Rightarrow> ('s, 'j, 'a) io" where
  "look k = Sync (\<lambda>_ s. s) k"

definition modify :: "(ms \<Rightarrow> 's \<Rightarrow> 's) \<Rightarrow> ('s, 'j, 'a) io \<Rightarrow> ('s, 'j, 'a) io" where
  "modify u p = Sync u (\<lambda>_ _. p)"

section \<open>Rules\<close>

text \<open>What a method does, whatever the clock, the other calls on the object and the answers are: every request it sends
  satisfies \<open>P\<close>, the fields keep the invariant \<open>I\<close>, shared outcomes satisfy \<open>J\<close> and its own outcome \<open>Q\<close>,
  provided answers satisfy \<open>A\<close>.\<close>

primrec io_spec ::
  "(http_request \<Rightarrow> fetch_result \<Rightarrow> bool) \<Rightarrow> ('j \<Rightarrow> bool) \<Rightarrow> (ms \<Rightarrow> 's \<Rightarrow> bool) \<Rightarrow> (http_request \<Rightarrow> bool) \<Rightarrow> ('a \<Rightarrow> bool) \<Rightarrow>
     ('s, 'j, 'a) io \<Rightarrow> bool" where
  "io_spec A J I P Q (Done a) = Q a"
| "io_spec A J I P Q (Sync u k) = (\<forall>t s. I t s \<longrightarrow> I t (u t s) \<and> io_spec A J I P Q (k t s))"
| "io_spec A J I P Q (Fetch q k) = (P q \<and> (\<forall>a. A q a \<longrightarrow> io_spec A J I P Q (k a)))"
| "io_spec A J I P Q (Join k) = (\<forall>r. (\<forall>j. r = Some j \<longrightarrow> J j) \<longrightarrow> io_spec A J I P Q (k r))"
| "io_spec A J I P Q (Deliver j p) = (J j \<and> io_spec A J I P Q p)"

lemma io_spec_bind:
  assumes "io_spec A J I P Q p" "\<And>a. Q a \<Longrightarrow> io_spec A J I P R (f a)"
  shows "io_spec A J I P R (io_bind p f)"
  using assms(1) by (induction p rule: io_induct) (simp_all add: assms(2))

lemma io_spec_try:
  assumes "io_spec A J I P Q p" "\<And>a. Q (Inr a) \<Longrightarrow> io_spec A J I P R (f a)" "\<And>e. Q (Inl e) \<Longrightarrow> R (Inl e)"
  shows "io_spec A J I P R (io_try p f)"
  unfolding io_try_def using assms(1) by (rule io_spec_bind) (auto simp: assms(2,3) split: sum.split)

lemma io_spec_weaken:
  assumes "io_spec A J I P Q p" "\<And>q. P q \<Longrightarrow> P' q" "\<And>a. Q a \<Longrightarrow> Q' a"
  shows "io_spec A J I P' Q' p"
  using assms(1) by (induction p rule: io_induct) (auto simp: assms(2,3))

named_theorems io_simps \<open>the rules for the small methods\<close>

lemma io_spec_small [io_simps]:
  "io_spec A J I P Q (throw e) = Q (Inl e)"
  "io_spec A J I P Q (give a) = Q (Inr a)"
  "io_spec A J I P Q (clock k) = (\<forall>t s. I t s \<longrightarrow> io_spec A J I P Q (k t))"
  "io_spec A J I P Q (look h) = (\<forall>t s. I t s \<longrightarrow> io_spec A J I P Q (h t s))"
  "io_spec A J I P Q (modify u p) = (\<forall>t s. I t s \<longrightarrow> I t (u t s) \<and> io_spec A J I P Q p)"
  by (simp_all add: throw_def give_def clock_def look_def modify_def)

text \<open>The number of requests.\<close>

primrec io_calls :: "('s, 'j, 'a) io \<Rightarrow> nat \<Rightarrow> bool" where
  "io_calls (Done a) n = True"
| "io_calls (Sync u k) n = (\<forall>t s. io_calls (k t s) n)"
| "io_calls (Fetch q k) n = (0 < n \<and> (\<forall>a. io_calls (k a) (n - 1)))"
| "io_calls (Join k) n = (\<forall>r. io_calls (k r) n)"
| "io_calls (Deliver j p) n = io_calls p n"

lemma io_calls_mono: "io_calls p n \<Longrightarrow> n \<le> m \<Longrightarrow> io_calls p m"
proof (induction p arbitrary: n m rule: io_induct)
  case (Fetch q k)
  have "io_calls (k a) (m - 1)" for a by (rule Fetch.IH [of _ "n - 1"]) (use Fetch.prems in auto)
  then show ?case using Fetch.prems by auto
qed (simp_all, blast+)

lemma io_calls_bind:
  assumes "io_calls p n" "\<And>a. io_calls (f a) m"
  shows "io_calls (io_bind p f) (n + m)"
  using assms(1)
proof (induction p arbitrary: n rule: io_induct)
  case (Done a)
  then show ?case using io_calls_mono [OF assms(2)] by simp
next
  case (Fetch q k)
  from Fetch.prems have "0 < n" and k: "io_calls (k a) (n - 1)" for a by simp_all
  then have "n + m - 1 = n - 1 + m" by simp
  with Fetch.IH [OF k] \<open>0 < n\<close> show ?case by simp
qed simp_all

lemma io_calls_try:
  assumes "io_calls p n" "\<And>a. io_calls (f a) m"
  shows "io_calls (io_try p f) (n + m)"
  unfolding io_try_def using assms(1) by (rule io_calls_bind) (simp add: assms(2) split: sum.split)

text \<open>Continuations, or first parts, without requests.\<close>

lemma io_calls_then:
  assumes "io_calls p n" "\<And>a. io_calls (f a) 0"
  shows "io_calls (io_bind p f) n"
  using io_calls_bind [OF assms] by simp

lemma io_calls_try_then:
  assumes "io_calls p n" "\<And>a. io_calls (f a) 0"
  shows "io_calls (io_try p f) n"
  using io_calls_try [OF assms] by simp

lemma io_calls_try_first:
  assumes "io_calls p 0" "\<And>a. io_calls (f a) m"
  shows "io_calls (io_try p f) m"
  using io_calls_try [OF assms] by simp

lemma io_calls_small [io_simps]:
  "io_calls (throw e) n" "io_calls (give a) n"
  "io_calls (clock k) n = (\<forall>t. io_calls (k t) n)" "io_calls (look h) n = (\<forall>t s. io_calls (h t s) n)"
  "io_calls (modify u p) n = io_calls p n"
  by (simp_all add: throw_def give_def clock_def look_def modify_def)

section \<open>Running alone\<close>

text \<open>One call on an idle object, at one instant, with a service that answers \<open>gh\<close>.\<close>

primrec io_run :: "(http_request \<Rightarrow> fetch_result) \<Rightarrow> ms \<Rightarrow> ('s, 'j, 'a) io \<Rightarrow> 's \<Rightarrow> 'a \<times> 's" where
  "io_run gh t (Done a) = (\<lambda>s. (a, s))"
| "io_run gh t (Sync u k) = (\<lambda>s. io_run gh t (k t s) (u t s))"
| "io_run gh t (Fetch q k) = (\<lambda>s. io_run gh t (k (gh q)) s)"
| "io_run gh t (Join k) = (\<lambda>s. io_run gh t (k None) s)"
| "io_run gh t (Deliver j p) = (\<lambda>s. io_run gh t p s)"

lemma io_run_bind: "io_run gh t (io_bind p f) s = (case io_run gh t p s of (a, s') \<Rightarrow> io_run gh t (f a) s')"
  by (induction p arbitrary: s rule: io_induct) simp_all

lemma io_run_try:
  "io_run gh t (io_try p f) s =
     (case io_run gh t p s of (Inl e, s') \<Rightarrow> (Inl e, s') | (Inr a, s') \<Rightarrow> io_run gh t (f a) s')"
  unfolding io_try_def io_run_bind by (auto split: prod.splits sum.splits)

lemma io_run_small [io_simps]:
  "io_run gh t (throw e) s = (Inl e, s)" "io_run gh t (give a) s = (Inr a, s)"
  "io_run gh t (clock k) s = io_run gh t (k t) s" "io_run gh t (look h) s = io_run gh t (h t s) s"
  "io_run gh t (modify u p) s = io_run gh t p (u t s)"
  by (simp_all add: throw_def give_def clock_def look_def modify_def)

primrec io_sent :: "(http_request \<Rightarrow> fetch_result) \<Rightarrow> ms \<Rightarrow> ('s, 'j, 'a) io \<Rightarrow> 's \<Rightarrow> http_request list" where
  "io_sent gh t (Done a) = (\<lambda>s. [])"
| "io_sent gh t (Sync u k) = (\<lambda>s. io_sent gh t (k t s) (u t s))"
| "io_sent gh t (Fetch q k) = (\<lambda>s. q # io_sent gh t (k (gh q)) s)"
| "io_sent gh t (Join k) = (\<lambda>s. io_sent gh t (k None) s)"
| "io_sent gh t (Deliver j p) = (\<lambda>s. io_sent gh t p s)"

lemma io_sent_small [io_simps]:
  "io_sent gh t (throw e) s = []" "io_sent gh t (give a) s = []"
  "io_sent gh t (clock k) s = io_sent gh t (k t) s" "io_sent gh t (look h) s = io_sent gh t (h t s) s"
  "io_sent gh t (modify u p) s = io_sent gh t p (u t s)"
  by (simp_all add: throw_def give_def clock_def look_def modify_def)

lemma io_sent_calls: "io_calls p n \<Longrightarrow> length (io_sent gh t p s) \<le> n"
proof (induction p arbitrary: n s rule: io_induct)
  case (Fetch q k)
  then have "length (io_sent gh t (k (gh q)) s) \<le> n - 1" "0 < n" by simp_all
  then show ?case by simp
qed simp_all

text \<open>The same with a service that has a state \<open>g\<close>.\<close>

primrec io_serve ::
  "('g \<Rightarrow> http_request \<Rightarrow> fetch_result \<times> 'g) \<Rightarrow> ms \<Rightarrow> ('s, 'j, 'a) io \<Rightarrow> 's \<times> 'g \<Rightarrow> 'a \<times> 's \<times> 'g" where
  "io_serve srv t (Done a) = (\<lambda>sg. (a, sg))"
| "io_serve srv t (Sync u k) = (\<lambda>sg. io_serve srv t (k t (fst sg)) (u t (fst sg), snd sg))"
| "io_serve srv t (Fetch q k) = (\<lambda>sg. io_serve srv t (k (fst (srv (snd sg) q))) (fst sg, snd (srv (snd sg) q)))"
| "io_serve srv t (Join k) = (\<lambda>sg. io_serve srv t (k None) sg)"
| "io_serve srv t (Deliver j p) = (\<lambda>sg. io_serve srv t p sg)"

lemma io_serve_bind: "io_serve srv t (io_bind p f) sg = (case io_serve srv t p sg of (a, sg') \<Rightarrow> io_serve srv t (f a) sg')"
  by (induction p arbitrary: sg rule: io_induct) simp_all

lemma io_serve_try:
  "io_serve srv t (io_try p f) sg =
     (case io_serve srv t p sg of (Inl e, sg') \<Rightarrow> (Inl e, sg') | (Inr a, sg') \<Rightarrow> io_serve srv t (f a) sg')"
  unfolding io_try_def io_serve_bind by (auto split: prod.splits sum.splits)

lemma io_serve_small [io_simps]:
  "io_serve srv t (throw e) sg = (Inl e, sg)" "io_serve srv t (give a) sg = (Inr a, sg)"
  "io_serve srv t (clock k) sg = io_serve srv t (k t) sg" "io_serve srv t (look h) sg = io_serve srv t (h t (fst sg)) sg"
  "io_serve srv t (modify u p) sg = io_serve srv t p (u t (fst sg), snd sg)"
  by (simp_all add: throw_def give_def clock_def look_def modify_def)

section \<open>Calls in flight\<close>

record ('s, 'j) io_world =
  io_clock :: ms
  io_shared :: 's
  io_delivered :: "'j list"

inductive io_step :: "(http_request \<Rightarrow> fetch_result \<Rightarrow> bool) \<Rightarrow> ('s, 'j, 'a) io \<Rightarrow> ('s, 'j) io_world \<Rightarrow> ('s, 'j, 'a) io \<Rightarrow> ('s, 'j) io_world \<Rightarrow> bool"
  for A :: "http_request \<Rightarrow> fetch_result \<Rightarrow> bool" where
  sync: "io_clock w \<le> t \<Longrightarrow> io_step A (Sync u k) w (k t (io_shared w)) (w\<lparr>io_clock := t, io_shared := u t (io_shared w)\<rparr>)"
| fetch: "A q a \<Longrightarrow> io_step A (Fetch q k) w (k a) w"
| fresh: "io_step A (Join k) w (k None) w"
| join: "r \<in> set (io_delivered w) \<Longrightarrow> io_step A (Join k) w (k (Some r)) w"
| deliver: "io_step A (Deliver j p) w p (w\<lparr>io_delivered := j # io_delivered w\<rparr>)"

inductive_cases io_stepE: "io_step A p w p' w'"

text \<open>A call that runs alone is one schedule of the system.\<close>

lemma io_run_reachable:
  assumes "\<And>q. A q (gh q)" "io_clock w \<le> t"
  shows "\<exists>w'. (sys_step (io_step A) start)\<^sup>*\<^sup>* (w, [p]) (w', [Done (fst (io_run gh t p (io_shared w)))])
     \<and> io_clock w' \<le> t \<and> io_shared w' = snd (io_run gh t p (io_shared w))"
  using assms(2)
proof (induction p arbitrary: w rule: io_induct)
  case (Done a)
  then show ?case by auto
next
  case (Sync u k)
  let ?w = "w\<lparr>io_clock := t, io_shared := u t (io_shared w)\<rparr>"
  have "sys_step (io_step A) start (w, [] @ Sync u k # []) (?w, [] @ k t (io_shared w) # [])"
    using Sync.prems by (intro sys_step.run io_step.sync)
  with Sync.IH [of ?w t "io_shared w"] show ?case
    by (auto intro: converse_rtranclp_into_rtranclp)
next
  case (Fetch q k)
  have "sys_step (io_step A) start (w, [] @ Fetch q k # []) (w, [] @ k (gh q) # [])"
    using assms(1) by (intro sys_step.run io_step.fetch)
  with Fetch.IH [of w "gh q"] Fetch.prems show ?case by (auto intro: converse_rtranclp_into_rtranclp)
next
  case (Join k)
  have "sys_step (io_step A) start (w, [] @ Join k # []) (w, [] @ k None # [])"
    by (intro sys_step.run io_step.fresh)
  with Join.IH [of w None] Join.prems show ?case by (auto intro: converse_rtranclp_into_rtranclp)
next
  case (Deliver j p)
  let ?w = "w\<lparr>io_delivered := j # io_delivered w\<rparr>"
  have "sys_step (io_step A) start (w, [] @ Deliver j p # []) (?w, [] @ p # [])"
    by (intro sys_step.run io_step.deliver)
  with Deliver.IH [of ?w] Deliver.prems show ?case by (auto intro: converse_rtranclp_into_rtranclp)
qed

text \<open>A call whose first request is \<open>q\<close> gets to the point of sending it.\<close>

lemma io_reaches_fetch:
  assumes "io_clock w \<le> t" "io_sent gh t p (io_shared w) = q # qs"
  shows "\<exists>w' k. (sys_step (io_step A) start)\<^sup>*\<^sup>* (w, [p]) (w', [Fetch q k])"
  using assms
proof (induction p arbitrary: w rule: io_induct)
  case (Sync u k)
  let ?w = "w\<lparr>io_clock := t, io_shared := u t (io_shared w)\<rparr>"
  have "sys_step (io_step A) start (w, [] @ Sync u k # []) (?w, [] @ k t (io_shared w) # [])"
    using Sync.prems by (intro sys_step.run io_step.sync)
  with Sync.IH [of ?w t "io_shared w"] Sync.prems show ?case by (auto intro: converse_rtranclp_into_rtranclp)
next
  case (Join k)
  have "sys_step (io_step A) start (w, [] @ Join k # []) (w, [] @ k None # [])"
    by (intro sys_step.run io_step.fresh)
  with Join.IH [of w None] Join.prems show ?case by (auto intro: converse_rtranclp_into_rtranclp)
next
  case (Deliver j p)
  let ?w = "w\<lparr>io_delivered := j # io_delivered w\<rparr>"
  have "sys_step (io_step A) start (w, [] @ Deliver j p # []) (?w, [] @ p # [])"
    by (intro sys_step.run io_step.deliver)
  with Deliver.IH [of ?w] Deliver.prems show ?case by (auto intro: converse_rtranclp_into_rtranclp)
qed auto

locale service =
  fixes A :: "http_request \<Rightarrow> fetch_result \<Rightarrow> bool"
    and J :: "'j \<Rightarrow> bool"
    and I :: "ms \<Rightarrow> 's \<Rightarrow> bool"
    and P :: "http_request \<Rightarrow> bool"
    and Q :: "'a \<Rightarrow> bool"
    and start :: "('s, 'j, 'a) io \<Rightarrow> bool"
  assumes start_spec: "start p \<Longrightarrow> io_spec A J I P Q p"
    and later: "I t s \<Longrightarrow> t \<le> t' \<Longrightarrow> I t' s"
begin

definition inv :: "('s, 'j) io_world \<Rightarrow> bool" where
  "inv w \<longleftrightarrow> I (io_clock w) (io_shared w) \<and> (\<forall>j \<in> set (io_delivered w). J j)"

definition moves :: "('s, 'j) io_world \<Rightarrow> ('s, 'j) io_world \<Rightarrow> bool" where
  "moves w w' \<longleftrightarrow> io_clock w \<le> io_clock w' \<and> (inv w \<longrightarrow> inv w')"

lemma step_spec:
  assumes "inv w" "io_spec A J I P Q p" "io_step A p w p' w'"
  shows "moves w w' \<and> io_spec A J I P Q p'"
  using assms(3)
proof cases
  case (sync t u k)
  then have "I t (io_shared w)" using assms(1) later by (auto simp: inv_def)
  then show ?thesis using assms(1,2) sync by (auto simp: moves_def inv_def)
qed (use assms(1,2) in \<open>auto simp: moves_def inv_def\<close>)

end

sublocale service \<subseteq> interleaving "io_step A" start inv "\<lambda>_. io_spec A J I P Q" moves
proof unfold_locales
  show "moves w w' \<and> io_spec A J I P Q p'" if "inv w" "io_spec A J I P Q p" "io_step A p w p' w'" for w p p' w'
    using that by (rule step_spec)
qed (auto simp: start_spec moves_def)

context service
begin

lemma reachable_service:
  assumes "(sys_step (io_step A) start)\<^sup>*\<^sup>* (w0, []) (w, ts)" "inv w0" "p \<in> set ts"
  shows "inv w" "p = Fetch q k \<Longrightarrow> P q" "p = Done a \<Longrightarrow> Q a"
proof -
  have spec: "io_spec A J I P Q p" by (rule reachable_ok(2) [OF assms])
  show "inv w" by (rule reachable_ok(1) [OF assms(1,2)])
  show "P q" if "p = Fetch q k" using spec that by simp
  show "Q a" if "p = Done a" using spec that by simp
qed

end

end
