(* ===== verification/GithubSource.thy ===== *)
theory GithubSource
  imports Http SsoSource
begin

text \<open>
  The GitHub read source, \<open>domain-api/src/adapters/sso/githubSsoAdapter.ts\<close>: \<open>GithubSsoAdapter\<close> with its snapshot,
  its back-off and the memory of an invalid commit. Every private method is a definition of the same name; an
  exception is the outcome \<open>Inl\<close>. The message of an invalid configuration ends with the zod summary in the code,
  which is left out here.
\<close>

section \<open>Target and state\<close>

record github_target =
  t_owner :: string
  t_repo :: string
  t_path :: string
  t_branch :: string
  t_apiBase :: string

definition SSO_GITHUB_TARGET :: github_target where
  "SSO_GITHUB_TARGET = \<lparr>t_owner = ''dasomel'', t_repo = ''beluga'', t_path = ''gitops/values/sso.yaml'',
     t_branch = ''main'', t_apiBase = ''https://api.github.com''\<rparr>"

record source_cfg =
  sc_target :: github_target
  sc_baseDomain :: string
  ttlMs :: ms
  staleMaxMs :: ms
  sc_timeoutMs :: ms

definition default_source_cfg :: source_cfg where
  "default_source_cfg = \<lparr>sc_target = SSO_GITHUB_TARGET, sc_baseDomain = DEFAULT_BASE_DOMAIN, ttlMs = 60000,
     staleMaxMs = 10 * 60000, sc_timeoutMs = 5000\<rparr>"

definition SOURCE_MAX_BODY_BYTES :: nat where "SOURCE_MAX_BODY_BYTES = 1024 * 1024"

definition MAX_BACKOFF_MS :: ms where "MAX_BACKOFF_MS = 60 * 60000"

datatype source_exn = TransportError string "ms option" | ConfigError sso_config_error

text \<open>A snapshot is a mutable object: \<open>sn_ref\<close>, with the commit, which is never assigned again, is its identity.\<close>

record snapshot =
  sn_ref :: nat
  sn_commitSha :: string
  sn_blobSha :: string
  sn_etag :: "string option"
  sn_config :: sso_config
  sn_text :: string
  sn_groupNames :: "string list option"
  sn_confirmedAt :: ms

record source =
  snap :: "snapshot option"
  src_retryAt :: ms
  lastFailure :: string
  invalid :: "(string \<times> sso_config_error) option"
  next_ref :: nat

definition new_source :: source where
  "new_source = \<lparr>snap = None, src_retryAt = 0, lastFailure = ''unavailable'', invalid = None, next_ref = 0\<rparr>"

text \<open>The response of a configured GitHub source; \<open>g_staleReason\<close> is \<open>None\<close> when \<open>stale\<close> is \<open>false\<close>. \<open>g_renderedAt\<close>
  is the clock value when it was made, which the code does not keep.\<close>

record github_response =
  g_repo :: string
  g_path :: string
  g_commitSha :: string
  g_blobSha :: string
  g_fetchedAt :: ms
  g_staleReason :: "string option"
  g_config :: sso_config
  g_renderedAt :: ms

type_synonym outcome = "(sso_config_error, github_response) res"
type_synonym 'a src = "(source, outcome, (source_exn, 'a) res) io"

section \<open>Rendering\<close>

definition render :: "source_cfg \<Rightarrow> snapshot \<Rightarrow> string option \<Rightarrow> ms \<Rightarrow> github_response" where
  "render cfg sn staleReason t =
     \<lparr>g_repo = t_owner (sc_target cfg) @ ''/'' @ t_repo (sc_target cfg), g_path = t_path (sc_target cfg),
      g_commitSha = sn_commitSha sn, g_blobSha = sn_blobSha sn, g_fetchedAt = sn_confirmedAt sn,
      g_staleReason = staleReason, g_config = sn_config sn, g_renderedAt = t\<rparr>"

definition unavailable :: "string \<Rightarrow> source_exn" where
  "unavailable reason = ConfigError (SsoConfigError (''GitHub SSO source unavailable ('' @ reason @ '')''))"

definition degraded :: "source_cfg \<Rightarrow> string \<Rightarrow> github_response src" where
  "degraded cfg reason = look (\<lambda>t s.
     case invalid s of
       Some (_, e) \<Rightarrow> throw (ConfigError e)
     | None \<Rightarrow>
         (case snap s of
            Some sn \<Rightarrow> if t - sn_confirmedAt sn \<le> staleMaxMs cfg then give (render cfg sn (Some reason) t) else throw (unavailable reason)
          | None \<Rightarrow> throw (unavailable reason)))"

section \<open>Requests\<close>

definition repoUrl :: "github_target \<Rightarrow> string \<Rightarrow> string" where
  "repoUrl g path = t_apiBase g @ ''/repos/'' @ encodeURIComponent (t_owner g) @ ''/'' @ encodeURIComponent (t_repo g) @ path"

definition get_headers :: "(string \<times> string) list \<Rightarrow> (string \<times> string) list" where
  "get_headers h = [(''User-Agent'', ''beluga-manager''), (''X-GitHub-Api-Version'', ''2022-11-28'')] @ h"

definition get_request :: "source_cfg \<Rightarrow> string \<Rightarrow> (string \<times> string) list \<Rightarrow> ms \<Rightarrow> http_request" where
  "get_request cfg url h t =
     \<lparr>h_method = ''GET'', h_url = url, h_headers = get_headers h, h_body = None, h_at = t, h_timeoutMs = sc_timeoutMs cfg\<rparr>"

definition http_get :: "source_cfg \<Rightarrow> string \<Rightarrow> (string \<times> string) list \<Rightarrow> http_response src" where
  "http_get cfg url h = clock (\<lambda>t. Fetch (get_request cfg url h t)
     (\<lambda>a. case a of TimedOut \<Rightarrow> throw (TransportError ''timeout'' None)
        | Unreachable \<Rightarrow> throw (TransportError ''unreachable'' None)
        | Response res \<Rightarrow> give res))"

definition read_stream :: "http_response \<Rightarrow> string src" where
  "read_stream res =
     (if SOURCE_MAX_BODY_BYTES < length (s_text res) then throw (ConfigError (SsoConfigError ''GitHub response too large''))
      else if s_broken res then throw (TransportError ''unreachable'' None)
      else give (s_text res))"

definition readOk :: "net \<Rightarrow> http_response \<Rightarrow> string src" where
  "readOk n res =
     (if s_status res \<noteq> 200 then
        (if \<not> rate_limited res then throw (TransportError (''http-'' @ show_nat (s_status res)) None)
         else case positive (header_number n res ''x-ratelimit-reset'') of
             Some reset \<Rightarrow> throw (TransportError ''rate-limited'' (Some (reset * 1000)))
           | None \<Rightarrow>
               (case positive (header_number n res ''retry-after'') of
                  Some after \<Rightarrow> clock (\<lambda>t. throw (TransportError ''rate-limited'' (Some (t + after * 1000))))
                | None \<Rightarrow> throw (TransportError ''rate-limited'' None)))
      else if exceeds (header_number n res ''content-length'') SOURCE_MAX_BODY_BYTES
      then throw (ConfigError (SsoConfigError ''GitHub response too large''))
      else read_stream res)"

record head =
  hd_commitSha :: string
  hd_etag :: "string option"

definition head_url :: "source_cfg \<Rightarrow> string" where
  "head_url cfg = repoUrl (sc_target cfg) (''/commits/'' @ encodeURIComponent (t_branch (sc_target cfg)))"

definition fetchHead :: "source_cfg \<Rightarrow> net \<Rightarrow> head src" where
  "fetchHead cfg n = look (\<lambda>_ s.
     let previous = snap s; etag = Option.bind previous sn_etag in
     io_try (http_get cfg (head_url cfg) ((''Accept'', ''application/vnd.github.sha'') #
         (case etag of Some e \<Rightarrow> [(''If-None-Match'', e)] | None \<Rightarrow> [])))
       (\<lambda>res. case (s_status res = 304, previous) of
            (True, Some p) \<Rightarrow> give \<lparr>hd_commitSha = sn_commitSha p, hd_etag = sn_etag p\<rparr>
          | _ \<Rightarrow> io_try (readOk n res) (\<lambda>body.
              if \<not> SHA_RE (js_trim body) then throw (ConfigError (SsoConfigError ''GitHub returned a malformed commit SHA''))
              else give \<lparr>hd_commitSha = js_trim body, hd_etag = header res ''etag''\<rparr>)))"

text \<open>\<open>contentsSchema\<close>: the path, the blob and the encoded content.\<close>

definition contentsSchema :: "json \<Rightarrow> (string \<times> string \<times> string) option" where
  "contentsSchema j =
     (case (json_field j ''type'', json_field j ''encoding'', json_field j ''path'', json_field j ''sha'', json_field j ''content'') of
        (Some (JStr ty), Some (JStr enc), Some (JStr p), Some (JStr sha), Some (JStr content)) \<Rightarrow>
          if ty = ''file'' \<and> enc = ''base64'' \<and> SHA_RE sha then Some (p, sha, content) else None
      | _ \<Rightarrow> None)"

definition contents_url :: "source_cfg \<Rightarrow> string \<Rightarrow> string \<Rightarrow> string" where
  "contents_url cfg path sha = repoUrl (sc_target cfg) (''/contents/'' @ encode_path path) @ ''?ref='' @ sha"

definition parse_contents :: "net \<Rightarrow> string \<Rightarrow> string \<Rightarrow> (string \<times> string) src" where
  "parse_contents n path body =
     (case n_json_parse n body of
        None \<Rightarrow> throw (ConfigError (SsoConfigError ''GitHub contents response is not JSON''))
      | Some j \<Rightarrow>
          (case contentsSchema j of
             Some (p, sha, content) \<Rightarrow>
               if p \<noteq> path then throw (ConfigError (SsoConfigError ''GitHub contents response is not the expected file''))
               else give (sha, n_unbase64 n content)
           | None \<Rightarrow> throw (ConfigError (SsoConfigError ''GitHub contents response is not the expected file''))))"

definition fetchContents :: "source_cfg \<Rightarrow> net \<Rightarrow> string \<Rightarrow> string \<Rightarrow> (string \<times> string) src" where
  "fetchContents cfg n path commit =
     io_try (http_get cfg (contents_url cfg path commit) [(''Accept'', ''application/vnd.github+json'')]) (\<lambda>res.
     io_try (readOk n res) (parse_contents n path))"

definition at_commit :: "string \<Rightarrow> string \<Rightarrow> string" where
  "at_commit path commit = path @ '' at '' @ commit"

definition parse_file :: "ext \<Rightarrow> source_cfg \<Rightarrow> string \<Rightarrow> string \<times> string \<Rightarrow> (source_exn, string \<times> sso_config \<times> string) res" where
  "parse_file x cfg commit = (\<lambda>(blob, yamlText).
     case x_parse x yamlText of
       None \<Rightarrow> Inl (ConfigError (SsoConfigError (''Malformed YAML in '' @ at_commit (t_path (sc_target cfg)) commit)))
     | Some raw \<Rightarrow>
         (case resolveSsoFile (x_parse_url x) raw (sc_baseDomain cfg) of
            Inl _ \<Rightarrow> Inl (ConfigError (SsoConfigError (''Invalid SSO configuration in '' @ at_commit (t_path (sc_target cfg)) commit)))
          | Inr config \<Rightarrow> Inr (blob, config, yamlText)))"

definition fetchFile :: "ext \<Rightarrow> source_cfg \<Rightarrow> net \<Rightarrow> string \<Rightarrow> (string \<times> sso_config \<times> string) src" where
  "fetchFile x cfg n commit =
     io_try (fetchContents cfg n (t_path (sc_target cfg)) commit) (\<lambda>f. Done (parse_file x cfg commit f))"

section \<open>Refreshing\<close>

definition backoff :: "source_cfg \<Rightarrow> ms \<Rightarrow> ms option \<Rightarrow> ms" where
  "backoff cfg t until = min (max (case until of Some u \<Rightarrow> u | None \<Rightarrow> 0) (t + ttlMs cfg)) (t + MAX_BACKOFF_MS)"

definition refresh_failed :: "source_cfg \<Rightarrow> source_exn \<Rightarrow> github_response src" where
  "refresh_failed cfg e =
     (case e of
        ConfigError _ \<Rightarrow> modify (\<lambda>t s. s\<lparr>lastFailure := ''invalid-source'', src_retryAt := t + ttlMs cfg\<rparr>) (throw e)
      | TransportError reason until \<Rightarrow>
          modify (\<lambda>t s. s\<lparr>lastFailure := reason, src_retryAt := backoff cfg t until\<rparr>) (degraded cfg reason))"

text \<open>The code between the answer for the head and the next await.\<close>

definition head_known :: "string \<Rightarrow> source \<Rightarrow> sso_config_error option" where
  "head_known commit s = (case invalid s of Some (c, e) \<Rightarrow> if c = commit then Some e else None | None \<Rightarrow> None)"

definition after_head :: "head \<Rightarrow> ms \<Rightarrow> source \<Rightarrow> source" where
  "after_head h t s =
     (if head_known (hd_commitSha h) s \<noteq> None then s
      else s\<lparr>invalid := None, src_retryAt := 0,
        snap := (case snap s of
          Some p \<Rightarrow> if hd_commitSha h = sn_commitSha p
            then Some (p\<lparr>sn_confirmedAt := t, sn_etag := (case hd_etag h of Some e \<Rightarrow> Some e | None \<Rightarrow> sn_etag p)\<rparr>) else Some p
        | None \<Rightarrow> None)\<rparr>)"

definition new_snapshot :: "head \<Rightarrow> string \<times> sso_config \<times> string \<Rightarrow> ms \<Rightarrow> nat \<Rightarrow> snapshot" where
  "new_snapshot h = (\<lambda>(blob, config, yamlText) t ref.
     \<lparr>sn_ref = ref, sn_commitSha = hd_commitSha h, sn_blobSha = blob, sn_etag = hd_etag h, sn_config = config,
      sn_text = yamlText, sn_groupNames = None, sn_confirmedAt = t\<rparr>)"

definition take_file ::
  "ext \<Rightarrow> source_cfg \<Rightarrow> net \<Rightarrow> head \<Rightarrow> github_response src" where
  "take_file x cfg n h =
     io_bind (fetchFile x cfg n (hd_commitSha h)) (\<lambda>r.
       case r of
         Inl (ConfigError e) \<Rightarrow> modify (\<lambda>_ s. s\<lparr>invalid := Some (hd_commitSha h, e)\<rparr>) (throw (ConfigError e))
       | Inl e \<Rightarrow> throw e
       | Inr f \<Rightarrow> Sync (\<lambda>t s. s\<lparr>snap := Some (new_snapshot h f t (next_ref s)), next_ref := Suc (next_ref s)\<rparr>)
           (\<lambda>t s. give (render cfg (new_snapshot h f t (next_ref s)) None t)))"

definition with_head :: "ext \<Rightarrow> source_cfg \<Rightarrow> net \<Rightarrow> head \<Rightarrow> github_response src" where
  "with_head x cfg n h = Sync (after_head h) (\<lambda>t s.
     case head_known (hd_commitSha h) s of
       Some e \<Rightarrow> throw (ConfigError e)
     | None \<Rightarrow>
         (case snap (after_head h t s) of
            Some p \<Rightarrow> if hd_commitSha h = sn_commitSha p then give (render cfg p None t) else take_file x cfg n h
          | None \<Rightarrow> take_file x cfg n h))"

definition refresh :: "ext \<Rightarrow> source_cfg \<Rightarrow> net \<Rightarrow> github_response src" where
  "refresh x cfg n =
     io_bind (io_try (fetchHead cfg n) (with_head x cfg n)) (\<lambda>r.
       case r of Inr resp \<Rightarrow> give resp | Inl e \<Rightarrow> refresh_failed cfg e)"

text \<open>\<open>this.inflight ??= this.refresh()\<close>. What a refresh throws is always an \<open>SsoConfigError\<close>.\<close>

definition settled :: "(source_exn, github_response) res \<Rightarrow> outcome" where
  "settled r = (case r of Inr resp \<Rightarrow> Inr resp | Inl (ConfigError e) \<Rightarrow> Inl e | Inl (TransportError m _) \<Rightarrow> Inl (SsoConfigError m))"

definition shared_refresh :: "ext \<Rightarrow> source_cfg \<Rightarrow> net \<Rightarrow> github_response src" where
  "shared_refresh x cfg n = Join (\<lambda>r.
     case r of
       Some (Inr resp) \<Rightarrow> give resp
     | Some (Inl e) \<Rightarrow> throw (ConfigError e)
     | None \<Rightarrow> io_bind (refresh x cfg n) (\<lambda>out. Deliver (settled out) (Done out)))"

section \<open>The two operations\<close>

definition ask_or_degrade :: "ext \<Rightarrow> source_cfg \<Rightarrow> net \<Rightarrow> github_response src" where
  "ask_or_degrade x cfg n = look (\<lambda>t s. if t < src_retryAt s then degraded cfg (lastFailure s) else shared_refresh x cfg n)"

definition github_getSsoConfig :: "ext \<Rightarrow> source_cfg \<Rightarrow> net \<Rightarrow> github_response src" where
  "github_getSsoConfig x cfg n = look (\<lambda>t s.
     case snap s of
       Some sn \<Rightarrow> if t - sn_confirmedAt sn < ttlMs cfg then give (render cfg sn None t) else ask_or_degrade x cfg n
     | None \<Rightarrow> ask_or_degrade x cfg n)"

definition same_object :: "snapshot \<Rightarrow> snapshot \<Rightarrow> bool" where
  "same_object a b \<longleftrightarrow> sn_ref a = sn_ref b \<and> sn_commitSha a = sn_commitSha b"

definition set_groups_of :: "snapshot \<Rightarrow> string list \<Rightarrow> source \<Rightarrow> source" where
  "set_groups_of sn names s =
     s\<lparr>snap := map_option (\<lambda>p. if same_object p sn then p\<lparr>sn_groupNames := Some names\<rparr> else p) (snap s)\<rparr>"

definition base_of :: "source_cfg \<Rightarrow> snapshot \<Rightarrow> string list \<Rightarrow> sso_base" where
  "base_of cfg sn names = \<lparr>commitSha = sn_commitSha sn, blobSha = sn_blobSha sn, sb_text = sn_text sn,
     sb_baseDomain = sc_baseDomain cfg, sb_config = sn_config sn, groupNames = names\<rparr>"

definition groups_failed :: "source_cfg \<Rightarrow> source_exn \<Rightarrow> sso_base src" where
  "groups_failed cfg e =
     (case e of
        TransportError reason until \<Rightarrow>
          modify (\<lambda>t s. s\<lparr>lastFailure := reason, src_retryAt := backoff cfg t until\<rparr>) (throw (unavailable reason))
      | ConfigError c \<Rightarrow>
          modify (\<lambda>t s. s\<lparr>lastFailure := ''invalid-source'', src_retryAt := t + ttlMs cfg\<rparr>) (throw (ConfigError c)))"

definition fetch_groups :: "ext \<Rightarrow> source_cfg \<Rightarrow> net \<Rightarrow> snapshot \<Rightarrow> sso_base src" where
  "fetch_groups x cfg n sn =
     io_bind (io_try (fetchContents cfg n GROUPS_FILE_PATH (sn_commitSha sn)) (\<lambda>(_, groupsText).
         case parseGroupNames x groupsText (at_commit GROUPS_FILE_PATH (sn_commitSha sn)) of
           Inl e \<Rightarrow> throw (ConfigError e)
         | Inr names \<Rightarrow> give names))
       (\<lambda>r. case r of
            Inr names \<Rightarrow> modify (\<lambda>_. set_groups_of sn names) (give (base_of cfg sn names))
          | Inl e \<Rightarrow> groups_failed cfg e)"

definition base_from :: "ext \<Rightarrow> source_cfg \<Rightarrow> net \<Rightarrow> github_response \<Rightarrow> sso_base src" where
  "base_from x cfg n resp =
     (if g_staleReason resp \<noteq> None
      then throw (ConfigError (SsoConfigError ''GitHub SSO source is stale or unavailable; refusing to base a change on it''))
      else look (\<lambda>t s.
        let moved = throw (ConfigError (SsoConfigError ''GitHub SSO source moved during the read; retry'')) in
        case snap s of
          None \<Rightarrow> moved
        | Some sn \<Rightarrow>
            if sn_commitSha sn \<noteq> g_commitSha resp then moved
            else (case sn_groupNames sn of
                Some names \<Rightarrow> give (base_of cfg sn names)
              | None \<Rightarrow> if t < src_retryAt s then throw (unavailable (lastFailure s)) else fetch_groups x cfg n sn)))"

definition github_readBase :: "ext \<Rightarrow> source_cfg \<Rightarrow> net \<Rightarrow> bool \<Rightarrow> sso_base src" where
  "github_readBase x cfg n fresh =
     io_try (if fresh then look (\<lambda>t s. if t < src_retryAt s then throw (unavailable (lastFailure s)) else shared_refresh x cfg n)
             else github_getSsoConfig x cfg n)
       (base_from x cfg n)"

end
