(* ===== verification/SourceFacts.thy ===== *)
theory SourceFacts
  imports GithubSource
begin

text \<open>
  What the GitHub read source guarantees, for any number of concurrent calls: \<open>source_inv\<close> is the invariant of its
  fields, \<open>resp_ok\<close> and \<open>base_ok\<close> are the promises of the two operations. GitHub is a map \<open>tree\<close> from commits and
  paths to blobs; \<open>truthful\<close> is its documented behaviour, that the contents of a path at a commit are those of that
  commit.
\<close>

type_synonym git_tree = "string \<Rightarrow> string \<Rightarrow> (string \<times> string) option"

definition truthful :: "source_cfg \<Rightarrow> net \<Rightarrow> git_tree \<Rightarrow> http_request \<Rightarrow> fetch_result \<Rightarrow> bool" where
  "truthful cfg n tree q a \<longleftrightarrow>
     (\<forall>path sha res j p b content. h_url q = contents_url cfg path sha \<and> a = Response res \<and> s_status res = 200
        \<and> n_json_parse n (s_text res) = Some j \<and> contentsSchema j = Some (p, b, content)
        \<longrightarrow> tree sha path = Some (b, n_unbase64 n content))"

section \<open>Promises\<close>

definition config_at :: "ext \<Rightarrow> source_cfg \<Rightarrow> git_tree \<Rightarrow> string \<Rightarrow> string \<Rightarrow> string \<Rightarrow> sso_config \<Rightarrow> bool" where
  "config_at x cfg tree sha b yml c \<longleftrightarrow> tree sha (t_path (sc_target cfg)) = Some (b, yml)
     \<and> (\<exists>raw. x_parse x yml = Some raw \<and> resolveSsoFile (x_parse_url x) raw (sc_baseDomain cfg) = Inr c)"

definition groups_at :: "ext \<Rightarrow> git_tree \<Rightarrow> string \<Rightarrow> string list \<Rightarrow> bool" where
  "groups_at x tree sha names \<longleftrightarrow>
     (\<exists>b yml. tree sha GROUPS_FILE_PATH = Some (b, yml) \<and> parseGroupNames x yml (at_commit GROUPS_FILE_PATH sha) = Inr names)"

definition snapshot_ok :: "ext \<Rightarrow> source_cfg \<Rightarrow> git_tree \<Rightarrow> snapshot \<Rightarrow> bool" where
  "snapshot_ok x cfg tree sn \<longleftrightarrow> config_at x cfg tree (sn_commitSha sn) (sn_blobSha sn) (sn_text sn) (sn_config sn)
     \<and> (\<forall>names. sn_groupNames sn = Some names \<longrightarrow> groups_at x tree (sn_commitSha sn) names)"

definition source_inv :: "ext \<Rightarrow> source_cfg \<Rightarrow> git_tree \<Rightarrow> ms \<Rightarrow> source \<Rightarrow> bool" where
  "source_inv x cfg tree t s \<longleftrightarrow>
     (\<forall>sn. snap s = Some sn \<longrightarrow> snapshot_ok x cfg tree sn \<and> sn_confirmedAt sn \<le> t)
     \<and> 0 \<le> t \<and> src_retryAt s \<le> t + max (ttlMs cfg) MAX_BACKOFF_MS"

definition fresh_or_stale :: "source_cfg \<Rightarrow> github_response \<Rightarrow> bool" where
  "fresh_or_stale cfg r \<longleftrightarrow> g_fetchedAt r \<le> g_renderedAt r \<and>
     (case g_staleReason r of
        None \<Rightarrow> g_renderedAt r - g_fetchedAt r < ttlMs cfg \<or> g_renderedAt r = g_fetchedAt r
      | Some _ \<Rightarrow> g_renderedAt r - g_fetchedAt r \<le> staleMaxMs cfg)"

definition resp_ok :: "ext \<Rightarrow> source_cfg \<Rightarrow> git_tree \<Rightarrow> github_response \<Rightarrow> bool" where
  "resp_ok x cfg tree r \<longleftrightarrow> (\<exists>yml. config_at x cfg tree (g_commitSha r) (g_blobSha r) yml (g_config r)) \<and> fresh_or_stale cfg r"

definition base_ok :: "ext \<Rightarrow> source_cfg \<Rightarrow> git_tree \<Rightarrow> sso_base \<Rightarrow> bool" where
  "base_ok x cfg tree b \<longleftrightarrow> config_at x cfg tree (commitSha b) (blobSha b) (sb_text b) (sb_config b)
     \<and> groups_at x tree (commitSha b) (groupNames b) \<and> sb_baseDomain b = sc_baseDomain cfg"

definition reads_only :: "http_request \<Rightarrow> bool" where
  "reads_only q \<longleftrightarrow> h_method q = ''GET'' \<and> h_body q = None"

definition on_Inr :: "('a \<Rightarrow> bool) \<Rightarrow> ('e, 'a) res \<Rightarrow> bool" where
  "on_Inr Q r \<longleftrightarrow> (\<forall>a. r = Inr a \<longrightarrow> Q a)"

lemma on_Inr_simps [simp]: "on_Inr Q (Inl e)" "on_Inr Q (Inr a) = Q a"
  by (simp_all add: on_Inr_def)

lemma source_inv_later: "source_inv x cfg tree t s \<Longrightarrow> t \<le> t' \<Longrightarrow> source_inv x cfg tree t' s"
  unfolding source_inv_def by (meson add_mono_thms_linordered_semiring(3) order_trans)

lemma source_invD:
  assumes "source_inv x cfg tree t s" "snap s = Some sn"
  shows "snapshot_ok x cfg tree sn" "sn_confirmedAt sn \<le> t"
  using assms by (simp_all add: source_inv_def)

lemma source_inv_snap_only:
  assumes "source_inv x cfg tree t s" "snap s' = snap s" "src_retryAt s' \<le> t + max (ttlMs cfg) MAX_BACKOFF_MS"
  shows "source_inv x cfg tree t s'"
  using assms by (simp add: source_inv_def)

lemma backoff_le: "backoff cfg t u \<le> t + max (ttlMs cfg) MAX_BACKOFF_MS"
  by (auto simp: backoff_def)

section \<open>Every method keeps them\<close>

abbreviation src_spec where
  "src_spec x cfg n tree \<equiv> io_spec (truthful cfg n tree) (on_Inr (resp_ok x cfg tree)) (source_inv x cfg tree) reads_only"

lemma src_try:
  assumes "src_spec x cfg n tree (on_Inr Q) p" "\<And>a. Q a \<Longrightarrow> src_spec x cfg n tree (on_Inr R) (f a)"
  shows "src_spec x cfg n tree (on_Inr R) (io_try p f)"
  using assms(1) by (rule io_spec_try) (simp_all add: assms(2))

lemma http_get_spec:
  "src_spec x cfg n tree (on_Inr (\<lambda>res. \<exists>q. h_url q = url \<and> truthful cfg n tree q (Response res))) (http_get cfg url h)"
  by (auto simp: http_get_def io_simps reads_only_def get_request_def split: fetch_result.split)
    (metis http_request.select_convs(2))

lemma readOk_spec: "src_spec x cfg n tree (on_Inr (\<lambda>body. s_status res = 200 \<and> body = s_text res)) (readOk n res)"
  by (auto simp: readOk_def read_stream_def io_simps split: option.split)

lemma fetchHead_spec: "src_spec x cfg n tree (on_Inr (\<lambda>_. True)) (fetchHead cfg n)"
  unfolding fetchHead_def Let_def
  by (auto simp: io_simps intro!: src_try [OF http_get_spec] src_try [OF readOk_spec] split: option.split bool.split)

lemma fetchContents_spec:
  "src_spec x cfg n tree (on_Inr (\<lambda>(b, yml). tree sha path = Some (b, yml))) (fetchContents cfg n path sha)"
  unfolding fetchContents_def
proof (rule src_try [OF http_get_spec], elim exE conjE, rule src_try [OF readOk_spec], elim conjE)
  fix res q body
  assume "h_url q = contents_url cfg path sha" "truthful cfg n tree q (Response res)" "s_status res = 200" "body = s_text res"
  then have "tree sha path = Some (b, n_unbase64 n content)"
    if "n_json_parse n body = Some j" "contentsSchema j = Some (p, b, content)" for j p b content
    using that unfolding truthful_def by blast
  then show "src_spec x cfg n tree (on_Inr (\<lambda>(b, yml). tree sha path = Some (b, yml))) (parse_contents n path body)"
    by (auto simp: parse_contents_def io_simps split: option.split)
qed

lemma fetchFile_spec:
  "src_spec x cfg n tree (on_Inr (\<lambda>(b, c, yml). config_at x cfg tree sha b yml c)) (fetchFile x cfg n sha)"
  unfolding fetchFile_def
  by (rule src_try [OF fetchContents_spec]) (auto simp: parse_file_def config_at_def split: option.split sum.split)

lemma render_ok:
  assumes "snapshot_ok x cfg tree sn" "sn_confirmedAt sn \<le> t" "t - sn_confirmedAt sn < ttlMs cfg \<or> sn_confirmedAt sn = t"
  shows "resp_ok x cfg tree (render cfg sn None t)"
  using assms by (auto simp: resp_ok_def render_def snapshot_ok_def fresh_or_stale_def)

lemma stale_ok:
  assumes "snapshot_ok x cfg tree sn" "sn_confirmedAt sn \<le> t" "t - sn_confirmedAt sn \<le> staleMaxMs cfg"
  shows "resp_ok x cfg tree (render cfg sn (Some reason) t)"
  using assms by (auto simp: resp_ok_def render_def snapshot_ok_def fresh_or_stale_def)

lemma degraded_spec: "src_spec x cfg n tree (on_Inr (resp_ok x cfg tree)) (degraded cfg reason)"
  unfolding degraded_def by (auto simp: io_simps source_invD intro!: stale_ok split: option.split)

lemma refresh_failed_spec: "src_spec x cfg n tree (on_Inr (resp_ok x cfg tree)) (refresh_failed cfg e)"
  by (cases e) (auto simp: refresh_failed_def io_simps degraded_spec backoff_le intro: source_inv_snap_only)

lemma take_file_spec: "src_spec x cfg n tree (on_Inr (resp_ok x cfg tree)) (take_file x cfg n h)"
  unfolding take_file_def
proof (rule io_spec_bind [OF fetchFile_spec], goal_cases)
  case (1 r)
  show ?case
  proof (cases r)
    case (Inl e)
    then show ?thesis by (cases e) (auto simp: io_simps source_inv_def)
  next
    case (Inr f)
    then obtain b c yml where f: "f = (b, c, yml)" "config_at x cfg tree (hd_commitSha h) b yml c" using 1 by (cases f) auto
    have "snapshot_ok x cfg tree (new_snapshot h f t ref)" for t ref
      using f by (simp add: new_snapshot_def snapshot_ok_def)
    moreover have "sn_confirmedAt (new_snapshot h f t ref) = t" for t ref by (simp add: f new_snapshot_def)
    ultimately show ?thesis by (auto simp: Inr io_simps source_inv_def intro!: render_ok)
  qed
qed

lemma after_head_inv: "source_inv x cfg tree t s \<Longrightarrow> source_inv x cfg tree t (after_head h t s)"
  by (auto simp: source_inv_def after_head_def snapshot_ok_def MAX_BACKOFF_MS_def max_def split: option.splits if_splits)

lemma with_head_spec: "src_spec x cfg n tree (on_Inr (resp_ok x cfg tree)) (with_head x cfg n h)"
proof -
  have "resp_ok x cfg tree (render cfg p None t)"
    if "source_inv x cfg tree t s" "snap (after_head h t s) = Some p" "hd_commitSha h = sn_commitSha p"
      "head_known (hd_commitSha h) s = None" for t s p
  proof (rule render_ok)
    show "snapshot_ok x cfg tree p" using source_invD(1) [OF after_head_inv [OF that(1)] that(2)] .
    have "sn_confirmedAt p = t" using that(2-4) by (auto simp: after_head_def split: option.splits if_splits)
    then show "sn_confirmedAt p \<le> t" "t - sn_confirmedAt p < ttlMs cfg \<or> sn_confirmedAt p = t" by simp_all
  qed
  then show ?thesis
    by (auto simp: with_head_def io_simps after_head_inv take_file_spec split: option.split)
qed

lemma refresh_spec: "src_spec x cfg n tree (on_Inr (resp_ok x cfg tree)) (refresh x cfg n)"
  unfolding refresh_def
  by (rule io_spec_bind [OF src_try [OF fetchHead_spec with_head_spec]]) (auto simp: io_simps refresh_failed_spec split: sum.split)

lemma settled_ok: "on_Inr (resp_ok x cfg tree) r \<Longrightarrow> on_Inr (resp_ok x cfg tree) (settled r)"
  by (auto simp: settled_def split: sum.split source_exn.split)

lemma shared_refresh_spec: "src_spec x cfg n tree (on_Inr (resp_ok x cfg tree)) (shared_refresh x cfg n)"
  by (auto simp: shared_refresh_def io_simps settled_ok intro!: io_spec_bind [OF refresh_spec] split: option.split sum.split)

lemma ask_or_degrade_spec: "src_spec x cfg n tree (on_Inr (resp_ok x cfg tree)) (ask_or_degrade x cfg n)"
  by (simp add: ask_or_degrade_def io_simps degraded_spec shared_refresh_spec)

lemma getSsoConfig_spec: "src_spec x cfg n tree (on_Inr (resp_ok x cfg tree)) (github_getSsoConfig x cfg n)"
  by (auto simp: github_getSsoConfig_def io_simps ask_or_degrade_spec source_invD intro!: render_ok split: option.split)

section \<open>Bases\<close>

lemma base_of_ok: "snapshot_ok x cfg tree sn \<Longrightarrow> groups_at x tree (sn_commitSha sn) names \<Longrightarrow> base_ok x cfg tree (base_of cfg sn names)"
  by (simp add: base_ok_def base_of_def snapshot_ok_def)

lemma set_groups_inv:
  assumes "source_inv x cfg tree t s" "groups_at x tree (sn_commitSha sn) names"
  shows "source_inv x cfg tree t (set_groups_of sn names s)"
  using assms by (auto simp: source_inv_def set_groups_of_def snapshot_ok_def same_object_def)

lemma fetch_groups_spec:
  assumes "snapshot_ok x cfg tree sn"
  shows "src_spec x cfg n tree (on_Inr (base_ok x cfg tree)) (fetch_groups x cfg n sn)"
proof -
  have names: "src_spec x cfg n tree (on_Inr (groups_at x tree (sn_commitSha sn)))
     (io_try (fetchContents cfg n GROUPS_FILE_PATH (sn_commitSha sn)) (\<lambda>(_, groupsText).
         case parseGroupNames x groupsText (at_commit GROUPS_FILE_PATH (sn_commitSha sn)) of
           Inl e \<Rightarrow> throw (ConfigError e)
         | Inr names \<Rightarrow> give names))"
    by (rule src_try [OF fetchContents_spec]) (auto simp: io_simps groups_at_def split: sum.split)
  show ?thesis
    unfolding fetch_groups_def
  proof (rule io_spec_bind [OF names], goal_cases)
    case (1 r)
    then show ?case
      by (cases r) (auto simp: io_simps groups_failed_def backoff_le assms base_of_ok set_groups_inv
        intro: source_inv_snap_only split: source_exn.split)
  qed
qed

lemma base_from_spec: "src_spec x cfg n tree (on_Inr (base_ok x cfg tree)) (base_from x cfg n resp)"
  by (auto simp: base_from_def io_simps Let_def fetch_groups_spec source_invD(1) split: option.split)
    (metis base_of_ok snapshot_ok_def source_invD(1))

lemma readBase_spec: "src_spec x cfg n tree (on_Inr (base_ok x cfg tree)) (github_readBase x cfg n fresh)"
  unfolding github_readBase_def
  by (rule src_try [where Q = "resp_ok x cfg tree"])
    (simp_all add: io_simps shared_refresh_spec getSsoConfig_spec base_from_spec)

section \<open>The system of concurrent calls\<close>

type_synonym source_call = "(source, outcome, (source_exn, github_response + sso_base) res) io"

inductive source_started :: "ext \<Rightarrow> source_cfg \<Rightarrow> net \<Rightarrow> source_call \<Rightarrow> bool" for x cfg n where
  get_config: "source_started x cfg n (io_try (github_getSsoConfig x cfg n) (\<lambda>r. give (Inl r)))"
| read_base: "source_started x cfg n (io_try (github_readBase x cfg n fresh) (\<lambda>b. give (Inr b)))"

definition answer_ok :: "ext \<Rightarrow> source_cfg \<Rightarrow> git_tree \<Rightarrow> github_response + sso_base \<Rightarrow> bool" where
  "answer_ok x cfg tree a = (case a of Inl r \<Rightarrow> resp_ok x cfg tree r | Inr b \<Rightarrow> base_ok x cfg tree b)"

lemma source_started_spec:
  assumes "source_started x cfg n p"
  shows "src_spec x cfg n tree (on_Inr (answer_ok x cfg tree)) p"
  using assms
proof cases
  case get_config
  show ?thesis unfolding get_config by (rule src_try [OF getSsoConfig_spec]) (simp add: io_simps answer_ok_def)
next
  case (read_base fresh)
  show ?thesis unfolding read_base by (rule src_try [OF readBase_spec]) (simp add: io_simps answer_ok_def)
qed

interpretation source_service: service "truthful cfg n tree" "on_Inr (resp_ok x cfg tree)" "source_inv x cfg tree" reads_only
  "on_Inr (answer_ok x cfg tree)" "source_started x cfg n" for x cfg n tree
  by unfold_locales (auto intro: source_started_spec source_inv_later)

definition source_world :: "(source, outcome) io_world" where
  "source_world = \<lparr>io_clock = 0, io_shared = new_source, io_delivered = []\<rparr>"

definition source_reachable ::
  "ext \<Rightarrow> source_cfg \<Rightarrow> net \<Rightarrow> git_tree \<Rightarrow> (source, outcome) io_world \<times> source_call list \<Rightarrow> bool" where
  "source_reachable x cfg n tree c \<longleftrightarrow> (sys_step (io_step (truthful cfg n tree)) (source_started x cfg n))\<^sup>*\<^sup>* (source_world, []) c"

lemma source_inv_new: "source_inv x cfg tree 0 new_source"
  by (simp add: source_inv_def new_source_def MAX_BACKOFF_MS_def)

lemma source_reachable_inv: "source_reachable x cfg n tree (w, ts) \<Longrightarrow> source_inv x cfg tree (io_clock w) (io_shared w)"
  using source_service.reachable_ok(1) [of cfg n tree x source_world w ts]
  by (auto simp: source_reachable_def source_service.inv_def source_world_def source_inv_new)

lemma source_reachable_facts:
  assumes "source_reachable x cfg n tree (w, ts)" "p \<in> set ts"
  shows "source_inv x cfg tree (io_clock w) (io_shared w)" "p = Fetch q k \<Longrightarrow> reads_only q"
    "p = Done (Inr a) \<Longrightarrow> answer_ok x cfg tree a"
proof -
  have start: "source_service.inv x cfg tree source_world"
    by (simp add: source_service.inv_def source_world_def source_inv_new)
  note facts = source_service.reachable_service [OF assms(1) [unfolded source_reachable_def] start assms(2)]
  show "source_inv x cfg tree (io_clock w) (io_shared w)" using facts(1) by (simp add: source_service.inv_def)
  show "p = Fetch q k \<Longrightarrow> reads_only q" using facts(2) .
  show "p = Done (Inr a) \<Longrightarrow> answer_ok x cfg tree a" using facts(3) [of "Inr a"] by simp
qed

section \<open>One call alone\<close>

lemma run_refresh_failed:
  assumes "ttlMs cfg \<le> MAX_BACKOFF_MS"
  shows "t + ttlMs cfg \<le> src_retryAt (snd (io_run gh t (refresh_failed cfg e) s))"
  using assms by (cases e) (auto simp: refresh_failed_def io_simps degraded_def backoff_def split: option.split)

lemma run_take_file:
  assumes "io_run gh t (take_file x cfg n h) s = (Inr r, s')"
  shows "\<exists>sn. snap s' = Some sn \<and> sn_confirmedAt sn = t \<and> r = render cfg sn None t \<and> sn_commitSha sn = hd_commitSha h"
  using assms
  by (auto simp: take_file_def io_run_bind io_simps new_snapshot_def split: prod.splits sum.splits source_exn.splits)

lemma run_with_head:
  assumes "io_run gh t (with_head x cfg n h) s = (Inr r, s')"
  shows "\<exists>sn. snap s' = Some sn \<and> sn_confirmedAt sn = t \<and> r = render cfg sn None t \<and> sn_commitSha sn = hd_commitSha h"
proof (cases "head_known (hd_commitSha h) s = None \<and> (\<exists>p. snap (after_head h t s) = Some p \<and> hd_commitSha h = sn_commitSha p)")
  case True
  then obtain p where p: "head_known (hd_commitSha h) s = None" "snap (after_head h t s) = Some p" "hd_commitSha h = sn_commitSha p" by blast
  then have "sn_confirmedAt p = t" by (auto simp: after_head_def split: option.splits if_splits)
  with assms p show ?thesis by (simp add: with_head_def io_simps)
next
  case False
  with assms have "io_run gh t (take_file x cfg n h) (after_head h t s) = (Inr r, s')"
    by (auto simp: with_head_def io_simps split: option.splits if_splits)
  then show ?thesis by (rule run_take_file)
qed

text \<open>After a refresh, either the snapshot was confirmed now or the next call is held back for a TTL.\<close>

lemma run_refresh:
  assumes "ttlMs cfg \<le> MAX_BACKOFF_MS"
  shows "(\<exists>sn. snap (snd (io_run gh t (refresh x cfg n) s)) = Some sn \<and> sn_confirmedAt sn = t)
    \<or> t + ttlMs cfg \<le> src_retryAt (snd (io_run gh t (refresh x cfg n) s))"
proof -
  obtain r s' where inner: "io_run gh t (io_try (fetchHead cfg n) (with_head x cfg n)) s = (r, s')" by fastforce
  show ?thesis
  proof (cases r)
    case (Inl e)
    with inner run_refresh_failed [OF assms, of t gh e s'] show ?thesis by (simp add: refresh_def io_run_bind)
  next
    case (Inr resp)
    with inner obtain h s1 where "io_run gh t (with_head x cfg n h) s1 = (Inr resp, s')"
      by (auto simp: io_run_try split: prod.splits sum.splits)
    from run_with_head [OF this] inner Inr show ?thesis by (auto simp: refresh_def io_run_bind io_simps)
  qed
qed

lemma run_shared_refresh: "io_run gh t (shared_refresh x cfg n) s = io_run gh t (refresh x cfg n) s"
  by (simp add: shared_refresh_def io_run_bind split: prod.split)

lemma io_run_shared_state: "snd (io_run gh t (degraded cfg reason) s) = s" "io_sent gh t (degraded cfg reason) s = []"
  by (auto simp: degraded_def io_simps split: option.split)

lemma getSsoConfig_asks:
  assumes "io_sent gh t (github_getSsoConfig x cfg n) s \<noteq> []"
  shows "io_run gh t (github_getSsoConfig x cfg n) s = io_run gh t (refresh x cfg n) s"
  using assms
  by (auto simp: github_getSsoConfig_def ask_or_degrade_def io_simps io_run_shared_state run_shared_refresh split: option.splits if_splits)

lemma getSsoConfig_silent:
  assumes "(\<exists>sn. snap s = Some sn \<and> t - sn_confirmedAt sn < ttlMs cfg) \<or> t < src_retryAt s"
  shows "io_sent gh t (github_getSsoConfig x cfg n) s = []"
  using assms by (auto simp: github_getSsoConfig_def ask_or_degrade_def io_simps io_run_shared_state split: option.splits)

section \<open>Numbers of requests\<close>

lemma http_get_calls: "io_calls (http_get cfg url h) 1"
  by (simp add: http_get_def io_simps split: fetch_result.split)

lemma readOk_calls: "io_calls (readOk n res) 0"
  by (auto simp: readOk_def read_stream_def io_simps split: option.split)

lemma fetchHead_calls: "io_calls (fetchHead cfg n) 1"
proof -
  have ok: "io_calls (io_try (readOk n res) (\<lambda>body. if \<not> SHA_RE (js_trim body) then throw (e1 body) else give (e2 body))) 0" for res e1 e2
    by (rule io_calls_try_then [OF readOk_calls]) (simp add: io_simps)
  have "io_calls (io_try (http_get cfg url h) f) 1" if "\<And>res. io_calls (f res) 0" for url h and f :: "http_response \<Rightarrow> head src"
    by (rule io_calls_try_then [OF http_get_calls that])
  then show ?thesis
    unfolding fetchHead_def Let_def io_simps
    by (auto simp: io_simps ok simp del: One_nat_def split: option.split bool.split)
qed

lemma fetchContents_calls: "io_calls (fetchContents cfg n path sha) 1"
  unfolding fetchContents_def
proof (rule io_calls_try_then [OF http_get_calls], rule io_calls_try_then [OF readOk_calls])
  show "io_calls (parse_contents n path body) 0" for body
    by (auto simp: parse_contents_def io_simps split: option.split)
qed

lemma take_file_calls: "io_calls (take_file x cfg n h) 1"
  unfolding take_file_def
proof (rule io_calls_then)
  show "io_calls (fetchFile x cfg n (hd_commitSha h)) 1"
    unfolding fetchFile_def by (rule io_calls_try_then [OF fetchContents_calls]) simp
qed (auto simp: io_simps split: sum.split source_exn.split)

lemma degraded_calls: "io_calls (degraded cfg reason) k"
  by (auto simp: degraded_def io_simps split: option.split)

lemma refresh_calls: "io_calls (refresh x cfg n) 2"
  unfolding refresh_def
proof (rule io_calls_then)
  have "io_calls (with_head x cfg n h) 1" for h
    using take_file_calls by (auto simp: with_head_def io_simps split: option.split)
  from io_calls_try [OF fetchHead_calls this] show "io_calls (io_try (fetchHead cfg n) (with_head x cfg n)) 2"
    by (simp add: numeral_2_eq_2)
qed (auto simp: refresh_failed_def io_simps degraded_calls split: sum.split source_exn.split)

lemma shared_refresh_calls: "io_calls (shared_refresh x cfg n) 2"
  by (auto simp: shared_refresh_def io_simps intro!: io_calls_then [OF refresh_calls] split: option.split sum.split)

lemma getSsoConfig_calls: "io_calls (github_getSsoConfig x cfg n) 2"
  by (auto simp: github_getSsoConfig_def ask_or_degrade_def io_simps shared_refresh_calls degraded_calls split: option.split)

section \<open>A service that works\<close>

definition good_body :: "net \<Rightarrow> fetch_result \<Rightarrow> string \<Rightarrow> bool" where
  "good_body n a body \<longleftrightarrow> (\<exists>res. a = Response res \<and> s_status res = 200 \<and> \<not> exceeds (header_number n res ''content-length'') SOURCE_MAX_BODY_BYTES
     \<and> length body \<le> SOURCE_MAX_BODY_BYTES \<and> \<not> s_broken res \<and> s_text res = body)"

definition serves_head :: "source_cfg \<Rightarrow> net \<Rightarrow> (http_request \<Rightarrow> fetch_result) \<Rightarrow> string \<Rightarrow> bool" where
  "serves_head cfg n gh h \<longleftrightarrow> SHA_RE h \<and> (\<forall>q. h_url q = head_url cfg \<longrightarrow> (\<exists>body. good_body n (gh q) body \<and> js_trim body = h))"

definition serves_file :: "source_cfg \<Rightarrow> net \<Rightarrow> (http_request \<Rightarrow> fetch_result) \<Rightarrow> string \<Rightarrow> string \<Rightarrow> string \<Rightarrow> string \<Rightarrow> bool" where
  "serves_file cfg n gh path sha b yml \<longleftrightarrow> (\<forall>q. h_url q = contents_url cfg path sha \<longrightarrow>
     (\<exists>body j content. good_body n (gh q) body \<and> n_json_parse n body = Some j \<and> contentsSchema j = Some (path, b, content)
        \<and> n_unbase64 n content = yml))"

definition serves_garbage :: "source_cfg \<Rightarrow> net \<Rightarrow> (http_request \<Rightarrow> fetch_result) \<Rightarrow> string \<Rightarrow> string \<Rightarrow> bool" where
  "serves_garbage cfg n gh path sha \<longleftrightarrow> (\<forall>q. h_url q = contents_url cfg path sha \<longrightarrow>
     (\<exists>body. good_body n (gh q) body \<and> n_json_parse n body = None))"

lemma run_get_good:
  assumes "good_body n (gh (get_request cfg url hs t)) body"
  shows "\<exists>res. io_run gh t (http_get cfg url hs) s = (Inr res, s) \<and> s_status res = 200 \<and>
    (\<forall>t s. io_run gh t (readOk n res) s = (Inr body, s))"
  using assms by (auto simp: good_body_def http_get_def readOk_def read_stream_def io_simps)

lemma h_url_get_request [simp]: "h_url (get_request cfg url hs t) = url"
  by (simp add: get_request_def)

lemma run_fetchHead:
  assumes "serves_head cfg n gh h"
  shows "\<exists>hd. io_run gh t (fetchHead cfg n) s = (Inr hd, s) \<and> hd_commitSha hd = h"
proof -
  let ?hs = "(''Accept'', ''application/vnd.github.sha'') # (case Option.bind (snap s) sn_etag of None \<Rightarrow> [] | Some e \<Rightarrow> [(''If-None-Match'', e)])"
  from assms obtain body where body: "good_body n (gh (get_request cfg (head_url cfg) ?hs t)) body" "js_trim body = h" "SHA_RE h"
    unfolding serves_head_def by (metis h_url_get_request)
  from run_get_good [where gh = gh and s = s, OF body(1)] obtain res where res: "io_run gh t (http_get cfg (head_url cfg) ?hs) s = (Inr res, s)"
    "s_status res = 200" "\<And>t s. io_run gh t (readOk n res) s = (Inr body, s)" by blast
  show ?thesis using body(2,3) by (simp add: fetchHead_def Let_def io_simps io_run_try res)
qed

lemma run_fetchContents:
  assumes "serves_file cfg n gh path sha b yml"
  shows "io_run gh t (fetchContents cfg n path sha) s = (Inr (b, yml), s)"
proof -
  let ?hs = "[(''Accept'', ''application/vnd.github+json'')]"
  from assms obtain body j content where body: "good_body n (gh (get_request cfg (contents_url cfg path sha) ?hs t)) body"
    "n_json_parse n body = Some j" "contentsSchema j = Some (path, b, content)" "n_unbase64 n content = yml"
    unfolding serves_file_def by (metis h_url_get_request)
  from run_get_good [where gh = gh and s = s, OF body(1)] show ?thesis
    using body(2-4) by (auto simp: fetchContents_def io_run_try parse_contents_def io_simps)
qed

lemma run_fetchContents_garbage:
  assumes "serves_garbage cfg n gh path sha"
  shows "io_run gh t (fetchContents cfg n path sha) s = (Inl (ConfigError (SsoConfigError ''GitHub contents response is not JSON'')), s)"
proof -
  let ?hs = "[(''Accept'', ''application/vnd.github+json'')]"
  from assms obtain body where body: "good_body n (gh (get_request cfg (contents_url cfg path sha) ?hs t)) body" "n_json_parse n body = None"
    unfolding serves_garbage_def by (metis h_url_get_request)
  from run_get_good [where gh = gh and s = s, OF body(1)] show ?thesis
    using body(2) by (auto simp: fetchContents_def io_run_try parse_contents_def io_simps)
qed

text \<open>A refresh with a working service.\<close>

lemma run_refresh_good:
  assumes head: "serves_head cfg n gh h" and not_bad: "head_known h s = None"
    and read_file: "serves_file cfg n gh (t_path (sc_target cfg)) h b yml"
    and valid: "x_parse x yml = Some raw" "resolveSsoFile (x_parse_url x) raw (sc_baseDomain cfg) = Inr c"
  shows "\<exists>r s'. io_run gh t (refresh x cfg n) s = (Inr r, s') \<and> g_commitSha r = h \<and> g_fetchedAt r = t \<and> g_staleReason r = None"
proof -
  from run_fetchHead [OF head] obtain hd where hd: "io_run gh t (fetchHead cfg n) s = (Inr hd, s)" "hd_commitSha hd = h" by blast
  have "io_run gh t (fetchFile x cfg n h) s1 = (Inr (b, c, yml), s1)" for s1
    by (simp add: fetchFile_def io_run_try run_fetchContents [OF read_file] parse_file_def valid)
  then have "\<exists>r s'. io_run gh t (with_head x cfg n hd) s = (Inr r, s')"
    using hd(2) not_bad
    by (auto simp: with_head_def take_file_def io_run_bind io_simps split: option.splits)
  then obtain r s' where r: "io_run gh t (with_head x cfg n hd) s = (Inr r, s')" by blast
  from run_with_head [OF r] obtain sn where "r = render cfg sn None t" "sn_confirmedAt sn = t" "sn_commitSha sn = h"
    using hd(2) by blast
  with r hd(1) show ?thesis by (simp add: refresh_def io_run_bind io_run_try io_simps render_def)
qed

text \<open>A reply for the contents that is not JSON is remembered like an invalid file, and the commit is then refused
  without another look at it, also when GitHub serves a valid file for it.\<close>

lemma run_refresh_known:
  assumes "serves_head cfg n gh h" "head_known h s = Some e"
  shows "\<exists>s'. io_run gh t (refresh x cfg n) s = (Inl (ConfigError e), s') \<and> head_known h s' = Some e"
proof -
  from run_fetchHead [OF assms(1)] obtain hd where hd: "io_run gh t (fetchHead cfg n) s = (Inr hd, s)" "hd_commitSha hd = h" by blast
  show ?thesis
    using assms(2)
    by (simp add: refresh_def io_run_bind io_run_try hd with_head_def after_head_def io_simps refresh_failed_def)
      (simp add: head_known_def)
qed

lemma run_refresh_garbage:
  assumes "serves_head cfg n gh h" "serves_garbage cfg n gh (t_path (sc_target cfg)) h" "snap s = None" "invalid s = None"
  shows "head_known h (snd (io_run gh t (refresh x cfg n) s)) = Some (SsoConfigError ''GitHub contents response is not JSON'')"
proof -
  from run_fetchHead [OF assms(1)] obtain hd where hd: "io_run gh t (fetchHead cfg n) s = (Inr hd, s)" "hd_commitSha hd = h" by blast
  show ?thesis
    using assms(3,4)
    by (simp add: refresh_def io_run_bind io_run_try hd with_head_def head_known_def after_head_def take_file_def fetchFile_def
      run_fetchContents_garbage [OF assms(2)] io_simps refresh_failed_def)
qed

theorem garbled_reply_blocks_commit:
  assumes "serves_head cfg n gh h" "serves_garbage cfg n gh (t_path (sc_target cfg)) h"
    "serves_head cfg n gh' h" "serves_file cfg n gh' (t_path (sc_target cfg)) h b yml"
  shows "\<exists>s'. io_run gh' t' (refresh x cfg n) (snd (io_run gh t (refresh x cfg n) new_source))
    = (Inl (ConfigError (SsoConfigError ''GitHub contents response is not JSON'')), s')"
proof -
  have "snap new_source = None" "invalid new_source = None" by (simp_all add: new_source_def)
  from run_refresh_known [OF assms(3) run_refresh_garbage [OF assms(1,2) this]] show ?thesis by blast
qed

end
