(* ===== verification/GithubApp.thy ===== *)
theory GithubApp
  imports GithubSource SsoProg
begin

text \<open>
  The GitHub App client, \<open>domain-api/src/sso-change/githubApp.ts\<close>: \<open>GithubAppClient\<close>, the implementation of the calls
  of \<open>GitChangeOps\<close> that the change-request flow makes. Every method is a definition over HTTP requests; the fields
  of the object are the installation token and the end of the rate-limit back-off. The deadline of \<open>createChangePr\<close>,
  which the code carries in an \<open>AsyncLocalStorage\<close>, is the argument \<open>dl\<close>. Log lines are left out.
\<close>

section \<open>Configuration and state\<close>

record app_cfg =
  ac_target :: github_target
  timeoutMs :: ms
  createDeadlineMs :: ms
  appId :: string
  installationId :: string

definition DEFAULT_TIMEOUT_MS :: ms where "DEFAULT_TIMEOUT_MS = 10000"

definition default_app_cfg :: "string \<Rightarrow> string \<Rightarrow> app_cfg" where
  "default_app_cfg app inst = \<lparr>ac_target = SSO_GITHUB_TARGET, timeoutMs = DEFAULT_TIMEOUT_MS,
     createDeadlineMs = of_int CREATE_PR_DEADLINE_MS, appId = app, installationId = inst\<rparr>"

record app =
  app_token :: "(string \<times> ms) option"
  app_retryAt :: ms

definition new_app :: app where "new_app = \<lparr>app_token = None, app_retryAt = 0\<rparr>"

definition BRANCH_RE :: "string \<Rightarrow> bool" where
  "BRANCH_RE b \<longleftrightarrow> list_ex (\<lambda>e. is_prefix (''sso/'' @ e @ ''-'') b
     \<and> length (drop (length e + 5) b) = 12 \<and> list_all is_hex (drop (length e + 5) b)) [''flink'', ''filer'']"

definition READABLE_PATHS :: "string list" where "READABLE_PATHS = [SSO_FILE_PATH, GROUPS_FILE_PATH]"

definition APP_MAX_BODY_BYTES :: nat where "APP_MAX_BODY_BYTES = 2 * 1024 * 1024"

definition DEFAULT_BACKOFF_MS :: ms where "DEFAULT_BACKOFF_MS = 60000"

definition JWT_BACKDATE_S :: int where "JWT_BACKDATE_S = 60"

definition JWT_TTL_S :: int where "JWT_TTL_S = 540"

definition TOKEN_REFRESH_MARGIN_MS :: ms where "TOKEN_REFRESH_MARGIN_MS = 5 * 60000"

definition MAX_PR_PAGES :: nat where "MAX_PR_PAGES = 5"

record http_reply =
  r_status :: nat
  r_json :: "json option"
  r_link :: "string option"

type_synonym 'a api = "(app, (exn, string) res, (exn, 'a) res) io"

section \<open>Reading JSON\<close>

definition field :: "json option \<Rightarrow> string \<Rightarrow> json option" where
  "field j k = Option.bind j (\<lambda>v. json_field v k)"

text \<open>\<open>String(v)\<close>\<close>

fun js_string :: "json \<Rightarrow> string" where
  "js_string JNull = ''null''"
| "js_string (JBool b) = (if b then ''true'' else ''false'')"
| "js_string (JNum n) = show_int n"
| "js_string (JStr s) = s"
| "js_string (JArr vs) = join '','' (map (\<lambda>v. if v = JNull then [] else js_string v) vs)"
| "js_string (JObj _) = ''[object Object]''"

text \<open>The first \<open>n\<close> UTF-16 units.\<close>

fun js_take :: "nat \<Rightarrow> string \<Rightarrow> string" where
  "js_take n [] = []"
| "js_take n (c # s) = (if unit_count c \<le> n then c # js_take (n - unit_count c) s else [])"

definition errorText :: "json option \<Rightarrow> string" where
  "errorText j =
     js_take 300 (join '' | ''
       ((case field j ''message'' of Some (JStr m) \<Rightarrow> [m] | _ \<Rightarrow> []) @
        (case field j ''errors'' of
           Some (JArr es) \<Rightarrow> map (\<lambda>e. case e of
               JStr s \<Rightarrow> s
             | _ \<Rightarrow> (case json_field e ''message'' of None \<Rightarrow> [] | Some JNull \<Rightarrow> [] | Some v \<Rightarrow> js_string v)) es
         | _ \<Rightarrow> [])))"

definition toPr :: "net \<Rightarrow> json option \<Rightarrow> pr_info option" where
  "toPr n j =
     (case (field j ''number'', field j ''html_url'', field j ''state'') of
        (Some (JNum number), Some (JStr u), Some (JStr state)) \<Rightarrow>
          if state \<noteq> ''open'' \<and> state \<noteq> ''closed'' then None
          else (let merged = (case field j ''merged_at'' of Some (JStr _) \<Rightarrow> True | _ \<Rightarrow> False) \<or> field j ''merged'' = Some (JBool True)
            in Some \<lparr>pr_number = number, pr_url = u, pr_state = (if state = ''open'' then OpenPr else ClosedPr), pr_merged = merged,
              pr_mergeCommitSha = (case field j ''merge_commit_sha'' of Some (JStr m) \<Rightarrow> if merged \<and> SHA_RE m then Some m else None | _ \<Rightarrow> None),
              pr_createdAt = (case field j ''created_at'' of Some (JStr d) \<Rightarrow> map_option floor (n_date_parse n d) | _ \<Rightarrow> None)\<rparr>)
      | _ \<Rightarrow> None)"

definition isOurs :: "app_cfg \<Rightarrow> json option \<Rightarrow> bool" where
  "isOurs cfg j = (case field (field (field j ''head'') ''repo'') ''full_name'' of
     Some (JStr f) \<Rightarrow> to_lower f = to_lower (t_owner (ac_target cfg) @ ''/'' @ t_repo (ac_target cfg)) | _ \<Rightarrow> False)"

section \<open>Transport\<close>

definition gh_throw :: "string \<Rightarrow> 'a api" where
  "gh_throw m = throw (GithubUnavailableExn m)"

definition signJwt :: "app_cfg \<Rightarrow> net \<Rightarrow> ms \<Rightarrow> string" where
  "signJwt cfg n now =
     (let nowS = floor (now / 1000);
          hdr = n_base64url n ''{\"alg\":\"RS256\",\"typ\":\"JWT\"}'';
          payload = n_base64url n (''{\"iat\":'' @ show_int (nowS - JWT_BACKDATE_S) @ '',\"exp\":'' @ show_int (nowS + JWT_TTL_S)
            @ '',\"iss\":'' @ json_stringify (appId cfg) @ ''}'')
      in hdr @ ''.'' @ payload @ ''.'' @ n_base64url n (n_sign n (hdr @ ''.'' @ payload)))"

definition api_headers :: "string \<Rightarrow> json option \<Rightarrow> (string \<times> string) list" where
  "api_headers bearer body =
     [(''Authorization'', ''Bearer '' @ bearer), (''Accept'', ''application/vnd.github+json''), (''User-Agent'', ''beluga-manager''),
      (''X-GitHub-Api-Version'', ''2022-11-28'')] @
     (case body of Some _ \<Rightarrow> [(''Content-Type'', ''application/json'')] | None \<Rightarrow> [])"

definition readBody :: "net \<Rightarrow> http_response \<Rightarrow> string api" where
  "readBody n res =
     (if exceeds (case header res ''content-length'' of Some v \<Rightarrow> n_number n v | None \<Rightarrow> Finite 0) APP_MAX_BODY_BYTES
      then gh_throw ''response-too-large''
      else if s_broken res then gh_throw ''unreachable''
      else if APP_MAX_BODY_BYTES < js_length (s_text res) then gh_throw ''response-too-large''
      else give (s_text res))"

text \<open>The rate-limit answer: \<open>hold until\<close> sets the end of the back-off.\<close>

definition hold :: "ms \<Rightarrow> 'a api" where
  "hold until = modify (\<lambda>t s. s\<lparr>app_retryAt := min (max until (t + DEFAULT_BACKOFF_MS)) (t + MAX_BACKOFF_MS)\<rparr>) (gh_throw ''rate-limited'')"

definition rate_limit_answer :: "net \<Rightarrow> http_response \<Rightarrow> 'a api" where
  "rate_limit_answer n res =
     (case positive (header_number n res ''x-ratelimit-reset'') of
        Some reset \<Rightarrow> hold (reset * 1000)
      | None \<Rightarrow>
          (case positive (header_number n res ''retry-after'') of
             Some after \<Rightarrow> clock (\<lambda>t. hold (t + after * 1000))
           | None \<Rightarrow> hold 0))"

definition read_reply :: "net \<Rightarrow> http_response \<Rightarrow> http_reply api" where
  "read_reply n res =
     io_try (readBody n res) (\<lambda>body.
       if rate_limited res then rate_limit_answer n res
       else if 500 \<le> s_status res then gh_throw (''http-'' @ show_nat (s_status res))
       else give \<lparr>r_status = s_status res, r_json = (if body = [] then None else n_json_parse n body), r_link = header res ''link''\<rparr>)"

definition request :: "app_cfg \<Rightarrow> string \<Rightarrow> string \<Rightarrow> string \<Rightarrow> json option \<Rightarrow> ms \<Rightarrow> ms \<Rightarrow> http_request" where
  "request cfg meth path bearer body t timeout =
     \<lparr>h_method = meth, h_url = t_apiBase (ac_target cfg) @ path, h_headers = api_headers bearer body, h_body = body,
      h_at = t, h_timeoutMs = timeout\<rparr>"

definition send :: "app_cfg \<Rightarrow> net \<Rightarrow> ms option \<Rightarrow> string \<Rightarrow> string \<Rightarrow> string \<Rightarrow> json option \<Rightarrow> http_reply api" where
  "send cfg n dl meth path bearer body = look (\<lambda>t0 s.
     if t0 < app_retryAt s then gh_throw ''rate-limited''
     else clock (\<lambda>t.
       if (case dl of Some d \<Rightarrow> d - t \<le> 0 | None \<Rightarrow> False) then gh_throw ''deadline-exceeded''
       else Fetch (request cfg meth path bearer body t (case dl of Some d \<Rightarrow> min (timeoutMs cfg) (d - t) | None \<Rightarrow> timeoutMs cfg))
         (\<lambda>a. case a of TimedOut \<Rightarrow> gh_throw ''timeout'' | Unreachable \<Rightarrow> gh_throw ''unreachable'' | Response res \<Rightarrow> read_reply n res)))"

definition token_path :: "app_cfg \<Rightarrow> string" where
  "token_path cfg = ''/app/installations/'' @ encodeURIComponent (installationId cfg) @ ''/access_tokens''"

definition js_string_opt :: "json option \<Rightarrow> string" where
  "js_string_opt j = (case j of None \<Rightarrow> ''undefined'' | Some v \<Rightarrow> js_string v)"

definition mintToken :: "app_cfg \<Rightarrow> net \<Rightarrow> ms option \<Rightarrow> string api" where
  "mintToken cfg n dl = clock (\<lambda>t.
     io_try (send cfg n dl ''POST'' (token_path cfg) (signJwt cfg n t) (Some (JObj []))) (\<lambda>res.
       case (field (r_json res) ''token'', n_date_parse n (js_string_opt (field (r_json res) ''expires_at''))) of
         (Some (JStr tok), Some expiresAt) \<Rightarrow>
           if r_status res \<noteq> 201 \<or> tok = [] then gh_throw (''installation-token-'' @ show_nat (r_status res))
           else modify (\<lambda>_ s. s\<lparr>app_token := Some (tok, expiresAt - TOKEN_REFRESH_MARGIN_MS)\<rparr>) (give tok)
       | _ \<Rightarrow> gh_throw (''installation-token-'' @ show_nat (r_status res))))"

definition installationToken :: "app_cfg \<Rightarrow> net \<Rightarrow> ms option \<Rightarrow> string api" where
  "installationToken cfg n dl = look (\<lambda>t s.
     let mint = Join (\<lambda>r. case r of Some out \<Rightarrow> Done out
           | None \<Rightarrow> io_bind (mintToken cfg n dl) (\<lambda>out. Deliver out (Done out))) in
     case app_token s of
       Some (v, refreshAt) \<Rightarrow> if t < refreshAt then give v else mint
     | None \<Rightarrow> mint)"

definition repoPath :: "app_cfg \<Rightarrow> string \<Rightarrow> string" where
  "repoPath cfg p = ''/repos/'' @ encodeURIComponent (t_owner (ac_target cfg)) @ ''/'' @ encodeURIComponent (t_repo (ac_target cfg)) @ p"

definition gh_api :: "app_cfg \<Rightarrow> net \<Rightarrow> ms option \<Rightarrow> string \<Rightarrow> string \<Rightarrow> json option \<Rightarrow> http_reply api" where
  "gh_api cfg n dl meth p body =
     (let attempt = io_try (installationToken cfg n dl) (\<lambda>tok. send cfg n dl meth (repoPath cfg p) tok body) in
      io_try attempt (\<lambda>reply.
        if r_status reply = 401 then modify (\<lambda>_ s. s\<lparr>app_token := None\<rparr>) attempt else give reply))"

section \<open>Reads\<close>

definition guardBranch :: "string \<Rightarrow> 'a api \<Rightarrow> 'a api" where
  "guardBranch b p = (if BRANCH_RE b then p else throw (GitWriteExn RejectedWrite ''branch name is not an allowed sso/* branch''))"

definition app_findBranch :: "app_cfg \<Rightarrow> net \<Rightarrow> ms option \<Rightarrow> string \<Rightarrow> string option api" where
  "app_findBranch cfg n dl b = guardBranch b (
     io_try (gh_api cfg n dl ''GET'' (''/git/ref/heads/'' @ encode_path b) None) (\<lambda>res.
       if r_status res = 404 then give None
       else case field (field (r_json res) ''object'') ''sha'' of
         Some (JStr sha) \<Rightarrow> if r_status res \<noteq> 200 \<or> \<not> SHA_RE sha then gh_throw (''ref-'' @ show_nat (r_status res)) else give (Some sha)
       | _ \<Rightarrow> gh_throw (''ref-'' @ show_nat (r_status res))))"

definition our_prs :: "app_cfg \<Rightarrow> net \<Rightarrow> int option \<Rightarrow> json list \<Rightarrow> pr_info list" where
  "our_prs cfg n notBefore js =
     filter (\<lambda>p. case notBefore of None \<Rightarrow> True
         | Some nb \<Rightarrow> (case pr_createdAt p of Some t \<Rightarrow> nb \<le> t | None \<Rightarrow> False))
       (List.map_filter (\<lambda>j. if isOurs cfg (Some j) then toPr n (Some j) else None) js)"

definition choose_pr :: "pr_info list \<Rightarrow> pr_info option" where
  "choose_pr prs = (case find (\<lambda>p. pr_state p = OpenPr) prs of Some p \<Rightarrow> Some p
     | None \<Rightarrow> (case prs of [] \<Rightarrow> None | p # _ \<Rightarrow> Some p))"

definition app_findPrByBranch :: "app_cfg \<Rightarrow> net \<Rightarrow> ms option \<Rightarrow> string \<Rightarrow> int option \<Rightarrow> pr_info option api" where
  "app_findPrByBranch cfg n dl b notBefore = guardBranch b (
     io_try (gh_api cfg n dl ''GET'' (''/pulls?head='' @ encodeURIComponent (t_owner (ac_target cfg) @ '':'' @ b) @ ''&state=all&per_page=5'') None)
       (\<lambda>res. case (r_status res = 200, r_json res) of
          (True, Some (JArr js)) \<Rightarrow> give (choose_pr (our_prs cfg n notBefore js))
        | _ \<Rightarrow> gh_throw (''pulls-'' @ show_nat (r_status res))))"

definition app_getPr :: "app_cfg \<Rightarrow> net \<Rightarrow> int \<Rightarrow> pr_info option api" where
  "app_getPr cfg n number =
     (if number \<le> 0 then gh_throw ''invalid-pr-number''
      else io_try (gh_api cfg n None ''GET'' (''/pulls/'' @ show_int number) None) (\<lambda>res.
        if r_status res = 404 then give None
        else case (if r_status res = 200 then toPr n (r_json res) else None) of
          None \<Rightarrow> gh_throw (''pull-'' @ show_nat (r_status res))
        | Some pr \<Rightarrow> give (if isOurs cfg (r_json res) then Some pr else None)))"

definition compare_status_of :: "json option \<Rightarrow> compare_status option" where
  "compare_status_of j = (case j of
     Some (JStr s) \<Rightarrow> if s = ''identical'' then Some Identical else if s = ''ahead'' then Some Ahead
       else if s = ''behind'' then Some Behind else if s = ''diverged'' then Some Diverged else None
   | _ \<Rightarrow> None)"

definition app_compare :: "app_cfg \<Rightarrow> net \<Rightarrow> string \<Rightarrow> string \<Rightarrow> compare_status api" where
  "app_compare cfg n base tip =
     (if \<not> SHA_RE base \<or> \<not> SHA_RE tip then gh_throw ''invalid-sha''
      else io_try (gh_api cfg n None ''GET'' (''/compare/'' @ base @ ''...'' @ tip @ ''?per_page=1'') None) (\<lambda>res.
        case (r_status res = 200, compare_status_of (field (r_json res) ''status'')) of
          (True, Some st) \<Rightarrow> give st
        | _ \<Rightarrow> gh_throw (''compare-'' @ show_nat (r_status res))))"

definition open_sso_prs :: "app_cfg \<Rightarrow> json list \<Rightarrow> (int \<times> string) list" where
  "open_sso_prs cfg js = List.map_filter (\<lambda>p.
     case (field (field (Some p) ''head'') ''ref'', field (Some p) ''number'') of
       (Some (JStr ref), Some (JNum number)) \<Rightarrow> if is_prefix ''sso/'' ref \<and> isOurs cfg (Some p) then Some (number, ref) else None
     | _ \<Rightarrow> None) js"

text \<open>\<open>pages\<close> pages are left, the next one is number \<open>page\<close>.\<close>

fun list_pages :: "app_cfg \<Rightarrow> net \<Rightarrow> nat \<Rightarrow> nat \<Rightarrow> (int \<times> string) list api" where
  "list_pages cfg n 0 page = give []"
| "list_pages cfg n (Suc pages) page =
     io_try (gh_api cfg n None ''GET'' (''/pulls?state=open&per_page=100&page='' @ show_nat page) None) (\<lambda>res.
       case (r_status res = 200, r_json res) of
         (True, Some (JArr js)) \<Rightarrow>
           if (case r_link res of Some l \<Rightarrow> \<not> contains ''rel=\"next\"'' l | None \<Rightarrow> True) then give (open_sso_prs cfg js)
           else io_try (list_pages cfg n pages (Suc page)) (\<lambda>rest. give (open_sso_prs cfg js @ rest))
       | _ \<Rightarrow> gh_throw (''pulls-'' @ show_nat (r_status res)))"

definition app_listOpenSsoPrs :: "app_cfg \<Rightarrow> net \<Rightarrow> (int \<times> string) list api" where
  "app_listOpenSsoPrs cfg n = list_pages cfg n MAX_PR_PAGES 1"

definition contents_of :: "net \<Rightarrow> string \<Rightarrow> http_reply \<Rightarrow> file_at option" where
  "contents_of n path res =
     (case (field (r_json res) ''sha'', field (r_json res) ''content'') of
        (Some (JStr sha), Some (JStr content)) \<Rightarrow>
          if r_status res = 200 \<and> field (r_json res) ''path'' = Some (JStr path) \<and> SHA_RE sha
          then Some \<lparr>fa_blobSha = sha, fa_text = n_unbase64 n content\<rparr> else None
      | _ \<Rightarrow> None)"

definition readContents :: "app_cfg \<Rightarrow> net \<Rightarrow> ms option \<Rightarrow> string \<Rightarrow> string \<Rightarrow> file_at option api" where
  "readContents cfg n dl path ref =
     io_try (gh_api cfg n dl ''GET'' (''/contents/'' @ encode_path path @ ''?ref='' @ encodeURIComponent ref) None) (\<lambda>res.
       if r_status res = 404 then give None
       else case contents_of n path res of
         None \<Rightarrow> gh_throw (''contents-'' @ show_nat (r_status res))
       | Some f \<Rightarrow> give (Some f))"

definition app_readFile :: "app_cfg \<Rightarrow> net \<Rightarrow> string \<Rightarrow> string \<Rightarrow> file_at api" where
  "app_readFile cfg n path ref =
     (if path \<notin> set READABLE_PATHS then gh_throw ''path-not-readable''
      else io_try (readContents cfg n None path ref) (\<lambda>f. case f of None \<Rightarrow> gh_throw ''contents-404'' | Some v \<Rightarrow> give v))"

section \<open>Writes\<close>

definition app_closePr :: "app_cfg \<Rightarrow> net \<Rightarrow> int \<Rightarrow> pr_info api" where
  "app_closePr cfg n number =
     (if number \<le> 0 then gh_throw ''invalid-pr-number''
      else io_try (gh_api cfg n None ''PATCH'' (''/pulls/'' @ show_int number) (Some (JObj [(''state'', JStr ''closed'')]))) (\<lambda>res.
        case (if r_status res = 200 then toPr n (r_json res) else None) of
          None \<Rightarrow> gh_throw (''close-'' @ show_nat (r_status res))
        | Some pr \<Rightarrow> give pr))"

definition refuse :: "http_reply \<Rightarrow> string \<Rightarrow> 'a api" where
  "refuse reply step = throw (GitWriteExn (if r_status reply = 409 then Conflict else RejectedWrite)
     (step @ '' refused ('' @ show_nat (r_status reply) @ '')''))"

text \<open>1. The branch.\<close>

definition create_branch :: "app_cfg \<Rightarrow> net \<Rightarrow> ms option \<Rightarrow> create_change_pr \<Rightarrow> unit api" where
  "create_branch cfg n dl inp =
     io_try (gh_api cfg n dl ''POST'' ''/git/refs''
         (Some (JObj [(''ref'', JStr (''refs/heads/'' @ cp_branch inp)), (''sha'', JStr (cp_baseCommitSha inp))]))) (\<lambda>ref.
       if r_status ref = 201 then give ()
       else if r_status ref = 422 \<and> contains ''reference already exists'' (to_lower (errorText (r_json ref)))
       then io_try (app_findBranch cfg n dl (cp_branch inp)) (\<lambda>b. case b of None \<Rightarrow> refuse ref ''branch'' | Some _ \<Rightarrow> give ())
       else refuse ref ''branch'')"

text \<open>2. The file.\<close>

definition put_file :: "app_cfg \<Rightarrow> net \<Rightarrow> ms option \<Rightarrow> create_change_pr \<Rightarrow> file_at \<Rightarrow> unit api" where
  "put_file cfg n dl inp onBranch =
     io_try (gh_api cfg n dl ''PUT'' (''/contents/'' @ encode_path (cp_path inp))
         (Some (JObj [(''message'', JStr (cp_commitMessage inp)), (''content'', JStr (n_base64 n (cp_content inp))),
           (''sha'', JStr (fa_blobSha onBranch)), (''branch'', JStr (cp_branch inp))]))) (\<lambda>put.
       if r_status put = 200 \<or> r_status put = 201 then give ()
       else if r_status put = 409 \<or> r_status put = 422 then
         io_try (readContents cfg n dl (cp_path inp) (cp_branch inp)) (\<lambda>now.
           if map_option fa_text now = Some (cp_content inp) then give ()
           else throw (GitWriteExn Conflict (''content write refused ('' @ show_nat (r_status put) @ '')'')))
       else refuse put ''content write'')"

definition write_file :: "app_cfg \<Rightarrow> net \<Rightarrow> ms option \<Rightarrow> create_change_pr \<Rightarrow> unit api" where
  "write_file cfg n dl inp =
     io_try (readContents cfg n dl (cp_path inp) (cp_branch inp)) (\<lambda>found.
       case found of
         None \<Rightarrow> throw (GitWriteExn RejectedWrite ''sso.yaml is missing on the branch'')
       | Some onBranch \<Rightarrow>
           if fa_text onBranch = cp_content inp then give ()
           else if fa_blobSha onBranch \<noteq> cp_baseBlobSha inp
           then throw (GitWriteExn Conflict ''branch content changed outside this request'')
           else put_file cfg n dl inp onBranch)"

text \<open>3. The pull request.\<close>

definition open_pull :: "app_cfg \<Rightarrow> net \<Rightarrow> ms option \<Rightarrow> create_change_pr \<Rightarrow> created_pr api" where
  "open_pull cfg n dl inp =
     io_try (gh_api cfg n dl ''POST'' ''/pulls''
         (Some (JObj [(''title'', JStr (cp_title inp)), (''head'', JStr (cp_branch inp)), (''base'', JStr (t_branch (ac_target cfg))),
           (''body'', JStr (cp_body inp)), (''maintainer_can_modify'', JBool False)]))) (\<lambda>created.
       if r_status created = 201 then
         (case toPr n (r_json created) of
            None \<Rightarrow> gh_throw ''pull-malformed''
          | Some pr \<Rightarrow> give \<lparr>created_number = pr_number pr, created_url = pr_url pr\<rparr>)
       else if r_status created = 422 \<and> contains ''pull request already exists'' (to_lower (errorText (r_json created))) then
         io_try (app_findPrByBranch cfg n dl (cp_branch inp) (Some (cp_notBefore inp))) (\<lambda>existing.
           case existing of
             Some pr \<Rightarrow> give \<lparr>created_number = pr_number pr, created_url = pr_url pr\<rparr>
           | None \<Rightarrow> refuse created ''pull request'')
       else refuse created ''pull request'')"

definition createChangePrUnguarded :: "app_cfg \<Rightarrow> net \<Rightarrow> ms option \<Rightarrow> create_change_pr \<Rightarrow> created_pr api" where
  "createChangePrUnguarded cfg n dl inp = guardBranch (cp_branch inp) (
     if cp_path inp \<noteq> SSO_FILE_PATH then throw (GitWriteExn RejectedWrite ''path is not the allowed sso.yaml'')
     else if \<not> SHA_RE (cp_baseCommitSha inp) \<or> \<not> SHA_RE (cp_baseBlobSha inp)
     then throw (GitWriteExn RejectedWrite ''malformed base SHA'')
     else io_try (create_branch cfg n dl inp) (\<lambda>_.
       io_try (write_file cfg n dl inp) (\<lambda>_. open_pull cfg n dl inp)))"

definition as_write_error :: "exn \<Rightarrow> exn" where
  "as_write_error e = (case e of
     GitWriteExn k m \<Rightarrow> e
   | GithubUnavailableExn m \<Rightarrow> GitWriteExn UnknownWrite m
   | _ \<Rightarrow> GitWriteExn UnknownWrite ''unexpected error'')"

definition create_at :: "app_cfg \<Rightarrow> net \<Rightarrow> create_change_pr \<Rightarrow> ms \<Rightarrow> created_pr api" where
  "create_at cfg n inp t =
     io_bind (createChangePrUnguarded cfg n (Some (t + createDeadlineMs cfg)) inp) (\<lambda>r.
       case r of Inr pr \<Rightarrow> give pr | Inl e \<Rightarrow> throw (as_write_error e))"

definition app_createChangePr :: "app_cfg \<Rightarrow> net \<Rightarrow> create_change_pr \<Rightarrow> created_pr api" where
  "app_createChangePr cfg n inp = clock (create_at cfg n inp)"

end
