(* ===== verification/AppFacts.thy ===== *)
theory AppFacts
  imports GithubApp
begin

text \<open>
  What the GitHub App client guarantees, for any answers of GitHub and any number of concurrent calls: which requests
  it sends (\<open>call_ok\<close>, \<open>create_call\<close>), when (\<open>in_time\<close>), how many, and which errors it throws.
\<close>

section \<open>Requests\<close>

definition api_url :: "app_cfg \<Rightarrow> string \<Rightarrow> string" where
  "api_url cfg p = t_apiBase (ac_target cfg) @ repoPath cfg p"

definition mints_token :: "app_cfg \<Rightarrow> http_request \<Rightarrow> bool" where
  "mints_token cfg q \<longleftrightarrow> h_method q = ''POST'' \<and> h_url q = t_apiBase (ac_target cfg) @ token_path cfg \<and> h_body q = Some (JObj [])"

definition reads_repo :: "app_cfg \<Rightarrow> http_request \<Rightarrow> bool" where
  "reads_repo cfg q \<longleftrightarrow> h_method q = ''GET'' \<and> h_body q = None \<and> (\<exists>p. h_url q = api_url cfg p)"

definition makes_branch :: "app_cfg \<Rightarrow> string \<Rightarrow> string \<Rightarrow> http_request \<Rightarrow> bool" where
  "makes_branch cfg b sha q \<longleftrightarrow> h_method q = ''POST'' \<and> h_url q = api_url cfg ''/git/refs''
     \<and> h_body q = Some (JObj [(''ref'', JStr (''refs/heads/'' @ b)), (''sha'', JStr sha)])"

definition writes_file :: "app_cfg \<Rightarrow> string \<Rightarrow> string \<Rightarrow> http_request \<Rightarrow> bool" where
  "writes_file cfg b blob q \<longleftrightarrow> h_method q = ''PUT'' \<and> h_url q = api_url cfg (''/contents/'' @ encode_path SSO_FILE_PATH)
     \<and> (\<exists>m c. h_body q = Some (JObj [(''message'', m), (''content'', c), (''sha'', JStr blob), (''branch'', JStr b)]))"

definition opens_pull :: "app_cfg \<Rightarrow> string \<Rightarrow> http_request \<Rightarrow> bool" where
  "opens_pull cfg b q \<longleftrightarrow> h_method q = ''POST'' \<and> h_url q = api_url cfg ''/pulls''
     \<and> (\<exists>ti bo. h_body q = Some (JObj [(''title'', ti), (''head'', JStr b), (''base'', JStr (t_branch (ac_target cfg))),
          (''body'', bo), (''maintainer_can_modify'', JBool False)]))"

definition closes_pull :: "app_cfg \<Rightarrow> int \<Rightarrow> http_request \<Rightarrow> bool" where
  "closes_pull cfg m q \<longleftrightarrow> h_method q = ''PATCH'' \<and> h_url q = api_url cfg (''/pulls/'' @ show_int m)
     \<and> h_body q = Some (JObj [(''state'', JStr ''closed'')])"

text \<open>The requests of one write.\<close>

definition create_call :: "app_cfg \<Rightarrow> create_change_pr \<Rightarrow> http_request \<Rightarrow> bool" where
  "create_call cfg inp q \<longleftrightarrow> mints_token cfg q \<or> reads_repo cfg q
     \<or> BRANCH_RE (cp_branch inp) \<and> SHA_RE (cp_baseCommitSha inp) \<and> SHA_RE (cp_baseBlobSha inp) \<and>
       (makes_branch cfg (cp_branch inp) (cp_baseCommitSha inp) q \<or> writes_file cfg (cp_branch inp) (cp_baseBlobSha inp) q
        \<or> opens_pull cfg (cp_branch inp) q)"

text \<open>The requests of the whole client.\<close>

definition client_call :: "app_cfg \<Rightarrow> http_request \<Rightarrow> bool" where
  "client_call cfg q \<longleftrightarrow> mints_token cfg q \<or> reads_repo cfg q \<or> (\<exists>m > 0. closes_pull cfg m q)
     \<or> (\<exists>b. BRANCH_RE b \<and> ((\<exists>sha. SHA_RE sha \<and> makes_branch cfg b sha q) \<or> (\<exists>blob. SHA_RE blob \<and> writes_file cfg b blob q) \<or> opens_pull cfg b q))"

lemma create_client: "create_call cfg inp q \<Longrightarrow> client_call cfg q"
  unfolding create_call_def client_call_def by blast

definition in_time :: "app_cfg \<Rightarrow> ms option \<Rightarrow> http_request \<Rightarrow> bool" where
  "in_time cfg dl q \<longleftrightarrow> h_timeoutMs q \<le> timeoutMs cfg \<and> (\<forall>d. dl = Some d \<longrightarrow> h_at q < d \<and> h_at q + h_timeoutMs q \<le> d)"

section \<open>Errors and fields\<close>

definition unavailable_only :: "(exn, 'a) res \<Rightarrow> bool" where
  "unavailable_only r \<longleftrightarrow> (\<forall>e. r = Inl e \<longrightarrow> (\<exists>m. e = GithubUnavailableExn m))"

definition write_errors :: "(exn, 'a) res \<Rightarrow> bool" where
  "write_errors r \<longleftrightarrow> (\<forall>e. r = Inl e \<longrightarrow> (\<exists>m. e = GithubUnavailableExn m) \<or> (\<exists>k m. e = GitWriteExn k m))"

lemma unavailable_only_simps [simp]:
  "unavailable_only (Inr a)" "unavailable_only (Inl (GithubUnavailableExn m))" "write_errors (Inr a)"
  "write_errors (Inl (GithubUnavailableExn m))" "write_errors (Inl (GitWriteExn k m))"
  by (simp_all add: unavailable_only_def write_errors_def)

lemma unavailable_write: "unavailable_only r \<Longrightarrow> write_errors r"
  by (auto simp: unavailable_only_def write_errors_def)

definition app_inv :: "ms \<Rightarrow> app \<Rightarrow> bool" where
  "app_inv t s \<longleftrightarrow> 0 \<le> t \<and> app_retryAt s \<le> t + MAX_BACKOFF_MS"

abbreviation app_spec where
  "app_spec \<equiv> io_spec (\<lambda>_ _. True) unavailable_only app_inv"

lemma gh_throw_rules [io_simps]:
  "io_spec A J I P Q (gh_throw m) = Q (Inl (GithubUnavailableExn m))" "io_calls (gh_throw m) k"
  "io_run gh t (gh_throw m) s = (Inl (GithubUnavailableExn m), s)" "io_sent gh t (gh_throw m) s = []"
  by (simp_all add: gh_throw_def io_simps)

lemma app_try:
  assumes "app_spec P unavailable_only p" "\<And>a. app_spec P Q (f a)" "\<And>m. Q (Inl (GithubUnavailableExn m))"
  shows "app_spec P Q (io_try p f)"
  using assms(1) by (rule io_spec_try) (use assms(2,3) in \<open>auto simp: unavailable_only_def\<close>)

lemma app_try_write:
  assumes "app_spec P write_errors p" "\<And>a. app_spec P write_errors (f a)"
  shows "app_spec P write_errors (io_try p f)"
  using assms(1) by (rule io_spec_try) (use assms(2) in \<open>auto simp: write_errors_def\<close>)

section \<open>Transport\<close>

lemma hold_spec: "app_spec P unavailable_only (hold u)"
  by (auto simp: hold_def io_simps app_inv_def)

lemma read_reply_spec: "app_spec P unavailable_only (read_reply n res)"
  unfolding read_reply_def
  by (rule app_try) (auto simp: readBody_def rate_limit_answer_def hold_spec io_simps split: option.split)

lemma send_spec:
  assumes "\<And>t timeout. in_time cfg dl (request cfg meth path bearer body t timeout) \<Longrightarrow> P (request cfg meth path bearer body t timeout)"
  shows "app_spec P unavailable_only (send cfg n dl meth path bearer body)"
proof -
  have "P (request cfg meth path bearer body t (case dl of Some d \<Rightarrow> min (timeoutMs cfg) (d - t) | None \<Rightarrow> timeoutMs cfg))"
    if "\<not> (case dl of Some d \<Rightarrow> d - t \<le> 0 | None \<Rightarrow> False)" for t
    using that by (intro assms) (auto simp: in_time_def request_def split: option.splits)
  then show ?thesis
    by (auto simp: send_def io_simps read_reply_spec split: fetch_result.split)
qed

text \<open>What \<open>P\<close> has to admit for the calls of one method.\<close>

definition admits :: "app_cfg \<Rightarrow> ms option \<Rightarrow> (http_request \<Rightarrow> bool) \<Rightarrow> (http_request \<Rightarrow> bool) \<Rightarrow> bool" where
  "admits cfg dl C P \<longleftrightarrow> (\<forall>q. in_time cfg dl q \<and> (mints_token cfg q \<or> C q) \<longrightarrow> P q)"

lemma mintToken_spec: "admits cfg dl C P \<Longrightarrow> app_spec P unavailable_only (mintToken cfg n dl)"
  unfolding mintToken_def
  by (auto simp: io_simps admits_def mints_token_def request_def app_inv_def intro!: app_try send_spec split: option.split json.split)

lemma installationToken_spec: "admits cfg dl C P \<Longrightarrow> app_spec P unavailable_only (installationToken cfg n dl)"
  by (auto simp: installationToken_def io_simps Let_def intro!: io_spec_bind [OF mintToken_spec] split: option.split)

lemma gh_api_spec:
  assumes "admits cfg dl C P"
    and "\<And>bearer t timeout. C (request cfg meth (repoPath cfg p) bearer body t timeout)"
  shows "app_spec P unavailable_only (gh_api cfg n dl meth p body)"
proof -
  have attempt: "app_spec P unavailable_only (io_try (installationToken cfg n dl) (\<lambda>tok. send cfg n dl meth (repoPath cfg p) tok body))"
    by (rule app_try [OF installationToken_spec [OF assms(1)]]) (use assms in \<open>auto simp: admits_def intro!: send_spec\<close>)
  show ?thesis
    unfolding gh_api_def Let_def by (rule app_try [OF attempt]) (auto simp: io_simps attempt app_inv_def)
qed

section \<open>Methods\<close>

lemma repo_read [simp]: "reads_repo cfg (request cfg ''GET'' (repoPath cfg p) bearer None t timeout)"
  by (auto simp: reads_repo_def request_def api_url_def)

lemma read_api_spec:
  assumes "admits cfg dl (reads_repo cfg) P"
  shows "app_spec P unavailable_only (gh_api cfg n dl ''GET'' p None)"
  using assms by (rule gh_api_spec) simp

lemmas read_rules = io_simps read_api_spec

lemma guardBranch_spec:
  "(BRANCH_RE b \<Longrightarrow> app_spec P write_errors p) \<Longrightarrow> app_spec P write_errors (guardBranch b p)"
  by (simp add: guardBranch_def io_simps)

lemma findBranch_spec: "admits cfg dl (reads_repo cfg) P \<Longrightarrow> app_spec P write_errors (app_findBranch cfg n dl b)"
  unfolding app_findBranch_def
  by (auto simp: io_simps intro!: guardBranch_spec app_try read_api_spec split: option.split json.split)

lemma findPrByBranch_spec: "admits cfg dl (reads_repo cfg) P \<Longrightarrow> app_spec P write_errors (app_findPrByBranch cfg n dl b nb)"
  unfolding app_findPrByBranch_def
  by (auto simp: io_simps intro!: guardBranch_spec app_try read_api_spec split: option.split json.split bool.split)

lemma getPr_spec: "admits cfg None (reads_repo cfg) P \<Longrightarrow> app_spec P unavailable_only (app_getPr cfg n m)"
  unfolding app_getPr_def by (auto simp: io_simps intro!: app_try read_api_spec split: option.split)

lemma compare_spec: "admits cfg None (reads_repo cfg) P \<Longrightarrow> app_spec P unavailable_only (app_compare cfg n a b)"
  unfolding app_compare_def by (auto simp: io_simps intro!: app_try read_api_spec split: option.split bool.split)

lemma list_pages_spec: "admits cfg None (reads_repo cfg) P \<Longrightarrow> app_spec P unavailable_only (list_pages cfg n k page)"
proof (induction k arbitrary: page)
  case (Suc k)
  then show ?case
    by (auto simp: io_simps intro!: app_try read_api_spec split: option.split json.split bool.split)
qed (simp add: io_simps)

lemma readContents_spec: "admits cfg dl (reads_repo cfg) P \<Longrightarrow> app_spec P unavailable_only (readContents cfg n dl path ref)"
  unfolding readContents_def by (auto simp: io_simps intro!: app_try read_api_spec split: option.split)

lemma readFile_spec: "admits cfg None (reads_repo cfg) P \<Longrightarrow> app_spec P unavailable_only (app_readFile cfg n path ref)"
  unfolding app_readFile_def by (auto simp: io_simps intro!: app_try readContents_spec split: option.split)

lemma closePr_spec:
  assumes "admits cfg None (\<lambda>q. 0 < m \<and> closes_pull cfg m q) P"
  shows "app_spec P unavailable_only (app_closePr cfg n m)"
proof (cases "0 < m")
  case True
  then have "app_spec P unavailable_only
      (gh_api cfg n None ''PATCH'' (''/pulls/'' @ show_int m) (Some (JObj [(''state'', JStr ''closed'')])))"
    by (intro gh_api_spec [OF assms]) (simp add: closes_pull_def request_def api_url_def)
  then show ?thesis unfolding app_closePr_def by (auto simp: io_simps intro!: app_try split: option.split)
qed (simp add: app_closePr_def io_simps)

section \<open>The write\<close>

lemma admits_mono: "admits cfg dl C P \<Longrightarrow> (\<And>q. D q \<Longrightarrow> C q) \<Longrightarrow> admits cfg dl D P"
  by (auto simp: admits_def)

lemma write_api:
  assumes "admits cfg dl C P" "\<And>bearer t timeout. C (request cfg meth (repoPath cfg p) bearer body t timeout)"
    and "\<And>a. app_spec P write_errors (f a)"
  shows "app_spec P write_errors (io_try (gh_api cfg n dl meth p body) f)"
  by (rule app_try [OF gh_api_spec [OF assms(1,2)] assms(3)]) simp

lemma refuse_spec [io_simps]: "app_spec P write_errors (refuse r step)"
  by (simp add: refuse_def io_simps)

lemma create_spec:
  assumes "admits cfg dl (create_call cfg inp) P"
  shows "app_spec P write_errors (createChangePrUnguarded cfg n dl inp)"
proof -
  have reads: "admits cfg dl (reads_repo cfg) P"
    using assms by (rule admits_mono) (simp add: create_call_def)
  have "app_spec P write_errors (create_branch cfg n dl inp)" if ok: "BRANCH_RE (cp_branch inp)" "SHA_RE (cp_baseCommitSha inp)" "SHA_RE (cp_baseBlobSha inp)"
    unfolding create_branch_def
    by (rule write_api [OF assms])
      (auto simp: ok create_call_def makes_branch_def request_def api_url_def io_simps
        intro!: app_try_write findBranch_spec [OF reads] split: option.split)
  moreover have "app_spec P write_errors (put_file cfg n dl inp f)"
    if ok: "BRANCH_RE (cp_branch inp)" "SHA_RE (cp_baseCommitSha inp)" "SHA_RE (cp_baseBlobSha inp)" "cp_path inp = SSO_FILE_PATH"
      "fa_blobSha f = cp_baseBlobSha inp" for f
    unfolding put_file_def
    by (rule write_api [OF assms])
      (auto simp: ok create_call_def writes_file_def request_def api_url_def io_simps intro!: app_try readContents_spec [OF reads])
  moreover have "app_spec P write_errors (open_pull cfg n dl inp)" if ok: "BRANCH_RE (cp_branch inp)" "SHA_RE (cp_baseCommitSha inp)" "SHA_RE (cp_baseBlobSha inp)"
    unfolding open_pull_def
    by (rule write_api [OF assms])
      (auto simp: ok create_call_def opens_pull_def request_def api_url_def io_simps
        intro!: app_try_write findPrByBranch_spec [OF reads] split: option.split)
  ultimately show ?thesis
    by (auto simp: createChangePrUnguarded_def write_file_def io_simps intro!: guardBranch_spec app_try_write
      app_try [OF readContents_spec [OF reads]] split: option.split)
qed

section \<open>Numbers of requests\<close>

lemma read_reply_calls: "io_calls (read_reply n res) 0"
  unfolding read_reply_def
  by (rule io_calls_try_first) (auto simp: readBody_def rate_limit_answer_def hold_def io_simps split: option.split)

lemma send_calls: "io_calls (send cfg n dl meth path bearer body) 1"
  by (auto simp: send_def io_simps read_reply_calls split: fetch_result.split)

lemma installationToken_calls: "io_calls (installationToken cfg n dl) 1"
proof -
  have "io_calls (mintToken cfg n dl) 1"
    unfolding mintToken_def io_simps
    by (intro allI io_calls_try_then [OF send_calls]) (auto simp: io_simps split: option.split json.split)
  then have "io_calls (io_bind (mintToken cfg n dl) (\<lambda>out. Deliver out (Done out))) 1" by (rule io_calls_then) simp
  then show ?thesis by (auto simp: installationToken_def io_simps Let_def split: option.split)
qed

lemma gh_api_calls: "io_calls (gh_api cfg n dl meth p body) 4"
proof -
  have attempt: "io_calls (io_try (installationToken cfg n dl) (\<lambda>tok. send cfg n dl meth (repoPath cfg p) tok body)) 2"
    using io_calls_try [OF installationToken_calls send_calls] by (simp add: numeral_2_eq_2)
  have "io_calls (gh_api cfg n dl meth p body) (2 + 2)"
    unfolding gh_api_def Let_def by (rule io_calls_try [OF attempt]) (simp add: io_simps attempt)
  then show ?thesis by simp
qed

lemma refuse_calls [io_simps]: "io_calls (refuse r step) k"
  by (simp add: refuse_def io_simps)

lemma api_then:
  assumes "\<And>a. io_calls (f a) k"
  shows "io_calls (io_try (gh_api cfg n dl meth p body) f) (4 + k)"
  by (rule io_calls_try [OF gh_api_calls assms])

lemma guardBranch_calls: "io_calls p k \<Longrightarrow> io_calls (guardBranch b p) k"
  by (simp add: guardBranch_def io_simps)

lemma read_calls:
  "io_calls (app_findBranch cfg n dl b) 4" "io_calls (app_findPrByBranch cfg n dl b nb) 4" "io_calls (readContents cfg n dl path ref) 4"
  unfolding app_findBranch_def app_findPrByBranch_def readContents_def
  by (intro guardBranch_calls api_then [where k = 0, simplified];
      auto simp: io_simps split: option.split json.split bool.split)+

lemma create_calls: "io_calls (createChangePrUnguarded cfg n dl inp) 28"
proof -
  have "io_calls (create_branch cfg n dl inp) 8"
    unfolding create_branch_def
    by (rule api_then [where k = 4, simplified])
      (auto simp: io_simps intro!: io_calls_try_then [OF read_calls(1)] split: option.split)
  moreover have "io_calls (put_file cfg n dl inp f) 8" for f
    unfolding put_file_def
    by (rule api_then [where k = 4, simplified]) (auto simp: io_simps intro!: io_calls_try_then [OF read_calls(3)])
  then have "io_calls (write_file cfg n dl inp) 12"
    unfolding write_file_def
    by (intro io_calls_try [OF read_calls(3), where m = 8, simplified]) (auto simp: io_simps split: option.split)
  moreover have "io_calls (open_pull cfg n dl inp) 8"
    unfolding open_pull_def
    by (rule api_then [where k = 4, simplified])
      (auto simp: io_simps intro!: io_calls_try_then [OF read_calls(2)] split: option.split)
  ultimately have "io_calls (io_try (create_branch cfg n dl inp) (\<lambda>_. io_try (write_file cfg n dl inp) (\<lambda>_. open_pull cfg n dl inp))) (8 + (12 + 8))"
    by (intro io_calls_try)
  then show ?thesis by (simp add: createChangePrUnguarded_def guardBranch_def io_simps)
qed

section \<open>The system of concurrent calls\<close>

type_synonym app_call = "(app, (exn, string) res, (exn, unit) res) io"

definition discard :: "'a api \<Rightarrow> app_call" where
  "discard p = io_try p (\<lambda>_. give ())"

inductive app_started :: "app_cfg \<Rightarrow> net \<Rightarrow> app_call \<Rightarrow> bool" for cfg n where
  find_branch: "app_started cfg n (discard (app_findBranch cfg n None b))"
| find_pr: "app_started cfg n (discard (app_findPrByBranch cfg n None b nb))"
| get_pr: "app_started cfg n (discard (app_getPr cfg n m))"
| compare: "app_started cfg n (discard (app_compare cfg n a b))"
| list_open: "app_started cfg n (discard (app_listOpenSsoPrs cfg n))"
| read_file: "app_started cfg n (discard (app_readFile cfg n path ref))"
| close: "app_started cfg n (discard (app_closePr cfg n m))"
| create: "app_started cfg n (discard (app_createChangePr cfg n inp))"

lemma discard_spec: "app_spec P write_errors p \<Longrightarrow> app_spec P write_errors (discard p)"
  unfolding discard_def by (rule app_try_write) (simp_all add: io_simps)

lemma create_at_spec:
  assumes "admits cfg (Some (t + createDeadlineMs cfg)) (create_call cfg inp) P"
  shows "app_spec P (\<lambda>r. \<forall>e. r = Inl e \<longrightarrow> (\<exists>k m. e = GitWriteExn k m)) (create_at cfg n inp t)"
  unfolding create_at_def
  by (rule io_spec_bind [OF create_spec [OF assms]]) (auto simp: io_simps write_errors_def as_write_error_def split: sum.split)

lemma client_admits: "admits cfg dl C (client_call cfg)" if "\<And>q. C q \<Longrightarrow> client_call cfg q"
  using that by (auto simp: admits_def client_call_def)

lemma app_started_spec:
  assumes "app_started cfg n p"
  shows "app_spec (client_call cfg) write_errors p"
proof -
  have r: "admits cfg dl (reads_repo cfg) (client_call cfg)" for dl
    by (rule client_admits) (simp add: client_call_def)
  have w: "admits cfg dl (create_call cfg inp) (client_call cfg)" for dl inp
    by (rule client_admits) (rule create_client)
  have c: "admits cfg None (\<lambda>q. 0 < m \<and> closes_pull cfg m q) (client_call cfg)" for m
    by (rule client_admits) (auto simp: client_call_def)
  note weaker = io_spec_weaken [where P = "client_call cfg" and P' = "client_call cfg", OF _ _ unavailable_write]
  have create: "app_spec (client_call cfg) write_errors (app_createChangePr cfg n inp)" for inp
    unfolding app_createChangePr_def io_simps
    by (intro allI impI io_spec_weaken [OF create_at_spec [OF w]]) (auto simp: write_errors_def)
  show ?thesis
    using assms
    by cases (auto intro!: discard_spec findBranch_spec findPrByBranch_spec create weaker getPr_spec compare_spec readFile_spec
      closePr_spec list_pages_spec simp: r c app_listOpenSsoPrs_def)
qed

lemma app_inv_later: "app_inv t s \<Longrightarrow> t \<le> t' \<Longrightarrow> app_inv t' s"
  by (simp add: app_inv_def)

interpretation app_service: service "\<lambda>_ _. True" unavailable_only app_inv "client_call cfg" write_errors "app_started cfg n" for cfg n
  by unfold_locales (auto intro: app_started_spec app_inv_later)

definition app_world :: "(app, (exn, string) res) io_world" where
  "app_world = \<lparr>io_clock = 0, io_shared = new_app, io_delivered = []\<rparr>"

definition app_reachable :: "app_cfg \<Rightarrow> net \<Rightarrow> (app, (exn, string) res) io_world \<times> app_call list \<Rightarrow> bool" where
  "app_reachable cfg n c \<longleftrightarrow> (sys_step (io_step (\<lambda>_ _. True)) (app_started cfg n))\<^sup>*\<^sup>* (app_world, []) c"

lemma app_reachable_facts:
  assumes "app_reachable cfg n (w, ts)" "p \<in> set ts"
  shows "app_inv (io_clock w) (io_shared w)" "p = Fetch q k \<Longrightarrow> client_call cfg q"
proof -
  have start: "app_service.inv app_world"
    by (simp add: app_service.inv_def app_world_def new_app_def app_inv_def MAX_BACKOFF_MS_def)
  note facts = app_service.reachable_service [OF assms(1) [unfolded app_reachable_def] start assms(2)]
  show "app_inv (io_clock w) (io_shared w)" using facts(1) by (simp add: app_service.inv_def)
  show "p = Fetch q k \<Longrightarrow> client_call cfg q" using facts(2) .
qed

end
