(* ===== verification/AppWrite.thy ===== *)
theory AppWrite
  imports AppFacts
begin

text \<open>
  Writing to a repository that answers. \<open>git_server\<close> states the documented behaviour of the six GitHub calls that
  \<open>createChangePr\<close> uses, for one branch: creating a reference, reading it, reading and writing the file on it, opening
  a pull request and listing those of the branch. The server is any state machine with a view of that branch.
\<close>

text \<open>The file on the branch, as blob and text (\<open>None\<close>: no branch), and the pull request of the branch.\<close>

record repo_view =
  b_onBranch :: "(string \<times> string) option"
  b_pull :: "(int \<times> string) option"

definition ok_reply :: "net \<Rightarrow> fetch_result \<Rightarrow> nat \<Rightarrow> json \<Rightarrow> bool" where
  "ok_reply n a st j \<longleftrightarrow> (\<exists>res. a = Response res \<and> s_status res = st
     \<and> \<not> exceeds (case header res ''content-length'' of Some v \<Rightarrow> n_number n v | None \<Rightarrow> Finite 0) APP_MAX_BODY_BYTES
     \<and> \<not> s_broken res \<and> js_length (s_text res) \<le> APP_MAX_BODY_BYTES \<and> s_text res \<noteq> [] \<and> n_json_parse n (s_text res) = Some j)"

definition asks :: "app_cfg \<Rightarrow> string \<Rightarrow> string \<Rightarrow> json option \<Rightarrow> http_request \<Rightarrow> bool" where
  "asks cfg meth p body q \<longleftrightarrow> h_method q = meth \<and> h_url q = api_url cfg p \<and> h_body q = body"

text \<open>Every answer to the request has status and JSON, and leads to a state, that satisfy \<open>R\<close>.\<close>

definition answers_with ::
  "app_cfg \<Rightarrow> net \<Rightarrow> ('g \<Rightarrow> http_request \<Rightarrow> fetch_result \<times> 'g) \<Rightarrow> 'g \<Rightarrow> string \<Rightarrow> string \<Rightarrow> json option \<Rightarrow> (nat \<Rightarrow> json \<Rightarrow> 'g \<Rightarrow> bool) \<Rightarrow> bool" where
  "answers_with cfg n srv g meth p body R \<longleftrightarrow>
     (\<forall>q. asks cfg meth p body q \<longrightarrow> (\<exists>st j. st \<in> {200, 201, 422} \<and> ok_reply n (fst (srv g q)) st j \<and> R st j (snd (srv g q))))"

definition ref_body :: "create_change_pr \<Rightarrow> json" where
  "ref_body inp = JObj [(''ref'', JStr (''refs/heads/'' @ cp_branch inp)), (''sha'', JStr (cp_baseCommitSha inp))]"

definition put_body :: "net \<Rightarrow> create_change_pr \<Rightarrow> string \<Rightarrow> json" where
  "put_body n inp blob = JObj [(''message'', JStr (cp_commitMessage inp)), (''content'', JStr (n_base64 n (cp_content inp))),
     (''sha'', JStr blob), (''branch'', JStr (cp_branch inp))]"

definition pull_body :: "app_cfg \<Rightarrow> create_change_pr \<Rightarrow> json" where
  "pull_body cfg inp = JObj [(''title'', JStr (cp_title inp)), (''head'', JStr (cp_branch inp)), (''base'', JStr (t_branch (ac_target cfg))),
     (''body'', JStr (cp_body inp)), (''maintainer_can_modify'', JBool False)]"

definition head_query :: "app_cfg \<Rightarrow> string \<Rightarrow> string" where
  "head_query cfg b = ''/pulls?head='' @ encodeURIComponent (t_owner (ac_target cfg) @ '':'' @ b) @ ''&state=all&per_page=5''"

definition says :: "string \<Rightarrow> json \<Rightarrow> bool" where
  "says m j \<longleftrightarrow> contains m (to_lower (errorText (Some j)))"

definition git_server ::
  "app_cfg \<Rightarrow> net \<Rightarrow> create_change_pr \<Rightarrow> string \<Rightarrow> ('g \<Rightarrow> repo_view) \<Rightarrow> ('g \<Rightarrow> http_request \<Rightarrow> fetch_result \<times> 'g) \<Rightarrow> bool" where
  "git_server cfg n inp baseText view srv \<longleftrightarrow> (\<forall>g.
     answers_with cfg n srv g ''POST'' ''/git/refs'' (Some (ref_body inp)) (\<lambda>st j g'.
       if b_onBranch (view g) = None then st = 201 \<and> view g' = (view g)\<lparr>b_onBranch := Some (cp_baseBlobSha inp, baseText)\<rparr>
       else st = 422 \<and> says ''reference already exists'' j \<and> view g' = view g)
   \<and> (b_onBranch (view g) \<noteq> None \<longrightarrow>
       answers_with cfg n srv g ''GET'' (''/git/ref/heads/'' @ encode_path (cp_branch inp)) None (\<lambda>st j g'.
         st = 200 \<and> (\<exists>sha. field (field (Some j) ''object'') ''sha'' = Some (JStr sha) \<and> SHA_RE sha) \<and> view g' = view g))
   \<and> (\<forall>blob yml. b_onBranch (view g) = Some (blob, yml) \<longrightarrow>
       answers_with cfg n srv g ''GET'' (''/contents/'' @ encode_path SSO_FILE_PATH @ ''?ref='' @ encodeURIComponent (cp_branch inp)) None (\<lambda>st j g'.
         st = 200 \<and> SHA_RE blob \<and> field (Some j) ''path'' = Some (JStr SSO_FILE_PATH) \<and> field (Some j) ''sha'' = Some (JStr blob)
         \<and> (\<exists>c. field (Some j) ''content'' = Some (JStr c) \<and> n_unbase64 n c = yml) \<and> view g' = view g)
     \<and> answers_with cfg n srv g ''PUT'' (''/contents/'' @ encode_path SSO_FILE_PATH) (Some (put_body n inp blob)) (\<lambda>st j g'.
         (st = 200 \<or> st = 201) \<and> (\<exists>blob'. view g' = (view g)\<lparr>b_onBranch := Some (blob', cp_content inp)\<rparr>))
     \<and> answers_with cfg n srv g ''POST'' ''/pulls'' (Some (pull_body cfg inp)) (\<lambda>st j g'.
         if b_pull (view g) = None
         then st = 201 \<and> (\<exists>pr. toPr n (Some j) = Some pr \<and> view g' = (view g)\<lparr>b_pull := Some (pr_number pr, pr_url pr)\<rparr>)
         else st = 422 \<and> says ''pull request already exists'' j \<and> view g' = view g)
     \<and> (\<forall>m u. b_pull (view g) = Some (m, u) \<longrightarrow>
         answers_with cfg n srv g ''GET'' (head_query cfg (cp_branch inp)) None (\<lambda>st j g'.
           st = 200 \<and> (\<exists>js pr. j = JArr js \<and> choose_pr (our_prs cfg n (Some (cp_notBefore inp)) js) = Some pr \<and> (pr_number pr, pr_url pr) = (m, u))
           \<and> view g' = view g))))"

text \<open>What an earlier attempt that broke off anywhere leaves.\<close>

definition partial_write :: "create_change_pr \<Rightarrow> repo_view \<Rightarrow> bool" where
  "partial_write inp v \<longleftrightarrow> (case b_onBranch v of None \<Rightarrow> b_pull v = None | Some (blob, yml) \<Rightarrow> yml = cp_content inp \<or> blob = cp_baseBlobSha inp)"

text \<open>A client with a usable token that is not backing off.\<close>

definition app_ready :: "ms \<Rightarrow> app \<Rightarrow> bool" where
  "app_ready t s \<longleftrightarrow> app_retryAt s \<le> t \<and> (\<exists>tok r. app_token s = Some (tok, r) \<and> t < r)"

section \<open>One call\<close>

lemma asks_request: "asks cfg meth p body (request cfg meth (repoPath cfg p) bearer body t timeout)"
  by (simp add: asks_def request_def api_url_def)

lemma read_reply_ok:
  assumes "ok_reply n (Response res) st j" "st \<in> {200, 201, 422}"
  shows "io_serve srv t (read_reply n res) sg = (Inr \<lparr>r_status = st, r_json = Some j, r_link = header res ''link''\<rparr>, sg)"
proof -
  from assms(1) have body: "readBody n res = give (s_text res)" and st: "s_status res = st"
    and j: "s_text res \<noteq> []" "n_json_parse n (s_text res) = Some j"
    unfolding ok_reply_def readBody_def by auto
  from assms(2) st have "\<not> rate_limited res" "\<not> 500 \<le> s_status res" by (auto simp: rate_limited_def)
  then show ?thesis by (simp add: read_reply_def io_serve_try io_serve_small(2) body st j)
qed

lemma serve_api:
  assumes ready: "app_ready t s" and d: "t < d"
    and srv: "answers_with cfg n srv g meth p body R"
  shows "\<exists>st j link g'. io_serve srv t (gh_api cfg n (Some d) meth p body) (s, g) =
      (Inr \<lparr>r_status = st, r_json = Some j, r_link = link\<rparr>, s, g') \<and> R st j g' \<and> st \<in> {200, 201, 422}"
proof -
  from ready obtain tok r where tok: "app_token s = Some (tok, r)" "t < r" "\<not> t < app_retryAt s" by (auto simp: app_ready_def)
  let ?q = "request cfg meth (repoPath cfg p) tok body t (min (timeoutMs cfg) (d - t))"
  have "asks cfg meth p body ?q" by (rule asks_request)
  with srv have "\<exists>st j. st \<in> {200, 201, 422} \<and> ok_reply n (fst (srv g ?q)) st j \<and> R st j (snd (srv g ?q))"
    unfolding answers_with_def by simp
  then obtain st j where a: "st \<in> {200, 201, 422}" "ok_reply n (fst (srv g ?q)) st j" "R st j (snd (srv g ?q))"
    by (elim exE conjE)
  from a(2) obtain res where res: "fst (srv g ?q) = Response res" unfolding ok_reply_def by blast
  have "io_serve srv t (send cfg n (Some d) meth (repoPath cfg p) tok body) (s, g)
    = (Inr \<lparr>r_status = st, r_json = Some j, r_link = header res ''link''\<rparr>, s, snd (srv g ?q))"
    using tok d read_reply_ok [OF a(2) [unfolded res] a(1)] by (simp add: send_def io_simps res)
  moreover have "io_serve srv t (installationToken cfg n (Some d)) (s, g) = (Inr tok, s, g)"
    using tok by (simp add: installationToken_def io_simps Let_def)
  ultimately show ?thesis using a(1,3)
    by (auto simp: gh_api_def Let_def io_serve_try io_simps)
qed

section \<open>The three parts\<close>

lemma git_serverD:
  assumes "git_server cfg n inp baseText view srv"
  shows "answers_with cfg n srv g ''POST'' ''/git/refs'' (Some (ref_body inp)) (\<lambda>st j g'.
       if b_onBranch (view g) = None then st = 201 \<and> view g' = (view g)\<lparr>b_onBranch := Some (cp_baseBlobSha inp, baseText)\<rparr>
       else st = 422 \<and> says ''reference already exists'' j \<and> view g' = view g)"
    and "b_onBranch (view g) \<noteq> None \<Longrightarrow>
       answers_with cfg n srv g ''GET'' (''/git/ref/heads/'' @ encode_path (cp_branch inp)) None (\<lambda>st j g'.
         st = 200 \<and> (\<exists>sha. field (field (Some j) ''object'') ''sha'' = Some (JStr sha) \<and> SHA_RE sha) \<and> view g' = view g)"
    and "b_onBranch (view g) = Some (blob, yml) \<Longrightarrow>
       answers_with cfg n srv g ''GET'' (''/contents/'' @ encode_path SSO_FILE_PATH @ ''?ref='' @ encodeURIComponent (cp_branch inp)) None (\<lambda>st j g'.
         st = 200 \<and> SHA_RE blob \<and> field (Some j) ''path'' = Some (JStr SSO_FILE_PATH) \<and> field (Some j) ''sha'' = Some (JStr blob)
         \<and> (\<exists>c. field (Some j) ''content'' = Some (JStr c) \<and> n_unbase64 n c = yml) \<and> view g' = view g)"
    and "b_onBranch (view g) = Some (blob, yml) \<Longrightarrow>
       answers_with cfg n srv g ''PUT'' (''/contents/'' @ encode_path SSO_FILE_PATH) (Some (put_body n inp blob)) (\<lambda>st j g'.
         (st = 200 \<or> st = 201) \<and> (\<exists>blob'. view g' = (view g)\<lparr>b_onBranch := Some (blob', cp_content inp)\<rparr>))"
    and "b_onBranch (view g) = Some (blob, yml) \<Longrightarrow>
       answers_with cfg n srv g ''POST'' ''/pulls'' (Some (pull_body cfg inp)) (\<lambda>st j g'.
         if b_pull (view g) = None
         then st = 201 \<and> (\<exists>pr. toPr n (Some j) = Some pr \<and> view g' = (view g)\<lparr>b_pull := Some (pr_number pr, pr_url pr)\<rparr>)
         else st = 422 \<and> says ''pull request already exists'' j \<and> view g' = view g)"
    and "b_onBranch (view g) = Some (blob, yml) \<Longrightarrow> b_pull (view g) = Some (m, u) \<Longrightarrow>
         answers_with cfg n srv g ''GET'' (head_query cfg (cp_branch inp)) None (\<lambda>st j g'.
           st = 200 \<and> (\<exists>js pr. j = JArr js \<and> choose_pr (our_prs cfg n (Some (cp_notBefore inp)) js) = Some pr \<and> (pr_number pr, pr_url pr) = (m, u))
           \<and> view g' = view g)"
  using assms unfolding git_server_def by (elim allE [of _ g], simp only: simp_thms option.inject prod.inject)+

lemma serve_findBranch:
  assumes "git_server cfg n inp baseText view srv" "app_ready t s" "t < d" "BRANCH_RE (cp_branch inp)" "b_onBranch (view g) \<noteq> None"
  shows "\<exists>g' sha. io_serve srv t (app_findBranch cfg n (Some d) (cp_branch inp)) (s, g) = (Inr (Some sha), s, g') \<and> view g' = view g"
  using serve_api [OF assms(2,3) git_serverD(2) [OF assms(1,5)]] assms(4)
  by (auto simp: app_findBranch_def guardBranch_def io_serve_try io_simps)

lemma serve_branch:
  assumes "git_server cfg n inp baseText view srv" "app_ready t s" "t < d" "BRANCH_RE (cp_branch inp)"
  shows "\<exists>g'. io_serve srv t (create_branch cfg n (Some d) inp) (s, g) = (Inr (), s, g') \<and>
    view g' = (if b_onBranch (view g) = None then (view g)\<lparr>b_onBranch := Some (cp_baseBlobSha inp, baseText)\<rparr> else view g)"
proof -
  from serve_api [OF assms(2,3) git_serverD(1) [OF assms(1)], of g] obtain st j link g1 where
    post: "io_serve srv t (gh_api cfg n (Some d) ''POST'' ''/git/refs'' (Some (ref_body inp))) (s, g) =
        (Inr \<lparr>r_status = st, r_json = Some j, r_link = link\<rparr>, s, g1)"
    and r: "if b_onBranch (view g) = None then st = 201 \<and> view g1 = (view g)\<lparr>b_onBranch := Some (cp_baseBlobSha inp, baseText)\<rparr>
       else st = 422 \<and> says ''reference already exists'' j \<and> view g1 = view g" by blast
  show ?thesis
  proof (cases "b_onBranch (view g) = None")
    case True
    then show ?thesis using post r by (simp add: create_branch_def io_serve_try io_simps ref_body_def)
  next
    case False
    with r have g1: "st = 422" "says ''reference already exists'' j" "view g1 = view g" by simp_all
    from serve_findBranch [OF assms, of g1] False g1(3) obtain g' sha where
      "io_serve srv t (app_findBranch cfg n (Some d) (cp_branch inp)) (s, g1) = (Inr (Some sha), s, g')" "view g' = view g" by auto
    then show ?thesis using post g1 False
      by (simp add: create_branch_def io_serve_try io_simps ref_body_def says_def)
  qed
qed

lemma serve_write:
  assumes "git_server cfg n inp baseText view srv" "app_ready t s" "t < d" "cp_path inp = SSO_FILE_PATH"
    and file_is: "b_onBranch (view g) = Some (blob, yml)" "yml = cp_content inp \<or> blob = cp_baseBlobSha inp"
  shows "\<exists>g' blob'. io_serve srv t (write_file cfg n (Some d) inp) (s, g) = (Inr (), s, g') \<and>
    view g' = (view g)\<lparr>b_onBranch := Some (blob', cp_content inp)\<rparr>"
proof -
  from serve_api [OF assms(2,3) git_serverD(3) [OF assms(1) file_is(1)]] obtain g1 where
    read: "io_serve srv t (readContents cfg n (Some d) (cp_path inp) (cp_branch inp)) (s, g) =
      (Inr (Some \<lparr>fa_blobSha = blob, fa_text = yml\<rparr>), s, g1)" and g1: "view g1 = view g"
    by (auto simp: readContents_def contents_of_def assms(4) io_serve_try io_simps)
  show ?thesis
  proof (cases "yml = cp_content inp")
    case True
    have "view g1 = (view g)\<lparr>b_onBranch := Some (blob, cp_content inp)\<rparr>" using g1 file_is(1) True by (cases "view g") simp
    then show ?thesis using read True by (auto simp: write_file_def io_serve_try io_simps)
  next
    case False
    from file_is(1) g1 have "b_onBranch (view g1) = Some (blob, yml)" by simp
    from serve_api [OF assms(2,3) git_serverD(4) [OF assms(1) this]] obtain st j link g2 blob' where
      put: "io_serve srv t (gh_api cfg n (Some d) ''PUT'' (''/contents/'' @ encode_path SSO_FILE_PATH) (Some (put_body n inp blob))) (s, g1)
          = (Inr \<lparr>r_status = st, r_json = Some j, r_link = link\<rparr>, s, g2)"
      and "st = 200 \<or> st = 201" "view g2 = (view g)\<lparr>b_onBranch := Some (blob', cp_content inp)\<rparr>"
      unfolding g1 by blast
    then show ?thesis using read False file_is(2)
      by (auto simp: write_file_def put_file_def put_body_def assms(4) io_serve_try io_simps)
  qed
qed

lemma serve_open:
  assumes "git_server cfg n inp baseText view srv" "app_ready t s" "t < d" "BRANCH_RE (cp_branch inp)" "b_onBranch (view g) = Some (blob, yml)"
  shows "\<exists>g' m u. io_serve srv t (open_pull cfg n (Some d) inp) (s, g) = (Inr \<lparr>created_number = m, created_url = u\<rparr>, s, g') \<and>
    view g' = (view g)\<lparr>b_pull := Some (m, u)\<rparr> \<and> (b_pull (view g) = None \<or> b_pull (view g) = Some (m, u))"
proof -
  from serve_api [OF assms(2,3) git_serverD(5) [OF assms(1,5)]] obtain st j link g1 where
    post: "io_serve srv t (gh_api cfg n (Some d) ''POST'' ''/pulls'' (Some (pull_body cfg inp))) (s, g) =
        (Inr \<lparr>r_status = st, r_json = Some j, r_link = link\<rparr>, s, g1)"
    and r: "if b_pull (view g) = None
         then st = 201 \<and> (\<exists>pr. toPr n (Some j) = Some pr \<and> view g1 = (view g)\<lparr>b_pull := Some (pr_number pr, pr_url pr)\<rparr>)
         else st = 422 \<and> says ''pull request already exists'' j \<and> view g1 = view g" by blast
  show ?thesis
  proof (cases "b_pull (view g)")
    case None
    then show ?thesis using post r by (auto simp: open_pull_def pull_body_def io_serve_try io_simps)
  next
    case (Some mu)
    then obtain m u where mu: "b_pull (view g) = Some (m, u)" by (cases mu) auto
    with r have g1: "st = 422" "says ''pull request already exists'' j" "view g1 = view g" by simp_all
    have "b_onBranch (view g1) = Some (blob, yml)" "b_pull (view g1) = Some (m, u)" using g1(3) assms(5) mu by simp_all
    from serve_api [OF assms(2,3) git_serverD(6) [OF assms(1) this]] obtain js pr link' g2 where
      find: "io_serve srv t (gh_api cfg n (Some d) ''GET'' (head_query cfg (cp_branch inp)) None) (s, g1) =
          (Inr \<lparr>r_status = 200, r_json = Some (JArr js), r_link = link'\<rparr>, s, g2)"
      and pr: "choose_pr (our_prs cfg n (Some (cp_notBefore inp)) js) = Some pr" "pr_number pr = m" "pr_url pr = u" "view g2 = view g"
      unfolding g1(3) by auto
    have "view g2 = (view g)\<lparr>b_pull := Some (m, u)\<rparr>" using pr(4) mu by (cases "view g") simp
    then show ?thesis using post g1 find pr mu assms(4)
      by (auto simp: open_pull_def pull_body_def says_def app_findPrByBranch_def guardBranch_def head_query_def io_serve_try io_simps)
  qed
qed

section \<open>The whole write\<close>

lemma serve_create:
  assumes srv: "git_server cfg n inp baseText view srv" and ready: "app_ready t s" and d: "0 < createDeadlineMs cfg"
    and inp: "BRANCH_RE (cp_branch inp)" "cp_path inp = SSO_FILE_PATH" "SHA_RE (cp_baseCommitSha inp)" "SHA_RE (cp_baseBlobSha inp)"
    and start: "partial_write inp (view g)"
  shows "\<exists>m u g' blob. io_serve srv t (app_createChangePr cfg n inp) (s, g) = (Inr \<lparr>created_number = m, created_url = u\<rparr>, s, g')
    \<and> b_onBranch (view g') = Some (blob, cp_content inp) \<and> b_pull (view g') = Some (m, u) \<and> (b_pull (view g) = None \<or> b_pull (view g) = Some (m, u))"
proof -
  let ?d = "t + createDeadlineMs cfg"
  have td: "t < ?d" using d by simp
  from serve_branch [OF srv ready td inp(1), of g] obtain g1 where g1:
    "io_serve srv t (create_branch cfg n (Some ?d) inp) (s, g) = (Inr (), s, g1)"
    "view g1 = (if b_onBranch (view g) = None then (view g)\<lparr>b_onBranch := Some (cp_baseBlobSha inp, baseText)\<rparr> else view g)" by blast
  from start g1(2) obtain blob yml where f1: "b_onBranch (view g1) = Some (blob, yml)" "yml = cp_content inp \<or> blob = cp_baseBlobSha inp"
    by (cases "b_onBranch (view g)") (auto simp: partial_write_def)
  from serve_write [OF srv ready td inp(2) f1] obtain g2 blob2 where g2:
    "io_serve srv t (write_file cfg n (Some ?d) inp) (s, g1) = (Inr (), s, g2)"
    "view g2 = (view g1)\<lparr>b_onBranch := Some (blob2, cp_content inp)\<rparr>" by blast
  have "b_onBranch (view g2) = Some (blob2, cp_content inp)" by (simp add: g2(2))
  from serve_open [OF srv ready td inp(1) this] obtain g3 m u where g3:
    "io_serve srv t (open_pull cfg n (Some ?d) inp) (s, g2) = (Inr \<lparr>created_number = m, created_url = u\<rparr>, s, g3)"
    "view g3 = (view g2)\<lparr>b_pull := Some (m, u)\<rparr>" "b_pull (view g2) = None \<or> b_pull (view g2) = Some (m, u)" by blast
  have "b_pull (view g2) = b_pull (view g)" using g1(2) g2(2) by simp
  then show ?thesis using g1(1) g2 g3 inp
    by (simp add: app_createChangePr_def create_at_def createChangePrUnguarded_def guardBranch_def io_serve_bind io_serve_try io_simps)
qed

end
