(* ===== verification/GithubProperties.thy ===== *)
theory GithubProperties
  imports SourceFacts AppWrite SsoSample
begin

text \<open>
  The properties of the two GitHub clients, each followed by its witness: a source and a client that talk to a small
  repository with one commit.
\<close>

section \<open>A small repository\<close>

definition sample_sha :: string where "sample_sha = replicate 40 (CHR ''c'')"

definition sample_blob :: string where "sample_blob = replicate 40 (CHR ''b'')"

definition sample_contents :: json where
  "sample_contents = JObj [(''type'', JStr ''file''), (''encoding'', JStr ''base64''), (''path'', JStr ''gitops/values/sso.yaml''),
     (''sha'', JStr sample_blob), (''content'', JStr ''QQ=='')]"

definition sample_net :: net where
  "sample_net = \<lparr>n_json_parse = (\<lambda>s. if s = ''C'' then Some sample_contents else None), n_number = (\<lambda>_. NaN),
     n_date_parse = (\<lambda>_. None), n_base64 = (\<lambda>s. s), n_unbase64 = (\<lambda>_. BASE), n_base64url = (\<lambda>s. s), n_sign = (\<lambda>s. s)\<rparr>"

definition sample_reply :: "string \<Rightarrow> fetch_result" where
  "sample_reply body = Response \<lparr>s_status = 200, s_headers = [], s_text = body, s_broken = False\<rparr>"

definition sample_github :: "http_request \<Rightarrow> fetch_result" where
  "sample_github q = (if h_url q = head_url default_source_cfg then sample_reply sample_sha else sample_reply ''C'')"

definition sample_tree :: git_tree where "sample_tree = (\<lambda>_ _. Some (sample_blob, BASE))"

lemma sample_truthful: "truthful default_source_cfg sample_net sample_tree q (sample_github q)"
  by (auto simp: truthful_def sample_github_def sample_reply_def sample_tree_def sample_net_def sample_contents_def contentsSchema_def
    split: if_splits)

lemma sample_urls: "contents_url default_source_cfg path sha \<noteq> head_url default_source_cfg"
  by (simp add: contents_url_def head_url_def repoUrl_def)

lemma sample_serves_head: "serves_head default_source_cfg sample_net sample_github sample_sha"
proof -
  have "js_trim sample_sha = sample_sha" by code_simp
  moreover have "SHA_RE sample_sha" by code_simp
  moreover have "length sample_sha \<le> SOURCE_MAX_BODY_BYTES" by (simp add: sample_sha_def SOURCE_MAX_BODY_BYTES_def)
  ultimately show ?thesis
    by (auto simp: serves_head_def good_body_def sample_github_def sample_reply_def header_number_def header_def exceeds_def
      intro!: exI [of _ sample_sha])
qed

lemma sample_serves_file:
  "serves_file default_source_cfg sample_net sample_github (t_path (sc_target default_source_cfg)) sample_sha sample_blob BASE"
proof -
  have "contentsSchema sample_contents = Some (t_path (sc_target default_source_cfg), sample_blob, ''QQ=='')" by code_simp
  moreover have "good_body sample_net (sample_github q) ''C''" if "h_url q = contents_url default_source_cfg path sample_sha" for q path
    using that by (simp add: good_body_def sample_github_def sample_reply_def sample_urls header_number_def header_def exceeds_def
      SOURCE_MAX_BODY_BYTES_def)
  moreover have "n_json_parse sample_net ''C'' = Some sample_contents" "n_unbase64 sample_net ''QQ=='' = BASE"
    by (simp_all add: sample_net_def)
  ultimately show ?thesis unfolding serves_file_def by blast
qed

lemma sample_file_valid:
  "x_parse sample_ext BASE = Some (sample_file OLD_GROUPS)"
  "resolveSsoFile (x_parse_url sample_ext) (sample_file OLD_GROUPS) (sc_baseDomain default_source_cfg) = Inr sample_config"
  using sample_resolved by (simp_all add: sample_ext_def default_source_cfg_def DEFAULT_BASE_DOMAIN_def BASE_def EDITED_def)

lemma sample_start: "source_reachable sample_ext default_source_cfg sample_net sample_tree (source_world, [])"
  by (simp add: source_reachable_def)

section \<open>The read source\<close>

text \<open>C12. Whatever calls of the source are in flight and whatever GitHub answers, every configuration it hands out is the
  one that the SSO file of the named commit resolves to, with that file's blob; it is fresh for a TTL at most, and a
  stale one, marked as such, is never older than the stale window. The base of a write has file, configuration and
  group names of one commit.\<close>

theorem source_consistent:
  assumes "source_reachable x cfg n tree (w, ts)" "Done (Inr a) \<in> set ts"
  shows "case a of
      Inl r \<Rightarrow> (\<exists>yml. config_at x cfg tree (g_commitSha r) (g_blobSha r) yml (g_config r)) \<and> g_fetchedAt r \<le> g_renderedAt r
        \<and> (case g_staleReason r of
             None \<Rightarrow> g_renderedAt r - g_fetchedAt r < ttlMs cfg \<or> g_renderedAt r = g_fetchedAt r
           | Some _ \<Rightarrow> g_renderedAt r - g_fetchedAt r \<le> staleMaxMs cfg)
    | Inr b \<Rightarrow> config_at x cfg tree (commitSha b) (blobSha b) (sb_text b) (sb_config b) \<and> groups_at x tree (commitSha b) (groupNames b)"
  using source_reachable_facts(3) [OF assms refl]
  by (simp add: answer_ok_def resp_ok_def fresh_or_stale_def base_ok_def split: sum.splits)

theorem source_consistent_witness:
  "\<exists>w r. source_reachable sample_ext default_source_cfg sample_net sample_tree (w, [Done (Inr (Inl r))])
    \<and> (case Inl r :: github_response + sso_base of
      Inl r \<Rightarrow> (\<exists>yml. config_at sample_ext default_source_cfg sample_tree (g_commitSha r) (g_blobSha r) yml (g_config r)) \<and> g_fetchedAt r \<le> g_renderedAt r
        \<and> (case g_staleReason r of
             None \<Rightarrow> g_renderedAt r - g_fetchedAt r < ttlMs default_source_cfg \<or> g_renderedAt r = g_fetchedAt r
           | Some _ \<Rightarrow> g_renderedAt r - g_fetchedAt r \<le> staleMaxMs default_source_cfg)
    | Inr b \<Rightarrow> config_at sample_ext default_source_cfg sample_tree (commitSha b) (blobSha b) (sb_text b) (sb_config b)
        \<and> groups_at sample_ext sample_tree (commitSha b) (groupNames b))"
proof -
  let ?p = "io_try (github_getSsoConfig sample_ext default_source_cfg sample_net) (\<lambda>r. give (Inl r)) :: source_call"
  have "head_known sample_sha new_source = None" by (simp add: head_known_def new_source_def)
  from run_refresh_good [OF sample_serves_head this sample_serves_file sample_file_valid, of 0]
  have "\<exists>r s'. io_run sample_github 0 (refresh sample_ext default_source_cfg sample_net) new_source = (Inr r, s')" by blast
  then obtain r s' where "io_run sample_github 0 ?p new_source = (Inr (Inl r), s')"
    by (auto simp: io_run_try github_getSsoConfig_def ask_or_degrade_def new_source_def io_simps run_shared_refresh)
  with io_run_reachable [of "truthful default_source_cfg sample_net sample_tree" sample_github source_world 0
      "source_started sample_ext default_source_cfg sample_net" ?p] sample_truthful
  obtain w where steps: "(sys_step (io_step (truthful default_source_cfg sample_net sample_tree)) (source_started sample_ext default_source_cfg sample_net))\<^sup>*\<^sup>*
      (source_world, [?p]) (w, [Done (Inr (Inl r))])" by (auto simp: source_world_def)
  have "sys_step (io_step (truthful default_source_cfg sample_net sample_tree)) (source_started sample_ext default_source_cfg sample_net)
      (source_world, []) (source_world, [] @ [?p])" by (intro sys_step.spawn source_started.get_config)
  with steps have reach: "source_reachable sample_ext default_source_cfg sample_net sample_tree (w, [Done (Inr (Inl r))])"
    unfolding source_reachable_def by (auto intro: converse_rtranclp_into_rtranclp)
  from source_consistent [OF reach, of "Inl r"] reach show ?thesis by auto
qed

text \<open>C23. The rate-limit budget: one \<open>getSsoConfig\<close> sends at most two requests, and after one that asked GitHub, whatever
  GitHub answered, no call sends a request before a TTL has passed.\<close>

theorem source_request_budget:
  assumes "ttlMs cfg \<le> MAX_BACKOFF_MS" "io_sent gh t (github_getSsoConfig x cfg n) s \<noteq> []" "t' < t + ttlMs cfg"
  shows "length (io_sent gh t (github_getSsoConfig x cfg n) s) \<le> 2
    \<and> io_sent gh' t' (github_getSsoConfig x cfg n) (snd (io_run gh t (github_getSsoConfig x cfg n) s)) = []"
proof
  show "length (io_sent gh t (github_getSsoConfig x cfg n) s) \<le> 2" by (rule io_sent_calls [OF getSsoConfig_calls])
  show "io_sent gh' t' (github_getSsoConfig x cfg n) (snd (io_run gh t (github_getSsoConfig x cfg n) s)) = []"
    unfolding getSsoConfig_asks [OF assms(2)]
    by (rule getSsoConfig_silent) (use run_refresh [OF assms(1), of gh t x n s] assms(3) in auto)
qed

theorem source_request_budget_witness:
  "length (io_sent (\<lambda>_. TimedOut) 0 (github_getSsoConfig sample_ext default_source_cfg sample_net) new_source) \<le> 2
    \<and> io_sent sample_github 59999 (github_getSsoConfig sample_ext default_source_cfg sample_net)
        (snd (io_run (\<lambda>_. TimedOut) 0 (github_getSsoConfig sample_ext default_source_cfg sample_net) new_source)) = []"
  by (rule source_request_budget)
    (simp_all add: default_source_cfg_def MAX_BACKOFF_MS_def github_getSsoConfig_def ask_or_degrade_def shared_refresh_def refresh_def
      fetchHead_def http_get_def new_source_def io_simps io_try_def Let_def clock_def look_def)

text \<open>C27. Recovery: from every reachable state, whatever failed before, take the first call made when the longest back-off
  has passed, run alone while GitHub names the head of the branch and serves a valid file for it. Unless that very commit is
  remembered as invalid, the call returns it, fresh. If it is remembered (because its file was invalid, or because a reply for
  it was garbled, see \<open>garbled_reply_blocks_commit\<close>), the call fails with the remembered error, and after it every other
  head is admitted again, so that moving the branch recovers by the first case.\<close>

theorem source_recovers:
  assumes "source_reachable x cfg n tree (w, ts)" "io_clock w + max (ttlMs cfg) MAX_BACKOFF_MS \<le> t"
    "serves_head cfg n gh h" "serves_file cfg n gh (t_path (sc_target cfg)) h b yml"
    "x_parse x yml = Some raw" "resolveSsoFile (x_parse_url x) raw (sc_baseDomain cfg) = Inr c"
  shows "case head_known h (io_shared w) of
      None \<Rightarrow> \<exists>r. fst (io_run gh t (github_getSsoConfig x cfg n) (io_shared w)) = Inr r
        \<and> g_commitSha r = h \<and> g_fetchedAt r = t \<and> g_staleReason r = None
    | Some e \<Rightarrow> fst (io_run gh t (github_getSsoConfig x cfg n) (io_shared w)) = Inl (ConfigError e)
        \<and> (\<forall>h'. h' \<noteq> h \<longrightarrow> head_known h' (snd (io_run gh t (github_getSsoConfig x cfg n) (io_shared w))) = None)"
proof -
  have inv: "source_inv x cfg tree (io_clock w) (io_shared w)" by (rule source_reachable_inv [OF assms(1)])
  then have "\<not> t < src_retryAt (io_shared w)" using assms(2) by (simp add: source_inv_def)
  moreover have "\<not> t - sn_confirmedAt sn < ttlMs cfg" if "snap (io_shared w) = Some sn" for sn
    using source_invD(2) [OF inv that] assms(2) by simp
  ultimately have run: "io_run gh t (github_getSsoConfig x cfg n) (io_shared w) = io_run gh t (refresh x cfg n) (io_shared w)"
    by (auto simp: github_getSsoConfig_def ask_or_degrade_def io_simps run_shared_refresh split: option.split)
  show ?thesis
  proof (cases "head_known h (io_shared w)")
    case None
    from run_refresh_good [OF assms(3) None assms(4-6), of t] show ?thesis unfolding run using None by force
  next
    case (Some e)
    from run_refresh_known [OF assms(3) Some, of t x] obtain s' where
      s': "io_run gh t (refresh x cfg n) (io_shared w) = (Inl (ConfigError e), s')" "head_known h s' = Some e" by blast
    then have "head_known h' s' = None" if "h' \<noteq> h" for h' using that by (auto simp: head_known_def split: option.splits if_splits)
    then show ?thesis unfolding run using Some s'(1) by simp
  qed
qed

theorem source_recovers_witness:
  "\<exists>r. fst (io_run sample_github 3600000 (github_getSsoConfig sample_ext default_source_cfg sample_net) (io_shared source_world)) = Inr r
    \<and> g_commitSha r = sample_sha \<and> g_fetchedAt r = 3600000 \<and> g_staleReason r = None"
proof -
  have "io_clock source_world + max (ttlMs default_source_cfg) MAX_BACKOFF_MS \<le> 3600000"
    by (simp add: source_world_def default_source_cfg_def MAX_BACKOFF_MS_def)
  from source_recovers [OF sample_start this sample_serves_head sample_serves_file sample_file_valid]
  show ?thesis by (simp add: source_world_def new_source_def head_known_def)
qed

section \<open>The GitHub App client\<close>

text \<open>C11. The client has no way to merge: whatever it is asked for, by any number of concurrent callers, and whatever GitHub
  answers, every request it sends mints its token, reads, closes a pull request, or makes, with a well-formed commit,
  an \<open>sso/*\<close> branch, writes the SSO file on such a branch over a named blob, or opens a pull request from such a
  branch to the configured one.\<close>

theorem app_calls_confined:
  assumes "app_reachable cfg n (w, ts)" "Fetch q k \<in> set ts"
  shows "mints_token cfg q \<or> reads_repo cfg q \<or> (\<exists>m > 0. closes_pull cfg m q)
    \<or> (\<exists>b. BRANCH_RE b \<and> ((\<exists>sha. SHA_RE sha \<and> makes_branch cfg b sha q) \<or> (\<exists>blob. SHA_RE blob \<and> writes_file cfg b blob q)
         \<or> opens_pull cfg b q))"
  using app_reachable_facts(2) [OF assms refl] by (simp add: client_call_def)

theorem app_calls_confined_witness:
  "\<exists>w q k. app_reachable (default_app_cfg ''1'' ''2'') sample_net (w, [Fetch q k]) \<and>
    (mints_token (default_app_cfg ''1'' ''2'') q \<or> reads_repo (default_app_cfg ''1'' ''2'') q
     \<or> (\<exists>m > 0. closes_pull (default_app_cfg ''1'' ''2'') m q)
     \<or> (\<exists>b. BRANCH_RE b \<and> ((\<exists>sha. SHA_RE sha \<and> makes_branch (default_app_cfg ''1'' ''2'') b sha q)
         \<or> (\<exists>blob. SHA_RE blob \<and> writes_file (default_app_cfg ''1'' ''2'') b blob q) \<or> opens_pull (default_app_cfg ''1'' ''2'') b q)))"
proof -
  let ?cfg = "default_app_cfg ''1'' ''2''" and ?p = "discard (app_closePr (default_app_cfg ''1'' ''2'') sample_net 7)"
  have "io_sent (\<lambda>_. TimedOut) 0 ?p new_app \<noteq> []"
    by (simp add: discard_def app_closePr_def gh_api_def installationToken_def mintToken_def send_def new_app_def io_try_def
      Let_def clock_def look_def)
  then obtain q qs where "io_sent (\<lambda>_. TimedOut) 0 ?p (io_shared app_world) = q # qs"
    by (cases "io_sent (\<lambda>_. TimedOut) 0 ?p new_app") (simp_all add: app_world_def)
  moreover have "io_clock app_world \<le> 0" by (simp add: app_world_def)
  ultimately have "\<exists>w k. (sys_step (io_step (\<lambda>_ _. True)) (app_started ?cfg sample_net))\<^sup>*\<^sup>* (app_world, [?p]) (w, [Fetch q k])"
    by (intro io_reaches_fetch)
  then obtain w k where steps: "(sys_step (io_step (\<lambda>_ _. True)) (app_started ?cfg sample_net))\<^sup>*\<^sup>* (app_world, [?p]) (w, [Fetch q k])"
    by blast
  have "sys_step (io_step (\<lambda>_ _. True)) (app_started ?cfg sample_net) (app_world, []) (app_world, [] @ [?p])"
    by (intro sys_step.spawn app_started.close)
  with steps have reach: "app_reachable ?cfg sample_net (w, [Fetch q k])"
    unfolding app_reachable_def by (auto intro: converse_rtranclp_into_rtranclp)
  have "Fetch q k \<in> set [Fetch q k]" by simp
  note confined = app_calls_confined [OF reach this]
  show ?thesis by (rule exI [of _ w], rule exI [of _ q], rule exI [of _ k], rule conjI, rule reach, rule confined)
qed

text \<open>C26. One \<open>createChangePr\<close> started at \<open>t\<close>: its writes are those of its own input, over the base blob it names; each of its
  requests is sent before the overall deadline and has a time-out that ends by it; there are at most 28; and it throws
  nothing but a \<open>GitWriteError\<close>. The default deadline is shorter than the time after which the reconciler presumes the
  writer dead. (A token mint that another caller has in flight is awaited, not sent; it ends by that caller's time-out.)\<close>

theorem create_within_budget:
  "io_spec (\<lambda>_ _. True) unavailable_only app_inv
      (\<lambda>q. create_call cfg inp q \<and> h_at q < t + createDeadlineMs cfg \<and> h_at q + h_timeoutMs q \<le> t + createDeadlineMs cfg)
      (\<lambda>r. case r of Inr _ \<Rightarrow> True | Inl (GitWriteExn _ _) \<Rightarrow> True | Inl _ \<Rightarrow> False) (create_at cfg n inp t)
    \<and> io_calls (create_at cfg n inp t) 28
    \<and> createDeadlineMs (default_app_cfg app inst) < of_int SUBMITTED_GRACE_MS"
proof (intro conjI)
  have "admits cfg (Some (t + createDeadlineMs cfg)) (create_call cfg inp)
      (\<lambda>q. create_call cfg inp q \<and> h_at q < t + createDeadlineMs cfg \<and> h_at q + h_timeoutMs q \<le> t + createDeadlineMs cfg)"
    by (auto simp: admits_def in_time_def create_call_def)
  from create_at_spec [OF this] show "io_spec (\<lambda>_ _. True) unavailable_only app_inv
      (\<lambda>q. create_call cfg inp q \<and> h_at q < t + createDeadlineMs cfg \<and> h_at q + h_timeoutMs q \<le> t + createDeadlineMs cfg)
      (\<lambda>r. case r of Inr _ \<Rightarrow> True | Inl (GitWriteExn _ _) \<Rightarrow> True | Inl _ \<Rightarrow> False) (create_at cfg n inp t)"
    by (rule io_spec_weaken) (auto split: sum.split exn.split)
  show "io_calls (create_at cfg n inp t) 28"
    unfolding create_at_def by (rule io_calls_then [OF create_calls]) (auto simp: io_simps split: sum.split)
qed (simp add: default_app_cfg_def CREATE_PR_DEADLINE_MS_def SUBMITTED_GRACE_MS_def)

section \<open>A small server\<close>

definition server_input :: create_change_pr where
  "server_input = \<lparr>cp_branch = ''sso/flink-aaaaaaaaaaaa'', cp_baseCommitSha = sample_sha, cp_baseBlobSha = sample_blob,
     cp_path = SSO_FILE_PATH, cp_content = ''new'', cp_title = ''t'', cp_body = ''b'', cp_notBefore = 0, cp_commitMessage = ''m''\<rparr>"

definition pull_json :: json where
  "pull_json = JObj [(''number'', JNum 7), (''html_url'', JStr ''u''), (''state'', JStr ''open''), (''created_at'', JStr ''now''),
     (''head'', JObj [(''repo'', JObj [(''full_name'', JStr ''dasomel/beluga'')])])]"

definition contents_json :: "string \<Rightarrow> string \<Rightarrow> json" where
  "contents_json sha c = JObj [(''path'', JStr SSO_FILE_PATH), (''sha'', JStr sha), (''content'', JStr c)]"

definition server_replies :: "(string \<times> json) list" where
  "server_replies =
     [(''K'', JObj []), (''R'', JObj [(''message'', JStr ''Reference already exists'')]),
      (''E'', JObj [(''errors'', JArr [JObj [(''message'', JStr ''A pull request already exists for x'')]])]),
      (''S'', JObj [(''object'', JObj [(''sha'', JStr sample_sha)])]), (''O'', contents_json sample_blob ''old''),
      (''N'', contents_json sample_sha ''new''), (''P'', pull_json), (''L'', JArr [pull_json])]"

definition server_net :: net where
  "server_net = \<lparr>n_json_parse = map_of server_replies, n_number = (\<lambda>_. NaN), n_date_parse = (\<lambda>_. Some 5),
     n_base64 = (\<lambda>s. s), n_unbase64 = (\<lambda>s. s), n_base64url = (\<lambda>s. s), n_sign = (\<lambda>s. s)\<rparr>"

definition server_cfg :: app_cfg where "server_cfg = default_app_cfg ''1'' ''2''"

text \<open>The state: is there a branch, is the new file on it, is there a pull request.\<close>

type_synonym server = "bool \<times> bool \<times> bool"

fun server_view :: "server \<Rightarrow> repo_view" where
  "server_view (br, upd, pr) =
     \<lparr>b_onBranch = (if \<not> br then None else if upd then Some (sample_sha, ''new'') else Some (sample_blob, ''old'')),
      b_pull = (if pr then Some (7, ''u'') else None)\<rparr>"

definition server_says :: "nat \<Rightarrow> string \<Rightarrow> fetch_result" where
  "server_says st c = Response \<lparr>s_status = st, s_headers = [], s_text = c, s_broken = False\<rparr>"

definition contents_path :: string where
  "contents_path = ''/contents/'' @ encode_path SSO_FILE_PATH @ ''?ref='' @ encodeURIComponent (cp_branch server_input)"

definition ref_path :: string where "ref_path = ''/git/ref/heads/'' @ encode_path (cp_branch server_input)"

fun server_decide :: "server \<Rightarrow> http_request \<Rightarrow> (nat \<times> char) \<times> server" where
  "server_decide (br, upd, pr) q =
     (if h_method q = ''PUT'' then ((200, CHR ''K''), (True, True, pr))
      else if h_method q = ''POST'' then
        (if h_url q = api_url server_cfg ''/git/refs''
         then if br then ((422, CHR ''R''), (br, upd, pr)) else ((201, CHR ''K''), (True, False, pr))
         else if pr then ((422, CHR ''E''), (br, upd, pr)) else ((201, CHR ''P''), (br, upd, True)))
      else if h_url q = api_url server_cfg ref_path then ((200, CHR ''S''), (br, upd, pr))
      else if h_url q = api_url server_cfg contents_path then ((200, if upd then CHR ''N'' else CHR ''O''), (br, upd, pr))
      else ((200, CHR ''L''), (br, upd, pr)))"

definition server_step :: "server \<Rightarrow> http_request \<Rightarrow> fetch_result \<times> server" where
  "server_step g q = (case server_decide g q of ((st, c), g') \<Rightarrow> (server_says st [c], g'))"

lemma server_ok:
  assumes "map_of server_replies [c] = Some j"
  shows "ok_reply server_net (server_says st [c]) st j"
  using assms by (simp add: ok_reply_def server_says_def header_def exceeds_def server_net_def APP_MAX_BODY_BYTES_def js_length_def
    unit_count_def Let_def)

lemma server_texts:
  "map_of server_replies ''K'' = Some (JObj [])"
  "map_of server_replies ''R'' = Some (JObj [(''message'', JStr ''Reference already exists'')])"
  "map_of server_replies ''E'' = Some (JObj [(''errors'', JArr [JObj [(''message'', JStr ''A pull request already exists for x'')]])])"
  "map_of server_replies ''S'' = Some (JObj [(''object'', JObj [(''sha'', JStr sample_sha)])])"
  "map_of server_replies ''O'' = Some (contents_json sample_blob ''old'')"
  "map_of server_replies ''N'' = Some (contents_json sample_sha ''new'')"
  "map_of server_replies ''P'' = Some pull_json" "map_of server_replies ''L'' = Some (JArr [pull_json])"
  by (simp_all add: server_replies_def)

lemma server_facts:
  "says ''reference already exists'' (JObj [(''message'', JStr ''Reference already exists'')])"
  "says ''pull request already exists'' (JObj [(''errors'', JArr [JObj [(''message'', JStr ''A pull request already exists for x'')]])])"
  "SHA_RE sample_sha" "SHA_RE sample_blob" "BRANCH_RE (cp_branch server_input)"
  by code_simp+

definition server_pr :: pr_info where
  "server_pr = \<lparr>pr_number = 7, pr_url = ''u'', pr_state = OpenPr, pr_merged = False, pr_mergeCommitSha = None, pr_createdAt = Some 5\<rparr>"

lemma server_pulls:
  "toPr server_net (Some pull_json) = Some server_pr"
  "choose_pr (our_prs server_cfg server_net (Some (cp_notBefore server_input)) [pull_json]) = Some server_pr"
proof -
  show pr: "toPr server_net (Some pull_json) = Some server_pr"
    by (simp add: toPr_def pull_json_def field_def server_net_def server_pr_def)
  have "isOurs server_cfg (Some pull_json)" by code_simp
  then show "choose_pr (our_prs server_cfg server_net (Some (cp_notBefore server_input)) [pull_json]) = Some server_pr"
    using pr by (simp add: our_prs_def choose_pr_def server_input_def server_pr_def map_filter_simps)
qed

lemma server_urls:
  "api_url server_cfg ''/pulls'' \<noteq> api_url server_cfg ''/git/refs''"
  "api_url server_cfg contents_path \<noteq> api_url server_cfg ref_path"
  "api_url server_cfg (head_query server_cfg b) \<noteq> api_url server_cfg ref_path"
  "api_url server_cfg (head_query server_cfg b) \<noteq> api_url server_cfg contents_path"
  by (simp_all add: api_url_def repoPath_def contents_path_def ref_path_def head_query_def)

lemma server_answers:
  assumes "\<And>q. asks server_cfg meth p body q \<Longrightarrow> case server_decide g q of ((st, c), g') \<Rightarrow>
      (st = 200 \<or> st = 201 \<or> st = 422) \<and> (case map_of server_replies [c] of Some j \<Rightarrow> R st j g' | None \<Rightarrow> False)"
  shows "answers_with server_cfg server_net server_step g meth p body R"
  unfolding answers_with_def
proof (intro allI impI)
  fix q
  assume "asks server_cfg meth p body q"
  from assms [OF this] obtain st c g' j where q: "server_decide g q = ((st, c), g')" "st = 200 \<or> st = 201 \<or> st = 422"
    "map_of server_replies [c] = Some j" "R st j g'" by (auto split: prod.splits option.splits)
  show "\<exists>st j. st \<in> {200, 201, 422} \<and> ok_reply server_net (fst (server_step g q)) st j \<and> R st j (snd (server_step g q))"
    by (rule exI [of _ st], rule exI [of _ j]) (use q server_ok [OF q(3)] in \<open>simp add: server_step_def\<close>)
qed

lemma server_is_git_server: "git_server server_cfg server_net server_input ''old'' server_view server_step"
  unfolding git_server_def
proof (intro allI conjI impI, goal_cases)
  case (1 g)
  obtain br upd pr where g: "g = (br, upd, pr)" by (cases g)
  show ?case by (rule server_answers) (simp add: g asks_def server_texts server_facts server_input_def)
next
  case (2 g)
  obtain br upd pr where g: "g = (br, upd, pr)" by (cases g)
  show ?case by (rule server_answers) (simp add: g asks_def ref_path_def server_texts server_facts field_def)
next
  case (3 g blob yml)
  obtain br upd pr where g: "g = (br, upd, pr)" by (cases g)
  with 3 have "br" "blob = (if upd then sample_sha else sample_blob)" "yml = (if upd then ''new'' else ''old'')"
    by (auto split: if_splits)
  then show ?case
    unfolding contents_path_def [symmetric]
    by (intro server_answers)
      (simp add: g asks_def server_texts server_facts server_urls field_def contents_json_def server_net_def)
next
  case (4 g blob yml)
  obtain br upd pr where g: "g = (br, upd, pr)" by (cases g)
  show ?case by (rule server_answers) (simp add: g asks_def server_texts server_input_def)
next
  case (5 g blob yml)
  obtain br upd pr where g: "g = (br, upd, pr)" by (cases g)
  show ?case by (rule server_answers) (simp add: g asks_def server_texts server_facts server_urls server_pulls server_pr_def)
next
  case (6 g blob yml m u)
  obtain br upd pr where g: "g = (br, upd, pr)" by (cases g)
  with 6 have "pr" "m = 7" "u = ''u''" by (auto split: if_splits)
  then show ?case by (intro server_answers) (simp add: g asks_def server_texts server_urls server_pulls server_pr_def)
qed

section \<open>The write\<close>

text \<open>C10. Convergence and idempotency of the write: against a repository that answers as documented, from whatever an
  earlier attempt left (no branch, the base or the new file on it, a pull request or none), \<open>createChangePr\<close> ends
  with the new file on the branch and one pull request, which it returns; it is the one that was there, if any, and
  calling again returns the same.\<close>

theorem write_converges:
  assumes "git_server cfg n inp baseText obs srv" "app_ready t s" "0 < createDeadlineMs cfg" "BRANCH_RE (cp_branch inp)"
    "cp_path inp = SSO_FILE_PATH" "SHA_RE (cp_baseCommitSha inp)" "SHA_RE (cp_baseBlobSha inp)" "partial_write inp (obs g)"
  shows "\<exists>pr g' blob g''. io_serve srv t (app_createChangePr cfg n inp) (s, g) = (Inr pr, s, g')
    \<and> b_onBranch (obs g') = Some (blob, cp_content inp) \<and> b_pull (obs g') = Some (created_number pr, created_url pr)
    \<and> b_pull (obs g) \<in> {None, b_pull (obs g')} \<and> io_serve srv t (app_createChangePr cfg n inp) (s, g') = (Inr pr, s, g'')"
proof -
  from serve_create [OF assms] obtain m u g' blob where first:
    "io_serve srv t (app_createChangePr cfg n inp) (s, g) = (Inr \<lparr>created_number = m, created_url = u\<rparr>, s, g')"
    "b_onBranch (obs g') = Some (blob, cp_content inp)" "b_pull (obs g') = Some (m, u)" "b_pull (obs g) = None \<or> b_pull (obs g) = Some (m, u)"
    by blast
  have "partial_write inp (obs g')" by (simp add: partial_write_def first(2))
  from serve_create [OF assms(1-7) this] obtain g'' where
    "io_serve srv t (app_createChangePr cfg n inp) (s, g') = (Inr \<lparr>created_number = m, created_url = u\<rparr>, s, g'')"
    using first(3) by auto
  with first show ?thesis by (intro exI [of _ "\<lparr>created_number = m, created_url = u\<rparr>"]) auto
qed

theorem write_converges_witness:
  "\<exists>pr g' blob g''. io_serve server_step 0 (app_createChangePr server_cfg server_net server_input)
      (\<lparr>app_token = Some (''tok'', 1), app_retryAt = 0\<rparr>, (True, False, True)) = (Inr pr, \<lparr>app_token = Some (''tok'', 1), app_retryAt = 0\<rparr>, g')
    \<and> b_onBranch (server_view g') = Some (blob, cp_content server_input)
    \<and> b_pull (server_view g') = Some (created_number pr, created_url pr)
    \<and> b_pull (server_view (True, False, True)) \<in> {None, b_pull (server_view g')}
    \<and> io_serve server_step 0 (app_createChangePr server_cfg server_net server_input)
      (\<lparr>app_token = Some (''tok'', 1), app_retryAt = 0\<rparr>, g') = (Inr pr, \<lparr>app_token = Some (''tok'', 1), app_retryAt = 0\<rparr>, g'')"
proof (rule write_converges [OF server_is_git_server])
  show "BRANCH_RE (cp_branch server_input)" by (rule server_facts)
  show "app_ready 0 \<lparr>app_token = Some (''tok'', 1), app_retryAt = 0\<rparr>" by (simp add: app_ready_def)
  show "0 < createDeadlineMs server_cfg" by (simp add: server_cfg_def default_app_cfg_def CREATE_PR_DEADLINE_MS_def)
  show "SHA_RE (cp_baseCommitSha server_input)" "SHA_RE (cp_baseBlobSha server_input)" using server_facts by (simp_all add: server_input_def)
qed (simp_all add: server_input_def partial_write_def)

end
