(* ===== verification/Config.thy ===== *)
theory Config
  imports SsoSource Http
begin

text \<open>
  The runtime configuration: \<open>domain-api/src/config.ts\<close> and \<open>auth/authConfig.ts\<close>. The environment is a map from
  variable names; a \<open>ConfigError\<close> is its message. \<open>new URL\<close>, \<open>Number\<close> and \<open>isIP\<close> of the run time are the record
  \<open>platform\<close>; the default SSO file, which the code looks for next to the package, is an argument.
\<close>

section \<open>Reading variables\<close>

type_synonym env = "string \<Rightarrow> string option"

record full_url = url +
  u_username :: string
  u_password :: string
  u_port :: string
  u_search :: string
  u_hash :: string
  u_origin :: string

record platform =
  new_URL :: "string \<Rightarrow> full_url option"
  to_number :: "string \<Rightarrow> js_num"
  isIP :: "string \<Rightarrow> bool"

definition trimmed :: "env \<Rightarrow> string \<Rightarrow> string option" where
  "trimmed env k = map_option js_trim (env k)"

text \<open>\<open>env[k]?.trim() ?? ""\<close>; the empty text and a missing variable are treated alike wherever it is used.\<close>

definition setting :: "env \<Rightarrow> string \<Rightarrow> string" where
  "setting env k = (case trimmed env k of None \<Rightarrow> [] | Some v \<Rightarrow> v)"

definition in_quotes :: "string \<Rightarrow> string" where
  "in_quotes s = CHR 0x22 # s @ [CHR 0x22]"

definition js_integer :: "js_num \<Rightarrow> int option" where
  "js_integer x = (case x of Finite r \<Rightarrow> if of_int \<lfloor>r\<rfloor> = r then Some \<lfloor>r\<rfloor> else None | _ \<Rightarrow> None)"

definition intEnv :: "platform \<Rightarrow> env \<Rightarrow> string \<Rightarrow> int \<Rightarrow> int \<Rightarrow> int \<Rightarrow> (string, int) res" where
  "intEnv pf env k fallback lo hi =
     (if setting env k = [] then Inr fallback
      else case js_integer (to_number pf (setting env k)) of
          None \<Rightarrow> Inl (k @ '' must be an integer between '' @ show_nat (nat lo) @ '' and '' @ show_nat (nat hi))
        | Some v \<Rightarrow> if v < lo \<or> hi < v
            then Inl (k @ '' must be an integer between '' @ show_nat (nat lo) @ '' and '' @ show_nat (nat hi))
            else Inr v)"

lemma intEnv_range: "intEnv pf env k fallback lo hi = Inr v \<Longrightarrow> v = fallback \<or> lo \<le> v \<and> v \<le> hi"
  by (auto simp: intEnv_def split: if_splits option.splits)

section \<open>Flink\<close>

record flink_config =
  fc_baseUrl :: string
  fc_timeoutMs :: int
  fc_jobNamePrefix :: string
  fc_cacheTtlMs :: int
  fc_snapshotBudgetMs :: int
  fc_maxConcurrency :: int
  fc_maxQueue :: int

definition bare_origin :: "full_url \<Rightarrow> bool" where
  "bare_origin u \<longleftrightarrow> (pathname u = ''/'' \<or> pathname u = []) \<and> u_search u = [] \<and> u_hash u = []"

definition no_credentials :: "full_url \<Rightarrow> bool" where
  "no_credentials u \<longleftrightarrow> u_username u = [] \<and> u_password u = []"

definition flink_origin :: "platform \<Rightarrow> string \<Rightarrow> (string, string) res" where
  "flink_origin pf raw = (case new_URL pf raw of
       None \<Rightarrow> Inl ''BELUGA_FLINK_REST_URL is not a valid URL''
     | Some u \<Rightarrow>
         if protocol u \<noteq> ''http:'' \<and> protocol u \<noteq> ''https:'' then Inl ''BELUGA_FLINK_REST_URL must use http or https''
         else if \<not> no_credentials u then Inl ''BELUGA_FLINK_REST_URL must not embed credentials''
         else if \<not> bare_origin u then Inl ''BELUGA_FLINK_REST_URL must be a bare origin (no path, query or fragment)''
         else Inr (u_origin u))"

definition loadFlinkAdapterConfig :: "platform \<Rightarrow> env \<Rightarrow> (string, flink_config option) res" where
  "loadFlinkAdapterConfig pf env =
     (if setting env ''BELUGA_FLINK_REST_URL'' = [] then Inr None
      else res_bind (flink_origin pf (setting env ''BELUGA_FLINK_REST_URL'')) (\<lambda>origin.
        res_bind (intEnv pf env ''BELUGA_FLINK_TIMEOUT_MS'' 2000 1 30000) (\<lambda>timeout.
        let allowNoCache = (trimmed env ''BELUGA_FLINK_ALLOW_NO_CACHE'' = Some ''true'') in
        res_bind (intEnv pf env ''BELUGA_FLINK_CACHE_TTL_MS'' 5000 (if allowNoCache then 0 else 1000) 60000) (\<lambda>ttl.
        res_bind (intEnv pf env ''BELUGA_FLINK_SNAPSHOT_BUDGET_MS'' 5000 1 60000) (\<lambda>budget.
        res_bind (intEnv pf env ''BELUGA_FLINK_MAX_QUEUE'' 64 0 1024) (\<lambda>queue.
        res_bind (intEnv pf env ''BELUGA_FLINK_MAX_CONCURRENCY'' 8 1 32) (\<lambda>conc.
        Inr (Some \<lparr>fc_baseUrl = origin, fc_timeoutMs = timeout,
          fc_jobNamePrefix = (case env ''BELUGA_FLINK_JOB_NAME_PREFIX'' of Some p \<Rightarrow> p | None \<Rightarrow> ''beluga-''),
          fc_cacheTtlMs = ttl, fc_snapshotBudgetMs = budget, fc_maxConcurrency = conc, fc_maxQueue = queue\<rparr>))))))))"

section \<open>The base domain and the SSO file\<close>

definition is_production :: "env \<Rightarrow> bool" where
  "is_production env \<longleftrightarrow> env ''NODE_ENV'' = Some ''production''"

definition issuer_error :: "string \<Rightarrow> string \<Rightarrow> (string, string) res" where
  "issuer_error iss why = Inl (''OIDC_ISSUER '' @ in_quotes iss @ '' cannot yield BASE_DOMAIN: '' @ why @
     '' (expected https://sso.<baseDomain>/realms/<realm>)'')"

text \<open>\<open>/^\/realms\/[^/]+$/\<close>\<close>

definition realm_path :: "string \<Rightarrow> bool" where
  "realm_path p \<longleftrightarrow> is_prefix ''/realms/'' p \<and> drop 8 p \<noteq> [] \<and> CHR ''/'' \<notin> set (drop 8 p)"

definition baseDomainFromIssuer :: "platform \<Rightarrow> string \<Rightarrow> (string, string) res" where
  "baseDomainFromIssuer pf iss = (case new_URL pf iss of
       None \<Rightarrow> issuer_error iss ''not a URL''
     | Some u \<Rightarrow>
         if protocol u \<noteq> ''https:'' then issuer_error iss ''protocol is not https''
         else if \<not> no_credentials u \<or> u_port u \<noteq> [] \<or> u_search u \<noteq> [] \<or> u_hash u \<noteq> []
           then issuer_error iss ''credentials, port, query or fragment present''
         else if \<not> realm_path (pathname u) then issuer_error iss ''path is not /realms/<realm>''
         else let labels = split_on (CHR ''.'') (hostname u) in
           if length labels < 3 \<or> hd labels \<noteq> ''sso'' then issuer_error iss ''host is not sso.<baseDomain>''
           else let domain = join ''.'' (tl labels) in
             if isValidDnsName domain then Inr domain else issuer_error iss ''derived domain is not a valid DNS name'')"

definition resolveBaseDomain :: "platform \<Rightarrow> env \<Rightarrow> (string, string) res" where
  "resolveBaseDomain pf env =
     (let explicit = setting env ''BASE_DOMAIN'' in
      if explicit \<noteq> [] then
        if \<not> isValidDnsName explicit \<or> CHR ''.'' \<notin> set explicit
        then Inl (''BASE_DOMAIN '' @ in_quotes explicit @ '' is not a valid multi-label DNS name'') else Inr explicit
      else if \<not> is_production env then Inr DEFAULT_BASE_DOMAIN
      else if setting env ''OIDC_ISSUER'' \<noteq> [] then baseDomainFromIssuer pf (setting env ''OIDC_ISSUER'')
      else Inl ''BASE_DOMAIN (or an OIDC_ISSUER of the form https://sso.<baseDomain>/realms/<realm>) must be set when NODE_ENV=production'')"

definition loadSsoAdapterConfig :: "env \<Rightarrow> string option \<Rightarrow> adapter_config" where
  "loadSsoAdapterConfig env default_file =
     \<lparr>ac_filePath = (if setting env ''SSO_CONFIG_FILE'' \<noteq> [] then Some (setting env ''SSO_CONFIG_FILE'')
        else if is_production env then None else default_file),
      ac_isProduction = is_production env, ac_baseDomain = None, ac_groupsFilePath = None\<rparr>"

section \<open>The write side\<close>

record audit_db =
  db_host :: string
  db_port :: int
  db_database :: string
  db_user :: string
  db_passwordFile :: string
  db_sslCaFile :: string

definition required_setting :: "env \<Rightarrow> string \<Rightarrow> (string, string) res" where
  "required_setting env k =
     (if setting env k = [] then Inl (k @ '' must be set when MANAGER_DB_HOST is set'') else Inr (setting env k))"

definition loadAuditDbConfig :: "platform \<Rightarrow> env \<Rightarrow> (string, audit_db option) res" where
  "loadAuditDbConfig pf env =
     (let host = setting env ''MANAGER_DB_HOST'' in
      if host = [] then Inr None
      else if \<not> isValidDnsName host then Inl ''MANAGER_DB_HOST must be a DNS host name''
      else res_bind (intEnv pf env ''MANAGER_DB_PORT'' 5432 1 65535) (\<lambda>port.
        res_bind (required_setting env ''MANAGER_DB_NAME'') (\<lambda>database.
        res_bind (required_setting env ''MANAGER_DB_PASSWORD_FILE'') (\<lambda>pw.
        res_bind (required_setting env ''MANAGER_DB_SSL_CA_FILE'') (\<lambda>ca.
        Inr (Some \<lparr>db_host = host, db_port = port, db_database = database, db_user = setting env ''MANAGER_DB_USER'',
          db_passwordFile = pw, db_sslCaFile = ca\<rparr>))))))"

definition loadSsoWriteEnabled :: "env \<Rightarrow> (string, bool) res" where
  "loadSsoWriteEnabled env =
     (let raw = setting env ''SSO_WRITE_ENABLED'' in
      if raw = [] \<or> raw = ''false'' then Inr False
      else if raw = ''true'' then Inr True
      else Inl (''SSO_WRITE_ENABLED must be '' @ in_quotes ''true'' @ '' or '' @ in_quotes ''false''))"

record github_app_config =
  ga_appId :: string
  ga_installationId :: string
  ga_privateKeyFile :: string

definition all_digits :: "string \<Rightarrow> bool" where
  "all_digits s \<longleftrightarrow> s \<noteq> [] \<and> list_all is_digit s"

definition loadGithubAppConfig :: "env \<Rightarrow> github_app_config option" where
  "loadGithubAppConfig env =
     (let appId = setting env ''GITHUB_APP_ID''; installationId = setting env ''GITHUB_APP_INSTALLATION_ID'';
        keyFile = setting env ''GITHUB_APP_PRIVATE_KEY_FILE''
      in if \<not> all_digits appId \<or> \<not> all_digits installationId \<or> keyFile = [] then None
         else Some \<lparr>ga_appId = appId, ga_installationId = installationId, ga_privateKeyFile = keyFile\<rparr>)"

record kube_config =
  kc_apiUrl :: string
  kc_tokenFile :: string
  kc_caFile :: string

definition loadKubeApiConfig :: "platform \<Rightarrow> env \<Rightarrow> (string, kube_config option) res" where
  "loadKubeApiConfig pf env =
     (let raw = setting env ''KUBE_API_URL''; tokenFile = setting env ''KUBE_API_TOKEN_FILE'';
        caFile = setting env ''KUBE_API_CA_FILE''
      in if raw = [] \<or> tokenFile = [] \<or> caFile = [] then Inr None
         else case new_URL pf raw of
            None \<Rightarrow> Inl ''KUBE_API_URL is not a valid URL''
          | Some u \<Rightarrow>
              if protocol u \<noteq> ''https:'' then Inl ''KUBE_API_URL must use https''
              else if \<not> no_credentials u \<or> \<not> bare_origin u
                then Inl ''KUBE_API_URL must be a bare origin (no credentials, path, query or fragment)''
              else Inr (Some \<lparr>kc_apiUrl = u_origin u, kc_tokenFile = tokenFile, kc_caFile = caFile\<rparr>))"

definition loadReconcileIntervalMs :: "platform \<Rightarrow> env \<Rightarrow> (string, int) res" where
  "loadReconcileIntervalMs pf env = intEnv pf env ''SSO_RECONCILE_INTERVAL_MS'' 30000 5000 3600000"

definition loadListenHost :: "platform \<Rightarrow> env \<Rightarrow> (string, string option) res" where
  "loadListenHost pf env = (case env ''LISTEN_HOST'' of
       None \<Rightarrow> Inr None
     | Some raw \<Rightarrow>
         if raw = [] then Inr None
         else if \<not> isIP pf raw \<and> \<not> isValidDnsName raw then Inl ''LISTEN_HOST must be an IP address or a DNS host name''
         else Inr (Some raw))"

section \<open>Authentication\<close>

datatype auth_config = AuthDisabled | Oidc (oidc_issuer: string) (oidc_audience: string) (jwksUri: string)

definition DEFAULT_OIDC_AUDIENCE :: string where "DEFAULT_OIDC_AUDIENCE = ''beluga-manager''"

definition oidc_config :: "env \<Rightarrow> string \<Rightarrow> auth_config" where
  "oidc_config env iss =
     Oidc iss (if setting env ''OIDC_AUDIENCE'' = [] then DEFAULT_OIDC_AUDIENCE else setting env ''OIDC_AUDIENCE'')
       (iss @ ''/protocol/openid-connect/certs'')"

definition loadAuthConfig :: "platform \<Rightarrow> env \<Rightarrow> (string, auth_config) res" where
  "loadAuthConfig pf env =
     (let mode = (if setting env ''AUTH_MODE'' = [] then ''oidc'' else setting env ''AUTH_MODE'') in
      if mode = ''disabled'' then
        if is_production env then Inl ''AUTH_MODE=disabled is not allowed when NODE_ENV=production'' else Inr AuthDisabled
      else if mode \<noteq> ''oidc'' then Inl (''AUTH_MODE must be '' @ [CHR 0x27] @ ''oidc'' @ [CHR 0x27] @ '' or '' @ [CHR 0x27] @ ''disabled'' @ [CHR 0x27])
      else let iss = setting env ''OIDC_ISSUER'' in
        if iss = [] then Inl ''OIDC_ISSUER is required when AUTH_MODE=oidc''
        else case new_URL pf iss of
            None \<Rightarrow> Inl ''OIDC_ISSUER is not a valid URL''
          | Some u \<Rightarrow>
              if protocol u \<noteq> ''https:'' then Inl ''OIDC_ISSUER must use https''
              else if \<not> no_credentials u then Inl ''OIDC_ISSUER must not embed credentials''
              else if u_search u \<noteq> [] \<or> u_hash u \<noteq> [] then Inl ''OIDC_ISSUER must not have a query or fragment''
              else if last iss = CHR ''/'' then Inl (''OIDC_ISSUER must not end with '' @ [CHR 0x27] @ ''/'' @ [CHR 0x27])
              else Inr (oidc_config env iss))"

lemma auth_disabled:
  "loadAuthConfig pf env = Inr AuthDisabled \<Longrightarrow> setting env ''AUTH_MODE'' = ''disabled'' \<and> \<not> is_production env"
  by (auto simp: loadAuthConfig_def oidc_config_def Let_def split: if_splits option.splits)

lemma auth_oidc:
  "loadAuthConfig pf env = Inr (Oidc iss aud uri) \<Longrightarrow>
     iss = setting env ''OIDC_ISSUER'' \<and> iss \<noteq> [] \<and> last iss \<noteq> CHR ''/'' \<and> uri = iss @ ''/protocol/openid-connect/certs''
     \<and> (\<exists>u. new_URL pf iss = Some u \<and> protocol u = ''https:'' \<and> no_credentials u \<and> u_search u = [] \<and> u_hash u = [])"
  by (auto simp: loadAuthConfig_def oidc_config_def Let_def split: if_splits option.splits)

end
