(* ===== verification/Auth.thy ===== *)
theory Auth
  imports Config SsoRun
begin

text \<open>
  Authentication: \<open>domain-api/src/auth/oidc.ts\<close> and \<open>middleware.ts\<close>, and what stands in front of the change-request
  routes in \<open>app.ts\<close>. Checking a signature and the registered claims is the \<open>jose\<close> package: \<open>jwtVerify\<close> is a
  parameter, called with the options that the code passes. A \<open>sub\<close> claim is a string (RFC 7519).
\<close>

section \<open>Tokens\<close>

datatype auth_error = InvalidToken | TokenUnavailable

record jwt_options =
  jo_algorithms :: "string list"
  jo_issuer :: string
  jo_audience :: string
  jo_clockTolerance :: nat
  jo_requiredClaims :: "string list"

datatype jwt_failure = JoseError string | OtherFailure

type_synonym jose = "jwt_options \<Rightarrow> string \<Rightarrow> (jwt_failure, json) res"

definition CLOCK_TOLERANCE_S :: nat where "CLOCK_TOLERANCE_S = 30"
definition MAX_TOKEN_LENGTH :: nat where "MAX_TOKEN_LENGTH = 8192"

definition isInvalidTokenError :: "jwt_failure \<Rightarrow> bool" where
  "isInvalidTokenError e = (case e of
       OtherFailure \<Rightarrow> False
     | JoseError code \<Rightarrow> starts_with ''ERR_JWT_'' code \<or> starts_with ''ERR_JWS_'' code \<or> starts_with ''ERR_JWE_'' code
         \<or> code \<in> {''ERR_JOSE_ALG_NOT_ALLOWED'', ''ERR_JWKS_NO_MATCHING_KEY'', ''ERR_JWKS_MULTIPLE_MATCHING_KEYS''})"

definition group_name :: "json \<Rightarrow> string option" where
  "group_name item = (case item of
       JStr s \<Rightarrow> (let n = (if starts_with ''/'' s then tl s else s) in if n = [] \<or> CHR ''/'' \<in> set n then None else Some n)
     | _ \<Rightarrow> None)"

definition normalizeGroups :: "json option \<Rightarrow> string list" where
  "normalizeGroups claim = (case claim of Some (JArr items) \<Rightarrow> js_set (List.map_filter group_name items) | _ \<Rightarrow> [])"

definition claim_text :: "json \<Rightarrow> string \<Rightarrow> string option" where
  "claim_text payload k = Option.bind (json_field payload k) json_str"

definition toPrincipal :: "json \<Rightarrow> principal" where
  "toPrincipal payload =
     \<lparr>sub = (case claim_text payload ''sub'' of Some s \<Rightarrow> s | None \<Rightarrow> []),
      username = (case claim_text payload ''preferred_username'' of Some [] \<Rightarrow> None | u \<Rightarrow> u),
      p_groups = normalizeGroups (json_field payload ''groups'')\<rparr>"

definition oidc_options :: "string \<Rightarrow> string \<Rightarrow> jwt_options" where
  "oidc_options iss aud =
     \<lparr>jo_algorithms = [''RS256''], jo_issuer = iss, jo_audience = aud, jo_clockTolerance = CLOCK_TOLERANCE_S,
      jo_requiredClaims = [''exp'', ''sub'']\<rparr>"

definition verify :: "jose \<Rightarrow> string \<Rightarrow> string \<Rightarrow> string \<Rightarrow> (auth_error, principal) res" where
  "verify jwtVerify iss aud token =
     (if MAX_TOKEN_LENGTH < js_length token then Inl InvalidToken
      else case jwtVerify (oidc_options iss aud) token of
          Inl e \<Rightarrow> Inl (if isInvalidTokenError e then InvalidToken else TokenUnavailable)
        | Inr payload \<Rightarrow>
            if json_field payload ''typ'' \<noteq> Some (JStr ''Bearer'') then Inl InvalidToken else Inr (toPrincipal payload))"

text \<open>Only the top-level spellings of a group give its name.\<close>

lemma group_name_iff:
  assumes "g \<noteq> []" "CHR ''/'' \<notin> set g"
  shows "group_name item = Some g \<longleftrightarrow> item = JStr g \<or> item = JStr (CHR ''/'' # g)"
proof -
  have plain: "\<not> starts_with ''/'' g" using assms(2) by (cases g) (auto simp: starts_with_def)
  show ?thesis
  proof (cases item)
    case (JStr s)
    then show ?thesis using assms plain by (cases s) (auto simp: group_name_def starts_with_def Let_def)
  qed (simp_all add: group_name_def)
qed

lemma normalizeGroups_iff:
  assumes "g \<noteq> []" "CHR ''/'' \<notin> set g"
  shows "g \<in> set (normalizeGroups claim) \<longleftrightarrow> (\<exists>items. claim = Some (JArr items) \<and> (JStr g \<in> set items \<or> JStr (CHR ''/'' # g) \<in> set items))"
proof -
  have "g \<in> set (List.map_filter group_name items) \<longleftrightarrow> JStr g \<in> set items \<or> JStr (CHR ''/'' # g) \<in> set items" for items
  proof -
    have "g \<in> set (List.map_filter group_name items) \<longleftrightarrow> (\<exists>i \<in> set items. group_name i = Some g)"
      by (force simp: List.map_filter_def)
    also have "\<dots> \<longleftrightarrow> (\<exists>i \<in> set items. i = JStr g \<or> i = JStr (CHR ''/'' # g))" by (simp only: group_name_iff [OF assms])
    also have "\<dots> \<longleftrightarrow> JStr g \<in> set items \<or> JStr (CHR ''/'' # g) \<in> set items" by auto
    finally show ?thesis .
  qed
  then show ?thesis by (auto simp: normalizeGroups_def split: option.splits json.splits)
qed

lemma verify_Inr:
  "verify jwtVerify iss aud token = Inr pr \<Longrightarrow>
     \<exists>payload. jwtVerify (oidc_options iss aud) token = Inr payload \<and> json_field payload ''typ'' = Some (JStr ''Bearer'')
       \<and> pr = toPrincipal payload"
  by (auto simp: verify_def split: if_splits sum.splits)

section \<open>The middleware\<close>

definition PUBLIC_PATHS :: "string list" where
  "PUBLIC_PATHS = [''/api/v1/health'', ''/api/v1/openapi.json'', ''/api/v1/docs'']"

text \<open>\<open>BEARER.exec(header)\<close>, case-insensitive; the result is its group.\<close>

definition BEARER :: "string \<Rightarrow> string option" where
  "BEARER h = (if to_lower (take 7 h) = ''bearer '' \<and> token_shape (drop 7 h) then Some (drop 7 h) else None)"

datatype auth_gate = Pass "principal option" | Refuse "string option" reply

definition unauthorized :: "string \<Rightarrow> bool \<Rightarrow> auth_gate" where
  "unauthorized message invalidToken =
     Refuse (Some (if invalidToken then ''Bearer error='' @ in_quotes ''invalid_token'' else ''Bearer'')) (Failure 401 ''UNAUTHENTICATED'' message)"

definition auth_middleware :: "(string \<Rightarrow> (auth_error, principal) res) \<Rightarrow> string \<Rightarrow> string option \<Rightarrow> auth_gate" where
  "auth_middleware verifier path h =
     (if path \<in> set PUBLIC_PATHS then Pass None
      else case h of
          None \<Rightarrow> unauthorized ''Authentication required'' False
        | Some value \<Rightarrow> (case BEARER value of
            None \<Rightarrow> unauthorized (''Authorization header must be '' @ [CHR 0x27] @ ''Bearer <token>'' @ [CHR 0x27]) True
          | Some token \<Rightarrow> (case verifier token of
              Inr pr \<Rightarrow> Pass (Some pr)
            | Inl InvalidToken \<Rightarrow> unauthorized ''Invalid or expired token'' True
            | Inl TokenUnavailable \<Rightarrow> Refuse None (Failure 503 ''SERVICE_UNAVAILABLE'' ''Authentication service unavailable''))))"

definition requireGroup :: "string \<Rightarrow> principal option \<Rightarrow> auth_gate" where
  "requireGroup g p = (case p of
       None \<Rightarrow> unauthorized ''Authentication required'' False
     | Some pr \<Rightarrow> if g \<in> set (p_groups pr) then Pass p
         else Refuse None (Failure 403 ''FORBIDDEN'' (''Membership of group '' @ [CHR 0x27] @ g @ [CHR 0x27] @ '' is required'')))"

text \<open>\<open>createApp\<close>: the middleware is registered only with a verifier; without one no request has a principal.\<close>

definition app_gate :: "jose \<Rightarrow> auth_config \<Rightarrow> string \<Rightarrow> string option \<Rightarrow> auth_gate" where
  "app_gate jwtVerify auth path h = (case auth of
       AuthDisabled \<Rightarrow> Pass None
     | Oidc iss aud uri \<Rightarrow> auth_middleware (verify jwtVerify iss aud) path h)"

definition serve_sso_change ::
  "jose \<Rightarrow> auth_config \<Rightarrow> ext \<Rightarrow> deps \<Rightarrow> denied \<Rightarrow> string option \<Rightarrow> string \<Rightarrow> string \<Rightarrow> request \<Rightarrow> (reply \<times> denied) prog" where
  "serve_sso_change jwtVerify auth x dp deniedAt h method path req =
     (case app_gate jwtVerify auth path h of
        Refuse _ r \<Rightarrow> Ret (r, deniedAt)
      | Pass p \<Rightarrow> registerSsoChangeRoutes x dp deniedAt p method path req)"

text \<open>\<open>GET /api/v1/me\<close>.\<close>

definition me_route :: "principal option \<Rightarrow> (reply, string \<times> string option \<times> string list) res" where
  "me_route p = (case p of
       None \<Rightarrow> Inl (Failure 401 ''UNAUTHENTICATED'' ''Authentication required'')
     | Some pr \<Rightarrow> Inr (sub pr, (case username pr of Some [] \<Rightarrow> None | u \<Rightarrow> u), p_groups pr))"

section \<open>Who gets through\<close>

definition verified_bearer :: "jose \<Rightarrow> auth_config \<Rightarrow> string option \<Rightarrow> json \<Rightarrow> bool" where
  "verified_bearer jwtVerify auth h payload \<longleftrightarrow>
     (\<exists>iss aud uri value token. auth = Oidc iss aud uri \<and> h = Some value \<and> BEARER value = Some token
        \<and> jwtVerify (oidc_options iss aud) token = Inr payload \<and> json_field payload ''typ'' = Some (JStr ''Bearer''))"

lemma app_gate_principal:
  "app_gate jwtVerify auth path h = Pass (Some pr) \<Longrightarrow>
     \<exists>payload. verified_bearer jwtVerify auth h payload \<and> pr = toPrincipal payload"
  by (fastforce simp: app_gate_def auth_middleware_def unauthorized_def verified_bearer_def
      split: auth_config.splits if_splits option.splits sum.splits auth_error.splits dest!: verify_Inr)

lemma app_gate_refusal:
  "app_gate jwtVerify auth path h = Refuse w r \<Longrightarrow>
     \<exists>msg. r = Failure 401 ''UNAUTHENTICATED'' msg \<or> r = Failure 503 ''SERVICE_UNAVAILABLE'' msg"
  by (auto simp: app_gate_def auth_middleware_def unauthorized_def
      split: auth_config.splits if_splits option.splits sum.splits auth_error.splits)

lemma ret_steps: "prog_pair_step\<^sup>*\<^sup>* (Ret a, w) c \<Longrightarrow> c = (Ret a, w)"
  by (induction rule: rtranclp_induct) (auto simp: prog_pair_step_def elim: prog_step.cases)

end
