(* ===== verification/Decision.thy ===== *)
theory Decision
  imports Http
begin

text \<open>
  The fast decision layer: \<open>domain-api/src/decision\<close>. \<open>types.ts\<close> gives the values and the schema of a result,
  \<open>ruleProvider.ts\<close> the deterministic provider, \<open>isolatedProvider.ts\<close> the bulkhead around any provider. Reading the
  clock is an argument (\<open>started\<close>, \<open>now\<close>); a \<open>ZodError\<close> of \<open>decisionResultSchema.parse\<close> is an \<open>Inl\<close>. The bulkhead is a
  step relation over its calls, because a provider may end long after its caller was answered.
\<close>

section \<open>Values\<close>

datatype decision = NORMAL | COMPUTE_BOUND | MEMORY_BOUND | STORAGE_BOUND | NETWORK_BOUND | QUERY_PROBLEM | ESCALATE | ABSTAIN

datatype abstain_code =
    NO_TELEMETRY | MISSING_REQUIRED_SIGNAL | STALE_TELEMETRY
  | ISOLATION_TIMEOUT | ISOLATION_PROVIDER_ERROR | ISOLATION_INVALID_SHAPE | ISOLATION_OVERLOADED

datatype signal_value = NumberSignal rat | TextSignal string | BoolSignal bool

record telemetry_signal =
  sg_value :: signal_value
  sg_observedAt :: ms

record telemetry_snapshot =
  ts_snapshotId :: string
  ts_signals :: "(string \<times> telemetry_signal) list"

text \<open>The reason of an abstention: a constructor with the interpolated values instead of the sentence; \<open>Given\<close> is the text
  that a provider returned.\<close>

datatype abstain_reason =
    Given string | NoSignal | MissingSignal string | StaleSignal string ms ms
  | Overloaded "string option" nat | TimedOut "string option" ms | InvalidShape "string option" | ProviderFailed "string option" string

text \<open>\<open>dc_now\<close> is \<open>None\<close> for an invalid \<open>Date\<close>.\<close>

record decision_context =
  dc_now :: "ms option"
  dc_maxAgeMs :: ms
  dc_correlationId :: string

record evidence_ref =
  er_source :: string
  er_observedAt :: ms
  er_ingestedAt :: ms
  er_freshnessDeadline :: ms
  er_contentHash :: string

record decision_result =
  dr_decision :: decision
  dr_confidence :: rat
  dr_abstained :: bool
  dr_abstainCode :: "abstain_code option"
  dr_abstainReason :: "abstain_reason option"
  dr_evidenceRefs :: "evidence_ref list"
  dr_provider :: string
  dr_providerVersion :: string
  dr_policyVersion :: string
  dr_decidedAt :: "ms option"
  dr_latencyMs :: ms

text \<open>The checks of \<open>decisionResultSchema\<close> beyond the shape of the object.\<close>

definition result_ok :: "decision_result \<Rightarrow> bool" where
  "result_ok r \<longleftrightarrow> 0 \<le> dr_confidence r \<and> dr_confidence r \<le> 1 \<and> dr_abstainReason r \<noteq> Some (Given [])
     \<and> list_all (\<lambda>e. er_source e \<noteq> [] \<and> er_contentHash e \<noteq> []) (dr_evidenceRefs r)
     \<and> dr_provider r \<noteq> [] \<and> dr_providerVersion r \<noteq> [] \<and> dr_policyVersion r \<noteq> [] \<and> dr_decidedAt r \<noteq> None \<and> 0 \<le> dr_latencyMs r"

definition parse_result :: "decision_result \<Rightarrow> (string, decision_result) res" where
  "parse_result r = (if result_ok r then Inr r else Inl ''ZodError'')"

section \<open>The rule provider\<close>

definition PROVIDER_ID :: string where "PROVIDER_ID = ''rule-provider''"
definition PROVIDER_VERSION :: string where "PROVIDER_VERSION = ''0.1.0''"
definition POLICY_VERSION :: string where "POLICY_VERSION = ''v1''"
definition SAFE_DEFAULT_CONFIDENCE :: rat where "SAFE_DEFAULT_CONFIDENCE = 1 / 10"

definition rule_result :: "decision \<Rightarrow> rat \<Rightarrow> (abstain_code \<times> abstain_reason) option \<Rightarrow> decision_context \<Rightarrow> ms \<Rightarrow> decision_result" where
  "rule_result d confidence reason ctx latency =
     \<lparr>dr_decision = d, dr_confidence = confidence, dr_abstained = (reason \<noteq> None), dr_abstainCode = map_option fst reason,
      dr_abstainReason = map_option snd reason, dr_evidenceRefs = [], dr_provider = PROVIDER_ID,
      dr_providerVersion = PROVIDER_VERSION, dr_policyVersion = POLICY_VERSION, dr_decidedAt = dc_now ctx, dr_latencyMs = latency\<rparr>"

definition abstain :: "decision_context \<Rightarrow> ms \<Rightarrow> abstain_code \<Rightarrow> abstain_reason \<Rightarrow> (string, decision_result) res" where
  "abstain ctx latency code reason = parse_result (rule_result ABSTAIN 0 (Some (code, reason)) ctx latency)"

text \<open>\<open>NaN\<close> compares to nothing, so with an invalid date no signal is stale.\<close>

definition is_stale :: "decision_context \<Rightarrow> telemetry_signal \<Rightarrow> bool" where
  "is_stale ctx s \<longleftrightarrow> (case dc_now ctx of None \<Rightarrow> False | Some now \<Rightarrow> dc_maxAgeMs ctx < now - sg_observedAt s)"

definition decide :: "string list \<Rightarrow> telemetry_snapshot \<Rightarrow> decision_context \<Rightarrow> ms \<Rightarrow> (string, decision_result) res" where
  "decide requiredSignals input ctx latency =
     (if ts_signals input = [] then abstain ctx latency NO_TELEMETRY NoSignal
      else case find (\<lambda>n. map_of (ts_signals input) n = None) requiredSignals of
          Some n \<Rightarrow> abstain ctx latency MISSING_REQUIRED_SIGNAL (MissingSignal n)
        | None \<Rightarrow> (case find (\<lambda>(n, s). is_stale ctx s) (ts_signals input) of
            Some (n, s) \<Rightarrow> abstain ctx latency STALE_TELEMETRY (StaleSignal n (sg_observedAt s) (dc_maxAgeMs ctx))
          | None \<Rightarrow> parse_result (rule_result NORMAL SAFE_DEFAULT_CONFIDENCE None ctx latency)))"

text \<open>The provider fails closed: it is normal only on complete and fresh telemetry, and abstains otherwise.\<close>

definition telemetry_ok :: "string list \<Rightarrow> telemetry_snapshot \<Rightarrow> decision_context \<Rightarrow> bool" where
  "telemetry_ok required_names input ctx \<longleftrightarrow> ts_signals input \<noteq> [] \<and> set required_names \<subseteq> fst ` set (ts_signals input)
     \<and> (\<forall>x \<in> set (ts_signals input). \<not> is_stale ctx (snd x))"

lemma decide_cases:
  assumes "dc_now ctx \<noteq> None" "0 \<le> latency"
  shows "\<exists>r. decide required_names input ctx latency = Inr r \<and> result_ok r
    \<and> (dr_decision r = NORMAL \<longleftrightarrow> telemetry_ok required_names input ctx) \<and> (dr_abstained r \<longleftrightarrow> dr_decision r = ABSTAIN)
    \<and> (dr_decision r = NORMAL \<or> dr_decision r = ABSTAIN) \<and> (dr_abstained r \<longleftrightarrow> dr_abstainCode r \<noteq> None)"
proof -
  have ok: "result_ok (rule_result d c reason ctx latency)" if "0 \<le> c" "c \<le> 1" "\<And>x. reason = Some x \<Longrightarrow> snd x \<noteq> Given []" for d c reason
    using assms that by (cases reason) (auto simp: result_ok_def rule_result_def PROVIDER_ID_def PROVIDER_VERSION_def POLICY_VERSION_def)
  show ?thesis
  proof (cases "ts_signals input = []")
    case True
    then show ?thesis using ok [of 0 "Some (NO_TELEMETRY, NoSignal)" ABSTAIN]
      by (simp add: decide_def abstain_def parse_result_def telemetry_ok_def) (simp add: rule_result_def)
  next
    case some: False
    show ?thesis
    proof (cases "find (\<lambda>n. map_of (ts_signals input) n = None) required_names")
      case (Some n)
      then have "n \<in> set required_names" "n \<notin> fst ` set (ts_signals input)"
        by (auto simp: find_Some_iff map_of_eq_None_iff)
      then have "\<not> telemetry_ok required_names input ctx" by (auto simp: telemetry_ok_def)
      then show ?thesis using some Some ok [of 0 "Some (MISSING_REQUIRED_SIGNAL, MissingSignal n)" ABSTAIN]
        by (simp add: decide_def abstain_def parse_result_def) (simp add: rule_result_def)
    next
      case none: None
      then have all: "set required_names \<subseteq> fst ` set (ts_signals input)"
        by (auto simp: find_None_iff map_of_eq_None_iff)
      show ?thesis
      proof (cases "find (\<lambda>(n, s). is_stale ctx s) (ts_signals input)")
        case (Some x)
        obtain n s where x: "x = (n, s)" by (cases x)
        with Some obtain i where "i < length (ts_signals input)" "ts_signals input ! i = (n, s)" "is_stale ctx s"
          by (auto simp: find_Some_iff)
        then have "(n, s) \<in> set (ts_signals input)" "is_stale ctx s" by (metis nth_mem)+
        then have "\<not> telemetry_ok required_names input ctx" by (fastforce simp: telemetry_ok_def)
        then show ?thesis using some none Some x ok [of 0 "Some (STALE_TELEMETRY, StaleSignal n (sg_observedAt s) (dc_maxAgeMs ctx))" ABSTAIN]
          by (simp add: decide_def abstain_def parse_result_def) (simp add: rule_result_def)
      next
        case None
        then have "telemetry_ok required_names input ctx"
          using some all by (auto simp: telemetry_ok_def find_None_iff)
        then show ?thesis using some none None ok [of SAFE_DEFAULT_CONFIDENCE None NORMAL]
          by (simp add: decide_def parse_result_def SAFE_DEFAULT_CONFIDENCE_def) (simp add: rule_result_def)
      qed
    qed
  qed
qed

section \<open>The bulkhead\<close>

definition DEFAULT_BUDGET_MS :: ms where "DEFAULT_BUDGET_MS = 500"
definition DEFAULT_MAX_CONCURRENT :: nat where "DEFAULT_MAX_CONCURRENT = 32"
definition ISOLATION_POLICY_VERSION :: string where "ISOLATION_POLICY_VERSION = ''isolation-boundary/v1''"

text \<open>The identity of a provider; \<open>None\<close> is a value that is not a string.\<close>

record provider =
  pv_id :: "string option"
  pv_version :: "string option"

definition safeIdentity :: "string option \<Rightarrow> string \<Rightarrow> string" where
  "safeIdentity value fallback = (case value of None \<Rightarrow> fallback | Some s \<Rightarrow> if js_trim s \<noteq> [] then s else fallback)"

definition isolationAbstain :: "provider \<Rightarrow> ms \<Rightarrow> ms \<Rightarrow> ms \<Rightarrow> abstain_code \<Rightarrow> abstain_reason \<Rightarrow> (string, decision_result) res" where
  "isolationAbstain pv decidedAt started now code reason =
     parse_result \<lparr>dr_decision = ABSTAIN, dr_confidence = 0, dr_abstained = True, dr_abstainCode = Some code,
       dr_abstainReason = Some reason, dr_evidenceRefs = [], dr_provider = safeIdentity (pv_id pv) ''unknown-provider'',
       dr_providerVersion = safeIdentity (pv_version pv) ''unknown-version'', dr_policyVersion = ISOLATION_POLICY_VERSION,
       dr_decidedAt = Some decidedAt, dr_latencyMs = now - started\<rparr>"

text \<open>The \<open>RangeError\<close> of \<open>isolateProvider\<close>.\<close>

definition isolate_limit :: "js_num option \<Rightarrow> (string, nat) res" where
  "isolate_limit m = (case m of
       None \<Rightarrow> Inr DEFAULT_MAX_CONCURRENT
     | Some (Finite r) \<Rightarrow>
         if of_int \<lfloor>r\<rfloor> = r \<and> 1 \<le> \<lfloor>r\<rfloor> \<and> \<lfloor>r\<rfloor> < 2 ^ 53 then Inr (nat \<lfloor>r\<rfloor>)
         else Inl ''maxConcurrent must be a positive safe integer''
     | Some _ \<Rightarrow> Inl ''maxConcurrent must be a positive safe integer'')"

text \<open>How a provider call ends: with a value (\<open>None\<close> when it has not the shape of a result) or an exception.\<close>

datatype provider_outcome = Returned "decision_result option" | Threw string

definition fallback_now :: "decision_context \<Rightarrow> ms \<Rightarrow> ms" where
  "fallback_now ctx started = (case dc_now ctx of Some t \<Rightarrow> t | None \<Rightarrow> started)"

text \<open>An abstention inside the \<open>try\<close>: if building it throws, the \<open>catch\<close> builds another one, at a later reading of the clock.\<close>

definition caught :: "provider \<Rightarrow> ms \<Rightarrow> ms \<Rightarrow> ms \<Rightarrow> (string, decision_result) res \<Rightarrow> (string, decision_result) res" where
  "caught pv decidedAt started later r = (case r of
       Inr d \<Rightarrow> Inr d
     | Inl e \<Rightarrow> isolationAbstain pv decidedAt started later ISOLATION_PROVIDER_ERROR (ProviderFailed (pv_id pv) e))"

definition outcome_answer :: "provider \<Rightarrow> ms \<Rightarrow> ms \<Rightarrow> ms \<Rightarrow> ms \<Rightarrow> provider_outcome \<Rightarrow> (string, decision_result) res" where
  "outcome_answer pv decidedAt started now later out = (case out of
       Returned (Some r) \<Rightarrow> if result_ok r then Inr r
         else caught pv decidedAt started later (isolationAbstain pv decidedAt started now ISOLATION_INVALID_SHAPE (InvalidShape (pv_id pv)))
     | Returned None \<Rightarrow>
         caught pv decidedAt started later (isolationAbstain pv decidedAt started now ISOLATION_INVALID_SHAPE (InvalidShape (pv_id pv)))
     | Threw msg \<Rightarrow> isolationAbstain pv decidedAt started now ISOLATION_PROVIDER_ERROR (ProviderFailed (pv_id pv) msg))"

definition timeout_answer :: "provider \<Rightarrow> ms \<Rightarrow> ms \<Rightarrow> ms \<Rightarrow> ms \<Rightarrow> ms \<Rightarrow> (string, decision_result) res" where
  "timeout_answer pv budget decidedAt started now later =
     caught pv decidedAt started later (isolationAbstain pv decidedAt started now ISOLATION_TIMEOUT (TimedOut (pv_id pv) budget))"

text \<open>The calls of \<open>decide\<close>: those that were admitted, the provider calls that have not ended, the callers that have no
  answer yet, and the record of outcomes and answers. \<open>b_active\<close> is \<open>activeCalls\<close>.\<close>

record bulkhead =
  b_active :: nat
  b_calls :: "(nat \<times> decision_context \<times> ms) list"
  b_running :: "nat set"
  b_waiting :: "nat set"
  b_outcomes :: "(nat \<times> provider_outcome) list"
  b_answers :: "(nat \<times> (string, decision_result) res) list"

definition idle_bulkhead :: bulkhead where
  "idle_bulkhead = \<lparr>b_active = 0, b_calls = [], b_running = {}, b_waiting = {}, b_outcomes = [], b_answers = []\<rparr>"

definition answer_call :: "nat \<Rightarrow> (string, decision_result) res \<Rightarrow> bulkhead \<Rightarrow> bulkhead" where
  "answer_call i a b = b\<lparr>b_waiting := b_waiting b - {i}, b_answers := b_answers b @ [(i, a)]\<rparr>"

text \<open>The parameter \<open>steady\<close> says that the clock is never behind the start of the call whose answer is built.\<close>

inductive bulkhead_step :: "bool \<Rightarrow> provider \<Rightarrow> ms \<Rightarrow> nat \<Rightarrow> bulkhead \<Rightarrow> bulkhead \<Rightarrow> bool"
  for steady pv budget maxConcurrent where
  shed: "i \<notin> fst ` set (b_calls b) \<Longrightarrow> i \<notin> fst ` set (b_answers b) \<Longrightarrow> maxConcurrent \<le> b_active b \<Longrightarrow>
    (steady \<Longrightarrow> started \<le> now) \<Longrightarrow>
    a = isolationAbstain pv (fallback_now ctx started) started now ISOLATION_OVERLOADED (Overloaded (pv_id pv) maxConcurrent) \<Longrightarrow>
    bulkhead_step steady pv budget maxConcurrent b (b\<lparr>b_answers := b_answers b @ [(i, a)]\<rparr>)"
| admitted: "i \<notin> fst ` set (b_calls b) \<Longrightarrow> i \<notin> fst ` set (b_answers b) \<Longrightarrow> b_active b < maxConcurrent \<Longrightarrow>
    bulkhead_step steady pv budget maxConcurrent b
      (b\<lparr>b_active := Suc (b_active b), b_calls := b_calls b @ [(i, ctx, started)], b_running := insert i (b_running b),
         b_waiting := insert i (b_waiting b)\<rparr>)"
| ended_in_time: "i \<in> b_running b \<Longrightarrow> i \<in> b_waiting b \<Longrightarrow> (i, ctx, started) \<in> set (b_calls b) \<Longrightarrow>
    (steady \<Longrightarrow> started \<le> now \<and> started \<le> later) \<Longrightarrow>
    bulkhead_step steady pv budget maxConcurrent b
      (answer_call i (outcome_answer pv (fallback_now ctx started) started now later out)
        (b\<lparr>b_active := b_active b - 1, b_running := b_running b - {i}, b_outcomes := b_outcomes b @ [(i, out)]\<rparr>))"
| ended_late: "i \<in> b_running b \<Longrightarrow> i \<notin> b_waiting b \<Longrightarrow>
    bulkhead_step steady pv budget maxConcurrent b
      (b\<lparr>b_active := b_active b - 1, b_running := b_running b - {i}, b_outcomes := b_outcomes b @ [(i, out)]\<rparr>)"
| timed_out: "i \<in> b_waiting b \<Longrightarrow> (i, ctx, started) \<in> set (b_calls b) \<Longrightarrow>
    (steady \<Longrightarrow> started \<le> now \<and> started \<le> later) \<Longrightarrow>
    bulkhead_step steady pv budget maxConcurrent b
      (answer_call i (timeout_answer pv budget (fallback_now ctx started) started now later) b)"

section \<open>What the bulkhead keeps\<close>

text \<open>What a caller may get: a valid result that its provider returned, or an abstention of the boundary.\<close>

definition isolated :: "(nat \<times> provider_outcome) list \<Rightarrow> nat \<times> (string, decision_result) res \<Rightarrow> bool" where
  "isolated outcomes x \<longleftrightarrow> (\<exists>r. snd x = Inr r \<and> result_ok r \<and>
     ((fst x, Returned (Some r)) \<in> set outcomes
       \<or> dr_decision r = ABSTAIN \<and> dr_abstained r \<and> dr_policyVersion r = ISOLATION_POLICY_VERSION))"

definition bulkhead_inv :: "bool \<Rightarrow> nat \<Rightarrow> bulkhead \<Rightarrow> bool" where
  "bulkhead_inv steady maxConcurrent b \<longleftrightarrow> finite (b_running b) \<and> card (b_running b) = b_active b \<and> b_active b \<le> maxConcurrent
     \<and> b_waiting b \<subseteq> b_running b \<and> b_running b \<subseteq> fst ` set (b_calls b) \<and> distinct (map fst (b_answers b))
     \<and> fst ` set (b_answers b) \<inter> b_waiting b = {} \<and> fst ` set (b_calls b) \<subseteq> fst ` set (b_answers b) \<union> b_waiting b
     \<and> (steady \<longrightarrow> (\<forall>x \<in> set (b_answers b). isolated (b_outcomes b) x))"

lemma safeIdentity_nonempty: "fallback \<noteq> [] \<Longrightarrow> safeIdentity v fallback \<noteq> []"
proof -
  assume "fallback \<noteq> []"
  moreover have "js_trim [] = []" by code_simp
  ultimately show ?thesis by (auto simp: safeIdentity_def split: option.splits)
qed

lemma isolationAbstain_Inr:
  assumes "started \<le> now" "reason \<noteq> Given []"
  shows "\<exists>r. isolationAbstain pv decidedAt started now code reason = Inr r \<and> result_ok r
    \<and> dr_decision r = ABSTAIN \<and> dr_abstained r \<and> dr_policyVersion r = ISOLATION_POLICY_VERSION"
  using assms safeIdentity_nonempty [of "''unknown-provider''" "pv_id pv"] safeIdentity_nonempty [of "''unknown-version''" "pv_version pv"]
  by (simp add: isolationAbstain_def parse_result_def result_ok_def ISOLATION_POLICY_VERSION_def)

lemma isolationAbstain_throws: "now < started \<Longrightarrow> isolationAbstain pv decidedAt started now code reason = Inl ''ZodError''"
  by (simp add: isolationAbstain_def parse_result_def result_ok_def)

lemma isolated_abstain:
  "started \<le> now \<Longrightarrow> reason \<noteq> Given [] \<Longrightarrow> isolated outcomes (i, isolationAbstain pv decidedAt started now code reason)"
  using isolationAbstain_Inr [of started now reason pv decidedAt code] by (auto simp: isolated_def)

lemma caught_abstain:
  "started \<le> now \<Longrightarrow> reason \<noteq> Given [] \<Longrightarrow>
     caught pv decidedAt started later (isolationAbstain pv decidedAt started now code reason) = isolationAbstain pv decidedAt started now code reason"
  using isolationAbstain_Inr [of started now reason pv decidedAt code] by (auto simp: caught_def)

lemma isolated_outcome:
  "started \<le> now \<Longrightarrow> isolated (outcomes @ [(i, out)]) (i, outcome_answer pv decidedAt started now later out)"
  by (auto simp: outcome_answer_def caught_abstain isolated_abstain split: provider_outcome.splits option.splits)
    (auto simp: isolated_def)

lemma isolated_timeout: "started \<le> now \<Longrightarrow> isolated outcomes (i, timeout_answer pv budget decidedAt started now later)"
  by (simp add: timeout_answer_def caught_abstain isolated_abstain)

lemma isolated_more: "isolated outcomes x \<Longrightarrow> isolated (outcomes @ extra) x"
  by (auto simp: isolated_def)

lemma bulkhead_inv_step:
  assumes "bulkhead_step steady pv budget maxConcurrent b b'" "bulkhead_inv steady maxConcurrent b"
  shows "bulkhead_inv steady maxConcurrent b'"
  using assms
proof cases
  case (shed i started now a ctx)
  then show ?thesis using assms(2) isolated_abstain [of started now "Overloaded (pv_id pv) maxConcurrent" "b_outcomes b" i]
    by (auto simp: bulkhead_inv_def)
next
  case (admitted i ctx started)
  then show ?thesis using assms(2) by (auto simp: bulkhead_inv_def card_insert_if)
next
  case (ended_in_time i ctx started now later out)
  then have "card (b_running b - {i}) = b_active b - 1" using assms(2) by (simp add: bulkhead_inv_def)
  then show ?thesis
    using ended_in_time assms(2) isolated_outcome [of started now "b_outcomes b" i out] isolated_more
    by (auto simp: bulkhead_inv_def answer_call_def)
next
  case (ended_late i out)
  then have "card (b_running b - {i}) = b_active b - 1" using assms(2) by (simp add: bulkhead_inv_def)
  then show ?thesis using ended_late assms(2) isolated_more by (auto simp: bulkhead_inv_def)
next
  case (timed_out i ctx started now later)
  then show ?thesis
    using assms(2) isolated_timeout [of started now "b_outcomes b" i] by (auto simp: bulkhead_inv_def answer_call_def)
qed

lemma bulkhead_inv_steps:
  "(bulkhead_step steady pv budget maxConcurrent)\<^sup>*\<^sup>* idle_bulkhead b \<Longrightarrow> bulkhead_inv steady maxConcurrent b"
proof (induction rule: rtranclp_induct)
  case base
  then show ?case by (simp add: bulkhead_inv_def idle_bulkhead_def)
next
  case (step b b')
  then show ?case by (blast intro: bulkhead_inv_step)
qed

end
