(* ===== verification/AssetId.thy ===== *)
theory AssetId
  imports JsText
begin

text \<open>
  Derived asset ids: \<open>domain-api/src/lib/assetId.ts\<close>. A live catalog adapter addresses an upstream object only by a
  parsed id, so what \<open>parseAssetId\<close> lets through is what can reach a request path.
\<close>

datatype asset_kind = TableAsset | TopicAsset | SchemaAsset | CatalogAsset

fun kind_name :: "asset_kind \<Rightarrow> string" where
  "kind_name TableAsset = ''table''"
| "kind_name TopicAsset = ''topic''"
| "kind_name SchemaAsset = ''schema''"
| "kind_name CatalogAsset = ''catalog''"

definition encodeIdSegment :: "string \<Rightarrow> string" where
  "encodeIdSegment s = replaceAll ''.'' ''%2E'' (replaceAll ''%'' ''%25'' s)"

definition decodeIdSegment :: "string \<Rightarrow> string" where
  "decodeIdSegment s = replaceAll ''%25'' ''%'' (replaceAll ''%2E'' ''.'' s)"

definition deriveAssetId :: "asset_kind \<Rightarrow> string list \<Rightarrow> string" where
  "deriveAssetId k segments = ''asset-'' @ kind_name k @ ''-'' @ join ''.'' (map encodeIdSegment segments)"

definition MAX_ASSET_ID_LENGTH :: nat where "MAX_ASSET_ID_LENGTH = 256"

definition control_or_slash :: "char \<Rightarrow> bool" where
  "control_or_slash c \<longleftrightarrow> (of_char c :: nat) < 32 \<or> (of_char c :: nat) = 127 \<or> c = CHR ''/'' \<or> c = CHR 0x5C"

definition isSafeUpstreamSegment :: "string \<Rightarrow> bool" where
  "isSafeUpstreamSegment s \<longleftrightarrow> s \<noteq> [] \<and> s \<noteq> ''.'' \<and> s \<noteq> ''..'' \<and> list_all (\<lambda>c. \<not> control_or_slash c) s"

text \<open>\<open>.\<close> in a regular expression matches no line terminator.\<close>

definition no_line_terminator :: "string \<Rightarrow> bool" where
  "no_line_terminator s \<longleftrightarrow> CHR 0x0A \<notin> set s \<and> CHR 0x0D \<notin> set s
     \<and> \<not> contains [CHR 0xE2, CHR 0x80, CHR 0xA8] s \<and> \<not> contains [CHR 0xE2, CHR 0x80, CHR 0xA9] s"

text \<open>\<open>/^asset-(catalog|schema|table)-(.+)$/.exec(id)\<close>: the kind and the rest.\<close>

definition id_match :: "string \<Rightarrow> (asset_kind \<times> string) option" where
  "id_match i =
     (let rest = (\<lambda>k. drop (length (''asset-'' @ kind_name k @ ''-'')) i) in
      case find (\<lambda>k. is_prefix (''asset-'' @ kind_name k @ ''-'') i) [CatalogAsset, SchemaAsset, TableAsset] of
        None \<Rightarrow> None
      | Some k \<Rightarrow> if rest k \<noteq> [] \<and> no_line_terminator (rest k) then Some (k, rest k) else None)"

fun min_segments :: "asset_kind \<Rightarrow> nat" where
  "min_segments CatalogAsset = 1"
| "min_segments SchemaAsset = 2"
| "min_segments _ = 3"

definition segment_count_ok :: "asset_kind \<Rightarrow> nat \<Rightarrow> bool" where
  "segment_count_ok k n \<longleftrightarrow> min_segments k \<le> n \<and> (k = CatalogAsset \<longrightarrow> n = 1)"

definition parseAssetId :: "string \<Rightarrow> (asset_kind \<times> string list) option" where
  "parseAssetId i =
     (if MAX_ASSET_ID_LENGTH < js_length i then None
      else case id_match i of
          None \<Rightarrow> None
        | Some (k, raw) \<Rightarrow>
            (let segments = split_on (CHR ''.'') raw in
             if [] \<in> set segments then None
             else let decoded = map decodeIdSegment segments in
               if \<not> list_all isSafeUpstreamSegment decoded then None
               else if \<not> segment_count_ok k (length segments) then None
               else Some (k, decoded)))"

section \<open>Segments\<close>

definition id_escape :: "char \<Rightarrow> string" where
  "id_escape c = (if c = CHR ''%'' then ''%25'' else if c = CHR ''.'' then ''%2E'' else [c])"

lemma encode_escape: "encodeIdSegment s = concat (map id_escape s)"
  unfolding encodeIdSegment_def replaceAll_char
  by (induction s) (auto simp: id_escape_def)

lemma decode_dots:
  "replaceAll ''%2E'' ''.'' (concat (map id_escape s)) = concat (map (\<lambda>c. if c = CHR ''%'' then ''%25'' else [c]) s)"
proof (induction s)
  case (Cons c s)
  then show ?case by (auto simp: id_escape_def is_prefix_simps)
qed simp

lemma decode_percents:
  "replaceAll ''%25'' ''%'' (concat (map (\<lambda>c. if c = CHR ''%'' then ''%25'' else [c]) s)) = s"
  by (induction s) (auto simp: is_prefix_simps)

lemma decode_encode: "decodeIdSegment (encodeIdSegment s) = s"
  by (simp add: decodeIdSegment_def encode_escape decode_dots decode_percents)

lemma encode_no_dot: "CHR ''.'' \<notin> set (encodeIdSegment s)"
  by (auto simp: encode_escape id_escape_def split: if_splits)

lemma encode_nonempty: "encodeIdSegment s = [] \<longleftrightarrow> s = []"
  by (cases s) (simp_all add: encode_escape id_escape_def)

lemma encode_all_nonempty:
  assumes "[] \<notin> set segments"
  shows "[] \<notin> set (map encodeIdSegment segments)"
proof
  assume "[] \<in> set (map encodeIdSegment segments)"
  then obtain s where "s \<in> set segments" "encodeIdSegment s = []" by (metis (no_types) imageE list.set_map)
  then show False using assms by (simp add: encode_nonempty)
qed

section \<open>Ids\<close>

lemma split_derived:
  assumes "segments \<noteq> []"
  shows "split_on (CHR ''.'') (join ''.'' (map encodeIdSegment segments)) = map encodeIdSegment segments"
  by (rule split_on_join) (use assms encode_no_dot in auto)

lemma id_match_derived:
  assumes "k \<noteq> TopicAsset" "raw \<noteq> []" "no_line_terminator raw"
  shows "id_match (''asset-'' @ kind_name k @ ''-'' @ raw) = Some (k, raw)"
  using assms by (cases k) (simp_all add: id_match_def is_prefix_simps Let_def)

lemma join_nonempty: "xs \<noteq> [] \<Longrightarrow> [] \<notin> set xs \<Longrightarrow> join sep xs \<noteq> []"
  by (induction sep xs rule: join.induct) auto

lemma parse_derived:
  assumes "k \<noteq> TopicAsset" "segment_count_ok k (length segments)" "list_all isSafeUpstreamSegment segments"
    and "no_line_terminator (join ''.'' (map encodeIdSegment segments))"
    and "js_length (deriveAssetId k segments) \<le> MAX_ASSET_ID_LENGTH"
  shows "parseAssetId (deriveAssetId k segments) = Some (k, segments)"
proof -
  have "segments \<noteq> []" using assms(1,2) by (cases k) (auto simp: segment_count_ok_def)
  moreover have "[] \<notin> set segments" using assms(3) by (auto simp: list_all_iff isSafeUpstreamSegment_def)
  ultimately have ne: "join ''.'' (map encodeIdSegment segments) \<noteq> []"
    by (intro join_nonempty encode_all_nonempty) simp_all
  have m: "id_match (deriveAssetId k segments) = Some (k, join ''.'' (map encodeIdSegment segments))"
    unfolding deriveAssetId_def by (rule id_match_derived [OF assms(1) ne assms(4)])
  have "[] \<notin> set (map encodeIdSegment segments)" by (rule encode_all_nonempty) fact
  then show ?thesis
    using assms m split_derived [OF \<open>segments \<noteq> []\<close>]
    by (simp add: parseAssetId_def Let_def comp_def decode_encode)
qed

lemma parse_safe:
  assumes "parseAssetId i = Some (k, segments)"
  shows "k \<noteq> TopicAsset" "segment_count_ok k (length segments)" "list_all isSafeUpstreamSegment segments"
proof -
  have "id_match i = Some (k, raw) \<Longrightarrow> k \<noteq> TopicAsset" for raw
    by (auto simp: id_match_def Let_def find_Some_iff nth_Cons' split: option.splits if_splits)
  then show "k \<noteq> TopicAsset" "segment_count_ok k (length segments)" "list_all isSafeUpstreamSegment segments"
    using assms by (auto simp: parseAssetId_def Let_def split: if_splits option.splits prod.splits)
qed

end
