(* ===== verification/Listing.thy ===== *)
theory Listing
  imports AssetId
begin

text \<open>
  What the list routes of the Domain API share: \<open>lib/envelope.ts\<close>, \<open>lib/pagination.ts\<close>, the envelope of
  \<open>schema/envelope.ts\<close>, and the data assets of \<open>schema/dataAsset.ts\<close> with their fixture source
  (\<open>adapters/dataAssetSource.ts\<close>).
\<close>

section \<open>Envelopes\<close>

datatype health_status = Healthy | Degraded | Stale | UnknownHealth | Unavailable

fun status_name :: "health_status \<Rightarrow> string" where
  "status_name Healthy = ''healthy''"
| "status_name Degraded = ''degraded''"
| "status_name Stale = ''stale''"
| "status_name Unavailable = ''unavailable''"
| "status_name UnknownHealth = ''unknown''"

record list_warning =
  lw_code :: string
  lw_message :: string
  lw_serviceId :: "string option"

definition healthWarning :: "health_status \<Rightarrow> string \<Rightarrow> string option \<Rightarrow> list_warning option" where
  "healthWarning st label service =
     (if st = Healthy then None
      else Some \<lparr>lw_code = to_upper (status_name st), lw_message = label @ '' status is '' @ status_name st, lw_serviceId = service\<rparr>)"

record list_meta =
  lm_total :: nat
  lm_page :: nat
  lm_pageSize :: nat

record 'a envelope =
  ev_data :: "'a list"
  ev_meta :: list_meta
  ev_warnings :: "list_warning list option"

definition buildListEnvelope :: "'a list \<Rightarrow> list_meta \<Rightarrow> list_warning list \<Rightarrow> 'a envelope" where
  "buildListEnvelope items meta warnings =
     \<lparr>ev_data = items, ev_meta = meta, ev_warnings = (if warnings = [] then None else Some warnings)\<rparr>"

text \<open>The query schema gives \<open>page\<close> and \<open>pageSize\<close> at least 1, and \<open>pageSize\<close> at most 100.\<close>

definition paginate :: "'a list \<Rightarrow> nat \<Rightarrow> nat \<Rightarrow> 'a list \<times> nat" where
  "paginate items page pageSize = (take pageSize (drop ((page - 1) * pageSize) items), length items)"

definition page_envelope :: "'a list \<Rightarrow> nat \<Rightarrow> nat \<Rightarrow> ('a list \<Rightarrow> list_warning list) \<Rightarrow> 'a envelope" where
  "page_envelope items page pageSize warnings_of = (case paginate items page pageSize of (pageItems, n) \<Rightarrow>
     buildListEnvelope pageItems \<lparr>lm_total = n, lm_page = page, lm_pageSize = pageSize\<rparr> (warnings_of pageItems))"

lemma pages_concat:
  assumes "0 < n"
  shows "concat (map (\<lambda>p. fst (paginate items p n)) [1..<Suc k]) = take (k * n) items"
proof (induction k)
  case (Suc k)
  have "take (k * n) items @ take n (drop (k * n) items) = take (k * n + n) items" by (rule take_add [symmetric])
  then show ?case using Suc by (simp add: paginate_def add.commute)
qed simp

section \<open>Data assets\<close>

record data_asset =
  da_id :: string
  da_name :: string
  da_kind :: asset_kind
  da_serviceId :: string
  da_status :: health_status
  da_catalog :: "string option"
  da_namespace :: "string list option"
  da_parentId :: "string option option"
  da_path :: "string list option"

record asset_column =
  ac_name :: string
  ac_type :: string
  ac_nullable :: bool
  ac_comment :: "string option"
  ac_isPartition :: "bool option"

record metadata_summary =
  ms_snapshotCount :: "nat option"
  ms_lastUpdated :: "string option"
  ms_partitionSpec :: "string option"

record asset_detail = data_asset +
  dd_columns :: "asset_column list option"
  dd_location :: "string option"
  dd_format :: "string option"
  dd_childCount :: "nat option option"
  dd_metadataSummary :: "metadata_summary option"

definition toDataAsset :: "asset_detail \<Rightarrow> data_asset" where
  "toDataAsset d = data_asset.truncate d"

definition fixture_list :: "asset_detail list \<Rightarrow> string option \<Rightarrow> data_asset list" where
  "fixture_list details parentId =
     filter (\<lambda>a. parentId = None \<or> da_parentId a = Some parentId) (map toDataAsset details)"

definition fixture_get :: "asset_detail list \<Rightarrow> string \<Rightarrow> asset_detail option" where
  "fixture_get details i = find (\<lambda>a. da_id a = i) details"

text \<open>\<open>GET /api/v1/data-assets\<close> over the result of a source.\<close>

definition list_assets ::
  "bool \<Rightarrow> data_asset list \<times> list_warning list \<Rightarrow> nat \<Rightarrow> nat \<Rightarrow> health_status option \<Rightarrow> asset_kind option \<Rightarrow> data_asset envelope" where
  "list_assets itemWarnings result page pageSize status kind =
     page_envelope
       (filter (\<lambda>a. (status = None \<or> status = Some (da_status a)) \<and> (kind = None \<or> kind = Some (da_kind a))) (fst result))
       page pageSize
       (\<lambda>shown. snd result @ (if itemWarnings
          then List.map_filter (\<lambda>a. healthWarning (da_status a) (da_name a) (Some (da_serviceId a))) shown else []))"

end
