(* ===== verification/Registry.thy ===== *)
theory Registry
  imports Listing Http
begin

text \<open>
  The service registry: \<open>domain-api/src/adapters/registry.ts\<close> with \<open>types.ts\<close>, \<open>stubAdapter.ts\<close> and the services route.
  An adapter's three reads are calls that answer or fail after some time, or never end; which they do at a request is an
  argument (\<open>reads\<close>), so nothing is assumed of an adapter. \<open>Promise.all\<close> and the race with the deadline are written out.
\<close>

section \<open>Services\<close>

datatype service_type = KafkaService | FlinkService | IcebergService | TrinoService | AirflowService | SupersetService
  | KubernetesService | ObservabilityService

datatype capability_category = Streaming | Processing | Lakehouse | QueryCategory | BI | Orchestration | StorageCategory | ObservabilityCategory

record key_metric =
  km_name :: string
  km_value :: string
  km_unit :: "string option"

record adapter_metadata =
  am_endpoint :: "string option"
  am_capabilities :: "string list"
  am_categories :: "capability_category list"
  am_namespace :: "string option"
  am_workloadRef :: "string option"
  am_keyMetrics :: "key_metric list"
  am_dependencies :: "string list"

record adapter_health =
  ah_status :: health_status
  ah_lastCheckedAt :: string
  ah_staleAfterMs :: nat

record service =
  sv_id :: string
  sv_name :: string
  sv_type :: service_type
  sv_version :: "string option"
  sv_status :: health_status
  sv_metadata :: adapter_metadata
  sv_lastCheckedAt :: string
  sv_staleAfterMs :: nat

record adapter =
  ad_id :: string
  ad_name :: string
  ad_type :: service_type
  ad_contractVersion :: nat

section \<open>Calls with a deadline\<close>

datatype 'a timed = Answers ms 'a | Fails ms | Hangs

text \<open>\<open>Promise.all\<close> of the three reads: it fails with the first failure and answers with the last answer.\<close>

definition first_failure :: "ms option \<Rightarrow> ms option \<Rightarrow> ms option" where
  "first_failure a b = (case (a, b) of (Some s, Some t) \<Rightarrow> Some (min s t) | (None, t) \<Rightarrow> t | (s, None) \<Rightarrow> s)"

fun failure :: "'a timed \<Rightarrow> ms option" where
  "failure (Fails t) = Some t"
| "failure _ = None"

definition promise_all :: "'a timed \<Rightarrow> 'b timed \<Rightarrow> 'c timed \<Rightarrow> ('a \<times> 'b \<times> 'c) timed" where
  "promise_all x y z = (case (x, y, z) of
       (Answers s a, Answers t b, Answers u c) \<Rightarrow> Answers (max s (max t u)) (a, b, c)
     | _ \<Rightarrow> (case first_failure (failure x) (first_failure (failure y) (failure z)) of Some t \<Rightarrow> Fails t | None \<Rightarrow> Hangs))"

text \<open>\<open>Promise.race\<close> with the timer: when it is over, and the answer if there was one in time.\<close>

definition race :: "ms \<Rightarrow> 'a timed \<Rightarrow> ms \<times> 'a option" where
  "race limit c = (case c of
       Answers t a \<Rightarrow> if t < limit then (t, Some a) else (limit, None)
     | Fails t \<Rightarrow> (min t limit, None)
     | Hangs \<Rightarrow> (limit, None))"

lemma race_Some: "snd (race limit c) = Some a \<longleftrightarrow> (\<exists>t. c = Answers t a \<and> t < limit)"
  by (auto simp: race_def split: timed.splits)

lemma race_time: "0 \<le> limit \<Longrightarrow> fst (race limit c) \<le> limit"
  by (auto simp: race_def split: timed.splits)

lemma promise_all_Answers:
  "promise_all x y z = Answers t v \<longleftrightarrow>
     (\<exists>r s u a b c. x = Answers r a \<and> y = Answers s b \<and> z = Answers u c \<and> t = max r (max s u) \<and> v = (a, b, c))"
  by (auto simp: promise_all_def split: timed.splits option.splits)

section \<open>The registry\<close>

definition DEFAULT_ADAPTER_TIMEOUT_MS :: ms where "DEFAULT_ADAPTER_TIMEOUT_MS = 3000"
definition SUPPORTED_ADAPTER_CONTRACT_VERSIONS :: "nat list" where "SUPPORTED_ADAPTER_CONTRACT_VERSIONS = [1]"
definition NEVER_CHECKED_AT :: string where "NEVER_CHECKED_AT = ''1970-01-01T00:00:00.000Z''"

datatype registry_error = UnsupportedAdapterVersion string nat | DuplicateAdapter string

text \<open>The entries of the map, in the order of registration.\<close>

record registry =
  rg_entries :: "(string \<times> string \<times> service_type) list"
  rg_timeoutMs :: ms

definition register :: "adapter \<Rightarrow> registry \<Rightarrow> (registry_error, registry) res" where
  "register a g =
     (if ad_contractVersion a \<notin> set SUPPORTED_ADAPTER_CONTRACT_VERSIONS then Inl (UnsupportedAdapterVersion (ad_id a) (ad_contractVersion a))
      else if ad_id a \<in> fst ` set (rg_entries g) then Inl (DuplicateAdapter (ad_id a))
      else Inr (g\<lparr>rg_entries := rg_entries g @ [(ad_id a, ad_name a, ad_type a)]\<rparr>))"

fun register_all :: "adapter list \<Rightarrow> registry \<Rightarrow> (registry_error, registry) res" where
  "register_all [] g = Inr g"
| "register_all (a # as) g = res_bind (register a g) (register_all as)"

definition new_registry :: "adapter list \<Rightarrow> ms \<Rightarrow> (registry_error, registry) res" where
  "new_registry adapters timeoutMs = register_all adapters \<lparr>rg_entries = [], rg_timeoutMs = timeoutMs\<rparr>"

type_synonym reads = "string \<Rightarrow> adapter_metadata timed \<times> string option timed \<times> adapter_health timed"

definition no_metadata :: adapter_metadata where
  "no_metadata = \<lparr>am_endpoint = None, am_capabilities = [], am_categories = [], am_namespace = None, am_workloadRef = None,
     am_keyMetrics = [], am_dependencies = []\<rparr>"

definition resolved :: "string \<times> string \<times> service_type \<Rightarrow> (adapter_metadata \<times> string option \<times> adapter_health) option \<Rightarrow> service" where
  "resolved x answer = (case x of (i, n, ty) \<Rightarrow> (case answer of
       Some (m, v, h) \<Rightarrow>
         \<lparr>sv_id = i, sv_name = n, sv_type = ty, sv_version = v, sv_status = ah_status h, sv_metadata = m,
          sv_lastCheckedAt = ah_lastCheckedAt h, sv_staleAfterMs = ah_staleAfterMs h\<rparr>
     | None \<Rightarrow>
         \<lparr>sv_id = i, sv_name = n, sv_type = ty, sv_version = None, sv_status = UnknownHealth, sv_metadata = no_metadata,
          sv_lastCheckedAt = NEVER_CHECKED_AT, sv_staleAfterMs = 0\<rparr>))"

definition resolve :: "reads \<Rightarrow> ms \<Rightarrow> string \<times> string \<times> service_type \<Rightarrow> ms \<times> service" where
  "resolve reads timeoutMs x =
     (case reads (fst x) of (m, v, h) \<Rightarrow> (case race timeoutMs (promise_all m v h) of (t, a) \<Rightarrow> (t, resolved x a)))"

text \<open>\<open>listServices\<close> takes as long as its slowest entry; no entry can fail.\<close>

definition listServices :: "reads \<Rightarrow> registry \<Rightarrow> service_type option \<Rightarrow> ms \<times> service list" where
  "listServices reads g ty =
     (let rs = map (resolve reads (rg_timeoutMs g)) (filter (\<lambda>(i, n, t). ty = None \<or> ty = Some t) (rg_entries g))
      in (foldr max (map fst rs) 0, map snd rs))"

definition getService :: "reads \<Rightarrow> registry \<Rightarrow> string \<Rightarrow> service option" where
  "getService reads g i = map_option (\<lambda>(n, ty). snd (resolve reads (rg_timeoutMs g) (i, n, ty))) (map_of (rg_entries g) i)"

text \<open>\<open>createStubAdapter\<close>: an adapter that answers its fixture at once.\<close>

definition stub_adapter :: "service \<Rightarrow> adapter" where
  "stub_adapter s = \<lparr>ad_id = sv_id s, ad_name = sv_name s, ad_type = sv_type s, ad_contractVersion = 1\<rparr>"

definition stub_reads :: "service list \<Rightarrow> reads" where
  "stub_reads ss i = (case find (\<lambda>s. sv_id s = i) ss of
       None \<Rightarrow> (Hangs, Hangs, Hangs)
     | Some s \<Rightarrow> (Answers 0 (sv_metadata s), Answers 0 (sv_version s),
         Answers 0 \<lparr>ah_status = sv_status s, ah_lastCheckedAt = sv_lastCheckedAt s, ah_staleAfterMs = sv_staleAfterMs s\<rparr>))"

text \<open>The handlers of \<open>/api/v1/services\<close>.\<close>

definition services_list :: "reads \<Rightarrow> registry \<Rightarrow> nat \<Rightarrow> nat \<Rightarrow> service_type option \<Rightarrow> health_status option \<Rightarrow> service envelope" where
  "services_list reads g page pageSize ty status =
     page_envelope (filter (\<lambda>s. status = None \<or> status = Some (sv_status s)) (snd (listServices reads g ty))) page pageSize
       (List.map_filter (\<lambda>s. healthWarning (sv_status s) (sv_name s) (Some (sv_id s))))"

section \<open>What the registry keeps\<close>

lemma register_all_Inr:
  "register_all as g = Inr g' \<Longrightarrow>
     rg_entries g' = rg_entries g @ map (\<lambda>a. (ad_id a, ad_name a, ad_type a)) as \<and> rg_timeoutMs g' = rg_timeoutMs g"
proof (induction as arbitrary: g)
  case (Cons a as)
  from Cons.prems obtain h where h: "register a g = Inr h" "register_all as h = Inr g'" by (cases "register a g") auto
  from h(1) have "rg_entries h = rg_entries g @ [(ad_id a, ad_name a, ad_type a)]" "rg_timeoutMs h = rg_timeoutMs g"
    by (auto simp: register_def split: if_splits)
  with Cons.IH [OF h(2)] show ?case by simp
qed simp

lemma register_all_distinct: "register_all as g = Inr g' \<Longrightarrow> distinct (map fst (rg_entries g)) \<Longrightarrow> distinct (map fst (rg_entries g'))"
proof (induction as arbitrary: g)
  case (Cons a as)
  from Cons.prems(1) obtain h where h: "register a g = Inr h" "register_all as h = Inr g'" by (cases "register a g") auto
  from h(1) Cons.prems(2) have "distinct (map fst (rg_entries h))" by (auto simp: register_def split: if_splits)
  with Cons.IH [OF h(2)] show ?case by simp
qed simp

lemma new_registry_Inr:
  assumes "new_registry adapters timeoutMs = Inr g"
  shows "rg_entries g = map (\<lambda>a. (ad_id a, ad_name a, ad_type a)) adapters" "rg_timeoutMs g = timeoutMs" "distinct (map ad_id adapters)"
proof -
  let ?empty = "\<lparr>rg_entries = [], rg_timeoutMs = timeoutMs\<rparr>"
  show e: "rg_entries g = map (\<lambda>a. (ad_id a, ad_name a, ad_type a)) adapters" "rg_timeoutMs g = timeoutMs"
    using register_all_Inr [of adapters ?empty g] assms by (simp_all add: new_registry_def)
  have "distinct (map fst (rg_entries g))"
    using register_all_distinct [of adapters ?empty g] assms by (simp add: new_registry_def)
  then show "distinct (map ad_id adapters)" unfolding e by (simp add: comp_def)
qed

lemma foldr_max: "(\<And>x. x \<in> set xs \<Longrightarrow> x \<le> b) \<Longrightarrow> 0 \<le> b \<Longrightarrow> foldr max xs 0 \<le> (b :: ms)"
  by (induction xs) auto

lemma resolve_identity: "sv_id (snd (resolve reads timeoutMs (i, n, ty))) = i \<and> sv_name (snd (resolve reads timeoutMs (i, n, ty))) = n
    \<and> sv_type (snd (resolve reads timeoutMs (i, n, ty))) = ty"
  by (auto simp: resolve_def resolved_def split: prod.splits option.splits)

lemma resolve_time: "0 \<le> timeoutMs \<Longrightarrow> fst (resolve reads timeoutMs x) \<le> timeoutMs"
proof -
  assume t: "0 \<le> timeoutMs"
  obtain m v h where r: "reads (fst x) = (m, v, h)" by (cases "reads (fst x)") auto
  then show ?thesis using race_time [OF t, of "promise_all m v h"]
    by (cases "race timeoutMs (promise_all m v h)") (simp add: resolve_def)
qed

lemma listServices_time: "0 \<le> rg_timeoutMs g \<Longrightarrow> fst (listServices reads g ty) \<le> rg_timeoutMs g"
  unfolding listServices_def Let_def fst_conv by (rule foldr_max) (auto simp: resolve_time)

definition live_answer :: "ms \<Rightarrow> 'a timed \<times> 'b timed \<times> 'c timed \<Rightarrow> ('a \<times> 'b \<times> 'c) option" where
  "live_answer timeoutMs x = (case x of
       (Answers t a, Answers u b, Answers v c) \<Rightarrow> if t < timeoutMs \<and> u < timeoutMs \<and> v < timeoutMs then Some (a, b, c) else None
     | _ \<Rightarrow> None)"

definition entry_of_reads :: "ms \<Rightarrow> reads \<Rightarrow> service \<Rightarrow> bool" where
  "entry_of_reads timeoutMs reads s \<longleftrightarrow> (case live_answer timeoutMs (reads (sv_id s)) of
       Some (m, v, h) \<Rightarrow> sv_metadata s = m \<and> sv_version s = v \<and> sv_status s = ah_status h
         \<and> sv_lastCheckedAt s = ah_lastCheckedAt h \<and> sv_staleAfterMs s = ah_staleAfterMs h
     | None \<Rightarrow> sv_status s = UnknownHealth \<and> sv_metadata s = no_metadata \<and> sv_version s = None)"

lemma race_live: "snd (race timeoutMs (promise_all m v h)) = live_answer timeoutMs (m, v, h)"
  by (cases m; cases v; cases h) (simp_all add: race_def promise_all_def live_answer_def first_failure_def)

lemma listServices_identities:
  "map (\<lambda>s. (sv_id s, sv_name s, sv_type s)) (snd (listServices reads g ty)) =
     filter (\<lambda>(i, n, t). ty = None \<or> ty = Some t) (rg_entries g)"
proof -
  have "map (\<lambda>x. (sv_id (snd (resolve reads m x)), sv_name (snd (resolve reads m x)), sv_type (snd (resolve reads m x)))) es = es" for m es
    using resolve_identity [of reads m] by (induction es) auto
  then show ?thesis by (simp add: listServices_def Let_def comp_def)
qed

lemma resolve_entry: "entry_of_reads timeoutMs reads (snd (resolve reads timeoutMs (i, n, ty)))"
proof -
  obtain m v h where r: "reads i = (m, v, h)" by (cases "reads i") auto
  have "snd (resolve reads timeoutMs (i, n, ty)) = resolved (i, n, ty) (live_answer timeoutMs (m, v, h))"
    using r race_live [of timeoutMs m v h] by (cases "race timeoutMs (promise_all m v h)") (simp add: resolve_def)
  then show ?thesis
    using r resolve_identity [of reads timeoutMs i n ty] by (auto simp: entry_of_reads_def resolved_def split: option.splits)
qed

lemma listServices_entry:
  assumes "s \<in> set (snd (listServices reads g ty))" "distinct (map fst (rg_entries g))"
  shows "getService reads g (sv_id s) = Some s \<and> entry_of_reads (rg_timeoutMs g) reads s"
proof -
  obtain i n t where x: "(i, n, t) \<in> set (rg_entries g)" and s: "s = snd (resolve reads (rg_timeoutMs g) (i, n, t))"
    using assms(1) by (auto simp: listServices_def Let_def)
  have "map_of (rg_entries g) i = Some (n, t)" using x assms(2) by simp
  then have "getService reads g (sv_id s) = Some s" using s resolve_identity by (simp add: getService_def)
  then show ?thesis using resolve_entry s by simp
qed

end
