(* ===== verification/SqlRedaction.thy ===== *)
theory SqlRedaction
  imports JsText
begin

text \<open>
  \<open>domain-api/src/adapters/upstream/sqlRedaction.ts\<close>: the masking of literals in SQL text shown to users. The scanner
  is a function of the last character it has written (\<open>out.slice(-1)\<close>) and the text that is left. What it hides is
  stated without a lexer, over the way SQL text is written: a list of pieces (literals with their quotes doubled,
  delimited names, words, numbers, comments, symbols) and possibly an end that is not closed. \<open>sql_lex\<close> is the reading
  of a text into tokens, for the SQL that the server itself suggests.
\<close>

section \<open>The scanner\<close>

text \<open>The rest of a quoted piece after its opening quote, closing quote included, and what follows; a doubled quote
  does not close it.\<close>

fun quoted_rest :: "char \<Rightarrow> string \<Rightarrow> string \<times> string" where
  "quoted_rest q [] = ([], [])"
| "quoted_rest q [c] = ([c], [])"
| "quoted_rest q (c # d # s) =
     (if c \<noteq> q then (let (a, b) = quoted_rest q (d # s) in (c # a, b))
      else if d = q then (let (a, b) = quoted_rest q s in (c # d # a, b))
      else ([c], d # s))"

text \<open>\<open>sql.indexOf("*/", i + 2)\<close>: the text up to and with the end of the comment, and the rest.\<close>

fun comment_rest :: "string \<Rightarrow> string \<times> string" where
  "comment_rest [] = ([], [])"
| "comment_rest [c] = ([c], [])"
| "comment_rest (c # d # s) =
     (if c = CHR ''*'' \<and> d = CHR ''/'' then ([c, d], s) else (let (a, b) = comment_rest (d # s) in (c # a, b)))"

definition word_char :: "char \<Rightarrow> bool" where
  "word_char c \<longleftrightarrow> is_alpha c \<or> is_digit c \<or> c = CHR ''_'' \<or> c = CHR ''$''"

definition number_char :: "char \<Rightarrow> bool" where
  "number_char c \<longleftrightarrow> is_alpha c \<or> is_digit c \<or> c = CHR ''_'' \<or> c = CHR ''.''"

definition after_word :: "char option \<Rightarrow> bool" where
  "after_word p \<longleftrightarrow> (case p of None \<Rightarrow> False | Some c \<Rightarrow> word_char c)"

lemma quoted_rest_length: "length (snd (quoted_rest q s)) \<le> length s"
  by (induction q s rule: quoted_rest.induct) (auto simp: case_prod_beta)

lemma comment_rest_length: "length (snd (comment_rest s)) \<le> length s"
  by (induction s rule: comment_rest.induct) (auto simp: case_prod_beta)

lemma dropWhile_length: "length (dropWhile P s) \<le> length s"
  by (induction s) auto

function redact :: "char option \<Rightarrow> string \<Rightarrow> string" where
  "redact p [] = []"
| "redact p (c # s) =
     (if c = CHR 0x27 then CHR ''?'' # redact (Some (CHR ''?'')) (snd (quoted_rest c s))
      else if c = CHR 0x22
        then (c # fst (quoted_rest c s)) @ redact (Some (last (c # fst (quoted_rest c s)))) (snd (quoted_rest c s))
      else if c = CHR ''-'' \<and> is_prefix ''-'' s then CHR '' '' # redact (Some (CHR '' '')) (dropWhile (\<lambda>d. d \<noteq> CHR 0x0A) s)
      else if c = CHR ''/'' \<and> is_prefix ''*'' s then CHR '' '' # redact (Some (CHR '' '')) (snd (comment_rest (tl s)))
      else if is_digit c \<and> \<not> after_word p then CHR ''?'' # redact (Some (CHR ''?'')) (dropWhile number_char s)
      else c # redact (Some c) s)"
  by pat_completeness auto
termination
proof (relation "measure (\<lambda>(p, s). length s)")
  fix c :: char and s
  show "((Some (CHR '' ''), snd (comment_rest (tl s))), (p, c # s)) \<in> measure (\<lambda>(p, s). length s)" for p :: "char option"
    using comment_rest_length [of "tl s"] by (cases s) auto
qed (auto simp: less_Suc_eq_le quoted_rest_length dropWhile_length)

definition redactSqlLiterals :: "string \<Rightarrow> string" where
  "redactSqlLiterals sql = js_trim (redact None sql)"

section \<open>Tokens\<close>

datatype sql_token = Literal string | Identifier string | Comment string | Number string | Plain char

fun token_text :: "sql_token \<Rightarrow> string" where
  "token_text (Literal s) = s"
| "token_text (Identifier s) = s"
| "token_text (Comment s) = s"
| "token_text (Number s) = s"
| "token_text (Plain c) = [c]"

fun token_mask :: "sql_token \<Rightarrow> string" where
  "token_mask (Literal s) = ''?''"
| "token_mask (Identifier s) = s"
| "token_mask (Comment s) = '' ''"
| "token_mask (Number s) = ''?''"
| "token_mask (Plain c) = [c]"

text \<open>The last character written before the rest, given the token just read.\<close>

fun last_written :: "sql_token \<Rightarrow> char option" where
  "last_written (Identifier s) = Some (last s)"
| "last_written (Plain c) = Some c"
| "last_written (Comment s) = Some (CHR '' '')"
| "last_written _ = Some (CHR ''?'')"

text \<open>One token of a non-empty text.\<close>

definition next_token :: "char option \<Rightarrow> char \<Rightarrow> string \<Rightarrow> sql_token \<times> string" where
  "next_token p c s =
     (if c = CHR 0x27 then (Literal (c # fst (quoted_rest c s)), snd (quoted_rest c s))
      else if c = CHR 0x22 then (Identifier (c # fst (quoted_rest c s)), snd (quoted_rest c s))
      else if c = CHR ''-'' \<and> is_prefix ''-'' s
        then (Comment (c # takeWhile (\<lambda>d. d \<noteq> CHR 0x0A) s), dropWhile (\<lambda>d. d \<noteq> CHR 0x0A) s)
      else if c = CHR ''/'' \<and> is_prefix ''*'' s
        then (Comment (c # CHR ''*'' # fst (comment_rest (tl s))), snd (comment_rest (tl s)))
      else if is_digit c \<and> \<not> after_word p then (Number (c # takeWhile number_char s), dropWhile number_char s)
      else (Plain c, s))"

lemma next_token_length: "length (snd (next_token p c s)) \<le> length s"
  using comment_rest_length [of "tl s"]
  by (auto simp: next_token_def quoted_rest_length dropWhile_length intro: order_trans [OF comment_rest_length])

function sql_lex :: "char option \<Rightarrow> string \<Rightarrow> sql_token list" where
  "sql_lex p [] = []"
| "sql_lex p (c # s) = fst (next_token p c s) # sql_lex (last_written (fst (next_token p c s))) (snd (next_token p c s))"
  by pat_completeness auto
termination
  by (relation "measure (\<lambda>(p, s). length s)") (auto simp: less_Suc_eq_le next_token_length)

lemma quoted_rest_append: "fst (quoted_rest q s) @ snd (quoted_rest q s) = s"
  by (induction q s rule: quoted_rest.induct) (auto simp: case_prod_beta)

lemma comment_rest_append: "fst (comment_rest s) @ snd (comment_rest s) = s"
  by (induction s rule: comment_rest.induct) (auto simp: case_prod_beta)

lemma token_text_next: "token_text (fst (next_token p c s)) @ snd (next_token p c s) = c # s"
proof -
  have "is_prefix ''*'' s \<Longrightarrow> CHR ''*'' # tl s = s" by (cases s) (auto simp: is_prefix_def)
  then show ?thesis by (simp add: next_token_def quoted_rest_append comment_rest_append)
qed

text \<open>The tokens are the text, and masking them is what the scanner writes.\<close>

lemma sql_lex_lossless: "concat (map token_text (sql_lex p s)) = s"
  by (induction p s rule: sql_lex.induct) (simp_all add: token_text_next)

lemma redact_masks: "redact p s = concat (map token_mask (sql_lex p s))"
proof (induction p s rule: redact.induct)
  case (2 p c s)
  then show ?case by (simp add: next_token_def)
qed simp

section \<open>Quoted pieces\<close>

definition doubled :: "char \<Rightarrow> string \<Rightarrow> string" where
  "doubled q l = concat (map (\<lambda>c. if c = q then [c, c] else [c]) l)"

lemma doubled_rest:
  "v = [] \<or> hd v \<noteq> q \<Longrightarrow>
     quoted_rest q (concat (map (\<lambda>c. if c = q then [c, c] else [c]) l) @ q # v) =
       (concat (map (\<lambda>c. if c = q then [c, c] else [c]) l) @ [q], v)"
proof (induction l)
  case Nil
  then show ?case by (cases v) auto
next
  case (Cons c l)
  let ?s = "concat (map (\<lambda>c. if c = q then [c, c] else [c]) l) @ q # v"
  obtain d s where "?s = d # s" by (cases ?s) auto
  then show ?case using Cons by auto
qed

lemma quoted_rest_doubled: "v = [] \<or> hd v \<noteq> q \<Longrightarrow> quoted_rest q (doubled q l @ q # v) = (doubled q l @ [q], v)"
  unfolding doubled_def by (rule doubled_rest)

lemma doubled_simps [simp]: "doubled q [] = []" "doubled q (c # l) = (if c = q then [c, c] else [c]) @ doubled q l"
  by (simp_all add: doubled_def)

lemma quoted_rest_open: "quoted_rest q (doubled q l) = (doubled q l, [])"
proof (induction l)
  case (Cons c l)
  then show ?case by (cases "c = q"; cases "doubled q l") auto
qed simp

lemma comment_rest_closed: "\<not> sublist ''*/'' (s @ ''*'') \<Longrightarrow> comment_rest (s @ CHR ''*'' # CHR ''/'' # v) = (s @ ''*/'', v)"
proof (induction s)
  case (Cons c s)
  have tail: "\<not> sublist ''*/'' (s @ ''*'')" using Cons.prems sublist_Cons_right [of "''*/''" c "s @ ''*''"] by simp
  show ?case
  proof (cases s)
    case Nil
    then show ?thesis by simp
  next
    case (Cons d u)
    then have "\<not> (c = CHR ''*'' \<and> d = CHR ''/'')" using \<open>\<not> sublist ''*/'' ((c # s) @ ''*'')\<close> by (auto simp: sublist_Cons_right)
    then show ?thesis using Cons.IH [OF tail] Cons by auto
  qed
qed simp

lemma comment_rest_open: "\<not> sublist ''*/'' s \<Longrightarrow> comment_rest s = (s, [])"
proof (induction s rule: comment_rest.induct)
  case (3 c d s)
  have "\<not> (c = CHR ''*'' \<and> d = CHR ''/'')" "\<not> sublist ''*/'' (d # s)"
    using 3(2) by (auto simp: sublist_Cons_right)
  then show ?case using 3(1) by auto
qed simp_all

section \<open>SQL as it is written\<close>

datatype sql_piece =
    SqlText string
  | SqlName string
  | SqlWord string
  | SqlNumber string "string option" "(string \<times> string) option"
  | SqlLine string
  | SqlBlock string
  | SqlSymbol char

text \<open>A literal or a delimited name is given by its value; a number by its digits, its fraction and its exponent (sign and
  digits); a comment by what stands in it.\<close>

fun written :: "sql_piece \<Rightarrow> string" where
  "written (SqlText l) = CHR 0x27 # doubled (CHR 0x27) l @ [CHR 0x27]"
| "written (SqlName l) = CHR 0x22 # doubled (CHR 0x22) l @ [CHR 0x22]"
| "written (SqlWord w) = w"
| "written (SqlNumber i f e) = i @ (case f of None \<Rightarrow> [] | Some d \<Rightarrow> CHR ''.'' # d)
     @ (case e of None \<Rightarrow> [] | Some (sign, d) \<Rightarrow> CHR ''E'' # sign @ d)"
| "written (SqlLine s) = ''--'' @ s"
| "written (SqlBlock s) = ''/*'' @ s @ ''*/''"
| "written (SqlSymbol c) = [c]"

definition sql_word_part :: "char \<Rightarrow> bool" where
  "sql_word_part c \<longleftrightarrow> is_alpha c \<or> is_digit c \<or> c \<in> set ''_$''"

definition sql_digits :: "string \<Rightarrow> bool" where
  "sql_digits s \<longleftrightarrow> s \<noteq> [] \<and> list_all is_digit s"

fun piece_ok :: "sql_piece \<Rightarrow> bool" where
  "piece_ok (SqlWord w) = (w \<noteq> [] \<and> \<not> is_digit (hd w) \<and> list_all sql_word_part w)"
| "piece_ok (SqlNumber i f e) = (sql_digits i \<and> (case f of None \<Rightarrow> True | Some d \<Rightarrow> list_all is_digit d)
     \<and> (case e of None \<Rightarrow> True | Some (sign, d) \<Rightarrow> sign \<in> {[], ''+'', ''-''} \<and> sql_digits d))"
| "piece_ok (SqlLine s) = (CHR 0x0A \<notin> set s)"
| "piece_ok (SqlBlock s) = (\<not> sublist ''*/'' (s @ ''*''))"
| "piece_ok (SqlSymbol c) = (\<not> sql_word_part c \<and> c \<noteq> CHR 0x27 \<and> c \<noteq> CHR 0x22)"
| "piece_ok _ = True"

definition starts :: "(char \<Rightarrow> bool) \<Rightarrow> string \<Rightarrow> bool" where
  "starts P r \<longleftrightarrow> r \<noteq> [] \<and> P (hd r)"

text \<open>What has to stand between two pieces so that they are two: nothing that would prolong the first one.\<close>

fun may_follow :: "sql_piece \<Rightarrow> string \<Rightarrow> bool" where
  "may_follow (SqlText l) r = (\<not> starts (\<lambda>c. c = CHR 0x27) r)"
| "may_follow (SqlName l) r = (\<not> starts (\<lambda>c. c = CHR 0x22) r)"
| "may_follow (SqlWord w) r = (\<not> starts sql_word_part r)"
| "may_follow (SqlNumber i f e) r = (\<not> starts (\<lambda>c. sql_word_part c \<or> c = CHR ''.'') r)"
| "may_follow (SqlLine s) r = (r = [] \<or> hd r = CHR 0x0A)"
| "may_follow (SqlBlock s) r = True"
| "may_follow (SqlSymbol c) r = (\<not> (c = CHR ''-'' \<and> starts (\<lambda>d. d = CHR ''-'') r) \<and> \<not> (c = CHR ''/'' \<and> starts (\<lambda>d. d = CHR ''*'') r))"

text \<open>How the text ends: complete, in an open literal or in an open comment.\<close>

datatype sql_end = Closed | OpenText string | OpenBlock string

fun end_written :: "sql_end \<Rightarrow> string" where
  "end_written Closed = []"
| "end_written (OpenText l) = CHR 0x27 # doubled (CHR 0x27) l"
| "end_written (OpenBlock s) = ''/*'' @ s"

definition sql_text :: "sql_piece list \<Rightarrow> sql_end \<Rightarrow> string" where
  "sql_text ps e = concat (map written ps) @ end_written e"

fun sql_ok :: "sql_piece list \<Rightarrow> sql_end \<Rightarrow> bool" where
  "sql_ok [] e = (case e of OpenBlock s \<Rightarrow> \<not> sublist ''*/'' s | _ \<Rightarrow> True)"
| "sql_ok (x # xs) e = (piece_ok x \<and> may_follow x (sql_text xs e) \<and> sql_ok xs e)"

section \<open>What is shown\<close>

text \<open>The sign of an exponent is taken for an operator, so that such a number shows as two.\<close>

definition exponent_sign :: "(string \<times> string) option \<Rightarrow> string" where
  "exponent_sign e = (case e of None \<Rightarrow> [] | Some (sign, d) \<Rightarrow> sign)"

fun shown :: "sql_piece \<Rightarrow> string" where
  "shown (SqlText l) = ''?''"
| "shown (SqlName l) = written (SqlName l)"
| "shown (SqlWord w) = w"
| "shown (SqlNumber i f e) = (if exponent_sign e = [] then ''?'' else ''?'' @ exponent_sign e @ ''?'')"
| "shown (SqlLine s) = '' ''"
| "shown (SqlBlock s) = '' ''"
| "shown (SqlSymbol c) = [c]"

fun end_shown :: "sql_end \<Rightarrow> string" where
  "end_shown Closed = []"
| "end_shown (OpenText l) = ''?''"
| "end_shown (OpenBlock s) = '' ''"

text \<open>Texts that differ in the values of their literals, in their numbers and in their comments only.\<close>

fun alike :: "sql_piece \<Rightarrow> sql_piece \<Rightarrow> bool" where
  "alike (SqlText l) (SqlText l') = True"
| "alike (SqlNumber i f e) (SqlNumber i' f' e') = (exponent_sign e = exponent_sign e')"
| "alike (SqlLine s) (SqlLine s') = True"
| "alike (SqlBlock s) (SqlBlock s') = True"
| "alike x y = (x = y)"

fun ends_alike :: "sql_end \<Rightarrow> sql_end \<Rightarrow> bool" where
  "ends_alike (OpenText l) (OpenText l') = True"
| "ends_alike (OpenBlock s) (OpenBlock s') = True"
| "ends_alike x y = (x = y)"

lemma alike_shown: "alike x y \<Longrightarrow> shown x = shown y"
  by (cases "(x, y)" rule: alike.cases) auto

lemma ends_alike_shown: "ends_alike x y \<Longrightarrow> end_shown x = end_shown y"
  by (cases "(x, y)" rule: ends_alike.cases) auto

lemma sql_word_part_word_char: "sql_word_part c = word_char c"
  by (auto simp: sql_word_part_def word_char_def)

lemma digit_facts:
  "is_digit c \<Longrightarrow> number_char c \<and> word_char c \<and> c \<noteq> CHR 0x27 \<and> c \<noteq> CHR 0x22 \<and> c \<noteq> CHR ''-'' \<and> c \<noteq> CHR ''/'' \<and> c \<noteq> CHR ''*'' \<and> c \<noteq> CHR 0x0A"
  by (auto simp: number_char_def word_char_def is_digit_def)

lemma word_facts: "word_char c \<Longrightarrow> c \<noteq> CHR 0x27 \<and> c \<noteq> CHR 0x22 \<and> c \<noteq> CHR ''-'' \<and> c \<noteq> CHR ''/''"
  by (auto simp: word_char_def is_alpha_def is_upper_def is_lower_def is_digit_def)

text \<open>Characters that the scanner writes and that are no part of a word.\<close>

lemma no_word_char: "\<not> word_char (CHR ''?'')" "\<not> word_char (CHR '' '')" "\<not> word_char (CHR 0x22)" "\<not> word_char (CHR ''+'')"
  "\<not> word_char (CHR ''-'')"
  by (simp_all add: word_char_def is_alpha_def is_upper_def is_lower_def is_digit_def)

lemma redact_word:
  "list_all word_char w \<Longrightarrow> w \<noteq> [] \<Longrightarrow> is_digit (hd w) \<longrightarrow> after_word p \<Longrightarrow> redact p (w @ r) = w @ redact (Some (last w)) r"
proof (induction w arbitrary: p)
  case (Cons c w)
  then have step: "redact p ((c # w) @ r) = c # redact (Some c) (w @ r)"
    using word_facts [of c] by (cases "is_digit c") simp_all
  show ?case
  proof (cases "w = []")
    case False
    have "after_word (Some c)" using Cons.prems(1) by (simp add: after_word_def)
    then have "redact (Some c) (w @ r) = w @ redact (Some (last w)) r" using Cons False by simp
    then show ?thesis using step False by simp
  qed (use step in simp)
qed simp

text \<open>A run of characters of numbers that starts with a digit is one mark.\<close>

lemma redact_number:
  assumes "is_digit c" "\<not> after_word p" "list_all number_char s" "\<not> starts number_char r"
  shows "redact p (c # s @ r) = CHR ''?'' # redact (Some (CHR ''?'')) r"
proof -
  have "dropWhile number_char (s @ r) = r"
    using assms(3,4) by (cases r) (auto simp: starts_def dropWhile_append list_all_iff)
  then show ?thesis using assms(1,2) digit_facts [OF assms(1)] by simp
qed

lemma digits_number: "list_all is_digit s \<Longrightarrow> list_all number_char s"
  using digit_facts by (auto simp: list_all_iff)

lemma redact_numeral:
  assumes "piece_ok (SqlNumber i f e)" "may_follow (SqlNumber i f e) r" "\<not> after_word p"
  shows "redact p (written (SqlNumber i f e) @ r) = shown (SqlNumber i f e) @ redact (Some (CHR ''?'')) r"
proof -
  obtain c s where i: "i = c # s" "is_digit c" "list_all is_digit s"
    using assms(1) by (cases i) (auto simp: sql_digits_def)
  let ?f = "case f of None \<Rightarrow> [] | Some d \<Rightarrow> CHR ''.'' # d"
  have front: "list_all number_char (s @ ?f)"
    using assms(1) i by (cases f) (auto simp: digits_number number_char_def)
  have E: "number_char (CHR ''E'')" by (simp add: number_char_def is_alpha_def is_upper_def)
  have r: "\<not> starts number_char r"
    using assms(2) by (auto simp: starts_def number_char_def sql_word_part_def)
  show ?thesis
  proof (cases e)
    case None
    then show ?thesis using redact_number [OF i(2) assms(3) front r] i by (simp add: exponent_sign_def)
  next
    case (Some x)
    obtain sign d where e: "e = Some (sign, d)" using Some by (cases x) auto
    then obtain b u where d: "d = b # u" "is_digit b" "list_all is_digit u" and sign: "sign \<in> {[], ''+'', ''-''}"
      using assms(1) by (cases d) (auto simp: sql_digits_def)
    show ?thesis
    proof (cases "sign = []")
      case True
      have "list_all number_char (s @ ?f @ CHR ''E'' # d)"
        using front E d digits_number [of d] by simp
      from redact_number [OF i(2) assms(3) this r] show ?thesis using e i True by (simp add: exponent_sign_def)
    next
      case False
      then obtain g where g: "sign = [g]" "g = CHR ''+'' \<or> g = CHR ''-''" using sign by auto
      have "list_all number_char (s @ ?f @ ''E'')" using front E by simp
      moreover have "\<not> starts number_char (g # d @ r)"
        using g(2) by (auto simp: starts_def number_char_def is_alpha_def is_upper_def is_lower_def is_digit_def)
      ultimately have "redact p (c # (s @ ?f @ ''E'') @ g # d @ r) = CHR ''?'' # redact (Some (CHR ''?'')) (g # d @ r)"
        by (rule redact_number [OF i(2) assms(3)])
      moreover have "redact (Some (CHR ''?'')) (g # d @ r) = g # redact (Some g) (d @ r)"
        using g(2) d digit_facts [OF d(2)] by (auto simp: is_prefix_def is_digit_def)
      moreover have "redact (Some g) (d @ r) = CHR ''?'' # redact (Some (CHR ''?'')) r"
        using redact_number [OF d(2) _ digits_number [OF d(3)] r, of "Some g"] d(1) g(2)
        by (auto simp: after_word_def no_word_char)
      ultimately show ?thesis using e i g(1) by (simp add: exponent_sign_def)
    qed
  qed
qed

lemma redact_piece:
  assumes "piece_ok x" "may_follow x r" "starts is_digit (written x @ r) \<longrightarrow> \<not> after_word p"
  shows "\<exists>p'. redact p (written x @ r) = shown x @ redact p' r \<and> (starts is_digit r \<longrightarrow> \<not> after_word p')"
proof (cases x)
  case (SqlText l)
  then have "r = [] \<or> hd r \<noteq> CHR 0x27" using assms(2) by (auto simp: starts_def)
  from quoted_rest_doubled [OF this, of l] show ?thesis
    using SqlText by (intro exI [of _ "Some (CHR ''?'')"]) (simp add: after_word_def no_word_char)
next
  case (SqlName l)
  then have "r = [] \<or> hd r \<noteq> CHR 0x22" using assms(2) by (auto simp: starts_def)
  from quoted_rest_doubled [OF this, of l] show ?thesis
    using SqlName by (intro exI [of _ "Some (CHR 0x22)"]) (simp add: after_word_def no_word_char)
next
  case (SqlWord w)
  then have "redact p (w @ r) = w @ redact (Some (last w)) r"
    using assms(1) by (intro redact_word) (auto simp: sql_word_part_word_char list_all_iff)
  then show ?thesis using SqlWord assms(2) by (intro exI [of _ "Some (last w)"]) (auto simp: starts_def sql_word_part_def)
next
  case (SqlNumber i f e)
  have "starts is_digit (written x @ r)" using SqlNumber assms(1) by (cases i) (auto simp: starts_def sql_digits_def)
  then show ?thesis using redact_numeral [of i f e r p] SqlNumber assms
    by (intro exI [of _ "Some (CHR ''?'')"]) (auto simp: after_word_def no_word_char)
next
  case (SqlLine s)
  then have "dropWhile (\<lambda>d. d \<noteq> CHR 0x0A) (CHR ''-'' # s @ r) = r"
    using assms(1,2) by (cases r) (auto simp: dropWhile_append)
  then show ?thesis using SqlLine
    by (intro exI [of _ "Some (CHR '' '')"]) (simp add: is_prefix_def after_word_def no_word_char)
next
  case (SqlBlock s)
  then have "comment_rest (s @ CHR ''*'' # CHR ''/'' # r) = (s @ ''*/'', r)" using assms(1) comment_rest_closed by simp
  then show ?thesis using SqlBlock
    by (intro exI [of _ "Some (CHR '' '')"]) (simp add: is_prefix_def after_word_def no_word_char)
next
  case (SqlSymbol c)
  have first: "is_prefix [d] r = starts (\<lambda>x. x = d) r" for d by (cases r) (auto simp: is_prefix_def starts_def)
  have "\<not> word_char c" "\<not> is_digit c" "c \<noteq> CHR 0x27" "c \<noteq> CHR 0x22"
    using assms(1) SqlSymbol by (auto simp: sql_word_part_word_char word_char_def)
  moreover have "\<not> (c = CHR ''-'' \<and> is_prefix ''-'' r)" "\<not> (c = CHR ''/'' \<and> is_prefix ''*'' r)"
    using assms(2) SqlSymbol first by auto
  ultimately have "redact p (c # r) = c # redact (Some c) r" "\<not> word_char c" by (simp_all only: redact.simps if_False simp_thms)
  then show ?thesis using SqlSymbol by (intro exI [of _ "Some c"]) (simp add: after_word_def)
qed

lemma redact_end:
  "sql_ok [] e \<Longrightarrow> redact p (end_written e) = end_shown e"
  using quoted_rest_open [of "CHR 0x27"] comment_rest_open by (cases e) (auto simp: is_prefix_def)

lemma redact_text:
  "sql_ok ps e \<Longrightarrow> starts is_digit (sql_text ps e) \<longrightarrow> \<not> after_word p \<Longrightarrow>
     redact p (sql_text ps e) = concat (map shown ps) @ end_shown e"
proof (induction ps arbitrary: p)
  case Nil
  then show ?case using redact_end by (simp add: sql_text_def)
next
  case (Cons x xs)
  have split: "sql_text (x # xs) e = written x @ sql_text xs e" by (simp add: sql_text_def)
  have "piece_ok x" "may_follow x (sql_text xs e)" "sql_ok xs e" using Cons.prems(1) by simp_all
  with redact_piece [OF this(1,2)] Cons.prems(2) split Cons.IH show ?case by fastforce
qed

end
