(* ===== verification/Memo.thy ===== *)
theory Memo
  imports Http
begin

text \<open>
  The cache of the upstream adapters: \<open>domain-api/src/adapters/upstream/memo.ts\<close> with the error classes of \<open>errors.ts\<close>.
  The \<open>Map\<close> is an association list in insertion order (least recently used first); an entry object is identified by
  a number, and a promise by the load that settles it. What happens between two turns of the event loop is one
  operation: a call (\<open>memo\<close>), the settlement of a load (\<open>memo_settle\<close>), \<open>invalidate\<close>.
\<close>

section \<open>Upstream errors\<close>

datatype upstream_kind = KUnreachable | KTimeout | KUnauthenticated | KForbidden | KNotFound | KUpstreamError | KOverloaded | KMalformed

record upstream_error =
  ue_kind :: upstream_kind
  ue_upstream :: string
  ue_status :: "nat option"

datatype load_error = UpstreamFailure upstream_error | OtherError

definition describeUpstreamFailure :: "load_error \<Rightarrow> string \<Rightarrow> string" where
  "describeUpstreamFailure e subject = (case e of
       UpstreamFailure u \<Rightarrow>
         if ue_kind u = KForbidden \<or> ue_kind u = KUnauthenticated
         then subject @ '' is unavailable: the upstream did not accept Manager'' @ [CHR 0x27] @ ''s service credential''
         else subject @ '' is currently unavailable''
     | OtherError \<Rightarrow> subject @ '' is currently unavailable'')"

definition cacheable :: "load_error \<Rightarrow> bool" where
  "cacheable e \<longleftrightarrow> (case e of UpstreamFailure u \<Rightarrow> ue_kind u \<noteq> KTimeout \<and> ue_kind u \<noteq> KOverloaded | OtherError \<Rightarrow> False)"

section \<open>State\<close>

record memo_options =
  mo_ttlMs :: ms
  mo_negativeTtlMs :: ms
  mo_maxEntries :: nat
  mo_maxWeight :: nat

text \<open>An entry is pending while its result is \<open>None\<close>.\<close>

record 'v memo_entry =
  en_id :: nat
  en_result :: "(load_error, 'v) res option"
  en_expires :: ms
  en_weight :: nat

record 'v memo_state =
  m_cache :: "(string \<times> 'v memo_entry) list"
  m_totalWeight :: int
  m_next :: nat

definition createMemo :: "'v memo_state" where
  "createMemo = \<lparr>m_cache = [], m_totalWeight = 0, m_next = 0\<rparr>"

text \<open>\<open>None\<close> is the infinite weight.\<close>

definition normalizeWeight :: "js_num \<Rightarrow> nat option" where
  "normalizeWeight w = (case w of
       NaN \<Rightarrow> Some 1 | NegInf \<Rightarrow> Some 1 | PosInf \<Rightarrow> None | Finite r \<Rightarrow> if r < 1 then Some 1 else Some (nat \<lceil>r\<rceil>))"

definition isLive :: "string \<Rightarrow> nat \<Rightarrow> 'v memo_state \<Rightarrow> bool" where
  "isLive k i m \<longleftrightarrow> (case map_of (m_cache m) k of Some e \<Rightarrow> en_id e = i | None \<Rightarrow> False)"

definition link :: "string \<Rightarrow> 'v memo_entry \<Rightarrow> 'v memo_state \<Rightarrow> 'v memo_state" where
  "link k e m = m\<lparr>m_cache := AList.update k e (m_cache m), m_totalWeight := m_totalWeight m + int (en_weight e)\<rparr>"

definition unlink :: "string \<Rightarrow> 'v memo_entry \<Rightarrow> 'v memo_state \<Rightarrow> 'v memo_state" where
  "unlink k e m =
     (if \<not> isLive k (en_id e) m then m
      else m\<lparr>m_cache := AList.delete k (m_cache m), m_totalWeight := m_totalWeight m - int (en_weight e)\<rparr>)"

text \<open>Writing the fields of the live entry object.\<close>

definition put_entry :: "string \<Rightarrow> 'v memo_entry \<Rightarrow> 'v memo_state \<Rightarrow> 'v memo_state" where
  "put_entry k e m = m\<lparr>m_cache := AList.update k e (m_cache m)\<rparr>"

definition reweigh :: "string \<Rightarrow> 'v memo_entry \<Rightarrow> nat \<Rightarrow> 'v memo_state \<Rightarrow> 'v memo_state" where
  "reweigh k e w m =
     (if \<not> isLive k (en_id e) m then m
      else put_entry k (e\<lparr>en_weight := w\<rparr>) (m\<lparr>m_totalWeight := m_totalWeight m + int w - int (en_weight e)\<rparr>))"

lemma unlink_head:
  "m_cache m = (k, e) # r \<Longrightarrow> length (m_cache (unlink k e m)) \<le> length r"
  by (auto simp: unlink_def isLive_def AList.delete_eq)

function evict :: "memo_options \<Rightarrow> 'v memo_state \<Rightarrow> 'v memo_state" where
  "evict opt m =
     (if mo_maxEntries opt < length (m_cache m) \<or> int (mo_maxWeight opt) < m_totalWeight m
      then (case m_cache m of [] \<Rightarrow> m | (k, e) # _ \<Rightarrow> evict opt (unlink k e m))
      else m)"
  by pat_completeness auto
termination by (relation "measure (\<lambda>(opt, m). length (m_cache m))") (auto simp: less_Suc_eq_le unlink_head)

declare evict.simps [simp del]

section \<open>Operations\<close>

text \<open>A call is answered by an entry that is there, or starts a load.\<close>

datatype 'v memo_answer = Shared "'v memo_entry" | Started nat

definition start_load :: "memo_options \<Rightarrow> string \<Rightarrow> 'v memo_state \<Rightarrow> 'v memo_answer \<times> 'v memo_state" where
  "start_load opt k m =
     (Started (m_next m),
      evict opt (link k \<lparr>en_id = m_next m, en_result = None, en_expires = 0, en_weight = 1\<rparr> (m\<lparr>m_next := Suc (m_next m)\<rparr>)))"

definition memo :: "memo_options \<Rightarrow> ms \<Rightarrow> string \<Rightarrow> 'v memo_state \<Rightarrow> 'v memo_answer \<times> 'v memo_state" where
  "memo opt now k m = (case map_of (m_cache m) k of
       None \<Rightarrow> start_load opt k m
     | Some hit \<Rightarrow>
         if en_result hit = None \<or> now < en_expires hit
         then (Shared hit, m\<lparr>m_cache := AList.delete k (m_cache m) @ [(k, hit)]\<rparr>)
         else start_load opt k (unlink k hit m))"

text \<open>The two callbacks of the promise. \<open>w\<close> is what the weight function answers, \<open>None\<close> when it throws.\<close>

definition memo_settle ::
  "memo_options \<Rightarrow> ms \<Rightarrow> string \<Rightarrow> nat \<Rightarrow> (load_error, 'v) res \<Rightarrow> ms option \<Rightarrow> js_num option \<Rightarrow> 'v memo_state \<Rightarrow> 'v memo_state" where
  "memo_settle opt now k i outcome ttlMs w m = (case map_of (m_cache m) k of
       None \<Rightarrow> m
     | Some e \<Rightarrow>
         if en_id e \<noteq> i then m
         else let e' = e\<lparr>en_result := Some outcome\<rparr> in
           (case outcome of
              Inr v \<Rightarrow>
                (let ttl = (case ttlMs of Some t \<Rightarrow> t | None \<Rightarrow> mo_ttlMs opt);
                   weight = (case w of Some x \<Rightarrow> normalizeWeight x | None \<Rightarrow> Some 1)
                 in case weight of
                      None \<Rightarrow> unlink k e' (put_entry k e' m)
                    | Some n \<Rightarrow>
                        if ttl \<le> 0 \<or> mo_maxWeight opt < n then unlink k e' (put_entry k e' m)
                        else evict opt (reweigh k (e'\<lparr>en_expires := now + ttl\<rparr>) n (put_entry k e' m)))
            | Inl err \<Rightarrow>
                if 0 < mo_negativeTtlMs opt \<and> cacheable err
                then put_entry k (e'\<lparr>en_expires := now + mo_negativeTtlMs opt\<rparr>) m
                else unlink k e' (put_entry k e' m)))"

definition invalidate :: "string \<Rightarrow> 'v memo_state \<Rightarrow> 'v memo_state" where
  "invalidate k m = (case map_of (m_cache m) k of None \<Rightarrow> m | Some e \<Rightarrow> unlink k e m)"

definition memo_stats :: "'v memo_state \<Rightarrow> nat \<times> int \<times> nat" where
  "memo_stats m = (length (m_cache m), m_totalWeight m, sum_list (map (en_weight \<circ> snd) (m_cache m)))"

section \<open>Accounting\<close>

definition weights :: "(string \<times> 'v memo_entry) list \<Rightarrow> int" where
  "weights c = sum_list (map (int \<circ> en_weight \<circ> snd) c)"

definition accounted :: "'v memo_state \<Rightarrow> bool" where
  "accounted m \<longleftrightarrow> distinct (map fst (m_cache m)) \<and> m_totalWeight m = weights (m_cache m)"

lemma weights_simps [simp]: "weights [] = 0" "weights ((k, e) # c) = int (en_weight e) + weights c" "weights (c @ d) = weights c + weights d"
  by (simp_all add: weights_def)

lemma weights_delete:
  "distinct (map fst c) \<Longrightarrow> map_of c k = Some e \<Longrightarrow> weights (AList.delete k c) = weights c - int (en_weight e)"
proof (induction c)
  case (Cons x c)
  then show ?case by (cases x) (auto simp: delete_idem split: if_splits)
qed simp

lemma weights_update_new: "map_of c k = None \<Longrightarrow> weights (AList.update k e c) = weights c + int (en_weight e)"
  by (induction c) (auto split: if_splits)

lemma weights_update:
  "distinct (map fst c) \<Longrightarrow> map_of c k = Some e \<Longrightarrow> weights (AList.update k e' c) = weights c - int (en_weight e) + int (en_weight e')"
proof (induction c)
  case (Cons x c)
  then show ?case by (cases x) (auto split: if_splits)
qed simp

lemma accounted_unlink: "accounted m \<Longrightarrow> map_of (m_cache m) k = Some e \<Longrightarrow> accounted (unlink k e m)"
  by (auto simp: accounted_def unlink_def isLive_def weights_delete distinct_delete)

lemma weights_nonneg: "0 \<le> weights c"
  by (auto simp: weights_def intro!: sum_list_nonneg)

lemma evict_ok:
  "accounted m \<Longrightarrow> accounted (evict opt m) \<and> length (m_cache (evict opt m)) \<le> mo_maxEntries opt
     \<and> m_totalWeight (evict opt m) \<le> int (mo_maxWeight opt)"
proof (induction opt m rule: evict.induct)
  case (1 opt m)
  show ?case
  proof (cases "mo_maxEntries opt < length (m_cache m) \<or> int (mo_maxWeight opt) < m_totalWeight m")
    case over: True
    show ?thesis
    proof (cases "m_cache m")
      case Nil
      then show ?thesis using over 1(2) by (auto simp: accounted_def)
    next
      case (Cons x r)
      obtain k e where x: "x = (k, e)" by (cases x)
      then have "accounted (unlink k e m)" using 1(2) Cons by (intro accounted_unlink) simp_all
      then show ?thesis using 1(1) [OF over Cons x [symmetric]] over Cons x by (subst (1 2 3) evict.simps) simp
    qed
  next
    case False
    then show ?thesis using 1(2) by (subst (1 2 3) evict.simps) auto
  qed
qed

lemma accounted_put:
  assumes "accounted m" "map_of (m_cache m) k = Some e" "en_weight e' = en_weight e"
  shows "accounted (put_entry k e' m)"
  using assms by (simp add: accounted_def put_entry_def weights_update distinct_update)

lemma accounted_link: "accounted m \<Longrightarrow> map_of (m_cache m) k = None \<Longrightarrow> accounted (link k e m)"
  by (simp add: accounted_def link_def weights_update_new distinct_update)

lemma accounted_reweigh:
  assumes "accounted m" "map_of (m_cache m) k = Some e" "en_weight e' = en_weight e" "en_id e' = en_id e"
  shows "accounted (reweigh k e' w m)"
  using assms by (auto simp: accounted_def reweigh_def put_entry_def isLive_def weights_update distinct_update)

lemma map_of_put [simp]: "map_of (m_cache (put_entry k e m)) k = Some e"
  by (simp add: put_entry_def update_conv')

lemma map_of_unlink: "map_of (m_cache m) k = Some e \<Longrightarrow> map_of (m_cache (unlink k e m)) k = None"
  by (simp add: unlink_def isLive_def delete_conv')

section \<open>Where the entries come from\<close>

lemma set_update: "set (AList.update k e c) \<subseteq> insert (k, e) (set c)"
  by (induction c) auto

lemma cache_unlink: "set (m_cache (unlink k e m)) \<subseteq> set (m_cache m)" "m_next (unlink k e m) = m_next m"
  by (auto simp: unlink_def AList.delete_eq)

lemma cache_put: "set (m_cache (put_entry k e m)) \<subseteq> insert (k, e) (set (m_cache m))" "m_next (put_entry k e m) = m_next m"
  using set_update [of k e "m_cache m"] by (simp_all add: put_entry_def)

lemma cache_evict: "set (m_cache (evict opt m)) \<subseteq> set (m_cache m) \<and> m_next (evict opt m) = m_next m"
proof (induction opt m rule: evict.induct)
  case (1 opt m)
  show ?case
  proof (cases "(mo_maxEntries opt < length (m_cache m) \<or> int (mo_maxWeight opt) < m_totalWeight m) \<and> m_cache m \<noteq> []")
    case True
    then obtain k e r where x: "m_cache m = (k, e) # r" by (cases "m_cache m") auto
    then have "evict opt m = evict opt (unlink k e m)" using True by (subst evict.simps) simp
    then show ?thesis using 1 [OF _ x refl] True cache_unlink [of k e m] by auto
  next
    case False
    then have "evict opt m = m" by (subst evict.simps) (auto split: list.splits)
    then show ?thesis by simp
  qed
qed

lemma delete_other: "(k', e') \<in> set (AList.delete k c) \<Longrightarrow> k' \<noteq> k"
  by (auto simp: AList.delete_eq)

section \<open>Runs\<close>

text \<open>A run of the cache with its loads (number and key) and the settlements so far: the load, the time, how long the
  outcome may be served, the outcome. A load settles once.\<close>

definition lifetime :: "memo_options \<Rightarrow> ms option \<Rightarrow> (load_error, 'v) res \<Rightarrow> ms" where
  "lifetime opt ttlMs r = (case r of
       Inr v \<Rightarrow> (case ttlMs of Some t \<Rightarrow> t | None \<Rightarrow> mo_ttlMs opt)
     | Inl err \<Rightarrow> if cacheable err then mo_negativeTtlMs opt else 0)"

type_synonym 'v memo_run = "'v memo_state \<times> (nat \<times> string) list \<times> (nat \<times> ms \<times> ms \<times> (load_error, 'v) res) list"

inductive memo_step :: "memo_options \<Rightarrow> 'v memo_run \<Rightarrow> 'v memo_run \<Rightarrow> bool" for opt where
  shared: "memo opt now k m = (Shared e, m') \<Longrightarrow> memo_step opt (m, ls, lg) (m', ls, lg)"
| load: "memo opt now k m = (Started i, m') \<Longrightarrow> memo_step opt (m, ls, lg) (m', ls @ [(i, k)], lg)"
| settle: "(i, k) \<in> set ls \<Longrightarrow> i \<notin> fst ` set lg \<Longrightarrow>
    memo_step opt (m, ls, lg) (memo_settle opt now k i r ttlMs w m, ls, lg @ [(i, now, lifetime opt ttlMs r, r)])"
| invalidate: "memo_step opt (m, ls, lg) (invalidate k m, ls, lg)"

definition entry_ok :: "(nat \<times> string) list \<Rightarrow> (nat \<times> ms \<times> ms \<times> (load_error, 'v) res) list \<Rightarrow> string \<times> 'v memo_entry \<Rightarrow> bool" where
  "entry_ok ls lg x \<longleftrightarrow> (en_id (snd x), fst x) \<in> set ls
     \<and> (case en_result (snd x) of
          None \<Rightarrow> en_id (snd x) \<notin> fst ` set lg
        | Some r \<Rightarrow> \<exists>t l. (en_id (snd x), t, l, r) \<in> set lg \<and> en_expires (snd x) = t + l \<and> 0 < l)"

definition memo_inv :: "memo_options \<Rightarrow> 'v memo_run \<Rightarrow> bool" where
  "memo_inv opt s \<longleftrightarrow> (case s of (m, ls, lg) \<Rightarrow>
     accounted m \<and> length (m_cache m) \<le> mo_maxEntries opt \<and> m_totalWeight m \<le> int (mo_maxWeight opt)
     \<and> distinct (map fst ls) \<and> (\<forall>i \<in> fst ` set ls. i < m_next m) \<and> fst ` set lg \<subseteq> fst ` set ls
     \<and> (\<forall>x \<in> set (m_cache m). entry_ok ls lg x))"

section \<open>The invariant\<close>

definition bounded :: "memo_options \<Rightarrow> 'v memo_state \<Rightarrow> bool" where
  "bounded opt m \<longleftrightarrow> accounted m \<and> length (m_cache m) \<le> mo_maxEntries opt \<and> m_totalWeight m \<le> int (mo_maxWeight opt)"

lemma length_update_old: "map_of c k = Some e \<Longrightarrow> length (AList.update k e' c) = length c"
  by (induction c) (auto split: if_splits)

lemma bounded_put: "bounded opt m \<Longrightarrow> map_of (m_cache m) k = Some e \<Longrightarrow> en_weight e' = en_weight e \<Longrightarrow> bounded opt (put_entry k e' m)"
  using accounted_put [of m k e e'] by (simp add: bounded_def length_update_old) (simp add: put_entry_def length_update_old)

lemma bounded_unlink: "bounded opt m \<Longrightarrow> map_of (m_cache m) k = Some e \<Longrightarrow> bounded opt (unlink k e m)"
  using accounted_unlink [of m k e] length_delete_le [of k "m_cache m"]
  by (auto simp: bounded_def unlink_def)

lemma bounded_evict: "accounted m \<Longrightarrow> bounded opt (evict opt m)"
  using evict_ok by (simp add: bounded_def)

lemma entries_put:
  assumes "distinct (map fst (m_cache m))" "x \<in> set (m_cache (put_entry k e m))"
  shows "x = (k, e) \<or> x \<in> set (m_cache m) \<and> fst x \<noteq> k"
proof (cases x)
  case (Pair k' e')
  have "map_of (AList.update k e (m_cache m)) k' = Some e'"
    using assms Pair by (simp add: put_entry_def distinct_update)
  then show ?thesis using assms(1) Pair by (auto simp: update_conv' dest: map_of_SomeD split: if_splits)
qed

lemma bounded_start: "accounted m \<Longrightarrow> map_of (m_cache m) k = None \<Longrightarrow> bounded opt (snd (start_load opt k m))"
  by (auto simp: start_load_def intro!: bounded_evict accounted_link) (simp_all add: accounted_def)

lemma length_delete_old: "map_of c k = Some e \<Longrightarrow> length (AList.delete k c) < length c"
proof (induction c)
  case (Cons x c)
  then show ?case using length_delete_le [of k c] by (cases x) (auto simp: less_Suc_eq_le split: if_splits)
qed simp

lemma touch_accounted:
  assumes "accounted m" "map_of (m_cache m) k = Some hit"
  shows "accounted (m\<lparr>m_cache := AList.delete k (m_cache m) @ [(k, hit)]\<rparr>)"
  using assms by (auto simp: accounted_def weights_delete distinct_delete dest: delete_other)

lemma bounded_memo:
  assumes "bounded opt m"
  shows "bounded opt (snd (memo opt now k m))"
proof (cases "map_of (m_cache m) k")
  case None
  have "bounded opt (snd (start_load opt k m))" by (rule bounded_start [OF _ None]) (use assms in \<open>simp add: bounded_def\<close>)
  then show ?thesis using None by (simp add: memo_def)
next
  case (Some hit)
  have "accounted (unlink k hit m)" "map_of (m_cache (unlink k hit m)) k = None"
    using assms Some accounted_unlink map_of_unlink by (auto simp: bounded_def)
  then have "bounded opt (snd (start_load opt k (unlink k hit m)))" by (rule bounded_start)
  moreover have "bounded opt (m\<lparr>m_cache := AList.delete k (m_cache m) @ [(k, hit)]\<rparr>)"
    using assms touch_accounted [OF _ Some] length_delete_old [OF Some] by (simp add: bounded_def)
  ultimately show ?thesis using Some by (simp add: memo_def)
qed

lemma bounded_invalidate: "bounded opt m \<Longrightarrow> bounded opt (invalidate k m)"
  by (auto simp: invalidate_def intro: bounded_unlink split: option.splits)

lemma bounded_settle:
  assumes "bounded opt m"
  shows "bounded opt (memo_settle opt now k i r ttlMs w m)"
proof (cases "map_of (m_cache m) k")
  case None
  then show ?thesis using assms by (simp add: memo_settle_def)
next
  case (Some e)
  have put: "bounded opt (put_entry k e' m)" if "en_weight e' = en_weight e" for e'
    using bounded_put [OF assms Some that] .
  have drop: "bounded opt (unlink k e' (put_entry k e' m))" if "en_weight e' = en_weight e" for e'
    by (rule bounded_unlink [OF put [OF that] map_of_put])
  have keep: "bounded opt (evict opt (reweigh k e'' n (put_entry k e' m)))"
    if "en_weight e' = en_weight e" "en_weight e'' = en_weight e'" "en_id e'' = en_id e'" for e' e'' n
    by (rule bounded_evict, rule accounted_reweigh [OF _ map_of_put that(2,3)]) (use put [OF that(1)] in \<open>simp add: bounded_def\<close>)
  show ?thesis using Some assms
    by (auto simp: memo_settle_def Let_def intro!: put drop keep split: sum.splits option.splits)
qed

lemma entry_ok_mono:
  assumes "entry_ok ls lg x" "i \<noteq> en_id (snd x)"
  shows "entry_ok ls (lg @ [(i, d)]) x"
  using assms by (auto simp: entry_ok_def split: option.splits)

lemma entries_settle:
  assumes "distinct (map fst (m_cache m))" "x \<in> set (m_cache (memo_settle opt now k i r ttlMs w m))"
  shows "x \<in> set (m_cache m) \<and> (fst x = k \<longrightarrow> en_id (snd x) \<noteq> i)
    \<or> fst x = k \<and> en_id (snd x) = i \<and> en_result (snd x) = Some r \<and> en_expires (snd x) = now + lifetime opt ttlMs r
      \<and> 0 < lifetime opt ttlMs r"
proof (cases "map_of (m_cache m) k")
  case None
  then have "fst x \<noteq> k" if "x \<in> set (m_cache m)" using that by (auto simp: map_of_eq_None_iff)
  then show ?thesis using assms None by (auto simp: memo_settle_def)
next
  case (Some e)
  have other: "y = (k, e)" if "y \<in> set (m_cache m)" "fst y = k" for y
  proof -
    have "(k, snd y) \<in> set (m_cache m)" using that by (cases y) auto
    then have "snd y = e" using Some assms(1) by (metis map_of_eq_Some_iff option.inject)
    then show ?thesis using that by (cases y) auto
  qed
  show ?thesis
  proof (cases "en_id e = i")
    case False
    then show ?thesis using assms(2) Some other [of x] by (cases x) (auto simp: memo_settle_def)
  next
    case True
    have del: "x \<in> set (m_cache (unlink k e' (put_entry k e' m))) \<Longrightarrow> x \<in> set (m_cache m) \<and> fst x \<noteq> k" for e'
      using entries_put [OF assms(1), of x k e'] by (auto simp: unlink_def isLive_def dest: delete_other simp: AList.delete_eq)
    have kept: "x \<in> set (m_cache (evict opt (reweigh k e'' n (put_entry k e' m)))) \<Longrightarrow>
        x = (k, e''\<lparr>en_weight := n\<rparr>) \<or> x \<in> set (m_cache m) \<and> fst x \<noteq> k" if "en_id e'' = en_id e'" for e' e'' n
    proof -
      assume "x \<in> set (m_cache (evict opt (reweigh k e'' n (put_entry k e' m))))"
      then have "x \<in> set (m_cache (put_entry k (e''\<lparr>en_weight := n\<rparr>) (put_entry k e' m)))"
        using cache_evict [of opt "reweigh k e'' n (put_entry k e' m)"] that
        by (auto simp: reweigh_def isLive_def put_entry_def update_conv')
      then have "x = (k, e''\<lparr>en_weight := n\<rparr>) \<or> x \<in> set (m_cache (put_entry k e' m)) \<and> fst x \<noteq> k"
        by (rule entries_put [rotated]) (use assms(1) in \<open>simp add: put_entry_def distinct_update\<close>)
      then show ?thesis using entries_put [OF assms(1), of x k e'] by auto
    qed
    define e' where "e' = e\<lparr>en_result := Some r\<rparr>"
    define L where "L = lifetime opt ttlMs r"
    have e': "en_id e' = i" "en_result e' = Some r" using True by (simp_all add: e'_def)
    consider (drop) "memo_settle opt now k i r ttlMs w m = unlink k e' (put_entry k e' m)"
      | (keep) n where "memo_settle opt now k i r ttlMs w m = evict opt (reweigh k (e'\<lparr>en_expires := now + L\<rparr>) n (put_entry k e' m))" "0 < L"
      | (negative) "memo_settle opt now k i r ttlMs w m = put_entry k (e'\<lparr>en_expires := now + L\<rparr>) m" "0 < L"
      using Some True by (fastforce simp: memo_settle_def Let_def lifetime_def e'_def L_def split: sum.splits option.splits if_splits)
    then show ?thesis
    proof cases
      case drop
      then show ?thesis using assms(2) del by simp
    next
      case keep
      then have "x = (k, e'\<lparr>en_expires := now + L, en_weight := n\<rparr>) \<or> x \<in> set (m_cache m) \<and> fst x \<noteq> k"
        using assms(2) kept [of "e'\<lparr>en_expires := now + L\<rparr>" e' n] by simp
      then show ?thesis using keep(2) e' by (auto simp: L_def)
    next
      case negative
      then have "x = (k, e'\<lparr>en_expires := now + L\<rparr>) \<or> x \<in> set (m_cache m) \<and> fst x \<noteq> k"
        using assms(2) entries_put [OF assms(1)] by simp
      then show ?thesis using negative(2) e' by (auto simp: L_def)
    qed
  qed
qed

lemma entries_start:
  assumes "x \<in> set (m_cache (snd (start_load opt k m)))"
  shows "x \<in> set (m_cache m) \<or> fst x = k \<and> en_id (snd x) = m_next m \<and> en_result (snd x) = None"
  using assms cache_evict [of opt "link k \<lparr>en_id = m_next m, en_result = None, en_expires = 0, en_weight = 1\<rparr> (m\<lparr>m_next := Suc (m_next m)\<rparr>)"]
    set_update [of k "\<lparr>en_id = m_next m, en_result = None, en_expires = 0, en_weight = 1\<rparr>" "m_cache m"]
  by (auto simp: start_load_def link_def)

lemma next_start: "m_next (snd (start_load opt k m)) = Suc (m_next m)"
  using cache_evict [of opt "link k \<lparr>en_id = m_next m, en_result = None, en_expires = 0, en_weight = 1\<rparr> (m\<lparr>m_next := Suc (m_next m)\<rparr>)"]
  by (simp add: start_load_def link_def)

lemma next_settle: "m_next (memo_settle opt now k i r ttlMs w m) = m_next m"
  by (auto simp: memo_settle_def Let_def cache_unlink(2) cache_put(2) cache_evict reweigh_def split: sum.splits option.splits)

text \<open>A load that is started gets a number that was never used.\<close>

lemma memo_started:
  assumes "memo opt now k m = (Started i, m')"
  shows "i = m_next m \<and> m_next m' = Suc i
    \<and> (\<forall>x \<in> set (m_cache m'). x \<in> set (m_cache m) \<or> fst x = k \<and> en_id (snd x) = i \<and> en_result (snd x) = None)"
proof -
  obtain n where n: "start_load opt k n = (Started i, m')" "set (m_cache n) \<subseteq> set (m_cache m)" "m_next n = m_next m"
    using assms cache_unlink by (force simp: memo_def split: option.splits if_splits)
  have "i = m_next n" using n(1) by (simp add: start_load_def)
  moreover have "snd (start_load opt k n) = m'" using n(1) by simp
  ultimately show ?thesis using n entries_start [of _ opt k n] next_start [of opt k n] by auto
qed

lemma memo_shared:
  assumes "memo opt now k m = (Shared e, m')"
  shows "(k, e) \<in> set (m_cache m) \<and> set (m_cache m') \<subseteq> set (m_cache m) \<and> m_next m' = m_next m \<and> (en_result e = None \<or> now < en_expires e)"
  using assms map_of_SomeD [of "m_cache m" k]
  by (auto simp: memo_def start_load_def AList.delete_eq split: option.splits if_splits)

text \<open>A load is started only when no entry of the key may be shared.\<close>

lemma memo_started_absent:
  assumes "memo opt now k m = (Started i, m')"
  shows "distinct (map fst (m_cache m)) \<Longrightarrow> (k, e) \<in> set (m_cache m) \<Longrightarrow> en_result e \<noteq> None \<and> en_expires e \<le> now"
  using assms by (auto simp: memo_def split: option.splits if_splits)

lemma evict_fits: "length (m_cache m) \<le> mo_maxEntries opt \<Longrightarrow> m_totalWeight m \<le> int (mo_maxWeight opt) \<Longrightarrow> evict opt m = m"
  by (subst evict.simps) simp

lemma memo_inv_start: "memo_inv opt (createMemo, [], [])"
  by (simp add: memo_inv_def createMemo_def accounted_def)

lemma entry_ok_new_load: "entry_ok ls lg x \<Longrightarrow> entry_ok (ls @ y) lg x"
  by (auto simp: entry_ok_def split: option.splits)

lemma memo_inv_step:
  assumes "memo_step opt s s'" "memo_inv opt s"
  shows "memo_inv opt s'"
  using assms
proof cases
  case (shared now k m e m' ls lg)
  have "bounded opt m'" using bounded_memo [of opt m now k] shared(3) assms(2) shared(1)
    by (simp add: memo_inv_def bounded_def)
  then show ?thesis using assms(2) memo_shared [OF shared(3)] shared(1,2)
    by (auto simp: memo_inv_def bounded_def)
next
  case (load now k m i m' ls lg)
  have inv: "memo_inv opt (m, ls, lg)" using assms(2) load(1) by simp
  have "bounded opt m'" using bounded_memo [of opt m now k] load(3) inv by (simp add: memo_inv_def bounded_def)
  moreover have "i \<notin> fst ` set ls"
    using inv memo_started [OF load(3)] by (auto simp: memo_inv_def)
  moreover then have "i \<notin> fst ` set lg" using inv by (auto simp: memo_inv_def)
  moreover have "entry_ok (ls @ [(i, k)]) lg x" if "x \<in> set (m_cache m')" for x
    using that memo_started [OF load(3)] inv entry_ok_new_load \<open>i \<notin> fst ` set lg\<close>
    by (fastforce simp: memo_inv_def entry_ok_def)
  ultimately show ?thesis using inv memo_started [OF load(3)] load(2)
    by (auto simp: memo_inv_def bounded_def less_Suc_eq)
next
  case (settle i k ls lg m now r ttlMs w)
  have inv: "memo_inv opt (m, ls, lg)" using assms(2) settle(1) by simp
  let ?m = "memo_settle opt now k i r ttlMs w m" and ?lg = "lg @ [(i, now, lifetime opt ttlMs r, r)]"
  have "bounded opt ?m" by (rule bounded_settle) (use inv in \<open>simp add: memo_inv_def bounded_def\<close>)
  moreover have "entry_ok ls ?lg x" if x: "x \<in> set (m_cache ?m)" for x
  proof -
    have "distinct (map fst (m_cache m))" using inv by (simp add: memo_inv_def accounted_def)
    from entries_settle [OF this x] consider (old) "x \<in> set (m_cache m)" "fst x = k \<longrightarrow> en_id (snd x) \<noteq> i"
      | (new) "fst x = k" "en_id (snd x) = i" "en_result (snd x) = Some r" "en_expires (snd x) = now + lifetime opt ttlMs r"
        "0 < lifetime opt ttlMs r" by blast
    then show ?thesis
    proof cases
      case old
      then have ok: "entry_ok ls lg x" using inv by (simp add: memo_inv_def)
      then have "(en_id (snd x), fst x) \<in> set ls" by (simp add: entry_ok_def)
      then have "i \<noteq> en_id (snd x)" using old(2) settle(3) inv eq_key_imp_eq_value [of ls i k "fst x"] by (auto simp: memo_inv_def)
      then show ?thesis by (rule entry_ok_mono [OF ok])
    next
      case new
      then show ?thesis using settle(3) by (auto simp: entry_ok_def)
    qed
  qed
  moreover have "i \<in> fst ` set ls" using settle(3) by force
  ultimately show ?thesis using inv settle(2) by (auto simp: memo_inv_def bounded_def next_settle)
next
  case (invalidate m ls lg k)
  have "bounded opt (Memo.invalidate k m)" by (rule bounded_invalidate) (use assms(2) invalidate(1) in \<open>simp add: memo_inv_def bounded_def\<close>)
  moreover have "set (m_cache (Memo.invalidate k m)) \<subseteq> set (m_cache m) \<and> m_next (Memo.invalidate k m) = m_next m"
    using cache_unlink by (auto simp: Memo.invalidate_def split: option.splits)
  ultimately show ?thesis using assms(2) invalidate(1,2) by (auto simp: memo_inv_def bounded_def)
qed

lemma memo_inv_steps: "(memo_step opt)\<^sup>*\<^sup>* s s' \<Longrightarrow> memo_inv opt s \<Longrightarrow> memo_inv opt s'"
  by (induction rule: rtranclp_induct) (auto intro: memo_inv_step)

text \<open>Every settlement is logged with its lifetime.\<close>

lemma memo_log:
  "(memo_step opt)\<^sup>*\<^sup>* (createMemo, [], []) (m, ls, lg) \<Longrightarrow> (i, t, l, r) \<in> set lg \<Longrightarrow> \<exists>ttl. l = lifetime opt ttl r"
proof (induction "(m, ls, lg)" arbitrary: m ls lg rule: rtranclp_induct)
  case (step s)
  from step(2) show ?case using step(3,4) by cases auto
qed simp

end
