(* ===== verification/Correlation.thy ===== *)
theory Correlation
  imports Complex_Main Prelude "HOL-Library.Multiset"
begin

text \<open>
  Cross-service correlation: \<open>domain-api/src/correlation/rules.ts\<close>. A rule is a record with its key function; an
  object of labels is the list of its entries. \<open>correlate_iff\<close> says which links come out, independently of the way
  the loops find them.
\<close>

section \<open>Entities and rules\<close>

datatype entity_kind = KafkaTopic | FlinkJob | IcebergTable | TrinoCatalog | AirflowDag

datatype relation = TopicFeedsJob | JobWritesTable | TableServedByCatalog | DagTriggersJob

fun relation_name :: "relation \<Rightarrow> string" where
  "relation_name TopicFeedsJob = ''topic-feeds-job''"
| "relation_name JobWritesTable = ''job-writes-table''"
| "relation_name TableServedByCatalog = ''table-served-by-catalog''"
| "relation_name DagTriggersJob = ''dag-triggers-job''"

record entity =
  ce_kind :: entity_kind
  ce_id :: string
  ce_name :: string
  ce_labels :: "(string \<times> string) list"

datatype link_method = DeclaredLabel | NameConvention | AmbiguousNameConvention

record correlation_link =
  cl_id :: string
  cl_source :: "entity_kind \<times> string"
  cl_target :: "entity_kind \<times> string"
  cl_relation :: relation
  cl_confidence :: rat
  cl_method :: link_method
  cl_evidence :: "string list"

record correlation_rule =
  ru_relation :: relation
  ru_sourceKind :: entity_kind
  ru_targetKind :: entity_kind
  ru_declaredOnSource :: bool
  ru_labelKey :: string
  ru_key :: "entity \<Rightarrow> string"

definition DECLARED_CONFIDENCE :: rat where "DECLARED_CONFIDENCE = 95 / 100"
definition NAME_CONVENTION_CONFIDENCE :: rat where "NAME_CONVENTION_CONFIDENCE = 6 / 10"
definition AMBIGUOUS_CONFIDENCE :: rat where "AMBIGUOUS_CONFIDENCE = 3 / 10"

definition GENERIC_TOKENS :: "string list" where
  "GENERIC_TOKENS =
     [''dag'', ''job'', ''sync'', ''cdc'', ''daily'', ''report'', ''v1'', ''v2'', ''prod'', ''production'', ''dev'', ''test'', ''stg'',
      ''stage'', ''staging'', ''raw'', ''tmp'', ''temp'', ''default'', ''main'', ''new'', ''old'', ''data'']"

fun split_where :: "(char \<Rightarrow> bool) \<Rightarrow> string \<Rightarrow> string list" where
  "split_where P [] = [[]]"
| "split_where P (x # xs) =
     (if P x then [] # split_where P xs else (case split_where P xs of [] \<Rightarrow> [[x]] | p # ps \<Rightarrow> (x # p) # ps))"

definition tokens :: "string \<Rightarrow> string list" where
  "tokens n = filter (\<lambda>t. t \<noteq> []) (split_where (\<lambda>c. c \<in> set ''-_.'') (to_lower n))"

definition firstSignificantToken :: "string \<Rightarrow> string" where
  "firstSignificantToken n = (case find (\<lambda>t. t \<notin> set GENERIC_TOKENS) (tokens n) of Some t \<Rightarrow> t | None \<Rightarrow> [])"

definition lastSegmentKey :: "string \<Rightarrow> string" where
  "lastSegmentKey n = firstSignificantToken (last (split_on (CHR ''.'') (to_lower n)))"

definition RULES :: "correlation_rule list" where
  "RULES =
     [\<lparr>ru_relation = TopicFeedsJob, ru_sourceKind = KafkaTopic, ru_targetKind = FlinkJob, ru_declaredOnSource = False,
       ru_labelKey = ''beluga.io/source-topic'', ru_key = (\<lambda>e. firstSignificantToken (ce_name e))\<rparr>,
      \<lparr>ru_relation = JobWritesTable, ru_sourceKind = FlinkJob, ru_targetKind = IcebergTable, ru_declaredOnSource = True,
       ru_labelKey = ''beluga.io/sink-table'',
       ru_key = (\<lambda>e. if ce_kind e = IcebergTable then lastSegmentKey (ce_name e) else firstSignificantToken (ce_name e))\<rparr>,
      \<lparr>ru_relation = TableServedByCatalog, ru_sourceKind = IcebergTable, ru_targetKind = TrinoCatalog, ru_declaredOnSource = True,
       ru_labelKey = ''beluga.io/trino-catalog'',
       ru_key = (\<lambda>e. firstSignificantToken (if ce_kind e = IcebergTable then hd (split_on (CHR ''.'') (ce_name e)) else ce_name e))\<rparr>,
      \<lparr>ru_relation = DagTriggersJob, ru_sourceKind = AirflowDag, ru_targetKind = FlinkJob, ru_declaredOnSource = True,
       ru_labelKey = ''beluga.io/triggers-job'', ru_key = (\<lambda>e. firstSignificantToken (ce_name e))\<rparr>]"

section \<open>Correlation\<close>

definition link :: "correlation_rule \<Rightarrow> entity \<Rightarrow> entity \<Rightarrow> rat \<Rightarrow> link_method \<Rightarrow> string \<Rightarrow> correlation_link" where
  "link ru s t confidence mthd evidence =
     \<lparr>cl_id = relation_name (ru_relation ru) @ '':'' @ ce_id s @ ''->'' @ ce_id t, cl_source = (ce_kind s, ce_id s),
      cl_target = (ce_kind t, ce_id t), cl_relation = ru_relation ru, cl_confidence = confidence, cl_method = mthd,
      cl_evidence = [evidence]\<rparr>"

definition declared :: "correlation_rule \<Rightarrow> entity \<Rightarrow> string option" where
  "declared ru e = map_of (ce_labels e) (ru_labelKey ru)"

definition named :: "string \<Rightarrow> entity \<Rightarrow> bool" where
  "named d e \<longleftrightarrow> to_lower (ce_name e) = to_lower d"

definition declared_link :: "correlation_rule \<Rightarrow> entity \<Rightarrow> entity \<Rightarrow> string \<Rightarrow> correlation_link" where
  "declared_link ru owner other d =
     (let (s, t) = (if ru_declaredOnSource ru then (owner, other) else (other, owner))
      in link ru s t DECLARED_CONFIDENCE DeclaredLabel (''label '' @ ru_labelKey ru @ ''='' @ d))"

definition declared_links :: "correlation_rule \<Rightarrow> entity list \<Rightarrow> entity list \<Rightarrow> correlation_link list" where
  "declared_links ru sources targets =
     List.map_filter (\<lambda>owner. case declared ru owner of
         None \<Rightarrow> None
       | Some d \<Rightarrow> (case filter (named d) (if ru_declaredOnSource ru then targets else sources) of
           [other] \<Rightarrow> Some (declared_link ru owner other d) | _ \<Rightarrow> None))
       (if ru_declaredOnSource ru then sources else targets)"

definition declaredIds :: "correlation_rule \<Rightarrow> entity list \<Rightarrow> string list" where
  "declaredIds ru declaring = js_set (map ce_id (filter (\<lambda>e. declared ru e \<noteq> None) declaring))"

definition name_pairs :: "correlation_rule \<Rightarrow> entity list \<Rightarrow> entity list \<Rightarrow> (entity \<times> entity \<times> string) list" where
  "name_pairs ru sources targets =
     concat (map (\<lambda>s. if ru_key ru s = [] then []
       else map (\<lambda>t. (s, t, ru_key ru s)) (filter (\<lambda>t. ru_key ru t = ru_key ru s) targets)) sources)"

definition pair_count :: "(string \<times> nat) list \<Rightarrow> string \<Rightarrow> nat" where
  "pair_count m i = (case map_of m i of Some n \<Rightarrow> n | None \<Rightarrow> 0)"

definition name_link :: "correlation_rule \<Rightarrow> bool \<Rightarrow> entity \<Rightarrow> entity \<Rightarrow> string \<Rightarrow> correlation_link" where
  "name_link ru ambiguous s t k =
     link ru s t (if ambiguous then AMBIGUOUS_CONFIDENCE else NAME_CONVENTION_CONFIDENCE)
       (if ambiguous then AmbiguousNameConvention else NameConvention)
       (''name key '' @ [CHR 0x27] @ k @ [CHR 0x27] @ '' shared by '' @ ce_name s @ '' and '' @ ce_name t)"

definition name_links :: "correlation_rule \<Rightarrow> entity list \<Rightarrow> entity list \<Rightarrow> correlation_link list" where
  "name_links ru sources targets =
     (let ps = name_pairs ru sources targets;
        perSource = count_by (\<lambda>(s, t, k). ce_id s) ps; perTarget = count_by (\<lambda>(s, t, k). ce_id t) ps
      in map (\<lambda>(s, t, k). name_link ru (1 < pair_count perSource (ce_id s) \<or> 1 < pair_count perTarget (ce_id t)) s t k) ps)"

definition rule_links :: "entity list \<Rightarrow> correlation_rule \<Rightarrow> correlation_link list" where
  "rule_links sorted_entities ru =
     (let sources = filter (\<lambda>e. ce_kind e = ru_sourceKind ru) sorted_entities;
        targets = filter (\<lambda>e. ce_kind e = ru_targetKind ru) sorted_entities;
        ids = declaredIds ru (if ru_declaredOnSource ru then sources else targets)
      in declared_links ru sources targets @
         name_links ru (filter (\<lambda>s. \<not> (ru_declaredOnSource ru \<and> ce_id s \<in> set ids)) sources)
           (filter (\<lambda>t. \<not> (\<not> ru_declaredOnSource ru \<and> ce_id t \<in> set ids)) targets))"

definition correlate :: "entity list \<Rightarrow> correlation_link list" where
  "correlate entities = sort_key cl_id (concat (map (rule_links (sort_key ce_id entities)) RULES))"

section \<open>Which links there are\<close>

text \<open>The entities a rule may infer a link for: of the right kind, and not declaring a label themselves.\<close>

definition eligible_source :: "entity set \<Rightarrow> correlation_rule \<Rightarrow> entity \<Rightarrow> bool" where
  "eligible_source E ru e \<longleftrightarrow> e \<in> E \<and> ce_kind e = ru_sourceKind ru \<and> (ru_declaredOnSource ru \<longrightarrow> declared ru e = None)"

definition eligible_target :: "entity set \<Rightarrow> correlation_rule \<Rightarrow> entity \<Rightarrow> bool" where
  "eligible_target E ru e \<longleftrightarrow> e \<in> E \<and> ce_kind e = ru_targetKind ru \<and> (\<not> ru_declaredOnSource ru \<longrightarrow> declared ru e = None)"

definition inferred :: "entity set \<Rightarrow> correlation_rule \<Rightarrow> entity \<Rightarrow> entity \<Rightarrow> bool" where
  "inferred E ru s t \<longleftrightarrow> eligible_source E ru s \<and> eligible_target E ru t \<and> ru_key ru s \<noteq> [] \<and> ru_key ru t = ru_key ru s"

text \<open>The one entity of the other side that a declaration names.\<close>

definition sole :: "entity set \<Rightarrow> correlation_rule \<Rightarrow> string \<Rightarrow> entity \<Rightarrow> bool" where
  "sole E ru d other \<longleftrightarrow>
     {e \<in> E. ce_kind e = (if ru_declaredOnSource ru then ru_targetKind ru else ru_sourceKind ru) \<and> named d e} = {other}"

definition correlation_spec :: "entity set \<Rightarrow> correlation_link \<Rightarrow> bool" where
  "correlation_spec E l \<longleftrightarrow> (\<exists>ru \<in> set RULES.
     (\<exists>owner other d. owner \<in> E \<and> ce_kind owner = (if ru_declaredOnSource ru then ru_sourceKind ru else ru_targetKind ru)
        \<and> declared ru owner = Some d \<and> sole E ru d other \<and> l = declared_link ru owner other d)
     \<or> (\<exists>s t. inferred E ru s t
        \<and> l = name_link ru ((\<exists>t'. t' \<noteq> t \<and> inferred E ru s t') \<or> (\<exists>s'. s' \<noteq> s \<and> inferred E ru s' t)) s t (ru_key ru s)))"

section \<open>The loops find them\<close>

lemma set_map_filter_iff: "l \<in> set (List.map_filter f xs) \<longleftrightarrow> (\<exists>x \<in> set xs. f x = Some l)"
  by (force simp: List.map_filter_def)

lemma distinct_singleton: "distinct ys \<Longrightarrow> set ys = {x} \<Longrightarrow> ys = [x]"
  by (cases ys) (auto, metis insertE insert_iff list.set_cases singletonD subset_singletonD set_empty)

lemma filter_singleton_iff: "distinct xs \<Longrightarrow> filter P xs = [x] \<longleftrightarrow> {e \<in> set xs. P e} = {x}"
  using distinct_singleton [of "filter P xs" x] by (metis distinct_filter empty_set list.simps(15) set_filter)

lemma count_above_one:
  assumes "distinct ps" "x \<in> set ps" "P x"
  shows "1 < length (filter P ps) \<longleftrightarrow> (\<exists>y \<in> set ps. y \<noteq> x \<and> P y)"
proof -
  have card: "length (filter P ps) = card {y \<in> set ps. P y}"
    using assms(1) by (metis distinct_card distinct_filter set_filter)
  have "card {y \<in> set ps. P y} = Suc (card ({y \<in> set ps. P y} - {x}))"
    using assms by (intro card_Suc_Diff1 [symmetric]) auto
  then have "1 < length (filter P ps) \<longleftrightarrow> {y \<in> set ps. P y} - {x} \<noteq> {}"
    using card by (simp add: card_gt_0_iff)
  then show ?thesis by auto
qed

lemma pair_count_by: "pair_count (count_by f ps) i = length (filter (\<lambda>x. f x = i) ps)"
  by (simp add: pair_count_def count_by_def map_of_count_fold Let_def)

lemma name_pairs_iff:
  "(s, t, k) \<in> set (name_pairs ru ss ts) \<longleftrightarrow> s \<in> set ss \<and> t \<in> set ts \<and> ru_key ru s \<noteq> [] \<and> ru_key ru t = ru_key ru s \<and> k = ru_key ru s"
  by (auto simp: name_pairs_def split: if_splits)

lemma distinct_name_pairs: "distinct ss \<Longrightarrow> distinct ts \<Longrightarrow> distinct (name_pairs ru ss ts)"
proof (induction ss)
  case (Cons s ss)
  have eq: "name_pairs ru (s # ss) ts =
      (if ru_key ru s = [] then [] else map (\<lambda>t. (s, t, ru_key ru s)) (filter (\<lambda>t. ru_key ru t = ru_key ru s) ts)) @ name_pairs ru ss ts"
    by (simp add: name_pairs_def)
  have "(s, t, k) \<notin> set (name_pairs ru ss ts)" for t k using Cons.prems by (simp add: name_pairs_iff)
  then show ?case unfolding eq using Cons by (auto simp: distinct_map inj_on_def)
qed (simp add: name_pairs_def)

lemma in_map_triple: "l \<in> set (map (\<lambda>(s, t, k). g s t k) ps) \<longleftrightarrow> (\<exists>s t k. (s, t, k) \<in> set ps \<and> l = g s t k)"
  by force

lemma name_links_iff:
  fixes ru :: correlation_rule
  assumes "distinct (map ce_id ss)" "distinct (map ce_id ts)"
  defines "I \<equiv> \<lambda>s t. s \<in> set ss \<and> t \<in> set ts \<and> ru_key ru s \<noteq> [] \<and> ru_key ru t = ru_key ru s"
  shows "l \<in> set (name_links ru ss ts) \<longleftrightarrow>
    (\<exists>s t. I s t \<and> l = name_link ru ((\<exists>t'. t' \<noteq> t \<and> I s t') \<or> (\<exists>s'. s' \<noteq> s \<and> I s' t)) s t (ru_key ru s))"
proof -
  let ?ps = "name_pairs ru ss ts"
  have ps: "distinct ?ps" using assms(1,2) by (intro distinct_name_pairs) (auto simp: distinct_map)
  have mem: "(s, t, k) \<in> set ?ps \<longleftrightarrow> I s t \<and> k = ru_key ru s" for s t k by (auto simp: name_pairs_iff I_def)
  have src: "1 < pair_count (count_by (\<lambda>(s, t, k). ce_id s) ?ps) (ce_id s) \<longleftrightarrow> (\<exists>t'. t' \<noteq> t \<and> I s t')" if st: "I s t" for s t
  proof -
    have same: "s' = s" if "I s' t'" "ce_id s' = ce_id s" for s' t'
      using that st assms(1) by (auto simp: I_def distinct_map inj_on_def)
    have m: "(s, t, ru_key ru s) \<in> set ?ps" using st mem by simp
    have cnt: "1 < pair_count (count_by (\<lambda>(s, t, k). ce_id s) ?ps) (ce_id s) \<longleftrightarrow>
        (\<exists>y \<in> set ?ps. y \<noteq> (s, t, ru_key ru s) \<and> (case y of (s, t, k) \<Rightarrow> ce_id s) = ce_id s)"
      unfolding pair_count_by by (rule count_above_one [OF ps m]) simp
    show ?thesis
    proof
      assume "1 < pair_count (count_by (\<lambda>(s, t, k). ce_id s) ?ps) (ce_id s)"
      then obtain s' t' k' where y: "(s', t', k') \<in> set ?ps" "(s', t', k') \<noteq> (s, t, ru_key ru s)" "ce_id s' = ce_id s"
        unfolding cnt by (auto split: prod.splits)
      then have "I s' t'" "k' = ru_key ru s'" using mem by auto
      with same y show "\<exists>t'. t' \<noteq> t \<and> I s t'" by metis
    next
      assume "\<exists>t'. t' \<noteq> t \<and> I s t'"
      then obtain t' where "t' \<noteq> t" "I s t'" by blast
      then show "1 < pair_count (count_by (\<lambda>(s, t, k). ce_id s) ?ps) (ce_id s)"
        unfolding cnt using mem by (intro bexI [of _ "(s, t', ru_key ru s)"]) auto
    qed
  qed
  have tgt: "1 < pair_count (count_by (\<lambda>(s, t, k). ce_id t) ?ps) (ce_id t) \<longleftrightarrow> (\<exists>s'. s' \<noteq> s \<and> I s' t)" if st: "I s t" for s t
  proof -
    have same: "t' = t" if "I s' t'" "ce_id t' = ce_id t" for s' t'
      using that st assms(2) by (auto simp: I_def distinct_map inj_on_def)
    have m: "(s, t, ru_key ru s) \<in> set ?ps" using st mem by simp
    have cnt: "1 < pair_count (count_by (\<lambda>(s, t, k). ce_id t) ?ps) (ce_id t) \<longleftrightarrow>
        (\<exists>y \<in> set ?ps. y \<noteq> (s, t, ru_key ru s) \<and> (case y of (s, t, k) \<Rightarrow> ce_id t) = ce_id t)"
      unfolding pair_count_by by (rule count_above_one [OF ps m]) simp
    show ?thesis
    proof
      assume "1 < pair_count (count_by (\<lambda>(s, t, k). ce_id t) ?ps) (ce_id t)"
      then obtain s' t' k' where y: "(s', t', k') \<in> set ?ps" "(s', t', k') \<noteq> (s, t, ru_key ru s)" "ce_id t' = ce_id t"
        unfolding cnt by (auto split: prod.splits)
      then have i: "I s' t'" "k' = ru_key ru s'" using mem by auto
      then have "t' = t" using same y(3) by blast
      moreover have "s' \<noteq> s" using y(2) i(2) \<open>t' = t\<close> by auto
      ultimately show "\<exists>s'. s' \<noteq> s \<and> I s' t" using i(1) by blast
    next
      assume "\<exists>s'. s' \<noteq> s \<and> I s' t"
      then obtain s' where "s' \<noteq> s" "I s' t" by blast
      then show "1 < pair_count (count_by (\<lambda>(s, t, k). ce_id t) ?ps) (ce_id t)"
        unfolding cnt using mem by (intro bexI [of _ "(s', t, ru_key ru s')"]) auto
    qed
  qed
  have "l \<in> set (name_links ru ss ts) \<longleftrightarrow> (\<exists>s t. I s t \<and>
      l = name_link ru (1 < pair_count (count_by (\<lambda>(s, t, k). ce_id s) ?ps) (ce_id s) \<or>
        1 < pair_count (count_by (\<lambda>(s, t, k). ce_id t) ?ps) (ce_id t)) s t (ru_key ru s))"
    unfolding name_links_def Let_def in_map_triple mem by simp
  then show ?thesis using src tgt by (simp cong: conj_cong)
qed

lemma one_match: "(case filter P xs of [x] \<Rightarrow> Some (f x) | _ \<Rightarrow> None) = Some l \<longleftrightarrow> (\<exists>x. filter P xs = [x] \<and> l = f x)"
  by (auto split: list.splits)

lemma declared_links_iff:
  assumes "distinct ss" "distinct ts"
  shows "l \<in> set (declared_links ru ss ts) \<longleftrightarrow>
    (\<exists>owner other d. owner \<in> set (if ru_declaredOnSource ru then ss else ts) \<and> declared ru owner = Some d
      \<and> {e \<in> set (if ru_declaredOnSource ru then ts else ss). named d e} = {other} \<and> l = declared_link ru owner other d)"
proof -
  let ?other = "if ru_declaredOnSource ru then ts else ss"
  have d: "distinct ?other" using assms by simp
  have f: "(case declared ru owner of None \<Rightarrow> None
       | Some d \<Rightarrow> (case filter (named d) ?other of [other] \<Rightarrow> Some (declared_link ru owner other d) | _ \<Rightarrow> None)) = Some l \<longleftrightarrow>
     (\<exists>d other. declared ru owner = Some d \<and> filter (named d) ?other = [other] \<and> l = declared_link ru owner other d)" for owner
    by (cases "declared ru owner") (simp_all add: one_match)
  show ?thesis
    unfolding declared_links_def set_map_filter_iff f filter_singleton_iff [OF d] Bex_def
    by (rule iffI; elim exE conjE; intro exI conjI; assumption)
qed

section \<open>The links of a list of entities\<close>

lemma rule_links_iff:
  assumes "distinct (map ce_id es)"
  shows "l \<in> set (rule_links es ru) \<longleftrightarrow>
     (\<exists>owner other d. owner \<in> set es \<and> ce_kind owner = (if ru_declaredOnSource ru then ru_sourceKind ru else ru_targetKind ru)
        \<and> declared ru owner = Some d \<and> sole (set es) ru d other \<and> l = declared_link ru owner other d)
     \<or> (\<exists>s t. inferred (set es) ru s t \<and>
          l = name_link ru ((\<exists>t'. t' \<noteq> t \<and> inferred (set es) ru s t') \<or> (\<exists>s'. s' \<noteq> s \<and> inferred (set es) ru s' t)) s t (ru_key ru s))"
    (is "_ \<longleftrightarrow> ?D \<or> ?N")
proof -
  let ?src = "filter (\<lambda>e. ce_kind e = ru_sourceKind ru) es" and ?tgt = "filter (\<lambda>e. ce_kind e = ru_targetKind ru) es"
  let ?ids = "declaredIds ru (if ru_declaredOnSource ru then ?src else ?tgt)"
  let ?ss = "filter (\<lambda>s. \<not> (ru_declaredOnSource ru \<and> ce_id s \<in> set ?ids)) ?src"
  let ?ts = "filter (\<lambda>t. \<not> (\<not> ru_declaredOnSource ru \<and> ce_id t \<in> set ?ids)) ?tgt"
  have inj: "a = b" if "a \<in> set es" "b \<in> set es" "ce_id a = ce_id b" for a b
    using that assms by (auto simp: distinct_map inj_on_def)
  have ids: "ce_id e \<in> set ?ids \<longleftrightarrow> declared ru e \<noteq> None"
    if "e \<in> set (if ru_declaredOnSource ru then ?src else ?tgt)" for e
  proof -
    have "e' = e" if "e' \<in> set (if ru_declaredOnSource ru then ?src else ?tgt)" "ce_id e = ce_id e'" for e'
      using inj [of e' e] that \<open>e \<in> _\<close> by (auto split: if_splits)
    then show ?thesis using that by (auto simp: declaredIds_def)
  qed
  have el: "s \<in> set ?ss \<longleftrightarrow> eligible_source (set es) ru s" "t \<in> set ?ts \<longleftrightarrow> eligible_target (set es) ru t" for s t
    using ids [of s] ids [of t] by (auto simp: eligible_source_def eligible_target_def)
  have d: "distinct (map ce_id ?ss)" "distinct (map ce_id ?ts)" "distinct ?src" "distinct ?tgt"
    using assms by (auto simp: distinct_map inj_on_def)
  have "l \<in> set (name_links ru ?ss ?ts) \<longleftrightarrow> ?N"
    unfolding name_links_iff [OF d(1,2)] el inferred_def conj_assoc by (rule refl)
  moreover have "l \<in> set (declared_links ru ?src ?tgt) \<longleftrightarrow> ?D"
    unfolding declared_links_iff [OF d(3,4)] sole_def by (cases "ru_declaredOnSource ru") (simp_all add: conj_assoc)
  ultimately show ?thesis unfolding rule_links_def Let_def by (simp add: disj_commute)
qed

text \<open>A list of entities with different ids yields exactly the links of the specification, whatever its order.\<close>

lemma correlate_set:
  assumes "distinct (map ce_id es)"
  shows "l \<in> set (correlate es) \<longleftrightarrow> correlation_spec (set es) l"
proof -
  have "distinct (map ce_id (sort_key ce_id es))" using assms by (simp add: distinct_map)
  note r = rule_links_iff [OF this, unfolded set_sort]
  have "l \<in> set (correlate es) \<longleftrightarrow> (\<exists>ru \<in> set RULES. l \<in> set (rule_links (sort_key ce_id es) ru))"
    by (simp add: correlate_def)
  then show ?thesis unfolding r correlation_spec_def .
qed

lemma correlate_order:
  assumes "distinct (map ce_id es)" "mset es' = mset es"
  shows "correlate es' = correlate es"
proof -
  have "inj_on ce_id (set es')" using assms by (metis distinct_map set_mset_mset)
  then have "sort_key ce_id es' = sort_key ce_id es"
    using assms(2) by (intro sort_key_inj_key_eq) (simp_all add: mset_sort)
  then show ?thesis by (simp add: correlate_def)
qed

end
