(* ===== verification/Routes.thy ===== *)
theory Routes
  imports Registry SqlRedaction Memo Correlation
begin

text \<open>
  The read-only routes of the Domain API (\<open>domain-api/src/routes\<close>) over their sources. A handler is a function of the
  validated query and of what its source answered; \<open>None\<close> of a fixture look-up is the 404. The response schemas are zod.
\<close>

section \<open>Replies\<close>

datatype 'a read_reply = Ok200 'a | Refused nat string string

definition not_found_reply :: "string \<Rightarrow> string \<Rightarrow> 'a read_reply" where
  "not_found_reply what i =
     Refused 404 ''NOT_FOUND'' (what @ '' '' @ [CHR 0x27] @ i @ [CHR 0x27] @ '' was not found'')"

definition unavailable_reply :: "string \<Rightarrow> 'a read_reply" where
  "unavailable_reply message = Refused 503 ''SERVICE_UNAVAILABLE'' message"

section \<open>The Trino query context\<close>

definition TRINO_CATALOG :: string where "TRINO_CATALOG = ''beluga_lake''"
definition SAMPLE_ROW_LIMIT :: nat where "SAMPLE_ROW_LIMIT = 20"
definition TRINO_SERVICE_ID :: string where "TRINO_SERVICE_ID = ''svc-trino''"

definition quote :: "string \<Rightarrow> string" where
  "quote identifier_text = CHR 0x22 # replaceAll [CHR 0x22] [CHR 0x22, CHR 0x22] identifier_text @ [CHR 0x22]"

definition stripNamespacePrefix :: "string \<Rightarrow> string list \<Rightarrow> string" where
  "stripNamespacePrefix n namespace =
     (let pre = (if namespace \<noteq> [] then join ''.'' namespace @ ''.'' else [])
      in if pre \<noteq> [] \<and> is_prefix pre n then drop (length pre) n else n)"

record query_context =
  qc_assetId :: string
  qc_catalog :: string
  qc_schema :: string
  qc_table :: string
  qc_trinoServiceId :: string
  qc_trinoUiUrl :: string
  qc_sampleSql :: string
  qc_rowLimit :: nat

definition sample_sql :: "string \<Rightarrow> string \<Rightarrow> string \<Rightarrow> string" where
  "sample_sql catalog sch table =
     ''SELECT * FROM '' @ join ''.'' (map quote [catalog, sch, table]) @ '' LIMIT '' @ show_nat SAMPLE_ROW_LIMIT"

definition asset_parts :: "asset_detail \<Rightarrow> string list" where
  "asset_parts a = (case da_namespace a of
       Some ns \<Rightarrow> ns @ [stripNamespacePrefix (da_name a) ns]
     | None \<Rightarrow> split_on (CHR ''.'') (da_name a))"

text \<open>The handler over the answers of the asset source and of the registry. Empty names and a URL that is no URL do not
  pass \<open>queryContextSchema\<close>: the exception becomes a 500.\<close>

definition query_context_route ::
  "(string \<Rightarrow> bool) \<Rightarrow> (load_error, asset_detail option) res \<Rightarrow> service option \<Rightarrow> string \<Rightarrow> query_context read_reply" where
  "query_context_route is_url found trino i = (case found of
       Inl e \<Rightarrow> unavailable_reply (describeUpstreamFailure e ''Data asset catalog'')
     | Inr None \<Rightarrow> not_found_reply ''Data asset'' i
     | Inr (Some a) \<Rightarrow>
         (case asset_parts a of
            [sch, table] \<Rightarrow>
              if da_kind a \<noteq> TableAsset
              then Refused 404 ''NOT_FOUND'' (''Data asset '' @ [CHR 0x27] @ i @ [CHR 0x27] @ '' has no Trino query context'')
              else (case Option.bind trino (am_endpoint \<circ> sv_metadata) of
                  None \<Rightarrow> unavailable_reply ''Trino service is currently unavailable''
                | Some url \<Rightarrow>
                    if url = [] then unavailable_reply ''Trino service is currently unavailable''
                    else let catalog = (case da_catalog a of Some c \<Rightarrow> c | None \<Rightarrow> TRINO_CATALOG) in
                      if catalog = [] \<or> sch = [] \<or> table = [] \<or> da_id a = [] \<or> \<not> is_url url
                      then Refused 500 ''INTERNAL_ERROR'' ''Internal server error''
                      else Ok200 \<lparr>qc_assetId = da_id a, qc_catalog = catalog, qc_schema = sch, qc_table = table,
                        qc_trinoServiceId = (case trino of Some s \<Rightarrow> sv_id s | None \<Rightarrow> []), qc_trinoUiUrl = url,
                        qc_sampleSql = sample_sql catalog sch table, qc_rowLimit = SAMPLE_ROW_LIMIT\<rparr>)
          | _ \<Rightarrow> Refused 404 ''NOT_FOUND'' (''Data asset '' @ [CHR 0x27] @ i @ [CHR 0x27] @ '' has no Trino query context'')))"

text \<open>A quoted name is one token wherever it stands, unless a double quote follows.\<close>

lemma quote_lex:
  assumes "v = [] \<or> hd v \<noteq> CHR 0x22"
  shows "sql_lex p (quote s @ v) = Identifier (quote s) # sql_lex (Some (CHR 0x22)) v"
proof -
  let ?d = "concat (map (\<lambda>c. if c = CHR 0x22 then [c, c] else [c]) s)"
  have "(\<lambda>c. if c = CHR 0x22 then [CHR 0x22, CHR 0x22] else [c]) = (\<lambda>c. if c = CHR 0x22 then [c, c] else [c])" by auto
  then have q: "quote s = CHR 0x22 # ?d @ [CHR 0x22]" unfolding quote_def replaceAll_char by simp
  then have "next_token p (CHR 0x22) (?d @ [CHR 0x22] @ v) = (Identifier (quote s), v)"
    using doubled_rest [OF assms, of s] by (simp add: next_token_def)
  then show ?thesis unfolding q by simp
qed

lemma sample_sql_lex:
  "sql_lex None (sample_sql c s t) = map Plain ''SELECT * FROM ''
     @ [Identifier (quote c), Plain (CHR ''.''), Identifier (quote s), Plain (CHR ''.''), Identifier (quote t)]
     @ map Plain '' LIMIT '' @ [Number ''20'']"
proof -
  have limit: "sql_lex (Some (CHR 0x22)) ('' LIMIT '' @ show_nat SAMPLE_ROW_LIMIT) = map Plain '' LIMIT '' @ [Number ''20'']"
    by code_simp
  have front: "sql_lex None (''SELECT * FROM '' @ quote c @ v) = map Plain ''SELECT * FROM '' @ sql_lex (Some (CHR '' '')) (quote c @ v)" for v
    by (simp add: next_token_def is_prefix_simps is_digit_def)
  have dot: "sql_lex (Some (CHR 0x22)) (CHR ''.'' # v) = Plain (CHR ''.'') # sql_lex (Some (CHR ''.'')) v" for v
    by (simp add: next_token_def is_digit_def)
  have sql: "sample_sql c s t =
      ''SELECT * FROM '' @ quote c @ (CHR ''.'' # quote s @ (CHR ''.'' # quote t @ ('' LIMIT '' @ show_nat SAMPLE_ROW_LIMIT)))"
    by (simp add: sample_sql_def)
  have stop: "v = CHR ''.'' # u \<or> v = '' LIMIT '' @ u \<Longrightarrow> v = [] \<or> hd v \<noteq> CHR 0x22" for u v by auto
  show ?thesis
    unfolding sql front quote_lex [OF stop [OF disjI1 [OF refl]]] quote_lex [OF stop [OF disjI2 [OF refl]]] dot limit by simp
qed

section \<open>Data assets, query history, health\<close>

definition data_asset_route :: "(load_error, asset_detail option) res \<Rightarrow> string \<Rightarrow> asset_detail read_reply" where
  "data_asset_route found i = (case found of
       Inl e \<Rightarrow> unavailable_reply (describeUpstreamFailure e ''Data asset catalog'')
     | Inr None \<Rightarrow> not_found_reply ''Data asset'' i
     | Inr (Some a) \<Rightarrow> Ok200 a)"

definition data_assets_route ::
  "bool \<Rightarrow> (load_error, data_asset list \<times> list_warning list) res \<Rightarrow> nat \<Rightarrow> nat \<Rightarrow> health_status option \<Rightarrow> asset_kind option
    \<Rightarrow> data_asset envelope read_reply" where
  "data_assets_route itemWarnings result page pageSize status kind = (case result of
       Inl e \<Rightarrow> unavailable_reply (describeUpstreamFailure e ''Data asset catalog'')
     | Inr r \<Rightarrow> Ok200 (list_assets itemWarnings r page pageSize status kind))"

text \<open>\<open>/api/v1/query-history\<close> over the snapshot of the adapter (entries and whether they were cut), or its failure; \<open>None\<close>
  when there is no adapter. An entry with an empty field makes the response schema fail.\<close>

definition history_warnings :: "bool \<Rightarrow> nat \<Rightarrow> list_warning list" where
  "history_warnings truncated n =
     (if truncated
      then [\<lparr>lw_code = ''HISTORY_TRUNCATED'',
        lw_message = ''Upstream returned more queries than are exposed; only the first '' @ show_nat n @ '' are shown (meta.total counts exposed rows)'',
        lw_serviceId = Some ''svc-trino''\<rparr>]
      else [])"

definition query_history_route ::
  "(load_error, (string \<times> string \<times> string) list \<times> bool) res option \<Rightarrow> nat \<Rightarrow> nat \<Rightarrow> (string \<times> string \<times> string) envelope read_reply" where
  "query_history_route snapshot page pageSize = (case snapshot of
       None \<Rightarrow> unavailable_reply ''Query history is currently unavailable''
     | Some (Inl e) \<Rightarrow> unavailable_reply (describeUpstreamFailure e ''Query history'')
     | Some (Inr (entries, truncated)) \<Rightarrow>
         if list_all (\<lambda>(i, sql, st). i \<noteq> [] \<and> sql \<noteq> [] \<and> st \<noteq> []) entries
         then Ok200 (page_envelope entries page pageSize (\<lambda>_. history_warnings truncated (length entries)))
         else unavailable_reply (describeUpstreamFailure OtherError ''Query history''))"

text \<open>\<open>/api/v1/health\<close>: the last known state of the optional parts.\<close>

record wired_parts =
  w_fixtures :: "string option"
  w_gitWriter :: bool
  w_argocdReader :: bool
  w_flink :: bool
  w_trinoQueryHistory :: bool
  w_lakekeeper :: bool

definition health_components :: "string option \<Rightarrow> wired_parts \<Rightarrow> (string \<times> string) list" where
  "health_components auditStore w =
     [(''auditStore'', case auditStore of Some s \<Rightarrow> s | None \<Rightarrow> ''not-configured''),
      (''gitWriter'', if w_gitWriter w then ''configured'' else ''unconfigured''),
      (''argocdReader'', if w_argocdReader w then ''configured'' else ''unconfigured''),
      (''flink'', if w_flink w then ''live'' else ''stub''),
      (''trinoQueryHistory'', if w_trinoQueryHistory w then ''live'' else ''disabled''),
      (''lakekeeper'', if w_lakekeeper w then ''live'' else ''stub''),
      (''fixtures'', case w_fixtures w of Some f \<Rightarrow> f | None \<Rightarrow> ''stub'')]"

section \<open>Events, resources, decisions, policies\<close>

datatype severity = InfoSeverity | WarningSeverity | ErrorSeverity

record platform_event =
  pe_id :: string
  pe_timestamp :: string
  pe_severity :: severity
  pe_message :: string
  pe_relatedServiceId :: "string option"
  pe_relatedPipelineId :: "string option"
  pe_relatedResourceId :: "string option"
  pe_source :: "string option"

text \<open>The stable sort by \<open>b.timestamp.localeCompare(a.timestamp)\<close>; the timestamps are ISO 8601 texts of one form, on which
  the comparison is that of the characters.\<close>

definition newest_first :: "platform_event list \<Rightarrow> platform_event list" where
  "newest_first es = rev (sort_key pe_timestamp (rev es))"

definition events_route :: "platform_event list \<times> list_warning list \<Rightarrow> nat \<Rightarrow> nat \<Rightarrow> severity option \<Rightarrow> platform_event envelope" where
  "events_route batch page pageSize sev =
     page_envelope (newest_first (filter (\<lambda>e. sev = None \<or> sev = Some (pe_severity e)) (fst batch))) page pageSize (\<lambda>_. snd batch)"

record resource_item =
  ri_id :: string
  ri_kind :: string
  ri_name :: string
  ri_namespace :: "string option"
  ri_status :: health_status
  ri_relatedServiceId :: "string option"
  ri_relatedPipelineId :: "string option"
  ri_relatedEventIds :: "string list"
  ri_logsUrl :: "string option"

definition resources_route :: "resource_item list \<Rightarrow> nat \<Rightarrow> nat \<Rightarrow> string option \<Rightarrow> string option \<Rightarrow> resource_item envelope" where
  "resources_route items page pageSize namespace kind =
     page_envelope (filter (\<lambda>r. (namespace = None \<or> ri_namespace r = namespace) \<and> (kind = None \<or> Some (ri_kind r) = kind)) items)
       page pageSize (\<lambda>_. [])"

text \<open>The look-up by id that these routes share.\<close>

definition detail_route :: "string \<Rightarrow> ('a \<Rightarrow> string) \<Rightarrow> 'a list \<Rightarrow> string \<Rightarrow> 'a read_reply" where
  "detail_route what key items i = (case find (\<lambda>x. key x = i) items of None \<Rightarrow> not_found_reply what i | Some x \<Rightarrow> Ok200 x)"

text \<open>The policy summaries; of a role only its name matters to the filter.\<close>

record policy_projection =
  pp_id :: string
  pp_roles :: "string list"

definition policies_route :: "policy_projection list \<Rightarrow> nat \<Rightarrow> nat \<Rightarrow> string option \<Rightarrow> policy_projection envelope" where
  "policies_route records page pageSize wanted =
     page_envelope (filter (\<lambda>r. case wanted of None \<Rightarrow> True | Some n \<Rightarrow> n \<in> set (pp_roles r)) records) page pageSize (\<lambda>_. [])"

text \<open>\<open>refs\<close> of \<open>createApp\<close>: with a live pipeline source no fixture points to a pipeline of the fixtures.\<close>

definition event_refs :: "bool \<Rightarrow> platform_event list \<Rightarrow> platform_event list" where
  "event_refs live es = (if live then map (\<lambda>e. e\<lparr>pe_relatedPipelineId := None\<rparr>) es else es)"

definition resource_refs :: "bool \<Rightarrow> resource_item list \<Rightarrow> resource_item list" where
  "resource_refs live rs = (if live then map (\<lambda>r. r\<lparr>ri_relatedPipelineId := None\<rparr>) rs else rs)"

section \<open>Lists\<close>

text \<open>Going through the pages gives the filtered list, each element once and in order, and every page reports its length.\<close>

lemma pages_of_envelope:
  assumes "0 < pageSize" "length items \<le> k * pageSize"
  shows "concat (map (\<lambda>p. ev_data (page_envelope items p pageSize w)) [1..<Suc k]) = items
    \<and> lm_total (ev_meta (page_envelope items p pageSize w)) = length items"
proof -
  have "ev_data (page_envelope items p pageSize w) = fst (paginate items p pageSize)" for p
    by (simp add: page_envelope_def buildListEnvelope_def split: prod.splits)
  then have "concat (map (\<lambda>p. ev_data (page_envelope items p pageSize w)) [1..<Suc k]) = take (k * pageSize) items"
    using pages_concat [OF assms(1), of items k] by simp
  then show ?thesis using assms(2)
    by (simp add: page_envelope_def buildListEnvelope_def paginate_def)
qed

lemma newest_first_mset: "mset (newest_first es) = mset es"
  by (simp add: newest_first_def)

lemma newest_first_sorted: "sorted_wrt (\<lambda>a b. pe_timestamp b \<le> pe_timestamp a) (newest_first es)"
proof -
  have "sorted (map pe_timestamp (sort_key pe_timestamp (rev es)))" by simp
  then show ?thesis by (simp add: newest_first_def sorted_wrt_rev sorted_map)
qed

end
