(* ===== verification/JsDate.thy ===== *)
theory JsDate
  imports JsText
begin

text \<open>
  Dates of JavaScript: \<open>new Date(ms).toISOString()\<close> over the proleptic Gregorian calendar, and the part of the check
  \<open>z.iso.datetime()\<close> that such a text can fail.
\<close>

text \<open>Year, month and day of a day counted from 1970-01-01. Years are counted from March 1, eras are 400 years.\<close>

definition civil :: "int \<Rightarrow> int \<times> int \<times> int" where
  "civil days =
     (let z = days + 719468; era = z div 146097; doe = z mod 146097;
        yoe = (doe - doe div 1460 + doe div 36524 - doe div 146096) div 365;
        doy = doe - (365 * yoe + yoe div 4 - yoe div 100); mp = (5 * doy + 2) div 153;
        day = doy - (153 * mp + 2) div 5 + 1; month = (if mp < 10 then mp + 3 else mp - 9)
      in (yoe + era * 400 + (if month \<le> 2 then 1 else 0), month, day))"

definition padded :: "nat \<Rightarrow> int \<Rightarrow> string" where
  "padded w n = (let s = show_nat (nat n) in replicate (w - length s) (CHR ''0'') @ s)"

definition year_text :: "int \<Rightarrow> string" where
  "year_text y =
     (if 0 \<le> y \<and> y \<le> 9999 then padded 4 y else (if y < 0 then ''-'' else ''+'') @ padded 6 \<bar>y\<bar>)"

definition MAX_DATE_MS :: int where "MAX_DATE_MS = 8640000000000000"

text \<open>\<open>None\<close> is an invalid date, on which \<open>toISOString\<close> throws.\<close>

definition iso_date :: "int \<Rightarrow> string option" where
  "iso_date t = (if MAX_DATE_MS < \<bar>t\<bar> then None
     else case civil (t div 86400000) of (y, m, d) \<Rightarrow>
       let u = t mod 86400000 in
       Some (year_text y @ ''-'' @ padded 2 m @ ''-'' @ padded 2 d @ ''T'' @ padded 2 (u div 3600000) @ '':''
         @ padded 2 (u div 60000 mod 60) @ '':'' @ padded 2 (u div 1000 mod 60) @ ''.'' @ padded 3 (u mod 1000) @ ''Z''))"

text \<open>A text of \<open>toISOString\<close> passes \<open>z.iso.datetime()\<close> unless its year has a sign.\<close>

definition unsigned_year :: "string \<Rightarrow> bool" where
  "unsigned_year s \<longleftrightarrow> s \<noteq> [] \<and> is_digit (hd s)"

lemma replicate_numeral_Cons: "replicate (numeral k) c = c # replicate (pred_numeral k) c"
  by (simp add: numeral_eq_Suc)

lemmas iso_simps = iso_date_def padded_def year_text_def show_nat.simps MAX_DATE_MS_def replicate_numeral_Cons

lemma civil_samples:
  "civil 0 = (1970, 1, 1)" "civil 11016 = (2000, 2, 29)" "civil 2932897 = (10000, 1, 1)" "civil (- 1) = (1969, 12, 31)"
  by code_simp+

lemma iso_date_epoch: "iso_date 0 = Some ''1970-01-01T00:00:00.000Z''"
  by (simp add: iso_simps civil_samples)

lemma iso_date_leap_day: "iso_date 951868799999 = Some ''2000-02-29T23:59:59.999Z''"
  by (simp add: iso_simps civil_samples)

lemma iso_date_signed_year: "iso_date 253402300800000 = Some ''+010000-01-01T00:00:00.000Z''"
  by (simp add: iso_simps civil_samples)

lemma iso_date_before_epoch: "iso_date (- 1) = Some ''1969-12-31T23:59:59.999Z''"
  by (simp add: iso_simps civil_samples)

lemma show_nat_digits: "show_nat n \<noteq> [] \<and> list_all is_digit (show_nat n)"
proof (induction n rule: show_nat.induct)
  case (1 n)
  have "is_digit (''0123456789'' ! k)" if "k < 10" for k
  proof -
    have "''0123456789'' ! k \<in> set ''0123456789''" using that by (intro nth_mem) simp
    then show ?thesis by (auto simp: is_digit_def)
  qed
  then show ?case using 1 by (subst show_nat.simps, subst (2) show_nat.simps) simp
qed

lemma padded_unsigned: "unsigned_year (padded w n @ s)"
proof -
  obtain c cs where "show_nat (nat n) = c # cs" "is_digit c"
    using show_nat_digits [of "nat n"] by (cases "show_nat (nat n)") auto
  then show ?thesis by (cases "w - length (show_nat (nat n))") (auto simp: padded_def unsigned_year_def Let_def is_digit_def)
qed

lemma year_text_unsigned: "unsigned_year (year_text y @ s) \<longleftrightarrow> 0 \<le> y \<and> y \<le> 9999"
  using padded_unsigned [of 4 y s] by (auto simp: year_text_def) (auto simp: unsigned_year_def is_digit_def)

end
