(* ===== verification/Kube.thy ===== *)
theory Kube
  imports Routes JsDate
begin

text \<open>
  The Kubernetes readers: \<open>domain-api/src/adapters/kubeClient.ts\<close>, \<open>kubeWorkload.ts\<close>, \<open>kubeEvents.ts\<close> and
  \<open>sso-change/argocdReader.ts\<close>. An exception is its message. The URL parser and \<open>Date.parse\<close> are parameters. The API
  server sends fields of the types its schema gives them; where the code checks a type itself, so does the model.
\<close>

section \<open>The client\<close>

datatype kube_reply = RequestFailed string | KubeReplied nat string

text \<open>\<open>getText\<close>: \<open>origin_of path\<close> is the origin of the path resolved against the API URL, \<open>None\<close> when that throws; the files
  are read at the time of the call. Returns what is sent (the bearer token) and the outcome.\<close>

definition kube_getText ::
  "(string \<Rightarrow> string option) \<Rightarrow> string \<Rightarrow> string option \<Rightarrow> string option \<Rightarrow> kube_reply \<Rightarrow> string \<Rightarrow> string option \<times> (string, string) res" where
  "kube_getText origin_of api_origin token_file ca_file reply path = (case origin_of path of
       None \<Rightarrow> (None, Inl ''Invalid URL'')
     | Some origin \<Rightarrow>
         if \<not> is_prefix ''/'' path \<or> origin \<noteq> api_origin then (None, Inl ''invalid API path'')
         else (case (token_file, ca_file) of
             (Some content, Some ca) \<Rightarrow>
               let token = js_trim content in
               if token = [] then (None, Inl ''service account token is empty'')
               else (Some token, case reply of
                   RequestFailed m \<Rightarrow> Inl (if m = ''timeout'' then ''timeout'' else ''unreachable'')
                 | KubeReplied st body \<Rightarrow> if st \<noteq> 200 then Inl (''http-'' @ show_nat st) else Inr body)
           | _ \<Rightarrow> (None, Inl ''service account files are not readable'')))"

definition kube_json :: "(string \<Rightarrow> json option) \<Rightarrow> (string, string) res \<Rightarrow> (string, json) res" where
  "kube_json json_parse r = res_bind r (\<lambda>body. case json_parse body of None \<Rightarrow> Inl ''malformed response'' | Some j \<Rightarrow> Inr j)"

text \<open>A token is sent only to the configured origin.\<close>

lemma kube_token_origin:
  "fst (kube_getText origin_of api_origin token_file ca_file reply path) = Some token \<Longrightarrow>
     origin_of path = Some api_origin \<and> is_prefix ''/'' path \<and> token \<noteq> [] \<and> (\<exists>c. token_file = Some c \<and> token = js_trim c)"
  by (auto simp: kube_getText_def Let_def split: option.splits if_splits)

section \<open>Workloads\<close>

datatype workload_resource = Deployments | Kafkas

record workload_target =
  wt_namespace :: string
  wt_resource :: workload_resource
  wt_names :: "string list"
  wt_optional :: "string list"

definition WORKLOADS :: "(string \<times> workload_target) list" where
  "WORKLOADS =
     [(''svc-trino'', \<lparr>wt_namespace = ''analytics'', wt_resource = Deployments, wt_names = [''trino-coordinator'', ''trino-worker''], wt_optional = [''trino-worker'']\<rparr>),
      (''svc-airflow'', \<lparr>wt_namespace = ''orchestration'', wt_resource = Deployments, wt_names = [''airflow-webserver''], wt_optional = []\<rparr>),
      (''svc-iceberg'', \<lparr>wt_namespace = ''lakehouse'', wt_resource = Deployments, wt_names = [''lakekeeper''], wt_optional = []\<rparr>),
      (''svc-kafka'', \<lparr>wt_namespace = ''streaming'', wt_resource = Kafkas, wt_names = [''beluga-kafka''], wt_optional = []\<rparr>),
      (''svc-superset'', \<lparr>wt_namespace = ''analytics'', wt_resource = Deployments, wt_names = [''superset''], wt_optional = []\<rparr>)]"

definition PLATFORM_NAMESPACES :: "string list" where
  "PLATFORM_NAMESPACES = js_set (map (wt_namespace \<circ> snd) WORKLOADS)"

fun resource_name :: "workload_resource \<Rightarrow> string" where
  "resource_name Deployments = ''deployments''"
| "resource_name Kafkas = ''kafkas''"

definition workload_path :: "workload_target \<Rightarrow> string \<Rightarrow> string" where
  "workload_path t n = ''/apis/'' @ (if wt_resource t = Kafkas then ''kafka.strimzi.io/v1'' else ''apps/v1'') @ ''/namespaces/''
     @ wt_namespace t @ ''/'' @ resource_name (wt_resource t) @ ''/'' @ n"

fun truthy :: "json \<Rightarrow> bool" where
  "truthy JNull = False"
| "truthy (JBool b) = b"
| "truthy (JNum n) = (n \<noteq> 0)"
| "truthy (JStr s) = (s \<noteq> [])"
| "truthy _ = True"

text \<open>\<open>a?.k\<close> and \<open>a ?? d\<close> on JSON values; \<open>None\<close> is \<open>undefined\<close>.\<close>

definition chain :: "json option \<Rightarrow> string \<Rightarrow> json option" where
  "chain j k = Option.bind j (\<lambda>v. json_field v k)"

definition or_else :: "json option \<Rightarrow> json \<Rightarrow> json" where
  "or_else j d = (case j of None \<Rightarrow> d | Some JNull \<Rightarrow> d | Some v \<Rightarrow> v)"

text \<open>A count that is no natural number makes the object malformed.\<close>

definition count_of :: "json \<Rightarrow> nat option" where
  "count_of j = (case j of JNum n \<Rightarrow> if 0 \<le> n then Some (nat n) else None | _ \<Rightarrow> None)"

text \<open>\<open>generation\<close> and \<open>observedGeneration\<close> are integers.\<close>

definition is_current :: "json \<Rightarrow> bool" where
  "is_current obj = (case chain (json_field obj ''metadata'') ''generation'' of
       None \<Rightarrow> True
     | Some (JNum g) \<Rightarrow> (case or_else (chain (json_field obj ''status'') ''observedGeneration'') (JNum (- 1)) of JNum n \<Rightarrow> g \<le> n | _ \<Rightarrow> False)
     | Some _ \<Rightarrow> False)"

definition is_ready_condition :: "json \<Rightarrow> bool" where
  "is_ready_condition c \<longleftrightarrow> json_field c ''type'' = Some (JStr ''Ready'') \<and> json_field c ''status'' = Some (JStr ''True'')"

record workload_state =
  ws_ready :: nat
  ws_desired :: nat
  ws_missing :: bool

definition deployment_state :: "json \<Rightarrow> (string, workload_state) res" where
  "deployment_state obj =
     (let field = (\<lambda>k. count_of (or_else (chain (json_field obj ''status'') k) (JNum 0))) in
      case (field ''readyReplicas'', field ''updatedReplicas'', field ''availableReplicas'',
            count_of (or_else (chain (json_field obj ''spec'') ''replicas'') (JNum 1))) of
        (Some r, Some u, Some a, Some desired) \<Rightarrow>
          Inr \<lparr>ws_ready = min (if is_current obj then min r (min u a) else 0) desired, ws_desired = desired, ws_missing = False\<rparr>
      | _ \<Rightarrow> Inl ''malformed replica counts'')"

definition workload_state_of :: "workload_resource \<Rightarrow> json \<Rightarrow> (string, workload_state) res" where
  "workload_state_of res obj =
     (if \<not> truthy obj \<or> (case json_field obj ''spec'' of None \<Rightarrow> True | Some s \<Rightarrow> \<not> truthy s) then Inl ''malformed workload''
      else if res = Kafkas
      then Inr \<lparr>ws_ready = (if is_current obj
              \<and> (case chain (json_field obj ''status'') ''conditions'' of Some (JArr cs) \<Rightarrow> list_ex is_ready_condition cs | _ \<Rightarrow> False) then 1 else 0),
            ws_desired = 1, ws_missing = False\<rparr>
      else deployment_state obj)"

definition target_state :: "workload_target \<Rightarrow> string \<Rightarrow> (string, json) res \<Rightarrow> (string, workload_state) res" where
  "target_state t n answer = (case res_bind answer (workload_state_of (wt_resource t)) of
       Inr s \<Rightarrow> Inr s
     | Inl e \<Rightarrow> if e = ''http-404'' then Inr \<lparr>ws_ready = 0, ws_desired = 0, ws_missing = n \<notin> set (wt_optional t)\<rparr> else Inl e)"

record workload_snapshot =
  wn_status :: health_status
  wn_ready :: nat
  wn_desired :: nat
  wn_detail :: "string option"

definition summarize :: "workload_state list \<Rightarrow> workload_snapshot" where
  "summarize ss =
     (let ready = sum_list (map ws_ready ss); desired = sum_list (map ws_desired ss); missing = list_ex ws_missing ss
      in \<lparr>wn_status = (if ready = 0 then Unavailable else if \<not> missing \<and> ready = desired then Healthy else Degraded),
          wn_ready = ready, wn_desired = desired,
          wn_detail = (if missing then Some ''not deployed: one or more chart workloads missing''
            else if desired = 0 then Some ''scaled to zero'' else None)\<rparr>)"

text \<open>\<open>read\<close>: \<open>readyz\<close> is the outcome of \<open>/readyz\<close>, \<open>answers\<close> that of a workload path. An id without a target throws.\<close>

definition read_workload :: "string \<Rightarrow> (string, string) res \<Rightarrow> (string \<Rightarrow> (string, json) res) \<Rightarrow> workload_snapshot" where
  "read_workload i readyz answers =
     (let failed = \<lparr>wn_status = UnknownHealth, wn_ready = 0, wn_desired = 0, wn_detail = Some ''workload status unavailable''\<rparr> in
      if i = ''svc-observability''
      then \<lparr>wn_status = Unavailable, wn_ready = 0, wn_desired = 0, wn_detail = Some ''not deployed: no observability workload in gitops/charts''\<rparr>
      else if i = ''svc-kubernetes''
      then (case readyz of
          Inl e \<Rightarrow> failed
        | Inr body \<Rightarrow> (let ready = (js_trim body = ''ok'') in
            \<lparr>wn_status = (if ready then Healthy else UnknownHealth), wn_ready = (if ready then 1 else 0), wn_desired = 1, wn_detail = None\<rparr>))
      else (case map_of WORKLOADS i of
          None \<Rightarrow> failed
        | Some t \<Rightarrow> (case res_map_list (\<lambda>n. target_state t n (answers (workload_path t n))) (wt_names t) of
            Inl e \<Rightarrow> failed
          | Inr ss \<Rightarrow> summarize ss)))"

definition endpoint_labels :: "(string \<times> string) list" where
  "endpoint_labels = [(''svc-trino'', ''trino''), (''svc-airflow'', ''airflow''), (''svc-iceberg'', ''catalog''), (''svc-superset'', ''superset'')]"

definition workload_metadata :: "service \<Rightarrow> string \<Rightarrow> workload_snapshot \<Rightarrow> adapter_metadata" where
  "workload_metadata sv baseDomain s =
     (let target = map_of WORKLOADS (sv_id sv);
        unit_name = (if map_option wt_resource target = Some Kafkas then ''CRs'' else if sv_id sv = ''svc-kubernetes'' then ''probe'' else ''replicas'')
      in \<lparr>am_endpoint = map_option (\<lambda>l. ''https://'' @ l @ ''.'' @ baseDomain) (map_of endpoint_labels (sv_id sv)),
          am_capabilities = am_capabilities (sv_metadata sv), am_categories = am_categories (sv_metadata sv),
          am_namespace = map_option wt_namespace target,
          am_workloadRef = map_option (\<lambda>t. resource_name (wt_resource t) @ ''/'' @ join '','' (wt_names t)) target,
          am_keyMetrics = (if wn_status s = UnknownHealth then []
              else [\<lparr>km_name = ''ready'', km_value = show_nat (wn_ready s), km_unit = Some unit_name\<rparr>,
                    \<lparr>km_name = ''desired'', km_value = show_nat (wn_desired s), km_unit = Some unit_name\<rparr>])
            @ (case wn_detail s of Some d \<Rightarrow> [\<lparr>km_name = ''detail'', km_value = d, km_unit = None\<rparr>] | None \<Rightarrow> []),
          am_dependencies = []\<rparr>)"

definition workload_health :: "string \<Rightarrow> workload_snapshot \<Rightarrow> adapter_health" where
  "workload_health now_iso s = \<lparr>ah_status = wn_status s, ah_lastCheckedAt = now_iso, ah_staleAfterMs = 30000\<rparr>"

section \<open>ArgoCD\<close>

definition READABLE_APPS :: "string list" where "READABLE_APPS = [''beluga-platform'', ''beluga-data'']"

record app_status =
  ap_name :: string
  ap_sync :: string
  ap_revision :: "string option"
  ap_health :: "string option"

definition application_path :: "string \<Rightarrow> string" where
  "application_path n = ''/apis/argoproj.io/v1alpha1/namespaces/argocd/applications/'' @ encodeURIComponent n"

definition getApplication :: "(string \<Rightarrow> (string, json) res) \<Rightarrow> string \<Rightarrow> (string, app_status) res" where
  "getApplication answers n =
     (if n \<notin> set READABLE_APPS then Inl ''application is not readable''
      else res_bind (answers (application_path n)) (\<lambda>j.
        let sync = chain (json_field j ''status'') ''sync'' in
        case chain sync ''status'' of
          Some (JStr st) \<Rightarrow>
            Inr \<lparr>ap_name = n, ap_sync = st, ap_revision = Option.bind (chain sync ''revision'') json_str,
              ap_health = Option.bind (chain (chain (json_field j ''status'') ''health'') ''status'') json_str\<rparr>
        | _ \<Rightarrow> Inl ''application has no sync status''))"

section \<open>Events\<close>

definition MAX_EVENTS :: nat where "MAX_EVENTS = 100"

definition nullish_or :: "json option \<Rightarrow> json option \<Rightarrow> json option" where
  "nullish_or a b = (case a of None \<Rightarrow> b | Some JNull \<Rightarrow> b | Some v \<Rightarrow> Some v)"

definition text_or :: "json option \<Rightarrow> string option" where
  "text_or j = (case Option.bind j json_str of Some [] \<Rightarrow> None | r \<Rightarrow> r)"

definition event_time :: "json \<Rightarrow> string option" where
  "event_time item = text_or (nullish_or (chain (json_field item ''series'') ''lastObservedTime'') (nullish_or (json_field item ''lastTimestamp'')
     (nullish_or (json_field item ''eventTime'') (chain (json_field item ''metadata'') ''creationTimestamp''))))"

definition event_reference :: "string \<Rightarrow> json \<Rightarrow> string option" where
  "event_reference namespace item =
     (let ref = json_field item ''involvedObject'' in
      case (text_or (chain ref ''kind''), text_or (chain ref ''name'')) of
        (Some k, Some n) \<Rightarrow> Some (''kubernetes:'' @ (case Option.bind (chain ref ''namespace'') json_str of Some ns \<Rightarrow> ns | None \<Rightarrow> namespace)
          @ ''/'' @ k @ ''/'' @ n)
      | _ \<Rightarrow> None)"

definition kube_event :: "(string \<Rightarrow> int option) \<Rightarrow> string \<Rightarrow> json \<Rightarrow> platform_event option" where
  "kube_event parse_date namespace item =
     (case (Option.bind (Option.bind (event_time item) parse_date) iso_date, text_or (chain (json_field item ''metadata'') ''uid'')) of
        (Some stamp, Some uid) \<Rightarrow> Some
          \<lparr>pe_id = ''kube-event-'' @ uid, pe_timestamp = stamp,
           pe_severity = (if json_field item ''type'' = Some (JStr ''Warning'') then WarningSeverity else InfoSeverity),
           pe_message = (case text_or (json_field item ''message'') of Some m \<Rightarrow> m
             | None \<Rightarrow> (case text_or (json_field item ''reason'') of Some m \<Rightarrow> m | None \<Rightarrow> ''Kubernetes event'')),
           pe_relatedServiceId = None, pe_relatedPipelineId = None, pe_relatedResourceId = event_reference namespace item,
           pe_source = Some ''kubernetes''\<rparr>
      | _ \<Rightarrow> None)"

definition events_path :: "string \<Rightarrow> string option \<Rightarrow> string" where
  "events_path namespace continuation = ''/api/v1/namespaces/'' @ namespace @ ''/events?limit='' @ show_nat MAX_EVENTS
     @ (case continuation of None \<Rightarrow> [] | Some c \<Rightarrow> ''&continue='' @ encodeURIComponent c)"

text \<open>The pages of a namespace: \<open>answers n\<close> is the outcome of the request for the n-th of them. \<open>null\<close> among the items throws.\<close>

fun read_events :: "(nat \<Rightarrow> string \<Rightarrow> (string, json) res) \<Rightarrow> (string \<Rightarrow> int option) \<Rightarrow> string \<Rightarrow> nat \<Rightarrow> nat \<Rightarrow> string option
    \<Rightarrow> (string, platform_event list) res" where
  "read_events answers parse_date namespace page 0 continuation = Inr []"
| "read_events answers parse_date namespace page (Suc pages) continuation =
     res_bind (answers page (events_path namespace continuation)) (\<lambda>j. case json_field j ''items'' of
        Some (JArr items) \<Rightarrow>
          if JNull \<in> set items then Inl ''Cannot read properties of null''
          else let found = List.map_filter (kube_event parse_date namespace) items in
            (case text_or (chain (json_field j ''metadata'') ''continue'') of
               None \<Rightarrow> Inr found
             | Some c \<Rightarrow> res_bind (read_events answers parse_date namespace (Suc page) pages (Some c)) (\<lambda>rest. Inr (found @ rest)))
      | _ \<Rightarrow> Inl ''malformed event list'')"

definition argocd_events :: "string \<Rightarrow> (string, app_status) res \<Rightarrow> (string, platform_event list) res" where
  "argocd_events now_iso r = res_bind r (\<lambda>app.
     if ap_sync app = ''Synced'' \<and> ap_health app = Some ''Healthy'' then Inr []
     else Inr [\<lparr>pe_id = ''argocd-'' @ ap_name app, pe_timestamp = now_iso, pe_severity = WarningSeverity,
       pe_message = ''ArgoCD Application '' @ ap_name app @ '': sync='' @ ap_sync app @ '', health=''
         @ (case ap_health app of Some h \<Rightarrow> h | None \<Rightarrow> ''unknown'') @ '' (current observation)'',
       pe_relatedServiceId = None, pe_relatedPipelineId = None, pe_relatedResourceId = Some (''kubernetes:argocd/Application/'' @ ap_name app),
       pe_source = Some ''service''\<rparr>])"

definition event_sources :: "string list" where
  "event_sources = map (\<lambda>ns. ''kubernetes:'' @ ns) PLATFORM_NAMESPACES @ map (\<lambda>app. ''argocd:'' @ app) READABLE_APPS"

text \<open>\<open>Promise.allSettled\<close> over the sources, in their order.\<close>

definition merge_sources :: "(string \<times> (string, platform_event list) res) list \<Rightarrow> (string, platform_event list \<times> list_warning list) res" where
  "merge_sources groups =
     (if list_all (\<lambda>(s, r). isl r) groups then Inl ''all event sources failed''
      else Inr (take MAX_EVENTS (newest_first (concat (map (\<lambda>(s, r). case r of Inl e \<Rightarrow> [] | Inr es \<Rightarrow> es) groups))),
        List.map_filter (\<lambda>(s, r). case r of
            Inl e \<Rightarrow> Some \<lparr>lw_code = ''UPSTREAM_UNAVAILABLE'', lw_message = ''Event source '' @ s @ '' unavailable'', lw_serviceId = None\<rparr>
          | Inr es \<Rightarrow> None) groups))"

definition listEvents ::
  "(string \<Rightarrow> nat \<Rightarrow> string \<Rightarrow> (string, json) res) \<Rightarrow> (string \<Rightarrow> (string, json) res) \<Rightarrow> (string \<Rightarrow> int option) \<Rightarrow> string
    \<Rightarrow> (string, platform_event list \<times> list_warning list) res" where
  "listEvents pages apps parse_date now_iso =
     merge_sources (zip event_sources
       (map (\<lambda>ns. read_events (pages ns) parse_date ns 0 5 None) PLATFORM_NAMESPACES
        @ map (\<lambda>n. argocd_events now_iso (getApplication apps n)) READABLE_APPS))"

section \<open>What the snapshots say\<close>

lemma res_map_list_iff: "res_map_list f xs = Inr ys \<longleftrightarrow> map f xs = map Inr ys"
proof (induction xs arbitrary: ys)
  case (Cons x xs)
  have "res_map_list f (x # xs) = Inr ys \<longleftrightarrow> (\<exists>y zs. f x = Inr y \<and> res_map_list f xs = Inr zs \<and> ys = y # zs)"
    by (auto split: sum.splits)
  then show ?case unfolding Cons.IH by (cases ys) auto
qed auto

lemma res_map_list_Inl: "(\<exists>e. res_map_list f xs = Inl e) \<longleftrightarrow> (\<exists>x \<in> set xs. isl (f x))"
proof (induction xs)
  case (Cons x xs)
  then show ?case by (cases "f x"; cases "res_map_list f xs") auto
qed simp

lemma workload_state_bound: "workload_state_of res obj = Inr s \<Longrightarrow> ws_ready s \<le> ws_desired s"
  by (auto simp: workload_state_of_def deployment_state_def Let_def split: if_splits option.splits)

lemma target_state_bound: "target_state t n answer = Inr s \<Longrightarrow> ws_ready s \<le> ws_desired s"
  by (cases answer) (auto simp: target_state_def workload_state_bound split: sum.splits if_splits)

lemma sum_list_eq_iff:
  fixes f g :: "'a \<Rightarrow> nat"
  assumes "\<And>x. x \<in> set xs \<Longrightarrow> f x \<le> g x"
  shows "sum_list (map f xs) = sum_list (map g xs) \<longleftrightarrow> (\<forall>x \<in> set xs. f x = g x)"
  using assms
proof (induction xs)
  case (Cons x xs)
  have "sum_list (map f xs) \<le> sum_list (map g xs)" using Cons.prems by (intro sum_list_mono) auto
  moreover have "f x \<le> g x" using Cons.prems by simp
  ultimately have "sum_list (map f (x # xs)) = sum_list (map g (x # xs)) \<longleftrightarrow> f x = g x \<and> sum_list (map f xs) = sum_list (map g xs)"
    by auto
  then show ?case using Cons by simp
qed simp

lemma summarize_status:
  assumes "\<And>s. s \<in> set ss \<Longrightarrow> ws_ready s \<le> ws_desired s"
  shows "wn_status (summarize ss) = Healthy \<longleftrightarrow>
      (\<exists>s \<in> set ss. 0 < ws_ready s) \<and> (\<forall>s \<in> set ss. \<not> ws_missing s \<and> ws_ready s = ws_desired s)"
    and "wn_status (summarize ss) = Unavailable \<longleftrightarrow> (\<forall>s \<in> set ss. ws_ready s = 0)"
    and "wn_status (summarize ss) \<noteq> UnknownHealth"
proof -
  have zero: "sum_list (map ws_ready ss) = 0 \<longleftrightarrow> (\<forall>s \<in> set ss. ws_ready s = 0)" by (induction ss) auto
  show "wn_status (summarize ss) = Healthy \<longleftrightarrow>
      (\<exists>s \<in> set ss. 0 < ws_ready s) \<and> (\<forall>s \<in> set ss. \<not> ws_missing s \<and> ws_ready s = ws_desired s)"
    using zero sum_list_eq_iff [of ss ws_ready ws_desired, OF assms] by (auto simp: summarize_def Let_def list_ex_iff)
  show "wn_status (summarize ss) = Unavailable \<longleftrightarrow> (\<forall>s \<in> set ss. ws_ready s = 0)"
    using zero by (auto simp: summarize_def Let_def)
  show "wn_status (summarize ss) \<noteq> UnknownHealth" by (simp add: summarize_def Let_def)
qed

lemma read_workload_target:
  assumes "map_of WORKLOADS i = Some t"
  shows "read_workload i readyz answers = (case res_map_list (\<lambda>n. target_state t n (answers (workload_path t n))) (wt_names t) of
      Inl e \<Rightarrow> \<lparr>wn_status = UnknownHealth, wn_ready = 0, wn_desired = 0, wn_detail = Some ''workload status unavailable''\<rparr>
    | Inr ss \<Rightarrow> summarize ss)"
proof -
  have "i \<noteq> ''svc-observability''" "i \<noteq> ''svc-kubernetes''" using assms by (auto simp: WORKLOADS_def)
  then show ?thesis using assms by (simp add: read_workload_def Let_def)
qed

text \<open>The counts are added over the workloads of a service: a coordinator that is scaled to zero does not keep Trino from being
  reported healthy as long as its worker is ready.\<close>

definition scaled :: "int \<Rightarrow> json" where
  "scaled n = JObj [(''spec'', JObj [(''replicas'', JNum n)]),
     (''status'', JObj [(''readyReplicas'', JNum n), (''updatedReplicas'', JNum n), (''availableReplicas'', JNum n)])]"

lemma coordinator_scaled_to_zero:
  "wn_status (read_workload ''svc-trino'' (Inl ''unreachable'')
     (\<lambda>p. Inr (scaled (if p = ''/apis/apps/v1/namespaces/analytics/deployments/trino-coordinator'' then 0 else 1)))) = Healthy"
  by code_simp

end
