(* ===== verification/SlotPool.thy ===== *)
theory SlotPool
  imports Main
begin

text \<open>
  A limit on concurrent calls with a bounded queue. Two clients of the Domain API carry the same discipline
  (\<open>UpstreamHttpClient\<close> and \<open>FlinkRestClient\<close>): a call takes a slot, or waits for one, or is refused; it gives the
  slot up when it ends, and the slot then goes to the call that has waited longest. The locale \<open>slot_pool\<close> is the
  contract of the three operations, \<open>pool_step\<close> the use the clients make of them.
\<close>

datatype grant = Granted | Queued | Shed

text \<open>The calls that hold a slot are a set beside the state of the pool.\<close>

inductive pool_step ::
  "('p \<Rightarrow> nat list) \<Rightarrow> (nat \<Rightarrow> 'p \<Rightarrow> grant \<times> 'p) \<Rightarrow> (nat \<Rightarrow> 'p \<Rightarrow> 'p) \<Rightarrow> ('p \<Rightarrow> nat option \<times> 'p) \<Rightarrow> 'p \<times> nat set \<Rightarrow> 'p \<times> nat set \<Rightarrow> bool"
  for queue acquire abandon release where
  enter: "i \<notin> H \<Longrightarrow> i \<notin> set (queue p) \<Longrightarrow> acquire i p = (g, p') \<Longrightarrow>
    pool_step queue acquire abandon release (p, H) (p', if g = Granted then insert i H else H)"
| give_up: "i \<in> set (queue p) \<Longrightarrow> pool_step queue acquire abandon release (p, H) (abandon i p, H)"
| leave: "i \<in> H \<Longrightarrow> release p = (r, p') \<Longrightarrow>
    pool_step queue acquire abandon release (p, H) (p', (H - {i}) \<union> set_option r)"

locale slot_pool =
  fixes used :: "'p \<Rightarrow> nat" and queue :: "'p \<Rightarrow> nat list"
    and acquire :: "nat \<Rightarrow> 'p \<Rightarrow> grant \<times> 'p" and abandon :: "nat \<Rightarrow> 'p \<Rightarrow> 'p" and release :: "'p \<Rightarrow> nat option \<times> 'p"
    and limit :: nat and room :: nat
  assumes acquire_free: "used p < limit \<Longrightarrow> acquire i p = (g, p') \<Longrightarrow> g = Granted \<and> used p' = Suc (used p) \<and> queue p' = queue p"
    and acquire_full: "limit \<le> used p \<Longrightarrow> length (queue p) < room \<Longrightarrow> acquire i p = (g, p') \<Longrightarrow>
      g = Queued \<and> used p' = used p \<and> queue p' = queue p @ [i]"
    and acquire_shed: "limit \<le> used p \<Longrightarrow> room \<le> length (queue p) \<Longrightarrow> acquire i p = (g, p') \<Longrightarrow> g = Shed \<and> p' = p"
    and abandon: "used (abandon i p) = used p \<and> queue (abandon i p) = remove1 i (queue p)"
    and release_pass: "queue p = w # ws \<Longrightarrow> release p = (r, p') \<Longrightarrow> r = Some w \<and> used p' = used p \<and> queue p' = ws"
    and release_free: "queue p = [] \<Longrightarrow> release p = (r, p') \<Longrightarrow> r = None \<and> used p' = used p - 1 \<and> queue p' = []"
begin

definition pool_inv :: "'p \<times> nat set \<Rightarrow> bool" where
  "pool_inv s \<longleftrightarrow> (case s of (p, H) \<Rightarrow>
     finite H \<and> card H = used p \<and> used p \<le> limit \<and> (queue p \<noteq> [] \<longrightarrow> used p = limit)
     \<and> length (queue p) \<le> room \<and> distinct (queue p) \<and> set (queue p) \<inter> H = {})"

lemma pool_inv_step:
  assumes "pool_step queue acquire abandon release s s'" "pool_inv s"
  shows "pool_inv s'"
  using assms
proof cases
  case (enter i H p g p')
  consider "used p < limit" | "limit \<le> used p" "length (queue p) < room" | "limit \<le> used p" "room \<le> length (queue p)"
    by linarith
  then show ?thesis
  proof cases
    case 1
    then show ?thesis using acquire_free [OF 1 enter(5)] enter assms(2) by (auto simp: pool_inv_def)
  next
    case 2
    then show ?thesis using acquire_full [OF 2 enter(5)] enter assms(2) by (auto simp: pool_inv_def)
  next
    case 3
    then show ?thesis using acquire_shed [OF 3 enter(5)] enter assms(2) by (auto simp: pool_inv_def)
  qed
next
  case (give_up i p H)
  have "length (remove1 i (queue p)) \<le> length (queue p)" by (simp add: length_remove1)
  then show ?thesis using give_up assms(2) abandon [of i p] set_remove1_subset [of i "queue p"]
    by (auto simp: pool_inv_def)
next
  case (leave i H p r p')
  show ?thesis
  proof (cases "queue p")
    case Nil
    then show ?thesis using release_free [OF Nil leave(4)] leave assms(2) by (auto simp: pool_inv_def)
  next
    case (Cons w ws)
    have inv: "pool_inv (p, H)" using assms(2) leave(1) by simp
    then have "w \<notin> H" "card H = used p" "finite H" using Cons by (auto simp: pool_inv_def)
    then have "card (insert w (H - {i})) = used p"
      using leave(3) by (metis Diff_iff card_Suc_Diff1 card_insert_disjoint finite_Diff)
    then show ?thesis using release_pass [OF Cons leave(4)] leave(2) inv Cons by (auto simp: pool_inv_def)
  qed
qed

lemma pool_inv_steps:
  "(pool_step queue acquire abandon release)\<^sup>*\<^sup>* s s' \<Longrightarrow> pool_inv s \<Longrightarrow> pool_inv s'"
  by (induction rule: rtranclp_induct) (auto intro: pool_inv_step)

text \<open>At any time no more than \<open>limit\<close> calls hold a slot, and nobody waits while a slot is free.\<close>

lemma pool_bounds:
  assumes "(pool_step queue acquire abandon release)\<^sup>*\<^sup>* (p, {}) (p', H)" "used p = 0" "queue p = []"
  shows "finite H \<and> card H \<le> limit \<and> length (queue p') \<le> room \<and> (card H < limit \<longrightarrow> queue p' = []) \<and> set (queue p') \<inter> H = {}"
proof -
  have "pool_inv (p, {})" using assms(2,3) by (simp add: pool_inv_def)
  then have "pool_inv (p', H)" by (rule pool_inv_steps [OF assms(1)])
  then show ?thesis by (auto simp: pool_inv_def)
qed

text \<open>The queue is served in order: the slots that become free go to its members one after the other.\<close>

primrec releases :: "nat \<Rightarrow> 'p \<Rightarrow> nat list \<times> 'p" where
  "releases 0 p = ([], p)"
| "releases (Suc n) p =
     (case release p of (None, p') \<Rightarrow> ([], p') | (Some w, p') \<Rightarrow> (case releases n p' of (ws, q) \<Rightarrow> (w # ws, q)))"

lemma releases_in_order: "n \<le> length (queue p) \<Longrightarrow> fst (releases n p) = take n (queue p)"
proof (induction n arbitrary: p)
  case (Suc n)
  then obtain w ws where q: "queue p = w # ws" by (cases "queue p") auto
  obtain r p' where rp: "release p = (r, p')" by fastforce
  from release_pass [OF q rp] have "r = Some w" "queue p' = ws" by auto
  then show ?case using Suc.IH [of p'] Suc.prems q rp by (cases "releases n p'") auto
qed simp

end

end
