(* ===== verification/Upstream.thy ===== *)
theory Upstream
  imports Memo SlotPool SqlRedaction
begin

text \<open>
  The read-only HTTP client of the upstream adapters: \<open>domain-api/src/adapters/upstream/httpClient.ts\<close> and
  \<open>tokenProvider.ts\<close>, and the Trino query history over it (\<open>trinoQueryHistory.ts\<close>). The parts of a call are
  separate definitions: what is checked before a slot is taken, the slot, the request, the reading of the answer.
  The normalisation of a path by the URL parser is a parameter.
\<close>

section \<open>Tokens\<close>

definition normalizeToken :: "string option \<Rightarrow> string option" where
  "normalizeToken raw = (case raw of
       None \<Rightarrow> None
     | Some r \<Rightarrow> let token = js_trim r in if token \<noteq> [] \<and> token_shape token then Some token else None)"

text \<open>What a provider answers to one call; the file is read at the time of the call, \<open>None\<close> when that fails.\<close>

datatype token_provider = StaticToken "string option" | FileToken string

definition staticTokenProvider :: "string option \<Rightarrow> token_provider" where
  "staticTokenProvider token = StaticToken (normalizeToken token)"

definition getToken :: "(string \<Rightarrow> string option) \<Rightarrow> token_provider \<Rightarrow> string option" where
  "getToken read_file p = (case p of
       StaticToken t \<Rightarrow> t
     | FileToken path \<Rightarrow> (case read_file path of None \<Rightarrow> None | Some content \<Rightarrow> normalizeToken (Some content)))"

record file_stats =
  st_isFile :: bool
  st_worldReadable :: bool

definition verifyTokenFile :: "file_stats option \<Rightarrow> string option \<Rightarrow> (string, string list) res" where
  "verifyTokenFile stats content = (case stats of
       None \<Rightarrow> Inl ''does not exist or is not accessible''
     | Some st \<Rightarrow>
         if \<not> st_isFile st then Inl ''is not a regular file''
         else (case content of
             None \<Rightarrow> Inl ''is not readable''
           | Some c \<Rightarrow>
               if js_trim c = [] then Inl ''is empty''
               else if normalizeToken (Some c) = None then Inl ''does not contain a valid bearer token (content not shown)''
               else Inr (if st_worldReadable st then [''is world-readable; restrict its permissions (e.g. 0400)''] else [])))"

section \<open>The slots of a client\<close>

record http_slots =
  inFlight :: nat
  waiters :: "nat list"

definition acquire :: "nat \<Rightarrow> nat \<Rightarrow> nat \<Rightarrow> http_slots \<Rightarrow> grant \<times> http_slots" where
  "acquire maxConcurrent maxQueued i p =
     (if inFlight p < maxConcurrent then (Granted, p\<lparr>inFlight := Suc (inFlight p)\<rparr>)
      else if maxQueued \<le> length (waiters p) then (Shed, p)
      else (Queued, p\<lparr>waiters := waiters p @ [i]\<rparr>))"

text \<open>The timer of a waiting call.\<close>

definition wait_timeout :: "nat \<Rightarrow> http_slots \<Rightarrow> http_slots" where
  "wait_timeout i p = p\<lparr>waiters := remove1 i (waiters p)\<rparr>"

definition release :: "http_slots \<Rightarrow> nat option \<times> http_slots" where
  "release p = (case waiters p of
       w # ws \<Rightarrow> (Some w, p\<lparr>waiters := ws\<rparr>)
     | [] \<Rightarrow> (None, p\<lparr>inFlight := inFlight p - 1\<rparr>))"

interpretation http_pool: slot_pool inFlight waiters "acquire mc mq" wait_timeout release mc mq for mc mq
  by unfold_locales (auto simp: acquire_def wait_timeout_def release_def split: if_splits list.splits)

section \<open>One request\<close>

record client_options =
  co_upstream :: string
  co_basePath :: string
  co_headers :: "(string \<times> string) list"
  co_timeoutMs :: ms
  co_maxBodyBytes :: nat
  co_token :: "token_provider option"

record upstream_request =
  ur_path :: string
  ur_query :: "(string \<times> string) list"
  ur_headers :: "(string \<times> string) list"
  ur_budgetMs :: ms

definition fail_with :: "client_options \<Rightarrow> upstream_kind \<Rightarrow> nat option \<Rightarrow> (upstream_error, 'a) res" where
  "fail_with c k st = Inl \<lparr>ue_kind = k, ue_upstream = co_upstream c, ue_status = st\<rparr>"

text \<open>\<open>replace(/\/+$/, "")\<close>\<close>

definition strip_slashes :: "string \<Rightarrow> string" where
  "strip_slashes s = rev (dropWhile (\<lambda>c. c = CHR ''/'') (rev s))"

text \<open>\<open>getJson\<close> up to \<open>acquire\<close>: the budget, the path, the query, the token.\<close>

definition prepare ::
  "(string \<Rightarrow> string) \<Rightarrow> (string \<Rightarrow> string option) \<Rightarrow> client_options \<Rightarrow> ms \<Rightarrow> string \<Rightarrow> (string \<times> string option) list \<Rightarrow> ms option
    \<Rightarrow> (upstream_error, upstream_request) res" where
  "prepare normal_path read_file c now path query deadlineAt =
     (let budget = (case deadlineAt of None \<Rightarrow> co_timeoutMs c | Some d \<Rightarrow> min (co_timeoutMs c) (d - now));
        expectedPath = strip_slashes (co_basePath c) @ path;
        headers = (''Accept'', ''application/json'') # co_headers c;
        req = (\<lambda>hs. Inr \<lparr>ur_path = expectedPath, ur_query = js_map (List.map_filter (\<lambda>(k, v). map_option (Pair k) v) query),
          ur_headers = hs, ur_budgetMs = budget\<rparr>)
      in if budget \<le> 0 then fail_with c KTimeout None
         else if normal_path expectedPath \<noteq> expectedPath then fail_with c KMalformed None
         else case co_token c of
             None \<Rightarrow> req headers
           | Some p \<Rightarrow> (case getToken read_file p of
               None \<Rightarrow> fail_with c KUnauthenticated None
             | Some token \<Rightarrow> req (headers @ [(''Authorization'', ''Bearer '' @ token)])))"

text \<open>An answer of \<open>fetch\<close>. The body arrives in chunks and ends, or reading it fails (\<open>True\<close> for an abort).\<close>

record upstream_response =
  us_status :: nat
  us_contentLength :: js_num
  us_chunks :: "string list"
  us_failure :: "bool option"

datatype upstream_reply = FetchFailed bool | Replied upstream_response

text \<open>\<open>readCapped\<close>: the bytes so far; \<open>None\<close> when they exceed the limit.\<close>

fun read_capped :: "nat \<Rightarrow> string \<Rightarrow> string list \<Rightarrow> string option" where
  "read_capped m acc [] = Some acc"
| "read_capped m acc (chunk # cs) = (if m < length (acc @ chunk) then None else read_capped m (acc @ chunk) cs)"

definition send :: "(string \<Rightarrow> json option) \<Rightarrow> client_options \<Rightarrow> upstream_reply \<Rightarrow> (upstream_error, json) res" where
  "send json_parse c reply = (case reply of
       FetchFailed aborted \<Rightarrow> fail_with c (if aborted then KTimeout else KUnreachable) None
     | Replied r \<Rightarrow>
         let st = us_status r in
         if st = 401 then fail_with c KUnauthenticated (Some 401)
         else if st = 403 then fail_with c KForbidden (Some 403)
         else if st = 404 then fail_with c KNotFound (Some 404)
         else if \<not> (200 \<le> st \<and> st < 300) then fail_with c KUpstreamError (Some st)
         else if exceeds (us_contentLength r) (co_maxBodyBytes c) then fail_with c KMalformed (Some st)
         else (case read_capped (co_maxBodyBytes c) [] (us_chunks r) of
             None \<Rightarrow> fail_with c KMalformed (Some st)
           | Some text \<Rightarrow> (case us_failure r of
               Some aborted \<Rightarrow> fail_with c (if aborted then KTimeout else KUnreachable) None
             | None \<Rightarrow> (case json_parse text of None \<Rightarrow> fail_with c KMalformed (Some st) | Some j \<Rightarrow> Inr j))))"

lemma read_capped_iff: "length acc \<le> m \<Longrightarrow> read_capped m acc cs = (if length (acc @ concat cs) \<le> m then Some (acc @ concat cs) else None)"
  by (induction cs arbitrary: acc) auto

text \<open>Only a complete, small, parsed body of a 2xx answer gets through, and an error names nothing of the body.\<close>

lemma send_Inr:
  "send json_parse c reply = Inr j \<longleftrightarrow>
     (\<exists>r. reply = Replied r \<and> 200 \<le> us_status r \<and> us_status r < 300 \<and> \<not> exceeds (us_contentLength r) (co_maxBodyBytes c)
       \<and> length (concat (us_chunks r)) \<le> co_maxBodyBytes c \<and> us_failure r = None \<and> json_parse (concat (us_chunks r)) = Some j)"
  by (auto simp: send_def fail_with_def Let_def read_capped_iff split: upstream_reply.splits option.splits)

lemma prepare_Inr:
  assumes "prepare normal_path read_file c now path query deadlineAt = Inr r"
  shows "0 < ur_budgetMs r \<and> ur_budgetMs r \<le> co_timeoutMs c \<and> (\<forall>d. deadlineAt = Some d \<longrightarrow> now + ur_budgetMs r \<le> d)
    \<and> ur_path r = strip_slashes (co_basePath c) @ path \<and> normal_path (ur_path r) = ur_path r
    \<and> (co_token c \<noteq> None \<longrightarrow> (\<exists>token. (''Authorization'', ''Bearer '' @ token) \<in> set (ur_headers r)))"
  using assms by (auto simp: prepare_def fail_with_def Let_def split: if_splits option.splits)

section \<open>The Trino query history\<close>

definition MAX_HISTORY_ENTRIES :: nat where "MAX_HISTORY_ENTRIES = 1000"

record history_entry =
  he_id :: string
  he_sql :: string
  he_state :: string

record history_snapshot =
  hs_entries :: "history_entry list"
  hs_truncated :: bool
  hs_upstreamCount :: nat

definition basicQueryInfo :: "json \<Rightarrow> (string \<times> string \<times> string) option" where
  "basicQueryInfo j =
     (case (Option.bind (json_field j ''queryId'') json_str, Option.bind (json_field j ''state'') json_str,
        Option.bind (json_field j ''query'') json_str) of
        (Some i, Some st, Some q) \<Rightarrow> if i = [] \<or> st = [] then None else Some (i, st, q)
      | _ \<Rightarrow> None)"

definition history_entry_of :: "bool \<Rightarrow> string \<times> string \<times> string \<Rightarrow> history_entry" where
  "history_entry_of redact_sql item = (case item of (i, st, q) \<Rightarrow>
     (let sql = js_trim (if redact_sql then redactSqlLiterals q else q) in
      \<lparr>he_id = i, he_sql = (if sql = [] then ''<empty>'' else sql), he_state = st\<rparr>))"

definition load_history :: "bool \<Rightarrow> (upstream_error, json) res \<Rightarrow> (upstream_error, history_snapshot) res" where
  "load_history redact_sql body =
     res_bind body (\<lambda>j. case Option.bind (json_arr j) (opt_map_list basicQueryInfo) of
        None \<Rightarrow> Inl \<lparr>ue_kind = KMalformed, ue_upstream = ''trino'', ue_status = None\<rparr>
      | Some items \<Rightarrow> Inr \<lparr>hs_entries = map (history_entry_of redact_sql) (take MAX_HISTORY_ENTRIES items),
          hs_truncated = (MAX_HISTORY_ENTRIES < length items), hs_upstreamCount = length items\<rparr>)"

end
