(* ===== verification/Lakekeeper.thy ===== *)
theory Lakekeeper
  imports Upstream Listing
begin

text \<open>
  The Iceberg catalog source: \<open>domain-api/src/adapters/upstream/lakekeeperCatalog.ts\<close>. \<open>list\<close> and \<open>get\<close> are programs
  over the calls they await: \<open>GetJson\<close> is a request through the HTTP client, \<open>Prefix\<close> the cached answer of
  \<open>/v1/config\<close> of a warehouse (its load is \<open>load_prefix\<close>). An exception is an \<open>Inl\<close>. Rendering a date is a parameter.
\<close>

section \<open>Programs\<close>

datatype 'a catalog_prog =
    Give 'a
  | GetJson string "(string \<times> string option) list" ms "(load_error, json) res \<Rightarrow> 'a catalog_prog"
  | Prefix string ms "(load_error, string) res \<Rightarrow> 'a catalog_prog"
  | Clock "ms \<Rightarrow> 'a catalog_prog"

primrec cat_bind :: "'a catalog_prog \<Rightarrow> ('a \<Rightarrow> 'b catalog_prog) \<Rightarrow> 'b catalog_prog" where
  "cat_bind (Give a) f = f a"
| "cat_bind (GetJson p q d k) f = GetJson p q d (\<lambda>r. cat_bind (k r) f)"
| "cat_bind (Prefix w d k) f = Prefix w d (\<lambda>r. cat_bind (k r) f)"
| "cat_bind (Clock k) f = Clock (\<lambda>t. cat_bind (k t) f)"

type_synonym 'a cat = "(load_error, 'a) res catalog_prog"

definition cat_try :: "'a cat \<Rightarrow> ('a \<Rightarrow> 'b cat) \<Rightarrow> 'b cat" where
  "cat_try p f = cat_bind p (\<lambda>r. case r of Inl e \<Rightarrow> Give (Inl e) | Inr a \<Rightarrow> f a)"

definition cat_ok :: "'a \<Rightarrow> 'a cat" where "cat_ok a = Give (Inr a)"

definition cat_throw :: "load_error \<Rightarrow> 'a cat" where "cat_throw e = Give (Inl e)"

definition malformed :: load_error where
  "malformed = UpstreamFailure \<lparr>ue_kind = KMalformed, ue_upstream = ''lakekeeper'', ue_status = None\<rparr>"

section \<open>Schemas\<close>

definition NS_SEP :: char where "NS_SEP = CHR 0x1F"
definition PAGE_SIZE :: nat where "PAGE_SIZE = 100"
definition MAX_PAGES :: nat where "MAX_PAGES = 10"
definition OPERATION_BUDGET_MS :: ms where "OPERATION_BUDGET_MS = 6000"
definition SERVICE_ID :: string where "SERVICE_ID = ''svc-iceberg''"

definition nonempty_str :: "json \<Rightarrow> string option" where
  "nonempty_str j = (case j of JStr s \<Rightarrow> if s = [] then None else Some s | _ \<Rightarrow> None)"

definition json_int :: "json \<Rightarrow> int option" where
  "json_int j = (case j of JNum n \<Rightarrow> Some n | _ \<Rightarrow> None)"

definition json_bool :: "json \<Rightarrow> bool option" where
  "json_bool j = (case j of JBool b \<Rightarrow> Some b | _ \<Rightarrow> None)"

text \<open>An optional field: \<open>None\<close> when it has an issue, \<open>Some None\<close> when it is missing.\<close>

definition opt_field :: "(json \<Rightarrow> 'a option) \<Rightarrow> json \<Rightarrow> string \<Rightarrow> 'a option option" where
  "opt_field p j k = (case json_field j k of None \<Rightarrow> Some None | Some v \<Rightarrow> map_option Some (p v))"

definition req_field :: "(json \<Rightarrow> 'a option) \<Rightarrow> json \<Rightarrow> string \<Rightarrow> 'a option" where
  "req_field p j k = Option.bind (json_field j k) p"

definition array_of :: "(json \<Rightarrow> 'a option) \<Rightarrow> json \<Rightarrow> 'a list option" where
  "array_of p j = Option.bind (json_arr j) (opt_map_list p)"

definition string_record :: "json \<Rightarrow> (string \<times> string) list option" where
  "string_record j = (case j of JObj es \<Rightarrow> opt_map_list (\<lambda>(k, v). map_option (Pair k) (json_str v)) es | _ \<Rightarrow> None)"

fun is_object :: "json \<Rightarrow> bool" where
  "is_object (JObj es) = True"
| "is_object _ = False"

definition namespaceSchema :: "json \<Rightarrow> string list option" where
  "namespaceSchema j = (case array_of nonempty_str j of Some [] \<Rightarrow> None | r \<Rightarrow> r)"

definition configSchema :: "json \<Rightarrow> ((string \<times> string) list option \<times> (string \<times> string) list option) option" where
  "configSchema j = (if \<not> is_object j then None
     else case (opt_field string_record j ''defaults'', opt_field string_record j ''overrides'') of
        (Some d, Some ov) \<Rightarrow> Some (d, ov) | _ \<Rightarrow> None)"

text \<open>\<open>z.string().nullish()\<close>, and the token as the loop uses it: \<open>null\<close> and the empty text end the listing.\<close>

definition page_token :: "json \<Rightarrow> string option option" where
  "page_token j = (case json_field j ''next-page-token'' of
       None \<Rightarrow> Some None | Some JNull \<Rightarrow> Some None | Some (JStr s) \<Rightarrow> Some (if s = [] then None else Some s) | _ \<Rightarrow> None)"

definition listNamespacesSchema :: "json \<Rightarrow> (string list list \<times> string option) option" where
  "listNamespacesSchema j = (case (req_field (array_of namespaceSchema) j ''namespaces'', page_token j) of
       (Some nss, Some t) \<Rightarrow> Some (nss, t) | _ \<Rightarrow> None)"

definition table_identifier :: "json \<Rightarrow> (string list \<times> string) option" where
  "table_identifier j = (case (req_field (array_of json_str) j ''namespace'', req_field nonempty_str j ''name'') of
       (Some ns, Some n) \<Rightarrow> Some (ns, n) | _ \<Rightarrow> None)"

definition listTablesSchema :: "json \<Rightarrow> ((string list \<times> string) list \<times> string option) option" where
  "listTablesSchema j = (case (req_field (array_of table_identifier) j ''identifiers'', page_token j) of
       (Some ids, Some t) \<Rightarrow> Some (ids, t) | _ \<Rightarrow> None)"

section \<open>Assets and paths\<close>

definition catalogId :: "string \<Rightarrow> string" where
  "catalogId c = deriveAssetId CatalogAsset [c]"

definition schemaId :: "string \<Rightarrow> string list \<Rightarrow> string" where
  "schemaId c ns = deriveAssetId SchemaAsset (c # ns)"

definition catalogAsset :: "string \<Rightarrow> data_asset" where
  "catalogAsset c =
     \<lparr>da_id = catalogId c, da_name = c, da_kind = CatalogAsset, da_serviceId = SERVICE_ID, da_status = UnknownHealth,
      da_catalog = Some c, da_namespace = Some [], da_parentId = Some None, da_path = Some []\<rparr>"

definition schemaAsset :: "string \<Rightarrow> string list \<Rightarrow> data_asset" where
  "schemaAsset c ns =
     \<lparr>da_id = schemaId c ns, da_name = join ''.'' ns, da_kind = SchemaAsset, da_serviceId = SERVICE_ID, da_status = UnknownHealth,
      da_catalog = Some c, da_namespace = Some ns,
      da_parentId = Some (Some (if length ns = 1 then catalogId c else schemaId c (butlast ns))),
      da_path = Some (c # butlast ns)\<rparr>"

definition tableAsset :: "string \<Rightarrow> string list \<Rightarrow> string \<Rightarrow> data_asset" where
  "tableAsset c ns t =
     \<lparr>da_id = deriveAssetId TableAsset (c # ns @ [t]), da_name = join ''.'' ns @ ''.'' @ t, da_kind = TableAsset,
      da_serviceId = SERVICE_ID, da_status = UnknownHealth, da_catalog = Some c, da_namespace = Some ns,
      da_parentId = Some (Some (schemaId c ns)), da_path = Some (c # ns)\<rparr>"

definition nsPath :: "string list \<Rightarrow> (load_error, string) res" where
  "nsPath ns = (if \<not> list_all isSafeUpstreamSegment ns then Inl malformed else Inr (encodeURIComponent (join [NS_SEP] ns)))"

definition tablePath :: "string \<Rightarrow> (load_error, string) res" where
  "tablePath n = (if \<not> isSafeUpstreamSegment n then Inl malformed else Inr (encodeURIComponent n))"

definition prefix_char :: "char \<Rightarrow> bool" where
  "prefix_char c \<longleftrightarrow> is_alpha c \<or> is_digit c \<or> c \<in> set ''_-~''"

text \<open>\<open>/^[A-Za-z0-9_\-~][A-Za-z0-9_.\-~]*$/\<close>\<close>

definition SAFE_PREFIX :: "string \<Rightarrow> bool" where
  "SAFE_PREFIX s \<longleftrightarrow> s \<noteq> [] \<and> prefix_char (hd s) \<and> list_all (\<lambda>c. prefix_char c \<or> c = CHR ''.'') (tl s)"

definition NODE_AUTHZ_WARNING :: list_warning where
  "NODE_AUTHZ_WARNING = \<lparr>lw_code = ''NODE_AUTHZ_NOT_ENFORCED'',
     lw_message = ''Visibility reflects Manager'' @ [CHR 0x27] @ ''s service credential at the catalog, not the end user; node-level OPA filtering is not implemented (ADR-0004 D7)'',
     lw_serviceId = Some SERVICE_ID\<rparr>"

section \<open>Listing\<close>

text \<open>What the load behind \<open>Prefix\<close> makes of the answer of \<open>/v1/config\<close>.\<close>

definition raw_prefix :: "(string \<times> string) list option \<Rightarrow> (string \<times> string) list option \<Rightarrow> string" where
  "raw_prefix d ov = (case Option.bind ov (\<lambda>m. map_of m ''prefix'') of
       Some p \<Rightarrow> p | None \<Rightarrow> (case Option.bind d (\<lambda>m. map_of m ''prefix'') of Some p \<Rightarrow> p | None \<Rightarrow> []))"

definition checked_prefix :: "string \<Rightarrow> (load_error, string) res" where
  "checked_prefix raw =
     (if raw \<noteq> [] \<and> (\<not> SAFE_PREFIX raw \<or> raw = ''..'' \<or> 128 < js_length raw) then Inl malformed
      else Inr (if raw = [] then [] else ''/'' @ raw))"

definition prefix_of :: "json \<Rightarrow> (load_error, string) res" where
  "prefix_of body = (case configSchema body of None \<Rightarrow> Inl malformed | Some (d, ov) \<Rightarrow> checked_prefix (raw_prefix d ov))"

definition load_prefix :: "string \<Rightarrow> ms \<Rightarrow> string cat" where
  "load_prefix warehouse dl = GetJson ''/v1/config'' [(''warehouse'', Some warehouse)] dl (\<lambda>r. Give (res_bind r prefix_of))"

fun drain :: "nat \<Rightarrow> (string option \<Rightarrow> ('a list \<times> string option) cat) \<Rightarrow> string option \<Rightarrow> 'a list \<Rightarrow> ('a list \<times> list_warning list) cat" where
  "drain 0 fetchPage token items = cat_ok (items,
     [\<lparr>lw_code = ''LISTING_TRUNCATED'', lw_message = ''Upstream listing exceeded 1000 items and was truncated'', lw_serviceId = Some SERVICE_ID\<rparr>])"
| "drain (Suc n) fetchPage token items = cat_try (fetchPage token) (\<lambda>(page, next_token).
     case next_token of None \<Rightarrow> cat_ok (items @ page, []) | Some t \<Rightarrow> drain n fetchPage (Some t) (items @ page))"

definition namespace_page :: "string list \<Rightarrow> json \<Rightarrow> (load_error, string list list \<times> string option) res" where
  "namespace_page parent body = (case listNamespacesSchema body of
       None \<Rightarrow> Inl malformed
     | Some (nss, t) \<Rightarrow>
         if \<exists>ns \<in> set nss. length ns \<noteq> length parent + 1 \<or> take (length parent) ns \<noteq> parent then Inl malformed
         else Inr (filter (list_all isSafeUpstreamSegment) nss, t))"

definition listNamespaces :: "string \<Rightarrow> string list \<Rightarrow> ms \<Rightarrow> (string list list \<times> list_warning list) cat" where
  "listNamespaces pre parent dl = drain MAX_PAGES (\<lambda>token.
     GetJson (''/v1'' @ pre @ ''/namespaces'')
       [(''parent'', if parent = [] then None else Some (join [NS_SEP] parent)), (''pageToken'', token),
        (''pageSize'', Some (show_nat PAGE_SIZE))] dl
       (\<lambda>r. Give (res_bind r (namespace_page parent)))) None []"

definition table_page :: "json \<Rightarrow> (load_error, string list \<times> string option) res" where
  "table_page body = (case listTablesSchema body of
       None \<Rightarrow> Inl malformed | Some (ids, t) \<Rightarrow> Inr (filter isSafeUpstreamSegment (map snd ids), t))"

definition listTables :: "string \<Rightarrow> string list \<Rightarrow> ms \<Rightarrow> (string list \<times> list_warning list) cat" where
  "listTables pre ns dl = drain MAX_PAGES (\<lambda>token. case nsPath ns of
       Inl e \<Rightarrow> cat_throw e
     | Inr p \<Rightarrow> GetJson (''/v1'' @ pre @ ''/namespaces/'' @ p @ ''/tables'')
         [(''pageToken'', token), (''pageSize'', Some (show_nat PAGE_SIZE))] dl (\<lambda>r. Give (res_bind r table_page))) None []"

record catalog_mapping =
  cm_name :: string
  cm_warehouse :: string

definition by_name :: "catalog_mapping list \<Rightarrow> string \<Rightarrow> catalog_mapping option" where
  "by_name cs n = map_of (js_map (map (\<lambda>c. (cm_name c, c)) cs)) n"

fun check_prefixes :: "catalog_mapping list \<Rightarrow> ms \<Rightarrow> unit cat" where
  "check_prefixes [] dl = cat_ok ()"
| "check_prefixes (c # cs) dl = Prefix (cm_warehouse c) dl (\<lambda>r. case r of Inl e \<Rightarrow> cat_throw e | Inr p \<Rightarrow> check_prefixes cs dl)"

text \<open>The second half of a listing: the tables of a schema, after its namespaces.\<close>

definition listChildren :: "string \<Rightarrow> string \<Rightarrow> asset_kind \<Rightarrow> string list \<Rightarrow> ms \<Rightarrow> (data_asset list \<times> list_warning list) cat" where
  "listChildren pre catalog kind ns dl =
     cat_try (listNamespaces pre ns dl) (\<lambda>(children, ws).
       let schemas = map (schemaAsset catalog) children in
       if kind = SchemaAsset
       then cat_try (listTables pre ns dl) (\<lambda>(tables, ws'). cat_ok (schemas @ map (tableAsset catalog ns) tables, NODE_AUTHZ_WARNING # ws @ ws'))
       else cat_ok (schemas, NODE_AUTHZ_WARNING # ws))"

definition listUncached :: "catalog_mapping list \<Rightarrow> string option \<Rightarrow> (data_asset list \<times> list_warning list) cat" where
  "listUncached cs parentId = Clock (\<lambda>now. let dl = now + OPERATION_BUDGET_MS; none = cat_ok ([], [NODE_AUTHZ_WARNING]) in
     case parentId of
       None \<Rightarrow> cat_try (check_prefixes cs dl) (\<lambda>_. cat_ok (map (\<lambda>c. catalogAsset (cm_name c)) cs, [NODE_AUTHZ_WARNING]))
     | Some i \<Rightarrow> (case parseAssetId i of
           None \<Rightarrow> none
         | Some (kind, segments) \<Rightarrow>
             if kind = TableAsset then none
             else (case by_name cs (hd segments) of
                 None \<Rightarrow> none
               | Some c \<Rightarrow> Prefix (cm_warehouse c) dl (\<lambda>r. case r of
                   Inl e \<Rightarrow> cat_throw e
                 | Inr pre \<Rightarrow> listChildren pre (cm_name c) kind (tl segments) dl))))"

section \<open>Tables\<close>

text \<open>\<open>String(v)\<close> of a JSON value; inside an array, \<open>null\<close> gives the empty text.\<close>

fun js_String :: "json \<Rightarrow> string" and js_item :: "json \<Rightarrow> string" where
  "js_String JNull = ''null''"
| "js_String (JBool b) = (if b then ''true'' else ''false'')"
| "js_String (JNum n) = (if n < 0 then ''-'' @ show_nat (nat (- n)) else show_nat (nat n))"
| "js_String (JStr s) = s"
| "js_String (JArr xs) = join '','' (map js_item xs)"
| "js_String (JObj es) = ''[object Object]''"
| "js_item JNull = []"
| "js_item (JBool b) = (if b then ''true'' else ''false'')"
| "js_item (JNum n) = (if n < 0 then ''-'' @ show_nat (nat (- n)) else show_nat (nat n))"
| "js_item (JStr s) = s"
| "js_item (JArr xs) = join '','' (map js_item xs)"
| "js_item (JObj es) = ''[object Object]''"

text \<open>\<open>renderIcebergType(type, depth)\<close> with \<open>fuel\<close> the levels left (\<open>depth >= 4\<close> is \<open>0\<close>); \<open>None\<close> for the \<open>TypeError\<close> of
  reading a property of \<open>null\<close>. A missing field is rendered like any other value that is not a type.\<close>

definition struct_field :: "(json option \<Rightarrow> string option) \<Rightarrow> json \<Rightarrow> string option" where
  "struct_field render f =
     (if f = JNull then None
      else map_option (\<lambda>s. (case json_field f ''name'' of None \<Rightarrow> ''undefined'' | Some v \<Rightarrow> js_String v) @ '': '' @ s)
        (render (json_field f ''type'')))"

fun render_type :: "nat \<Rightarrow> json option \<Rightarrow> string option" where
  "render_type n (Some (JStr s)) = Some s"
| "render_type 0 _ = Some ''complex''"
| "render_type (Suc n) (Some (JObj es)) =
     (case map_of es ''type'' of
        Some (JStr s) \<Rightarrow>
          if s = ''struct'' then
            map_option (\<lambda>fs. ''struct<'' @ join '', '' fs @ ''>'')
              (opt_map_list (struct_field (render_type n)) (case map_of es ''fields'' of Some (JArr fs) \<Rightarrow> fs | _ \<Rightarrow> []))
          else if s = ''list'' then map_option (\<lambda>e. ''list<'' @ e @ ''>'') (render_type n (map_of es ''element''))
          else if s = ''map'' then
            (case (render_type n (map_of es ''key''), render_type n (map_of es ''value'')) of
               (Some k, Some v) \<Rightarrow> Some (''map<'' @ k @ '', '' @ v @ ''>'') | _ \<Rightarrow> None)
          else Some ''complex''
      | _ \<Rightarrow> Some ''complex'')"
| "render_type (Suc n) _ = Some ''complex''"

definition renderIcebergType :: "json \<Rightarrow> string option" where
  "renderIcebergType t = render_type 4 (Some t)"

record struct_column =
  sc_id :: int
  sc_name :: string
  sc_required :: bool
  sc_type :: json
  sc_doc :: "string option"

definition icebergTypeSchema :: "json \<Rightarrow> json option" where
  "icebergTypeSchema j = (case j of JStr _ \<Rightarrow> Some j | JObj _ \<Rightarrow> map_option (\<lambda>_. j) (req_field json_str j ''type'') | _ \<Rightarrow> None)"

definition structFieldSchema :: "json \<Rightarrow> struct_column option" where
  "structFieldSchema j =
     (case (req_field json_int j ''id'', req_field nonempty_str j ''name'', req_field json_bool j ''required'',
        req_field icebergTypeSchema j ''type'', opt_field json_str j ''doc'') of
        (Some i, Some n, Some r, Some t, Some d) \<Rightarrow> Some \<lparr>sc_id = i, sc_name = n, sc_required = r, sc_type = t, sc_doc = d\<rparr>
      | _ \<Rightarrow> None)"

definition schemaSchema :: "json \<Rightarrow> (int option \<times> struct_column list) option" where
  "schemaSchema j = (case (opt_field json_int j ''schema-id'', req_field (array_of structFieldSchema) j ''fields'') of
       (Some i, Some fs) \<Rightarrow> Some (i, fs) | _ \<Rightarrow> None)"

definition partitionFieldSchema :: "json \<Rightarrow> (int \<times> string \<times> string) option" where
  "partitionFieldSchema j = (case (req_field json_int j ''source-id'', req_field json_str j ''transform'', req_field json_str j ''name'') of
       (Some i, Some tr, Some n) \<Rightarrow> Some (i, tr, n) | _ \<Rightarrow> None)"

definition partitionSpecSchema :: "json \<Rightarrow> (int option \<times> (int \<times> string \<times> string) list) option" where
  "partitionSpecSchema j = (case (opt_field json_int j ''spec-id'', req_field (array_of partitionFieldSchema) j ''fields'') of
       (Some i, Some fs) \<Rightarrow> Some (i, fs) | _ \<Rightarrow> None)"

record table_metadata =
  tm_formatVersion :: "int option"
  tm_location :: "string option"
  tm_schemas :: "(int option \<times> struct_column list) list option"
  tm_schema :: "(int option \<times> struct_column list) option"
  tm_currentSchemaId :: "int option"
  tm_partitionSpecs :: "(int option \<times> (int \<times> string \<times> string) list) list option"
  tm_defaultSpecId :: "int option"
  tm_snapshots :: "json list option"
  tm_lastUpdatedMs :: "int option"
  tm_properties :: "(string \<times> string) list option"

definition metadataSchema :: "json \<Rightarrow> table_metadata option" where
  "metadataSchema j = (if \<not> is_object j then None else
     (case (opt_field json_int j ''format-version'', opt_field nonempty_str j ''location'', opt_field (array_of schemaSchema) j ''schemas'',
        opt_field schemaSchema j ''schema'', opt_field json_int j ''current-schema-id'',
        opt_field (array_of partitionSpecSchema) j ''partition-specs'', opt_field json_int j ''default-spec-id'',
        opt_field json_arr j ''snapshots'', opt_field json_int j ''last-updated-ms'', opt_field string_record j ''properties'') of
        (Some fv, Some loc, Some ss, Some s, Some cs, Some ps, Some ds, Some sn, Some lu, Some pr) \<Rightarrow>
          Some \<lparr>tm_formatVersion = fv, tm_location = loc, tm_schemas = ss, tm_schema = s, tm_currentSchemaId = cs,
            tm_partitionSpecs = ps, tm_defaultSpecId = ds, tm_snapshots = sn, tm_lastUpdatedMs = lu, tm_properties = pr\<rparr>
      | _ \<Rightarrow> None))"

definition current_schema :: "table_metadata \<Rightarrow> (int option \<times> struct_column list) option" where
  "current_schema md =
     (case Option.bind (tm_schemas md) (find (\<lambda>s. fst s = tm_currentSchemaId md)) of
        Some s \<Rightarrow> Some s
      | None \<Rightarrow> (case tm_schemas md of Some [s] \<Rightarrow> Some s | _ \<Rightarrow> tm_schema md))"

definition partition_text :: "struct_column list \<Rightarrow> (int \<times> string \<times> string) list \<Rightarrow> string" where
  "partition_text cols spec = join '', '' (map (\<lambda>(source, transform, n).
     let col = (case map_of (js_map (map (\<lambda>f. (sc_id f, sc_name f)) cols)) source of Some c \<Rightarrow> c | None \<Rightarrow> n)
     in if transform = ''identity'' then col else transform @ ''('' @ col @ '')'') spec)"

definition nonempty :: "string option \<Rightarrow> string option" where
  "nonempty s = (if s = Some [] then None else s)"

text \<open>The column of a field; an empty type text does not pass \<open>dataAssetDetailSchema\<close>.\<close>

definition asset_column_of :: "int list \<Rightarrow> struct_column \<Rightarrow> asset_column option" where
  "asset_column_of sources f = (case renderIcebergType (sc_type f) of
       None \<Rightarrow> None
     | Some t \<Rightarrow> if t = [] then None
         else Some \<lparr>ac_name = sc_name f, ac_type = t, ac_nullable = (\<not> sc_required f), ac_comment = nonempty (sc_doc f),
           ac_isPartition = (if sc_id f \<in> set sources then Some True else None)\<rparr>)"

definition mapLoadTable ::
  "(int \<Rightarrow> string option) \<Rightarrow> string \<Rightarrow> string list \<Rightarrow> string \<Rightarrow> json \<Rightarrow> (load_error, asset_detail) res" where
  "mapLoadTable isoDate catalog ns t body = (case req_field metadataSchema body ''metadata'' of
       None \<Rightarrow> Inl malformed
     | Some md \<Rightarrow> (case current_schema md of
         None \<Rightarrow> Inl malformed
       | Some (i, cols) \<Rightarrow>
           let spec = (case Option.bind (tm_partitionSpecs md) (find (\<lambda>s. fst s = tm_defaultSpecId md)) of Some s \<Rightarrow> snd s | None \<Rightarrow> []);
             fileFormat = Option.bind (tm_properties md) (\<lambda>m. map_of m ''write.format.default'')
           in (case opt_map_list (asset_column_of (map fst spec)) cols of
                 None \<Rightarrow> Inl OtherError
               | Some columns \<Rightarrow> Inr (data_asset.extend (tableAsset catalog ns t)
                   (asset_detail.fields (Some columns) (tm_location md)
                     (map_option (\<lambda>v. ''Iceberg v'' @ js_String (JNum v) @
                       (case nonempty fileFormat of None \<Rightarrow> [] | Some f \<Rightarrow> '' ('' @ f @ '')'')) (tm_formatVersion md))
                     None
                     (Some \<lparr>ms_snapshotCount = map_option length (tm_snapshots md),
                        ms_lastUpdated = Option.bind (tm_lastUpdatedMs md) isoDate,
                        ms_partitionSpec = nonempty (Some (partition_text cols spec))\<rparr>))))))"

definition with_null_count :: "data_asset \<Rightarrow> asset_detail" where
  "with_null_count a = data_asset.extend a (asset_detail.fields None None None (Some None) None)"

section \<open>One asset\<close>

definition not_found :: "load_error \<Rightarrow> bool" where
  "not_found e \<longleftrightarrow> (case e of UpstreamFailure u \<Rightarrow> ue_kind u = KNotFound | OtherError \<Rightarrow> False)"

definition or_not_found :: "(load_error, asset_detail) res \<Rightarrow> (load_error, asset_detail option) res" where
  "or_not_found r = (case r of Inr d \<Rightarrow> Inr (Some d) | Inl e \<Rightarrow> if not_found e then Inr None else Inl e)"

definition getTable :: "(int \<Rightarrow> string option) \<Rightarrow> string \<Rightarrow> string \<Rightarrow> string list \<Rightarrow> ms \<Rightarrow> asset_detail option cat" where
  "getTable isoDate pre catalog segments dl =
     (case (nsPath (butlast segments), tablePath (last segments)) of
        (Inr p, Inr q) \<Rightarrow> GetJson (''/v1'' @ pre @ ''/namespaces/'' @ p @ ''/tables/'' @ q) [] dl
          (\<lambda>r. Give (or_not_found (res_bind r (mapLoadTable isoDate catalog (butlast segments) (last segments)))))
      | (Inl e, _) \<Rightarrow> Give (or_not_found (Inl e))
      | (_, Inl e) \<Rightarrow> Give (or_not_found (Inl e)))"

definition getSchema :: "string \<Rightarrow> string \<Rightarrow> string list \<Rightarrow> ms \<Rightarrow> asset_detail option cat" where
  "getSchema pre catalog ns dl = (case nsPath ns of
       Inl e \<Rightarrow> Give (or_not_found (Inl e))
     | Inr p \<Rightarrow> GetJson (''/v1'' @ pre @ ''/namespaces/'' @ p) [] dl
         (\<lambda>r. Give (or_not_found (res_bind r (\<lambda>_. Inr (with_null_count (schemaAsset catalog ns)))))))"

definition getUncached :: "(int \<Rightarrow> string option) \<Rightarrow> catalog_mapping list \<Rightarrow> string \<Rightarrow> asset_detail option cat" where
  "getUncached isoDate cs i = (case parseAssetId i of
       None \<Rightarrow> cat_ok None
     | Some (kind, segments) \<Rightarrow> (case by_name cs (hd segments) of
         None \<Rightarrow> cat_ok None
       | Some c \<Rightarrow> Clock (\<lambda>now. let dl = now + OPERATION_BUDGET_MS in Prefix (cm_warehouse c) dl (\<lambda>r. case r of
           Inl e \<Rightarrow> cat_throw e
         | Inr pre \<Rightarrow>
             if kind = CatalogAsset then cat_ok (Some (with_null_count (catalogAsset (cm_name c))))
             else if kind = SchemaAsset then getSchema pre (cm_name c) (tl segments) dl
             else getTable isoDate pre (cm_name c) (tl segments) dl))))"

text \<open>\<open>list\<close> and \<open>get\<close> in front of the cache: the key and the load, or an answer that takes no slot.\<close>

definition list_request :: "catalog_mapping list \<Rightarrow> string option \<Rightarrow> (data_asset list \<times> list_warning list) + (string \<times> (data_asset list \<times> list_warning list) cat)" where
  "list_request cs parentId = (case parentId of
       None \<Rightarrow> Inr (''list:'', listUncached cs None)
     | Some i \<Rightarrow> (case parseAssetId i of
         None \<Rightarrow> Inl ([], [NODE_AUTHZ_WARNING])
       | Some (kind, segments) \<Rightarrow>
           if kind = TableAsset \<or> by_name cs (hd segments) = None then Inl ([], [NODE_AUTHZ_WARNING])
           else Inr (''list:'' @ i, listUncached cs parentId)))"

definition get_request :: "(int \<Rightarrow> string option) \<Rightarrow> catalog_mapping list \<Rightarrow> string \<Rightarrow> asset_detail option + (string \<times> asset_detail option cat)" where
  "get_request isoDate cs i = (case parseAssetId i of
       None \<Rightarrow> Inl None
     | Some (kind, segments) \<Rightarrow> if by_name cs (hd segments) = None then Inl None else Inr (''get:'' @ i, getUncached isoDate cs i))"

end
