(* ===== verification/Flink.thy ===== *)
theory Flink
  imports Lakekeeper Correlation Registry JsDate
begin

text \<open>
  The Flink adapter below its cache: the REST client \<open>domain-api/src/adapters/flink/client.ts\<close> and the mapping of a job
  to a pipeline, \<open>mapping.ts\<close> with \<open>schema/pipeline.ts\<close>. Every exception of the client is a \<open>FlinkClientError\<close>; its text is
  only logged and is left out. The slots of the client are a second interpretation of \<open>slot_pool\<close>.
\<close>

section \<open>The REST client\<close>

datatype flink_kind = FUnreachable | FTimeout | FHttpError | FInvalidResponse | FOverloaded

record flink_error =
  fe_kind :: flink_kind
  fe_status :: "nat option"

record flink_overview =
  fo_version :: string
  fo_taskmanagers :: int
  fo_slotsTotal :: int
  fo_slotsAvailable :: int
  fo_jobsRunning :: int

record flink_job =
  fj_jid :: string
  fj_name :: string
  fj_state :: string
  fj_startTime :: int
  fj_endTime :: int
  fj_lastModification :: int
  fj_tasks :: "(string \<times> int) list"

record flink_detail =
  fd_jid :: string
  fd_state :: string
  fd_vertices :: "(string \<times> string) list"

text \<open>\<open>z.number().int().nonnegative()\<close>: the safe integers.\<close>

definition json_nonneg :: "json \<Rightarrow> int option" where
  "json_nonneg j = Option.bind (json_int j) (\<lambda>n. if 0 \<le> n \<and> n < 2 ^ 53 then Some n else None)"

definition is_jid :: "string \<Rightarrow> bool" where
  "is_jid s \<longleftrightarrow> length s = 32 \<and> list_all is_hex s"

definition json_jid :: "json \<Rightarrow> string option" where
  "json_jid j = Option.bind (json_str j) (\<lambda>s. if is_jid s then Some s else None)"

definition flinkOverviewSchema :: "json \<Rightarrow> flink_overview option" where
  "flinkOverviewSchema j =
     (case (req_field nonempty_str j ''flink-version'', req_field json_nonneg j ''taskmanagers'', req_field json_nonneg j ''slots-total'',
        req_field json_nonneg j ''slots-available'', req_field json_nonneg j ''jobs-running'') of
        (Some v, Some t, Some s, Some a, Some r) \<Rightarrow>
          Some \<lparr>fo_version = v, fo_taskmanagers = t, fo_slotsTotal = s, fo_slotsAvailable = a, fo_jobsRunning = r\<rparr>
      | _ \<Rightarrow> None)"

definition number_record :: "json \<Rightarrow> (string \<times> int) list option" where
  "number_record j = (case j of JObj es \<Rightarrow> opt_map_list (\<lambda>(k, v). map_option (Pair k) (json_int v)) es | _ \<Rightarrow> None)"

definition with_default :: "'a \<Rightarrow> 'a option option \<Rightarrow> 'a option" where
  "with_default d r = map_option (\<lambda>v. case v of None \<Rightarrow> d | Some x \<Rightarrow> x) r"

definition flinkJobSummarySchema :: "json \<Rightarrow> flink_job option" where
  "flinkJobSummarySchema j =
     (case (req_field json_jid j ''jid'', req_field nonempty_str j ''name'', req_field nonempty_str j ''state'',
        req_field json_int j ''start-time'', req_field json_int j ''end-time'', req_field json_int j ''last-modification'',
        with_default [] (opt_field number_record j ''tasks'')) of
        (Some i, Some n, Some st, Some s, Some e, Some m, Some ts) \<Rightarrow>
          Some \<lparr>fj_jid = i, fj_name = n, fj_state = st, fj_startTime = s, fj_endTime = e, fj_lastModification = m, fj_tasks = ts\<rparr>
      | _ \<Rightarrow> None)"

definition flinkJobsOverviewSchema :: "json \<Rightarrow> flink_job list option" where
  "flinkJobsOverviewSchema j = req_field (array_of flinkJobSummarySchema) j ''jobs''"

definition vertex_schema :: "json \<Rightarrow> (string \<times> string) option" where
  "vertex_schema j = (case (req_field json_str j ''name'', req_field json_str j ''status'') of
       (Some n, Some st) \<Rightarrow> Some (n, st) | _ \<Rightarrow> None)"

definition flinkJobDetailSchema :: "json \<Rightarrow> flink_detail option" where
  "flinkJobDetailSchema j =
     (case (req_field json_jid j ''jid'', req_field nonempty_str j ''state'', with_default [] (opt_field (array_of vertex_schema) j ''vertices'')) of
        (Some i, Some st, Some vs) \<Rightarrow> Some \<lparr>fd_jid = i, fd_state = st, fd_vertices = vs\<rparr> | _ \<Rightarrow> None)"

definition FLINK_MAX_BODY_BYTES :: nat where "FLINK_MAX_BODY_BYTES = 2 * 1024 * 1024"
definition FLINK_MAX_CONCURRENCY :: nat where "FLINK_MAX_CONCURRENCY = 8"
definition FLINK_MAX_QUEUE :: nat where "FLINK_MAX_QUEUE = 64"

subsection \<open>Slots\<close>

record flink_slots =
  fs_active :: nat
  fs_waiters :: "nat list"

text \<open>A call whose signal is aborted already does not come here (\<open>AbortedFirst\<close> below).\<close>

definition flink_acquire :: "nat \<Rightarrow> nat \<Rightarrow> nat \<Rightarrow> flink_slots \<Rightarrow> grant \<times> flink_slots" where
  "flink_acquire maxConcurrency maxQueue i p =
     (if fs_active p < maxConcurrency then (Granted, p\<lparr>fs_active := fs_active p + 1\<rparr>)
      else if maxQueue \<le> length (fs_waiters p) then (Shed, p)
      else (Queued, p\<lparr>fs_waiters := fs_waiters p @ [i]\<rparr>))"

definition flink_onAbort :: "nat \<Rightarrow> flink_slots \<Rightarrow> flink_slots" where
  "flink_onAbort i p = p\<lparr>fs_waiters := remove1 i (fs_waiters p)\<rparr>"

definition flink_release :: "flink_slots \<Rightarrow> nat option \<times> flink_slots" where
  "flink_release p = (case fs_waiters p of
       w # ws \<Rightarrow> (Some w, p\<lparr>fs_waiters := ws\<rparr>)
     | [] \<Rightarrow> (None, p\<lparr>fs_active := fs_active p - 1\<rparr>))"

interpretation flink_pool: slot_pool fs_active fs_waiters "flink_acquire mc mq" flink_onAbort flink_release mc mq for mc mq
  by unfold_locales (auto simp: flink_acquire_def flink_onAbort_def flink_release_def split: if_splits list.splits)

subsection \<open>One request\<close>

datatype slot_wait = AbortedFirst | QueueFull | AbortedWaiting | GotSlot

definition flink_fail :: "flink_kind \<Rightarrow> (flink_error, 'a) res" where
  "flink_fail k = Inl \<lparr>fe_kind = k, fe_status = None\<rparr>"

definition classifyTransport :: "bool \<Rightarrow> (flink_error, 'a) res" where
  "classifyTransport aborted = flink_fail (if aborted then FTimeout else FUnreachable)"

definition readCapped :: "nat \<Rightarrow> upstream_response \<Rightarrow> (flink_error, string) res" where
  "readCapped m r =
     (if exceeds (us_contentLength r) m then flink_fail FInvalidResponse
      else (case read_capped m [] (us_chunks r) of
          None \<Rightarrow> flink_fail FInvalidResponse
        | Some body \<Rightarrow> (case us_failure r of Some aborted \<Rightarrow> classifyTransport aborted | None \<Rightarrow> Inr body)))"

text \<open>\<open>get\<close>: the request of the path is sent with method GET once there is a slot.\<close>

definition flink_get ::
  "(string \<Rightarrow> json option) \<Rightarrow> (json \<Rightarrow> 'a option) \<Rightarrow> nat \<Rightarrow> slot_wait \<Rightarrow> upstream_reply \<Rightarrow> (flink_error, 'a) res" where
  "flink_get json_parse sch maxBodyBytes wait reply = (case wait of
       AbortedFirst \<Rightarrow> flink_fail FTimeout
     | AbortedWaiting \<Rightarrow> flink_fail FTimeout
     | QueueFull \<Rightarrow> flink_fail FOverloaded
     | GotSlot \<Rightarrow> (case reply of
         FetchFailed aborted \<Rightarrow> classifyTransport aborted
       | Replied r \<Rightarrow>
           if \<not> (200 \<le> us_status r \<and> us_status r < 300)
           then Inl \<lparr>fe_kind = FHttpError, fe_status = Some (us_status r)\<rparr>
           else res_bind (readCapped maxBodyBytes r) (\<lambda>body. case json_parse body of
               None \<Rightarrow> flink_fail FInvalidResponse
             | Some j \<Rightarrow> (case sch j of None \<Rightarrow> flink_fail FInvalidResponse | Some v \<Rightarrow> Inr v))))"

definition job_path :: "string \<Rightarrow> (flink_error, string) res" where
  "job_path jobId = (if is_jid jobId then Inr (''/jobs/'' @ jobId) else flink_fail FInvalidResponse)"

lemma flink_get_Inr:
  "flink_get json_parse sch m wait reply = Inr v \<longleftrightarrow> wait = GotSlot \<and>
     (\<exists>r j. reply = Replied r \<and> 200 \<le> us_status r \<and> us_status r < 300 \<and> \<not> exceeds (us_contentLength r) m
       \<and> length (concat (us_chunks r)) \<le> m \<and> us_failure r = None \<and> json_parse (concat (us_chunks r)) = Some j \<and> sch j = Some v)"
  by (auto simp: flink_get_def flink_fail_def classifyTransport_def readCapped_def read_capped_iff
    split: slot_wait.splits upstream_reply.splits option.splits if_splits)

lemma job_path_plain: "job_path jobId = Inr p \<Longrightarrow> p = ''/jobs/'' @ jobId \<and> list_all is_hex jobId \<and> length jobId = 32"
  by (auto simp: job_path_def is_jid_def flink_fail_def split: if_splits)

section \<open>Pipelines\<close>

datatype run_result = RunRunning | RunSucceeded | RunFailed | RunUnknown

record pipeline_stage =
  pg_serviceId :: string
  pg_serviceType :: service_type
  pg_status :: health_status
  pg_detail :: "string option"

record last_run =
  lr_result :: run_result
  lr_startedAt :: string
  lr_finishedAt :: "string option"
  lr_failureReason :: "string option"

datatype job_kind = FlinkKind | AirflowKind | CdcKind

record pipeline_job =
  pj_id :: string
  pj_name :: string
  pj_kind :: job_kind
  pj_serviceId :: string
  pj_lastRun :: "last_run option"
  pj_relatedResourceIds :: "string list"

record pipeline =
  pl_id :: string
  pl_name :: string
  pl_stages :: "pipeline_stage list"
  pl_jobs :: "pipeline_job list"
  pl_links :: "correlation_link list"
  pl_status :: health_status
  pl_confidence :: rat
  pl_method :: string
  pl_lastUpdatedAt :: string

text \<open>The checks of \<open>pipelineSchema\<close> that a candidate can fail.\<close>

definition link_ok :: "correlation_link \<Rightarrow> bool" where
  "link_ok l \<longleftrightarrow> cl_id l \<noteq> [] \<and> snd (cl_source l) \<noteq> [] \<and> snd (cl_target l) \<noteq> [] \<and> 0 \<le> cl_confidence l \<and> cl_confidence l \<le> 1
     \<and> list_all (\<lambda>e. e \<noteq> []) (cl_evidence l)"

definition run_ok :: "last_run \<Rightarrow> bool" where
  "run_ok r \<longleftrightarrow> unsigned_year (lr_startedAt r) \<and> (case lr_finishedAt r of None \<Rightarrow> True | Some t \<Rightarrow> unsigned_year t)
     \<and> lr_failureReason r \<noteq> Some []"

definition pipeline_ok :: "pipeline \<Rightarrow> bool" where
  "pipeline_ok p \<longleftrightarrow> pl_id p \<noteq> [] \<and> pl_name p \<noteq> []
     \<and> list_all (\<lambda>s. pg_serviceId s \<noteq> [] \<and> pg_detail s \<noteq> Some []) (pl_stages p)
     \<and> list_all (\<lambda>j. pj_id j \<noteq> [] \<and> pj_name j \<noteq> [] \<and> pj_serviceId j \<noteq> [] \<and> (case pj_lastRun j of None \<Rightarrow> True | Some r \<Rightarrow> run_ok r)) (pl_jobs p)
     \<and> list_all link_ok (pl_links p) \<and> 0 \<le> pl_confidence p \<and> pl_confidence p \<le> 1 \<and> pl_method p \<noteq> [] \<and> unsigned_year (pl_lastUpdatedAt p)"

section \<open>The mapping\<close>

definition FLINK_SERVICE_ID :: string where "FLINK_SERVICE_ID = ''svc-flink''"
definition ICEBERG_SERVICE_ID :: string where "ICEBERG_SERVICE_ID = ''svc-iceberg''"

record state_mapping =
  sm_health :: health_status
  sm_result :: run_result

definition FLINK_STATE_MAPPING :: "(string \<times> state_mapping) list" where
  "FLINK_STATE_MAPPING =
     [(''RUNNING'', \<lparr>sm_health = Healthy, sm_result = RunRunning\<rparr>),
      (''INITIALIZING'', \<lparr>sm_health = UnknownHealth, sm_result = RunUnknown\<rparr>),
      (''CREATED'', \<lparr>sm_health = UnknownHealth, sm_result = RunUnknown\<rparr>),
      (''RECONCILING'', \<lparr>sm_health = UnknownHealth, sm_result = RunUnknown\<rparr>),
      (''RESTARTING'', \<lparr>sm_health = Degraded, sm_result = RunUnknown\<rparr>),
      (''FAILING'', \<lparr>sm_health = Degraded, sm_result = RunUnknown\<rparr>),
      (''FAILED'', \<lparr>sm_health = Unavailable, sm_result = RunFailed\<rparr>),
      (''CANCELLING'', \<lparr>sm_health = UnknownHealth, sm_result = RunUnknown\<rparr>),
      (''CANCELED'', \<lparr>sm_health = Unavailable, sm_result = RunUnknown\<rparr>),
      (''SUSPENDED'', \<lparr>sm_health = Unavailable, sm_result = RunUnknown\<rparr>),
      (''FINISHED'', \<lparr>sm_health = Healthy, sm_result = RunSucceeded\<rparr>)]"

definition UNKNOWN_STATE :: state_mapping where
  "UNKNOWN_STATE = \<lparr>sm_health = UnknownHealth, sm_result = RunUnknown\<rparr>"

definition FAILURE_STATES :: "string list" where "FAILURE_STATES = [''RESTARTING'', ''FAILING'', ''FAILED'']"

text \<open>A state that is the name of a method of \<open>Object.prototype\<close> is left aside; Flink has none.\<close>

definition mapState :: "string \<Rightarrow> (string \<times> int) list \<Rightarrow> state_mapping" where
  "mapState state tasks =
     (if state = ''RUNNING'' \<and> 0 < (case map_of tasks ''failed'' of Some n \<Rightarrow> n | None \<Rightarrow> 0)
      then \<lparr>sm_health = Degraded, sm_result = RunRunning\<rparr>
      else case map_of FLINK_STATE_MAPPING state of Some m \<Rightarrow> m | None \<Rightarrow> UNKNOWN_STATE)"

definition slug_char :: "char \<Rightarrow> bool" where
  "slug_char c \<longleftrightarrow> is_lower c \<or> is_digit c"

text \<open>\<open>replace(/[^a-z0-9]+/g, "-")\<close>: a run of other characters is one dash.\<close>

fun dash_runs :: "bool \<Rightarrow> string \<Rightarrow> string" where
  "dash_runs in_run [] = []"
| "dash_runs in_run (c # s) =
     (if slug_char c then c # dash_runs False s else if in_run then dash_runs True s else CHR ''-'' # dash_runs True s)"

definition strip_dashes :: "string \<Rightarrow> string" where
  "strip_dashes s = rev (dropWhile (\<lambda>c. c = CHR ''-'') (rev (dropWhile (\<lambda>c. c = CHR ''-'') s)))"

definition slug :: "string \<Rightarrow> string" where
  "slug value = (let s = strip_dashes (dash_runs False (to_lower value)) in if s = [] then ''unnamed'' else s)"

definition isoOrNull :: "int \<Rightarrow> string option" where
  "isoOrNull t = (if t \<le> 0 then None else iso_date t)"

text \<open>\<open>matchAll(/IcebergSink\s+([A-Za-z0-9_.-]+)/g)\<close>: the captures, from the left.\<close>

definition sink_char :: "char \<Rightarrow> bool" where
  "sink_char c \<longleftrightarrow> is_alpha c \<or> is_digit c \<or> c \<in> set ''_.-''"

definition sink_match :: "string \<Rightarrow> (string \<times> string) option" where
  "sink_match s =
     (if \<not> is_prefix ''IcebergSink'' s then None
      else let after = drop 11 s; r = strip_start js_spaces after in
        if length r = length after \<or> takeWhile sink_char r = [] then None
        else Some (takeWhile sink_char r, dropWhile sink_char r))"

lemma strip_start_length: "length (strip_start ws s) \<le> length s"
proof (induction ws s rule: strip_start.induct)
  case (1 ws s)
  show ?case
  proof (cases "find (\<lambda>w. w \<noteq> [] \<and> is_prefix w s) ws")
    case (Some w)
    then have "length (strip_start ws s) \<le> length (drop (length w) s)"
      using 1 by (subst strip_start.simps) simp
    then show ?thesis by simp
  qed (subst strip_start.simps, simp)
qed

lemma sink_match_shorter: "sink_match s = Some (t, r) \<Longrightarrow> length r < length s"
proof -
  assume m: "sink_match s = Some (t, r)"
  let ?u = "strip_start js_spaces (drop 11 s)"
  from m have r: "r = dropWhile sink_char ?u" and p: "is_prefix ''IcebergSink'' s"
    by (auto simp: sink_match_def Let_def split: if_splits)
  have "s \<noteq> []" using p by (auto simp: is_prefix_def)
  have "length r \<le> length ?u" unfolding r by (rule length_dropWhile_le)
  also have "\<dots> \<le> length (drop 11 s)" by (rule strip_start_length)
  finally show ?thesis using \<open>s \<noteq> []\<close> by (cases s) auto
qed

function sink_tables :: "string \<Rightarrow> string list" where
  "sink_tables s = (case sink_match s of
       Some (t, r) \<Rightarrow> t # sink_tables r
     | None \<Rightarrow> (case s of [] \<Rightarrow> [] | c # cs \<Rightarrow> sink_tables cs))"
  by pat_completeness auto
termination by (relation "measure length") (auto simp: sink_match_shorter)

declare sink_tables.simps [simp del]

definition extractSinkTables :: "flink_detail option \<Rightarrow> string list" where
  "extractSinkTables detail = (case detail of
       None \<Rightarrow> []
     | Some d \<Rightarrow> sort (js_set (concat (map (sink_tables \<circ> fst) (fd_vertices d)))))"

definition stripPrefix :: "string \<Rightarrow> string \<Rightarrow> string" where
  "stripPrefix name pre =
     (if pre \<noteq> [] \<and> is_prefix pre name \<and> length pre < length name then drop (length pre) name else name)"

definition pipelineIdFor :: "string \<Rightarrow> string" where
  "pipelineIdFor jid = ''pl-flink-'' @ jid"

definition PIPELINE_ID_PATTERN :: "string \<Rightarrow> bool" where
  "PIPELINE_ID_PATTERN i \<longleftrightarrow> is_prefix ''pl-flink-'' i \<and> is_jid (drop 9 i)"

definition table_id :: "string \<Rightarrow> string" where
  "table_id t = ''table-'' @ slug t"

definition job_entities :: "string \<Rightarrow> flink_job \<Rightarrow> string list \<Rightarrow> entity list" where
  "job_entities pre s tables =
     \<lparr>ce_kind = FlinkJob, ce_id = ''job-flink-'' @ fj_jid s, ce_name = stripPrefix (fj_name s) pre, ce_labels = []\<rparr>
     # map (\<lambda>t. \<lparr>ce_kind = IcebergTable, ce_id = table_id t, ce_name = t, ce_labels = []\<rparr>) tables"

definition with_sink_evidence :: "flink_job \<Rightarrow> string list \<Rightarrow> correlation_link \<Rightarrow> correlation_link" where
  "with_sink_evidence s tables l =
     (if cl_relation l = JobWritesTable
      then l\<lparr>cl_evidence := cl_evidence l @ [''Flink job graph of '' @ [CHR 0x27] @ fj_name s @ [CHR 0x27] @ '' reports an IcebergSink on ''
        @ [CHR 0x27] @ (case map_of (rev (map (\<lambda>t. (table_id t, t)) tables)) (snd (cl_target l)) of Some t \<Rightarrow> t | None \<Rightarrow> snd (cl_target l))
        @ [CHR 0x27]]\<rparr>
      else l)"

definition job_links :: "string \<Rightarrow> flink_job \<Rightarrow> string list \<Rightarrow> correlation_link list" where
  "job_links pre s tables = map (with_sink_evidence s tables) (correlate (job_entities pre s tables))"

definition job_run :: "flink_job \<Rightarrow> last_run option" where
  "job_run s = (case isoOrNull (fj_startTime s) of
       None \<Rightarrow> None
     | Some t \<Rightarrow> Some \<lparr>lr_result = sm_result (mapState (fj_state s) (fj_tasks s)), lr_startedAt = t, lr_finishedAt = isoOrNull (fj_endTime s),
         lr_failureReason = (if fj_state s \<in> set FAILURE_STATES then Some (''Flink reported job state '' @ fj_state s) else None)\<rparr>)"

definition sink_stage :: "string \<Rightarrow> pipeline_stage" where
  "sink_stage t = \<lparr>pg_serviceId = ICEBERG_SERVICE_ID, pg_serviceType = IcebergService, pg_status = UnknownHealth,
     pg_detail = Some (''Sink table '' @ t @ '' reported by the Flink job graph; not verified against the catalog'')\<rparr>"

definition min_confidence :: "correlation_link list \<Rightarrow> rat" where
  "min_confidence ls = (case map cl_confidence ls of [] \<Rightarrow> AMBIGUOUS_CONFIDENCE | c # cs \<Rightarrow> fold min cs c)"

definition candidate :: "string \<Rightarrow> string \<Rightarrow> flink_job \<times> flink_detail option \<Rightarrow> pipeline" where
  "candidate pre now_iso x = (case x of (s, detail) \<Rightarrow>
     let health = sm_health (mapState (fj_state s) (fj_tasks s)); tables = extractSinkTables detail; links = job_links pre s tables in
     \<lparr>pl_id = pipelineIdFor (fj_jid s), pl_name = fj_name s,
      pl_stages = \<lparr>pg_serviceId = FLINK_SERVICE_ID, pg_serviceType = FlinkService, pg_status = health,
          pg_detail = Some (''Flink job state '' @ fj_state s)\<rparr> # map sink_stage tables,
      pl_jobs = [\<lparr>pj_id = ''job-flink-'' @ fj_jid s, pj_name = fj_name s, pj_kind = FlinkKind, pj_serviceId = FLINK_SERVICE_ID,
          pj_lastRun = job_run s, pj_relatedResourceIds = []\<rparr>],
      pl_links = links, pl_status = health, pl_confidence = min_confidence links, pl_method = ''inferred'',
      pl_lastUpdatedAt = (case isoOrNull (fj_lastModification s) of
          Some t \<Rightarrow> t | None \<Rightarrow> (case isoOrNull (fj_startTime s) of Some t \<Rightarrow> t | None \<Rightarrow> now_iso))\<rparr>)"

definition buildPipelines :: "string \<Rightarrow> string \<Rightarrow> (flink_job \<times> flink_detail option) list \<Rightarrow> pipeline list \<times> nat" where
  "buildPipelines pre now_iso inputs =
     (let cs = map (candidate pre now_iso) inputs
      in (sort_key pl_id (filter pipeline_ok cs), length (filter (\<lambda>p. \<not> pipeline_ok p) cs)))"

end
