(* ===== verification/FlinkAdapter.thy ===== *)
theory FlinkAdapter
  imports Flink Routes Config
begin

text \<open>
  The Flink adapter: \<open>domain-api/src/adapters/flink/adapter.ts\<close> with \<open>pipelineAdapter.ts\<close> and the pipelines route. A snapshot
  is a function of the answers it read; its cache and the bounded fan-out of its requests are step relations, because
  they are shared by calls that overlap.
\<close>

section \<open>The single-flight cache\<close>

text \<open>A load has a number; the two microtasks that store its outcome and forget it are one step.\<close>

record 'v flight_cache =
  sf_entry :: "('v \<times> ms) option"
  sf_inflight :: "nat option"
  sf_next :: nat

datatype 'v flight_answer = Cached 'v | Joined nat | Launched nat

definition flight_get :: "ms \<Rightarrow> 'v flight_cache \<Rightarrow> 'v flight_answer \<times> 'v flight_cache" where
  "flight_get now c = (case sf_entry c of
       Some (v, expiresAt) \<Rightarrow>
         if now < expiresAt then (Cached v, c)
         else (case sf_inflight c of
             Some i \<Rightarrow> (Joined i, c)
           | None \<Rightarrow> (Launched (sf_next c), c\<lparr>sf_inflight := Some (sf_next c), sf_next := Suc (sf_next c)\<rparr>))
     | None \<Rightarrow> (case sf_inflight c of
           Some i \<Rightarrow> (Joined i, c)
         | None \<Rightarrow> (Launched (sf_next c), c\<lparr>sf_inflight := Some (sf_next c), sf_next := Suc (sf_next c)\<rparr>)))"

text \<open>\<open>None\<close> is a load that threw.\<close>

definition flight_settle :: "ms \<Rightarrow> nat \<Rightarrow> ('v \<times> ms) option \<Rightarrow> 'v flight_cache \<Rightarrow> 'v flight_cache" where
  "flight_settle now i r c =
     (let c' = (case r of None \<Rightarrow> c | Some (v, ttl) \<Rightarrow> c\<lparr>sf_entry := Some (v, now + ttl)\<rparr>)
      in if sf_inflight c = Some i then c'\<lparr>sf_inflight := None\<rparr> else c')"

definition empty_flight :: "'v flight_cache" where
  "empty_flight = \<lparr>sf_entry = None, sf_inflight = None, sf_next = 0\<rparr>"

text \<open>A run: the loads that are under way and the log of the outcomes with their times.\<close>

inductive flight_step ::
  "'v flight_cache \<times> nat set \<times> (nat \<times> ms \<times> 'v \<times> ms) list \<Rightarrow> 'v flight_cache \<times> nat set \<times> (nat \<times> ms \<times> 'v \<times> ms) list \<Rightarrow> bool" where
  asked: "flight_get now c = (a, c') \<Longrightarrow>
    flight_step (c, L, lg) (c', (case a of Launched i \<Rightarrow> insert i L | _ \<Rightarrow> L), lg)"
| answered: "i \<in> L \<Longrightarrow> flight_step (c, L, lg) (flight_settle now i (Some (v, ttl)) c, L - {i}, lg @ [(i, now, v, ttl)])"
| failed: "i \<in> L \<Longrightarrow> flight_step (c, L, lg) (flight_settle now i None c, L - {i}, lg)"

definition flight_inv :: "'v flight_cache \<times> nat set \<times> (nat \<times> ms \<times> 'v \<times> ms) list \<Rightarrow> bool" where
  "flight_inv s \<longleftrightarrow> (case s of (c, L, lg) \<Rightarrow> L = set_option (sf_inflight c)
     \<and> (case sf_entry c of None \<Rightarrow> lg = []
       | Some (v, e) \<Rightarrow> \<exists>i t ttl. lg \<noteq> [] \<and> last lg = (i, t, v, ttl) \<and> e = t + ttl))"

lemma flight_inv_step: "flight_step s s' \<Longrightarrow> flight_inv s \<Longrightarrow> flight_inv s'"
proof (induction rule: flight_step.cases)
  case (asked now c a c' L lg)
  then show ?case
    by (auto simp: flight_inv_def flight_get_def split: option.splits if_splits)
next
  case (answered i L c lg now v ttl)
  then show ?case by (auto simp: flight_inv_def flight_settle_def)
next
  case (failed i L c lg now)
  then show ?case by (auto simp: flight_inv_def flight_settle_def split: option.splits)
qed

lemma flight_inv_steps: "flight_step\<^sup>*\<^sup>* (empty_flight, {}, []) s \<Longrightarrow> flight_inv s"
proof (induction rule: rtranclp_induct)
  case base
  then show ?case by (simp add: flight_inv_def empty_flight_def)
next
  case (step s s')
  then show ?case by (blast intro: flight_inv_step)
qed

text \<open>What the cache serves is the outcome of the last load, and it serves it only within its lifetime.\<close>

lemma flight_served:
  assumes "flight_step\<^sup>*\<^sup>* (empty_flight, {}, []) (c, L, lg)" "flight_get now c = (Cached v, c')"
  shows "\<exists>i t ttl. last lg = (i, t, v, ttl) \<and> lg \<noteq> [] \<and> now < t + ttl"
  using flight_inv_steps [OF assms(1)] assms(2)
  by (auto simp: flight_inv_def flight_get_def split: option.splits if_splits)

lemma flight_single:
  assumes "flight_step\<^sup>*\<^sup>* (empty_flight, {}, []) (c, L, lg)"
  shows "(flight_get now c = (Launched i, c') \<longrightarrow> L = {}) \<and> (flight_get now c = (Joined i, c') \<longrightarrow> L = {i})"
  using flight_inv_steps [OF assms] by (auto simp: flight_inv_def flight_get_def split: option.splits if_splits)

section \<open>The bounded fan-out\<close>

text \<open>\<open>mapLimited\<close> over \<open>n\<close> items: \<open>min limit n\<close> workers take the next index each time they are free.\<close>

record 'r fan_out =
  fan_next :: nat
  fan_running :: "nat set"
  fan_out :: "nat \<Rightarrow> 'r option"

inductive fan_step :: "nat \<Rightarrow> nat \<Rightarrow> 'r fan_out \<Rightarrow> 'r fan_out \<Rightarrow> bool" for limit n where
  take_item: "card (fan_running f) < min limit n \<Longrightarrow> fan_next f < n \<Longrightarrow>
    fan_step limit n f (f\<lparr>fan_next := Suc (fan_next f), fan_running := insert (fan_next f) (fan_running f)\<rparr>)"
| store: "i \<in> fan_running f \<Longrightarrow> fan_step limit n f (f\<lparr>fan_running := fan_running f - {i}, fan_out := (fan_out f)(i := Some r)\<rparr>)"

definition fan_start :: "'r fan_out" where
  "fan_start = \<lparr>fan_next = 0, fan_running = {}, fan_out = (\<lambda>_. None)\<rparr>"

definition fan_inv :: "nat \<Rightarrow> nat \<Rightarrow> 'r fan_out \<Rightarrow> bool" where
  "fan_inv limit n f \<longleftrightarrow> finite (fan_running f) \<and> card (fan_running f) \<le> limit \<and> fan_next f \<le> n
     \<and> fan_running f \<subseteq> {..<fan_next f} \<and> dom (fan_out f) = {..<fan_next f} - fan_running f"

lemma fan_inv_step: "fan_step limit n f f' \<Longrightarrow> fan_inv limit n f \<Longrightarrow> fan_inv limit n f'"
proof (induction rule: fan_step.induct)
  case (take_item f)
  then have "card (insert (fan_next f) (fan_running f)) \<le> limit" by (simp add: fan_inv_def card_insert_if)
  then show ?case using take_item by (auto simp: fan_inv_def)
next
  case (store i f r)
  then have "card (fan_running f) \<le> limit" by (simp add: fan_inv_def)
  with card_Diff1_le [of "fan_running f" i] have "card (fan_running f - {i}) \<le> limit" by (rule order_trans)
  then show ?case using store by (auto simp: fan_inv_def)
qed

text \<open>No more than \<open>limit\<close> items are under way, and when nothing can be taken and nothing runs every item has one result.\<close>

lemma fan_bounded:
  assumes "(fan_step limit n)\<^sup>*\<^sup>* fan_start f"
  shows "card (fan_running f) \<le> limit \<and> (fan_running f = {} \<and> fan_next f = n \<longrightarrow> dom (fan_out f) = {..<n})"
proof -
  from assms have "fan_inv limit n f"
  proof (induction rule: rtranclp_induct)
    case base
    then show ?case by (simp add: fan_inv_def fan_start_def)
  next
    case (step s s')
    then show ?case by (blast intro: fan_inv_step)
  qed
  then show ?thesis by (auto simp: fan_inv_def)
qed

lemma fan_progress: "0 < limit \<Longrightarrow> finite (fan_running f) \<Longrightarrow> fan_running f \<noteq> {} \<or> fan_next f < n \<Longrightarrow> \<exists>f'. fan_step limit n f f'"
proof (cases "fan_running f = {}")
  case True
  moreover assume "0 < limit" "fan_running f \<noteq> {} \<or> fan_next f < n"
  ultimately show ?thesis using fan_step.take_item [of f limit n] by auto
qed (auto intro: fan_step.store)

section \<open>The snapshot\<close>

definition MAX_JOBS :: nat where "MAX_JOBS = 100"
definition STALE_AFTER_MS :: nat where "STALE_AFTER_MS = 60000"
definition TRANSIENT_KINDS :: "flink_kind list" where "TRANSIENT_KINDS = [FOverloaded, FTimeout, FUnreachable]"
definition NEGATIVE_TTL_CAP_MS :: ms where "NEGATIVE_TTL_CAP_MS = 1000"

record pipeline_snapshot =
  pn_pipelines :: "pipeline list"
  pn_warnings :: "list_warning list"
  pn_incomplete :: "string list"

definition flink_warning :: "string \<Rightarrow> string \<Rightarrow> list_warning" where
  "flink_warning code message = \<lparr>lw_code = code, lw_message = message, lw_serviceId = Some FLINK_SERVICE_ID\<rparr>"

fun unavailable_text :: "flink_kind \<Rightarrow> string" where
  "unavailable_text FUnreachable = ''Flink JobManager is unreachable; live pipelines are unavailable''"
| "unavailable_text FTimeout = ''Flink JobManager did not respond in time; live pipelines are unavailable''"
| "unavailable_text FHttpError = ''Flink JobManager returned an error response; live pipelines are unavailable''"
| "unavailable_text FInvalidResponse = ''Flink JobManager returned an unexpected response; live pipelines are unavailable''"
| "unavailable_text FOverloaded = ''Too many pending Flink JobManager requests; live pipelines are temporarily unavailable''"

definition warningFor :: "flink_error \<Rightarrow> list_warning" where
  "warningFor e = flink_warning ''UPSTREAM_UNAVAILABLE'' (unavailable_text (fe_kind e))"

definition transient :: "flink_error \<Rightarrow> bool" where
  "transient e \<longleftrightarrow> fe_kind e \<in> set TRANSIENT_KINDS"

text \<open>The lifetime of a snapshot from the errors it met and from the jobs it skipped.\<close>

definition snapshot_ttl :: "ms \<Rightarrow> flink_error list \<Rightarrow> nat \<Rightarrow> ms" where
  "snapshot_ttl cacheTtl errors skipped =
     (if \<exists>e \<in> set errors. transient e then 0
      else if errors \<noteq> [] \<or> 0 < skipped then min cacheTtl NEGATIVE_TTL_CAP_MS else cacheTtl)"

text \<open>An outcome of the fan-out for every selected job; \<open>aborted\<close> is \<open>budget.signal.aborted\<close> when the warning is made.\<close>

definition detail_of :: "(flink_error, flink_detail) res \<Rightarrow> flink_detail option" where
  "detail_of r = (case r of Inl e \<Rightarrow> None | Inr d \<Rightarrow> Some d)"

definition buildSnapshot ::
  "flink_config \<Rightarrow> string \<Rightarrow> (flink_error, flink_job list) res \<Rightarrow> (flink_error, flink_detail) res list \<Rightarrow> bool \<Rightarrow> pipeline_snapshot \<times> ms" where
  "buildSnapshot cfg now_iso summaries outcomes aborted = (case summaries of
       Inl e \<Rightarrow> (\<lparr>pn_pipelines = [], pn_warnings = [warningFor e], pn_incomplete = []\<rparr>, snapshot_ttl (of_int (fc_cacheTtlMs cfg)) [e] 0)
     | Inr jobs \<Rightarrow>
         let selected = take MAX_JOBS jobs; read = zip selected outcomes;
           errors = List.map_filter (\<lambda>(s, r). case r of Inl e \<Rightarrow> Some e | Inr d \<Rightarrow> None) read;
           incomplete = List.map_filter (\<lambda>(s, r). if detail_of r = None then Some (pipelineIdFor (fj_jid s)) else None) read;
           built = buildPipelines (fc_jobNamePrefix cfg) now_iso (map (\<lambda>(s, r). (s, detail_of r)) read);
           truncated = (if length jobs > length selected
             then [flink_warning ''TRUNCATED'' (''Flink reports '' @ show_nat (length jobs) @ '' jobs; only the first '' @ show_nat MAX_JOBS @ '' are shown'')]
             else []);
           partly = (if incomplete \<noteq> []
             then [flink_warning ''PARTIAL'' (''Flink job details were unavailable for '' @ show_nat (length incomplete) @ '' job(s)''
               @ (if aborted then '' (snapshot time budget exceeded)'' else []) @ ''; their sink tables are not shown'')]
             else []);
           invalid = (if 0 < snd built
             then [flink_warning ''INVALID_JOB'' (show_nat (snd built) @ '' Flink job(s) could not be mapped to a Pipeline and were skipped'')]
             else [])
         in (\<lparr>pn_pipelines = fst built, pn_warnings = truncated @ partly @ invalid, pn_incomplete = incomplete\<rparr>,
             snapshot_ttl (of_int (fc_cacheTtlMs cfg)) errors (snd built)))"

record pipeline_lookup =
  pk_pipeline :: "pipeline option"
  pk_warnings :: "list_warning list"
  pk_unavailable :: bool

definition getPipeline :: "pipeline_snapshot \<Rightarrow> string \<Rightarrow> pipeline_lookup" where
  "getPipeline snap i =
     (if \<not> PIPELINE_ID_PATTERN i then \<lparr>pk_pipeline = None, pk_warnings = [], pk_unavailable = False\<rparr>
      else if \<exists>w \<in> set (pn_warnings snap). lw_code w = ''UPSTREAM_UNAVAILABLE''
      then \<lparr>pk_pipeline = None, pk_warnings = pn_warnings snap, pk_unavailable = True\<rparr>
      else let p = find (\<lambda>p. pl_id p = i) (pn_pipelines snap) in
        if p \<noteq> None \<and> i \<in> set (pn_incomplete snap)
        then \<lparr>pk_pipeline = None, pk_warnings = filter (\<lambda>w. lw_code w = ''PARTIAL'') (pn_warnings snap), pk_unavailable = True\<rparr>
        else \<lparr>pk_pipeline = p, pk_warnings = [], pk_unavailable = False\<rparr>)"

section \<open>The service adapter and the routes\<close>

definition flink_metadata :: "(flink_error, flink_overview) res \<Rightarrow> adapter_metadata" where
  "flink_metadata r =
     (let base = no_metadata\<lparr>am_capabilities := [''job.list''], am_categories := [Processing]\<rparr>;
        metric = (\<lambda>n v. \<lparr>km_name = n, km_value = show_nat (nat v), km_unit = None\<rparr>)
      in case r of
        Inl e \<Rightarrow> base
      | Inr ov \<Rightarrow> base\<lparr>am_keyMetrics := [metric ''TaskManagers'' (fo_taskmanagers ov), metric ''Slots total'' (fo_slotsTotal ov),
          metric ''Slots available'' (fo_slotsAvailable ov), metric ''Jobs running'' (fo_jobsRunning ov)]\<rparr>)"

definition flink_version :: "(flink_error, flink_overview) res \<Rightarrow> string option" where
  "flink_version r = (case r of Inl e \<Rightarrow> None | Inr ov \<Rightarrow> Some (fo_version ov))"

definition healthFor :: "flink_error \<Rightarrow> health_status" where
  "healthFor e =
     (if fe_kind e = FHttpError \<and> 500 \<le> (case fe_status e of Some s \<Rightarrow> s | None \<Rightarrow> 0) then Degraded else UnknownHealth)"

definition flink_health :: "string \<Rightarrow> (flink_error, flink_overview) res \<Rightarrow> adapter_health" where
  "flink_health now_iso r =
     \<lparr>ah_status = (case r of Inl e \<Rightarrow> healthFor e | Inr ov \<Rightarrow> Healthy), ah_lastCheckedAt = now_iso, ah_staleAfterMs = STALE_AFTER_MS\<rparr>"

definition pipelines_route :: "pipeline_snapshot \<Rightarrow> nat \<Rightarrow> nat \<Rightarrow> health_status option \<Rightarrow> pipeline envelope" where
  "pipelines_route snap page pageSize st =
     page_envelope (filter (\<lambda>p. st = None \<or> st = Some (pl_status p)) (pn_pipelines snap)) page pageSize
       (\<lambda>items. pn_warnings snap @ List.map_filter (\<lambda>p. healthWarning (pl_status p) (pl_name p) None) items)"

definition pipeline_route :: "pipeline_lookup \<Rightarrow> string \<Rightarrow> pipeline read_reply" where
  "pipeline_route lookup i =
     (if pk_unavailable lookup
      then unavailable_reply (case pk_warnings lookup of w # ws \<Rightarrow> lw_message w | [] \<Rightarrow> ''Upstream pipeline source is unavailable'')
      else case pk_pipeline lookup of Some p \<Rightarrow> Ok200 p | None \<Rightarrow> not_found_reply ''Pipeline'' i)"

section \<open>What the adapter says\<close>

text \<open>A job is healthy only while it runs without a failed task, or when it has finished.\<close>

lemma mapState_healthy:
  "sm_health (mapState state tasks) = Healthy \<longleftrightarrow>
     state = ''RUNNING'' \<and> \<not> 0 < (case map_of tasks ''failed'' of Some n \<Rightarrow> n | None \<Rightarrow> 0) \<or> state = ''FINISHED''"
  by (auto simp: mapState_def FLINK_STATE_MAPPING_def UNKNOWN_STATE_def split: if_splits)

lemma candidate_simps [simp]:
  "pl_id (candidate pre now_iso (s, d)) = pipelineIdFor (fj_jid s)"
  "pl_status (candidate pre now_iso (s, d)) = sm_health (mapState (fj_state s) (fj_tasks s))"
  by (simp_all add: candidate_def Let_def)

lemma set_buildPipelines: "set (fst (buildPipelines pre now_iso inputs)) = {p \<in> candidate pre now_iso ` set inputs. pipeline_ok p}"
  by (auto simp: buildPipelines_def Let_def)

text \<open>No job is lost silently: those that are not shown are counted, and the list is sorted.\<close>

lemma buildPipelines_count:
  "length (fst (buildPipelines pre now_iso inputs)) + snd (buildPipelines pre now_iso inputs) = length inputs
    \<and> sorted (map pl_id (fst (buildPipelines pre now_iso inputs)))"
  using sum_length_filter_compl [of pipeline_ok "map (candidate pre now_iso) inputs"] by (simp add: buildPipelines_def Let_def)

lemma incomplete_iff:
  assumes "buildSnapshot cfg now_iso (Inr jobs) outcomes aborted = (snap, ttl)"
  shows "i \<in> set (pn_incomplete snap) \<longleftrightarrow>
    (\<exists>s r. (s, r) \<in> set (zip (take MAX_JOBS jobs) outcomes) \<and> detail_of r = None \<and> i = pipelineIdFor (fj_jid s))"
proof -
  have "pn_incomplete snap =
      List.map_filter (\<lambda>(s, r). if detail_of r = None then Some (pipelineIdFor (fj_jid s)) else None) (zip (take MAX_JOBS jobs) outcomes)"
    using assms by (auto simp: buildSnapshot_def Let_def)
  then show ?thesis by (force simp: set_map_filter_iff split: if_splits)
qed

lemma snapshot_pipelines:
  assumes "buildSnapshot cfg now_iso (Inr jobs) outcomes aborted = (snap, ttl)"
  shows "set (pn_pipelines snap) = {p \<in> (\<lambda>(s, r). candidate (fc_jobNamePrefix cfg) now_iso (s, detail_of r)) ` set (zip (take MAX_JOBS jobs) outcomes).
    pipeline_ok p}"
proof -
  have "pn_pipelines snap = fst (buildPipelines (fc_jobNamePrefix cfg) now_iso (map (\<lambda>(s, r). (s, detail_of r)) (zip (take MAX_JOBS jobs) outcomes)))"
    using assms by (auto simp: buildSnapshot_def Let_def)
  then show ?thesis by (simp add: set_buildPipelines image_image case_prod_beta)
qed

lemma snapshot_reachable:
  assumes "buildSnapshot cfg now_iso (Inr jobs) outcomes aborted = (snap, ttl)"
  shows "\<forall>w \<in> set (pn_warnings snap). lw_code w \<noteq> ''UPSTREAM_UNAVAILABLE''"
  using assms by (auto simp: buildSnapshot_def Let_def flink_warning_def)

lemma getPipeline_read:
  assumes built: "buildSnapshot cfg now_iso (Inr jobs) outcomes aborted = (snap, ttl)" and i: "PIPELINE_ID_PATTERN i"
  shows "pk_pipeline (getPipeline snap i) = Some p \<Longrightarrow> \<exists>s d. (s, Inr d) \<in> set (zip (take MAX_JOBS jobs) outcomes)
      \<and> i = pipelineIdFor (fj_jid s) \<and> p = candidate (fc_jobNamePrefix cfg) now_iso (s, Some d)"
    and "pk_pipeline (getPipeline snap i) = None \<Longrightarrow> \<not> pk_unavailable (getPipeline snap i) \<Longrightarrow>
      (s, r) \<in> set (zip (take MAX_JOBS jobs) outcomes) \<Longrightarrow> pipelineIdFor (fj_jid s) = i \<Longrightarrow>
      \<not> pipeline_ok (candidate (fc_jobNamePrefix cfg) now_iso (s, detail_of r))"
proof -
  have plain: "getPipeline snap i = (let p = find (\<lambda>p. pl_id p = i) (pn_pipelines snap) in
        if p \<noteq> None \<and> i \<in> set (pn_incomplete snap)
        then \<lparr>pk_pipeline = None, pk_warnings = filter (\<lambda>w. lw_code w = ''PARTIAL'') (pn_warnings snap), pk_unavailable = True\<rparr>
        else \<lparr>pk_pipeline = p, pk_warnings = [], pk_unavailable = False\<rparr>)"
    using snapshot_reachable [OF built] i by (auto simp: getPipeline_def)
  show "\<exists>s d. (s, Inr d) \<in> set (zip (take MAX_JOBS jobs) outcomes)
      \<and> i = pipelineIdFor (fj_jid s) \<and> p = candidate (fc_jobNamePrefix cfg) now_iso (s, Some d)"
    if "pk_pipeline (getPipeline snap i) = Some p"
  proof -
    have found: "find (\<lambda>p. pl_id p = i) (pn_pipelines snap) = Some p" and inc: "i \<notin> set (pn_incomplete snap)"
      using that unfolding plain by (auto simp: Let_def split: if_splits)
    then have "p \<in> set (pn_pipelines snap)" "pl_id p = i" by (auto simp: find_Some_iff)
    then obtain s r where sr: "(s, r) \<in> set (zip (take MAX_JOBS jobs) outcomes)" "p = candidate (fc_jobNamePrefix cfg) now_iso (s, detail_of r)"
      "i = pipelineIdFor (fj_jid s)"
      unfolding snapshot_pipelines [OF built] by auto
    have "detail_of r \<noteq> None" using inc sr(1,3) unfolding incomplete_iff [OF built] by auto
    then obtain d where "r = Inr d" by (cases r) (auto simp: detail_of_def)
    then show ?thesis using sr by (auto simp: detail_of_def)
  qed
  show "\<not> pipeline_ok (candidate (fc_jobNamePrefix cfg) now_iso (s, detail_of r))"
    if "pk_pipeline (getPipeline snap i) = None" "\<not> pk_unavailable (getPipeline snap i)"
      "(s, r) \<in> set (zip (take MAX_JOBS jobs) outcomes)" "pipelineIdFor (fj_jid s) = i"
  proof
    let ?p = "candidate (fc_jobNamePrefix cfg) now_iso (s, detail_of r)"
    assume "pipeline_ok ?p"
    then have "?p \<in> set (pn_pipelines snap)" using that(3) unfolding snapshot_pipelines [OF built] by force
    moreover have "find (\<lambda>p. pl_id p = i) (pn_pipelines snap) = None"
      using that(1,2) unfolding plain by (auto simp: Let_def split: if_splits)
    ultimately show False using that(4) by (auto simp: find_None_iff)
  qed
qed

text \<open>The lifetime that a snapshot gets.\<close>

lemma buildSnapshot_ttl:
  assumes "buildSnapshot cfg now_iso summaries outcomes aborted = (snap, ttl)" "0 < ttl"
  shows "(\<forall>e. summaries = Inl e \<longrightarrow> \<not> transient e)
    \<and> (\<forall>jobs s e. summaries = Inr jobs \<longrightarrow> (s, Inl e) \<in> set (zip (take MAX_JOBS jobs) outcomes) \<longrightarrow> \<not> transient e)
    \<and> ((\<exists>e. summaries = Inl e) \<or> pn_incomplete snap \<noteq> [] \<longrightarrow> ttl \<le> NEGATIVE_TTL_CAP_MS)"
proof (cases summaries)
  case (Inl e)
  then show ?thesis using assms by (auto simp: buildSnapshot_def snapshot_ttl_def)
next
  case (Inr jobs)
  let ?read = "zip (take MAX_JOBS jobs) outcomes"
  let ?errors = "List.map_filter (\<lambda>(s, r). case r of Inl e \<Rightarrow> Some e | Inr d \<Rightarrow> None) ?read"
  obtain skipped where ttl: "ttl = snapshot_ttl (of_int (fc_cacheTtlMs cfg)) ?errors skipped"
    using assms(1) Inr by (auto simp: buildSnapshot_def Let_def)
  have errors: "e \<in> set ?errors \<longleftrightarrow> (\<exists>s. (s, Inl e) \<in> set ?read)" for e
    by (force simp: set_map_filter_iff split: sum.splits)
  have "pn_incomplete snap \<noteq> [] \<longrightarrow> ?errors \<noteq> []"
  proof
    assume "pn_incomplete snap \<noteq> []"
    then obtain i where "i \<in> set (pn_incomplete snap)" by (cases "pn_incomplete snap") auto
    then obtain s r where "(s, r) \<in> set ?read" "detail_of r = None" using incomplete_iff assms(1) Inr by blast
    then obtain e where "(s, Inl e) \<in> set ?read" by (cases r) (auto simp: detail_of_def)
    then show "?errors \<noteq> []" using errors [of e] by force
  qed
  then show ?thesis using assms(2) errors Inr unfolding ttl by (auto simp: snapshot_ttl_def split: if_splits)
qed

end
