(* ===== verification/Wiring.thy ===== *)
theory Wiring
  imports Kube FlinkAdapter
begin

text \<open>
  From the environment to the running application: \<open>domain-api/src/adapters/upstream/config.ts\<close> with the constructor of
  \<open>httpClient.ts\<close>, \<open>createSsoAdapterFromEnv\<close>, \<open>adapters/runtime.ts\<close> and \<open>wiring.ts\<close>. The parts that are built are
  their options; what fails is the message of the \<open>ConfigError\<close> that stops the start. The file system is an argument.
\<close>

section \<open>Upstream adapters\<close>

record host_files =
  hf_stat :: "string \<Rightarrow> file_stats option"
  hf_read :: "string \<Rightarrow> string option"
  hf_privateKey :: "string \<Rightarrow> bool"
  hf_readable :: "string \<Rightarrow> bool"

definition single_quoted :: "string \<Rightarrow> string" where
  "single_quoted s = CHR 0x27 # s @ [CHR 0x27]"

definition bool_env :: "env \<Rightarrow> string \<Rightarrow> (string, bool) res" where
  "bool_env env n = (case env n of
       None \<Rightarrow> Inr False
     | Some raw \<Rightarrow> if raw = [] then Inr False else if raw = ''true'' then Inr True else if raw = ''false'' then Inr False
         else Inl (n @ '' must be exactly '' @ single_quoted ''true'' @ '' or '' @ single_quoted ''false''))"

definition decimal :: "string \<Rightarrow> nat" where
  "decimal s = foldl (\<lambda>a c. 10 * a + (of_char c - 48)) 0 s"

definition int_env :: "env \<Rightarrow> string \<Rightarrow> nat \<Rightarrow> nat \<Rightarrow> (string, nat option) res" where
  "int_env env n lo hi = (case env n of
       None \<Rightarrow> Inr None
     | Some raw \<Rightarrow>
         if raw = [] then Inr None
         else if all_digits raw \<and> length raw \<le> 9 \<and> lo \<le> decimal raw \<and> decimal raw \<le> hi then Inr (Some (decimal raw))
         else Inl (n @ '' must be an integer between '' @ show_nat lo @ '' and '' @ show_nat hi))"

definition required_env :: "env \<Rightarrow> string \<Rightarrow> string \<Rightarrow> (string, string) res" where
  "required_env env n why = (case env n of
       None \<Rightarrow> Inl (n @ '' is required ('' @ why @ '')'')
     | Some v \<Rightarrow> if v = [] then Inl (n @ '' is required ('' @ why @ '')'') else Inr v)"

text \<open>The provider and the warnings that go into \<open>diagnostics\<close>.\<close>

definition tokenProviderFrom :: "host_files \<Rightarrow> env \<Rightarrow> string \<Rightarrow> (string, token_provider \<times> string list) res" where
  "tokenProviderFrom hf env pre =
     (let file_name = (case env (pre @ ''_TOKEN_FILE'') of None \<Rightarrow> [] | Some f \<Rightarrow> f);
        token = (case env (pre @ ''_TOKEN'') of None \<Rightarrow> [] | Some t \<Rightarrow> t)
      in if file_name \<noteq> [] then
           (case verifyTokenFile (hf_stat hf file_name) (hf_read hf file_name) of
              Inl e \<Rightarrow> Inl (pre @ ''_TOKEN_FILE '' @ e)
            | Inr warnings \<Rightarrow> Inr (FileToken file_name, map (\<lambda>w. ''warning: '' @ pre @ ''_TOKEN_FILE '' @ w) warnings))
         else if token = [] then Inl (pre @ ''_TOKEN_FILE or '' @ pre @ ''_TOKEN is required'')
         else if normalizeToken (Some token) = None then Inl (pre @ ''_TOKEN is not a valid bearer token (value not shown)'')
         else Inr (staticTokenProvider (Some token), []))"

definition parse_mapping :: "string \<Rightarrow> string \<times> string" where
  "parse_mapping entry = (case split_on (CHR ''='') entry of
       n # w # ws \<Rightarrow> (js_trim n, js_trim w) | _ \<Rightarrow> (js_trim entry, js_trim entry))"

definition parseWarehouses :: "string option \<Rightarrow> (string \<times> string) list" where
  "parseWarehouses raw =
     filter (\<lambda>(n, w). n \<noteq> [] \<and> w \<noteq> []) (map parse_mapping (filter (\<lambda>e. e \<noteq> [])
       (map js_trim (split_on (CHR '','') (case raw of None \<Rightarrow> [] | Some r \<Rightarrow> r)))))"

definition LOOPBACK :: "string list" where "LOOPBACK = [''localhost'', ''127.0.0.1'', ''[::1]'']"
definition DEFAULT_UPSTREAM_TIMEOUT_MS :: nat where "DEFAULT_UPSTREAM_TIMEOUT_MS = 2500"
definition DEFAULT_UPSTREAM_CONCURRENT :: nat where "DEFAULT_UPSTREAM_CONCURRENT = 8"

record upstream_common =
  uo_allowInsecureBearer :: bool
  uo_timeoutMs :: "nat option"
  uo_maxConcurrent :: "nat option"

record upstream_client =
  uc_upstream :: string
  uc_base :: full_url
  uc_token :: token_provider
  uc_headers :: "(string \<times> string) list"
  uc_timeoutMs :: nat
  uc_maxConcurrent :: nat

text \<open>\<open>makeClient\<close> and the constructor of \<open>UpstreamHttpClient\<close>, which here always has a token provider.\<close>

definition makeClient ::
  "platform \<Rightarrow> string \<Rightarrow> string \<Rightarrow> token_provider \<Rightarrow> upstream_common \<Rightarrow> (string \<times> string) list \<Rightarrow> (string, upstream_client) res" where
  "makeClient pf upstream baseUrl provider common headers = (case new_URL pf baseUrl of
       None \<Rightarrow> Inl (upstream @ '' adapter: base URL is not a valid http(s) URL'')
     | Some u \<Rightarrow>
         if protocol u \<noteq> ''http:'' \<and> protocol u \<noteq> ''https:''
         then Inl (upstream @ '' adapter: Upstream '' @ single_quoted upstream @ '' base URL must be http(s)'')
         else if protocol u = ''http:'' \<and> hostname u \<notin> set LOOPBACK \<and> \<not> uo_allowInsecureBearer common
         then Inl (upstream @ '' adapter: Upstream '' @ single_quoted upstream
           @ '': refusing to send a bearer token over plain http (set allowInsecureBearer explicitly)'')
         else Inr \<lparr>uc_upstream = upstream, uc_base = u, uc_token = provider, uc_headers = headers,
           uc_timeoutMs = (case uo_timeoutMs common of Some t \<Rightarrow> t | None \<Rightarrow> DEFAULT_UPSTREAM_TIMEOUT_MS),
           uc_maxConcurrent = max 1 (case uo_maxConcurrent common of Some m \<Rightarrow> m | None \<Rightarrow> DEFAULT_UPSTREAM_CONCURRENT)\<rparr>)"

definition TRINO_HISTORY_ACK_VALUE :: string where "TRINO_HISTORY_ACK_VALUE = ''shared-service-credential''"

record trino_wiring =
  tw_client :: upstream_client
  tw_redactSql :: bool
  tw_cacheTtlMs :: "nat option"
  tw_negativeCacheTtlMs :: "nat option"

record lakekeeper_wiring =
  kw_client :: upstream_client
  kw_catalogs :: "(string \<times> string) list"
  kw_cacheTtlMs :: "nat option"
  kw_negativeCacheTtlMs :: "nat option"

record upstream_wiring =
  uw_trino :: "trino_wiring option"
  uw_lakekeeper :: "lakekeeper_wiring option"
  uw_diagnostics :: "string list"

definition header_text :: "string \<Rightarrow> bool" where
  "header_text s \<longleftrightarrow> list_all (\<lambda>c. 0x21 \<le> (of_char c :: nat) \<and> (of_char c :: nat) \<le> 0x7E) s"

definition check :: "bool \<Rightarrow> string \<Rightarrow> (string, unit) res" where
  "check b e = (if b then Inr () else Inl e)"

definition load_trino :: "platform \<Rightarrow> host_files \<Rightarrow> env \<Rightarrow> upstream_common \<Rightarrow> nat option \<Rightarrow> (string, trino_wiring \<times> string list) res" where
  "load_trino pf hf env common negative =
     res_bind (required_env env ''BELUGA_TRINO_BASE_URL'' ''Trino coordinator origin'') (\<lambda>baseUrl.
     res_bind (tokenProviderFrom hf env ''BELUGA_TRINO'') (\<lambda>(provider, notes).
     res_bind (check (env ''BELUGA_TRINO_HISTORY_ACK'' = Some TRINO_HISTORY_ACK_VALUE)
       (''BELUGA_TRINO_HISTORY_ACK='' @ TRINO_HISTORY_ACK_VALUE @ '' is required: query history is shared by all callers (no per-caller authz)'')) (\<lambda>_.
     let mode = (case env ''BELUGA_TRINO_HISTORY_SQL'' of Some m \<Rightarrow> m | None \<Rightarrow> ''literals'');
       user = (case env ''BELUGA_TRINO_USER'' of Some u \<Rightarrow> u | None \<Rightarrow> []) in
     res_bind (check (mode = ''literals'' \<or> mode = ''none'')
       (''BELUGA_TRINO_HISTORY_SQL must be '' @ single_quoted ''literals'' @ '' or '' @ single_quoted ''none'')) (\<lambda>_.
     res_bind (int_env env ''BELUGA_TRINO_HISTORY_CACHE_TTL_MS'' 0 600000) (\<lambda>ttl.
     res_bind (check (header_text user) ''BELUGA_TRINO_USER contains characters not allowed in a header'') (\<lambda>_.
     res_bind (makeClient pf ''trino'' baseUrl provider common (if user = [] then [] else [(''X-Trino-User'', user)])) (\<lambda>client.
     Inr (\<lparr>tw_client = client, tw_redactSql = (mode = ''literals''), tw_cacheTtlMs = ttl, tw_negativeCacheTtlMs = negative\<rparr>,
       notes @ [''Trino query history adapter enabled (read-only)'']))))))))"

text \<open>\<open>/^(\/[A-Za-z0-9_.~-]+)+$/\<close>\<close>

definition base_path :: "string \<Rightarrow> bool" where
  "base_path s = (case s of
       c # cs \<Rightarrow> c = CHR ''/'' \<and> list_all (\<lambda>seg. seg \<noteq> [] \<and> list_all (\<lambda>x. is_alpha x \<or> is_digit x \<or> x \<in> set ''_.~-'') seg) (split_on (CHR ''/'') cs)
     | [] \<Rightarrow> False)"

definition load_lakekeeper ::
  "platform \<Rightarrow> host_files \<Rightarrow> env \<Rightarrow> upstream_common \<Rightarrow> nat option \<Rightarrow> (string, lakekeeper_wiring \<times> string list) res" where
  "load_lakekeeper pf hf env common negative =
     res_bind (required_env env ''BELUGA_LAKEKEEPER_BASE_URL'' ''Lakekeeper origin'') (\<lambda>baseUrl.
     res_bind (tokenProviderFrom hf env ''BELUGA_LAKEKEEPER'') (\<lambda>(provider, notes).
     let catalogs = parseWarehouses (env ''BELUGA_LAKEKEEPER_WAREHOUSES'');
       path = Upstream.strip_slashes (case env ''BELUGA_LAKEKEEPER_BASE_PATH'' of Some p \<Rightarrow> p | None \<Rightarrow> ''/catalog'') in
     res_bind (check (catalogs \<noteq> []) ''BELUGA_LAKEKEEPER_WAREHOUSES must list at least one `warehouse` or `catalog=warehouse`'') (\<lambda>_.
     res_bind (check (base_path path) ''BELUGA_LAKEKEEPER_BASE_PATH must be an absolute path such as /catalog'') (\<lambda>_.
     res_bind (int_env env ''BELUGA_LAKEKEEPER_CACHE_TTL_MS'' 0 600000) (\<lambda>ttl.
     res_bind (makeClient pf ''lakekeeper'' (Upstream.strip_slashes baseUrl @ path) provider common []) (\<lambda>client.
     Inr (\<lparr>kw_client = client, kw_catalogs = catalogs, kw_cacheTtlMs = ttl, kw_negativeCacheTtlMs = negative\<rparr>,
       notes @ [''Lakekeeper catalog source enabled (read-only; node-level authorization NOT enforced)''])))))))"

definition when_enabled :: "bool \<Rightarrow> (string, 'a \<times> string list) res \<Rightarrow> (string, 'a option \<times> string list) res" where
  "when_enabled b r = (if b then res_bind r (\<lambda>(x, notes). Inr (Some x, notes)) else Inr (None, []))"

definition loadUpstreamWiring :: "platform \<Rightarrow> host_files \<Rightarrow> env \<Rightarrow> (string, upstream_wiring) res" where
  "loadUpstreamWiring pf hf env =
     res_bind (bool_env env ''BELUGA_TRINO_ENABLED'') (\<lambda>trino.
     res_bind (bool_env env ''BELUGA_LAKEKEEPER_ENABLED'') (\<lambda>lakekeeper.
     if \<not> trino \<and> \<not> lakekeeper then Inr \<lparr>uw_trino = None, uw_lakekeeper = None, uw_diagnostics = []\<rparr>
     else
       res_bind (int_env env ''BELUGA_UPSTREAM_TIMEOUT_MS'' 1 30000) (\<lambda>timeout.
       res_bind (int_env env ''BELUGA_UPSTREAM_MAX_CONCURRENT'' 1 32) (\<lambda>conc.
       res_bind (int_env env ''BELUGA_UPSTREAM_NEGATIVE_CACHE_TTL_MS'' 0 600000) (\<lambda>negative.
       res_bind (bool_env env ''BELUGA_UPSTREAM_ALLOW_INSECURE_BEARER'') (\<lambda>insecure.
       let common = \<lparr>uo_allowInsecureBearer = insecure, uo_timeoutMs = timeout, uo_maxConcurrent = conc\<rparr> in
       res_bind (when_enabled trino (load_trino pf hf env common negative)) (\<lambda>(t, tn).
       res_bind (when_enabled lakekeeper (load_lakekeeper pf hf env common negative)) (\<lambda>(l, ln).
       Inr \<lparr>uw_trino = t, uw_lakekeeper = l, uw_diagnostics = tn @ ln\<rparr>))))))))"

section \<open>The SSO source\<close>

datatype sso_wiring = GithubWired string | FileWired adapter_config

definition createSsoAdapterFromEnv :: "platform \<Rightarrow> env \<Rightarrow> string option \<Rightarrow> (string, sso_wiring) res" where
  "createSsoAdapterFromEnv pf env default_file =
     (let raw = setting env ''SSO_SOURCE''; source = (if raw = [] then if is_production env then None else Some ''file'' else Some raw) in
      case source of
        None \<Rightarrow> Inl (''SSO_SOURCE must be set to '' @ single_quoted ''github'' @ '' or '' @ single_quoted ''file'' @ '' when NODE_ENV=production'')
      | Some s \<Rightarrow>
          if s = ''github'' then res_bind (resolveBaseDomain pf env) (\<lambda>domain. Inr (GithubWired domain))
          else if s = ''file''
          then Inr (FileWired ((loadSsoAdapterConfig env default_file)
            \<lparr>ac_baseDomain := Some (if setting env ''BASE_DOMAIN'' = [] then DEFAULT_BASE_DOMAIN else setting env ''BASE_DOMAIN'')\<rparr>))
          else Inl (''SSO_SOURCE must be '' @ single_quoted ''github'' @ '' or '' @ single_quoted ''file''))"

section \<open>The registry and its adapters\<close>

datatype wired_adapter = StubWired service | FlinkWired flink_config | WorkloadWired service kube_config string

definition wired_identity :: "wired_adapter \<Rightarrow> adapter" where
  "wired_identity w = (case w of
       StubWired s \<Rightarrow> stub_adapter s
     | FlinkWired c \<Rightarrow> \<lparr>ad_id = FLINK_SERVICE_ID, ad_name = ''Flink'', ad_type = FlinkService, ad_contractVersion = 1\<rparr>
     | WorkloadWired s c d \<Rightarrow> stub_adapter s)"

record runtime =
  rt_adapters :: "wired_adapter list"
  rt_flink :: "flink_config option"
  rt_events :: "kube_config option"
  rt_fixtures :: string

definition wire_service :: "platform \<Rightarrow> env \<Rightarrow> flink_config option \<Rightarrow> kube_config option \<Rightarrow> service \<Rightarrow> (string, wired_adapter) res" where
  "wire_service pf env flink kube s =
     (if sv_id s = FLINK_SERVICE_ID then Inr (case flink of Some c \<Rightarrow> FlinkWired c | None \<Rightarrow> StubWired s)
      else (case kube of
          Some c \<Rightarrow> res_bind (resolveBaseDomain pf env) (\<lambda>domain. Inr (WorkloadWired s c domain))
        | None \<Rightarrow> Inr (StubWired s)))"

text \<open>The fixtures have distinct ids, so the registration cannot fail; \<open>new_registry\<close> on the identities gives the registry.\<close>

definition createRuntime :: "platform \<Rightarrow> env \<Rightarrow> service list \<Rightarrow> (string, runtime) res" where
  "createRuntime pf env services =
     res_bind (loadFlinkAdapterConfig pf env) (\<lambda>flink.
     res_bind (loadKubeApiConfig pf env) (\<lambda>kube.
     res_bind (res_map_list (wire_service pf env flink kube) services) (\<lambda>adapters.
     Inr \<lparr>rt_adapters = adapters, rt_flink = flink, rt_events = kube,
       rt_fixtures = (if kube \<noteq> None \<or> flink \<noteq> None then ''partial'' else ''stub'')\<rparr>)))"

section \<open>The application\<close>

record wired_app =
  wa_auth :: auth_config
  wa_runtime :: runtime
  wa_upstream :: upstream_wiring
  wa_sso :: sso_wiring
  wa_store :: "audit_db option"
  wa_gitWriter :: "github_app_config option"
  wa_argocdReader :: "kube_config option"
  wa_writeEnabled :: bool
  wa_reconciler :: "(string \<times> int) option"
  wa_diagnostics :: "string list"

definition createGitWriter :: "host_files \<Rightarrow> env \<Rightarrow> github_app_config option \<times> string list" where
  "createGitWriter hf env = (case loadGithubAppConfig env of
       None \<Rightarrow> (None, [''GitHub App writer not configured (GITHUB_APP_ID / GITHUB_APP_INSTALLATION_ID / GITHUB_APP_PRIVATE_KEY_FILE)''])
     | Some c \<Rightarrow>
         if hf_privateKey hf (ga_privateKeyFile c) then (Some c, [])
         else (None, [''GitHub App writer not configured (private key file is missing, unreadable or not a private key)'']))"

definition createArgocdReader :: "platform \<Rightarrow> host_files \<Rightarrow> env \<Rightarrow> (string, kube_config option \<times> string list) res" where
  "createArgocdReader pf hf env = res_bind (loadKubeApiConfig pf env) (\<lambda>kube. Inr (case kube of
       None \<Rightarrow> (None, [''ArgoCD reader not configured (KUBE_API_URL / KUBE_API_TOKEN_FILE / KUBE_API_CA_FILE)''])
     | Some c \<Rightarrow>
         if hf_readable hf (kc_tokenFile c) \<and> hf_readable hf (kc_caFile c) then (Some c, [])
         else (None, [''ArgoCD reader not configured (service account token or CA file is not readable)''])))"

definition createAppFromEnv :: "platform \<Rightarrow> host_files \<Rightarrow> env \<Rightarrow> string option \<Rightarrow> service list \<Rightarrow> (string, wired_app) res" where
  "createAppFromEnv pf hf env default_file services =
     res_bind (loadAuditDbConfig pf env) (\<lambda>auditDb.
     res_bind (loadSsoWriteEnabled env) (\<lambda>writeEnabled.
     res_bind (loadReconcileIntervalMs pf env) (\<lambda>interval.
     res_bind (loadKubeApiConfig pf env) (\<lambda>_.
     res_bind (createRuntime pf env services) (\<lambda>rt.
     res_bind (loadUpstreamWiring pf hf env) (\<lambda>upstream.
     res_bind (createSsoAdapterFromEnv pf env default_file) (\<lambda>sso.
     res_bind (loadAuthConfig pf env) (\<lambda>auth.
     let gitWriter = createGitWriter hf env in
     res_bind (createArgocdReader pf hf env) (\<lambda>argocd.
     res_bind (if auditDb \<noteq> None \<and> fst gitWriter \<noteq> None then res_bind (resolveBaseDomain pf env) (\<lambda>d. Inr (Some (d, interval))) else Inr None) (\<lambda>reconciler.
     Inr \<lparr>wa_auth = auth, wa_runtime = rt, wa_upstream = upstream, wa_sso = sso, wa_store = auditDb, wa_gitWriter = fst gitWriter,
       wa_argocdReader = fst argocd, wa_writeEnabled = writeEnabled, wa_reconciler = reconciler,
       wa_diagnostics = uw_diagnostics upstream @ snd gitWriter @ snd argocd\<rparr>))))))))))"

section \<open>What a start that succeeds has checked\<close>

lemma res_bindE: "res_bind r f = Inr b \<Longrightarrow> (\<And>a. r = Inr a \<Longrightarrow> f a = Inr b \<Longrightarrow> thesis) \<Longrightarrow> thesis"
  by (cases r) auto

lemma check_Inr: "check b e = Inr u \<longleftrightarrow> b"
  by (simp add: check_def)

text \<open>A bearer token goes over https, to the host itself, or over plain http because the operator said so.\<close>

definition bearer_allowed :: "env \<Rightarrow> upstream_client \<Rightarrow> bool" where
  "bearer_allowed env c \<longleftrightarrow> protocol (uc_base c) = ''https:''
     \<or> protocol (uc_base c) = ''http:'' \<and> (hostname (uc_base c) \<in> set LOOPBACK \<or> env ''BELUGA_UPSTREAM_ALLOW_INSECURE_BEARER'' = Some ''true'')"

lemma makeClient_Inr:
  "makeClient pf upstream baseUrl provider common headers = Inr c \<Longrightarrow> uc_token c = provider
     \<and> (protocol (uc_base c) = ''https:'' \<or> protocol (uc_base c) = ''http:''
        \<and> (hostname (uc_base c) \<in> set LOOPBACK \<or> uo_allowInsecureBearer common))"
  by (auto simp: makeClient_def split: option.splits if_splits)

lemma bool_env_True: "bool_env env n = Inr True \<longleftrightarrow> env n = Some ''true''"
  by (auto simp: bool_env_def split: option.splits)

lemma load_trino_Inr:
  assumes "load_trino pf hf env common negative = Inr (t, notes)"
    and "bool_env env ''BELUGA_UPSTREAM_ALLOW_INSECURE_BEARER'' = Inr (uo_allowInsecureBearer common)"
  shows "bearer_allowed env (tw_client t) \<and> env ''BELUGA_TRINO_HISTORY_ACK'' = Some TRINO_HISTORY_ACK_VALUE
    \<and> (tw_redactSql t \<or> env ''BELUGA_TRINO_HISTORY_SQL'' = Some ''none'')"
proof -
  obtain baseUrl provider headers where client: "makeClient pf ''trino'' baseUrl provider common headers = Inr (tw_client t)"
    and rest: "env ''BELUGA_TRINO_HISTORY_ACK'' = Some TRINO_HISTORY_ACK_VALUE" "tw_redactSql t \<or> env ''BELUGA_TRINO_HISTORY_SQL'' = Some ''none''"
    using assms(1) by (auto simp: load_trino_def Let_def res_bind_Inr_iff check_Inr split: option.splits)
  then show ?thesis
    using makeClient_Inr [OF client] assms(2) bool_env_True [of env "''BELUGA_UPSTREAM_ALLOW_INSECURE_BEARER''"] by (auto simp: bearer_allowed_def)
qed

lemma load_lakekeeper_Inr:
  assumes "load_lakekeeper pf hf env common negative = Inr (l, notes)"
    and "bool_env env ''BELUGA_UPSTREAM_ALLOW_INSECURE_BEARER'' = Inr (uo_allowInsecureBearer common)"
  shows "bearer_allowed env (kw_client l) \<and> kw_catalogs l \<noteq> []"
proof -
  obtain baseUrl provider headers where client: "makeClient pf ''lakekeeper'' baseUrl provider common headers = Inr (kw_client l)"
    and rest: "kw_catalogs l \<noteq> []"
    using assms(1) by (auto simp: load_lakekeeper_def Let_def res_bind_Inr_iff check_Inr)
  then show ?thesis
    using makeClient_Inr [OF client] assms(2) bool_env_True [of env "''BELUGA_UPSTREAM_ALLOW_INSECURE_BEARER''"] by (auto simp: bearer_allowed_def)
qed

lemma when_enabled_Inr: "when_enabled b r = Inr (x, notes) \<Longrightarrow> (x = None \<longleftrightarrow> \<not> b) \<and> (\<forall>y. x = Some y \<longrightarrow> r = Inr (y, notes))"
  by (cases r) (auto simp: when_enabled_def split: if_splits)

lemma loadUpstreamWiring_Inr:
  assumes "loadUpstreamWiring pf hf env = Inr u"
  shows "(uw_trino u \<noteq> None \<longleftrightarrow> env ''BELUGA_TRINO_ENABLED'' = Some ''true'')
    \<and> (uw_lakekeeper u \<noteq> None \<longleftrightarrow> env ''BELUGA_LAKEKEEPER_ENABLED'' = Some ''true'')
    \<and> (\<forall>t. uw_trino u = Some t \<longrightarrow> bearer_allowed env (tw_client t) \<and> env ''BELUGA_TRINO_HISTORY_ACK'' = Some TRINO_HISTORY_ACK_VALUE
        \<and> (tw_redactSql t \<or> env ''BELUGA_TRINO_HISTORY_SQL'' = Some ''none''))
    \<and> (\<forall>l. uw_lakekeeper u = Some l \<longrightarrow> bearer_allowed env (kw_client l) \<and> kw_catalogs l \<noteq> [])"
proof -
  obtain trino lakekeeper where flags: "bool_env env ''BELUGA_TRINO_ENABLED'' = Inr trino" "bool_env env ''BELUGA_LAKEKEEPER_ENABLED'' = Inr lakekeeper"
    using assms by (auto simp: loadUpstreamWiring_def res_bind_Inr_iff)
  then have on: "trino \<longleftrightarrow> env ''BELUGA_TRINO_ENABLED'' = Some ''true''" "lakekeeper \<longleftrightarrow> env ''BELUGA_LAKEKEEPER_ENABLED'' = Some ''true''"
    using bool_env_True [of env "''BELUGA_TRINO_ENABLED''"] bool_env_True [of env "''BELUGA_LAKEKEEPER_ENABLED''"] by auto
  show ?thesis
  proof (cases "trino \<or> lakekeeper")
    case False
    then have "u = \<lparr>uw_trino = None, uw_lakekeeper = None, uw_diagnostics = []\<rparr>"
      using assms flags by (auto simp: loadUpstreamWiring_def)
    then show ?thesis using False on by simp
  next
    case True
    then obtain timeout conc negative b tn ln where
      b: "bool_env env ''BELUGA_UPSTREAM_ALLOW_INSECURE_BEARER'' = Inr b"
      and t: "when_enabled trino (load_trino pf hf env \<lparr>uo_allowInsecureBearer = b, uo_timeoutMs = timeout, uo_maxConcurrent = conc\<rparr> negative) =
        Inr (uw_trino u, tn)"
      and l: "when_enabled lakekeeper (load_lakekeeper pf hf env \<lparr>uo_allowInsecureBearer = b, uo_timeoutMs = timeout, uo_maxConcurrent = conc\<rparr> negative) =
        Inr (uw_lakekeeper u, ln)"
      using assms flags by (auto simp: loadUpstreamWiring_def Let_def res_bind_Inr_iff)
    let ?common = "\<lparr>uo_allowInsecureBearer = b, uo_timeoutMs = timeout, uo_maxConcurrent = conc\<rparr>"
    have insecure: "bool_env env ''BELUGA_UPSTREAM_ALLOW_INSECURE_BEARER'' = Inr (uo_allowInsecureBearer ?common)" using b by simp
    show ?thesis
      using when_enabled_Inr [OF t] when_enabled_Inr [OF l] on load_trino_Inr [OF _ insecure, of pf hf negative]
        load_lakekeeper_Inr [OF _ insecure, of pf hf negative]
      by auto
  qed
qed

lemma resolveBaseDomain_production:
  "resolveBaseDomain pf env = Inr d \<Longrightarrow> is_production env \<Longrightarrow>
     d = setting env ''BASE_DOMAIN'' \<and> d \<noteq> [] \<or> baseDomainFromIssuer pf (setting env ''OIDC_ISSUER'') = Inr d"
  by (auto simp: resolveBaseDomain_def Let_def split: if_splits)

lemma createSsoAdapterFromEnv_production:
  assumes "createSsoAdapterFromEnv pf env default_file = Inr s" and "is_production env"
  shows "(setting env ''SSO_SOURCE'' = ''github'' \<and> (\<exists>d. s = GithubWired d \<and> resolveBaseDomain pf env = Inr d))
    \<or> (setting env ''SSO_SOURCE'' = ''file'' \<and> (\<exists>c. s = FileWired c
         \<and> ac_filePath c = (if setting env ''SSO_CONFIG_FILE'' = [] then None else Some (setting env ''SSO_CONFIG_FILE''))))"
proof (cases "setting env ''SSO_SOURCE'' = ''github''")
  case True
  then show ?thesis using assms(1) by (cases "resolveBaseDomain pf env") (simp_all add: createSsoAdapterFromEnv_def)
next
  case False
  then have source: "setting env ''SSO_SOURCE'' = ''file''"
    using assms by (cases "setting env ''SSO_SOURCE'' = []") (simp_all add: createSsoAdapterFromEnv_def split: if_splits)
  then show ?thesis using assms by (simp add: createSsoAdapterFromEnv_def loadSsoAdapterConfig_def) (erule subst, simp)
qed

text \<open>The parts of an application are what the loaders gave.\<close>

lemma createAppFromEnv_parts:
  assumes "createAppFromEnv pf hf env default_file services = Inr w"
  shows "loadAuthConfig pf env = Inr (wa_auth w)" "loadUpstreamWiring pf hf env = Inr (wa_upstream w)"
    "createSsoAdapterFromEnv pf env default_file = Inr (wa_sso w)" "loadAuditDbConfig pf env = Inr (wa_store w)"
    "wa_gitWriter w = fst (createGitWriter hf env)" "createRuntime pf env services = Inr (wa_runtime w)"
    "wa_reconciler w \<noteq> None \<longleftrightarrow> wa_store w \<noteq> None \<and> wa_gitWriter w \<noteq> None"
    "\<And>d n. wa_reconciler w = Some (d, n) \<Longrightarrow> resolveBaseDomain pf env = Inr d \<and> loadReconcileIntervalMs pf env = Inr n"
proof -
  obtain auditDb writeEnabled interval kube rt upstream sso auth argocd reconciler where
    parts: "loadAuditDbConfig pf env = Inr auditDb" "loadReconcileIntervalMs pf env = Inr interval" "createRuntime pf env services = Inr rt"
      "loadUpstreamWiring pf hf env = Inr upstream" "createSsoAdapterFromEnv pf env default_file = Inr sso" "loadAuthConfig pf env = Inr auth"
    and reconciler: "(if auditDb \<noteq> None \<and> fst (createGitWriter hf env) \<noteq> None
        then res_bind (resolveBaseDomain pf env) (\<lambda>d. Inr (Some (d, interval))) else Inr None) = Inr reconciler"
    and w: "Inr \<lparr>wa_auth = auth, wa_runtime = rt, wa_upstream = upstream, wa_sso = sso, wa_store = auditDb,
       wa_gitWriter = fst (createGitWriter hf env), wa_argocdReader = fst argocd, wa_writeEnabled = writeEnabled, wa_reconciler = reconciler,
       wa_diagnostics = uw_diagnostics upstream @ snd (createGitWriter hf env) @ snd argocd\<rparr> = (Inr w :: (string, wired_app) res)"
    using assms unfolding createAppFromEnv_def Let_def by (elim res_bindE) (rule that; assumption)
  note w = w [THEN sum.inject(2) [THEN iffD1], symmetric]
  show "loadAuthConfig pf env = Inr (wa_auth w)" "loadUpstreamWiring pf hf env = Inr (wa_upstream w)"
    "createSsoAdapterFromEnv pf env default_file = Inr (wa_sso w)" "loadAuditDbConfig pf env = Inr (wa_store w)"
    "wa_gitWriter w = fst (createGitWriter hf env)" "createRuntime pf env services = Inr (wa_runtime w)"
    unfolding w by (simp_all add: parts)
  show "wa_reconciler w \<noteq> None \<longleftrightarrow> wa_store w \<noteq> None \<and> wa_gitWriter w \<noteq> None"
    using reconciler unfolding w by (cases "resolveBaseDomain pf env") (auto split: if_splits)
  show "resolveBaseDomain pf env = Inr d \<and> loadReconcileIntervalMs pf env = Inr n" if "wa_reconciler w = Some (d, n)" for d n
    using reconciler that parts(2) unfolding w by (cases "resolveBaseDomain pf env") (auto split: if_splits)
qed

end
