(* ===== verification/ServerProperties.thy ===== *)
theory ServerProperties
  imports Auth SsoSample Decision Routes Wiring
begin

text \<open>
  The properties of the API server: who gets through to the routes, what a list of services can cost, what a query
  context may say, what a caller of the decision layer gets, what health is reported, what a start has checked.
\<close>

section \<open>Authentication\<close>

text \<open>C13. Without a valid token of an admin nothing happens: if serving a change-request route changed a request, called
  GitHub, or ended with anything but 401, 403 or 503, then OIDC is configured and the header carried a bearer token that
  \<open>jose\<close> verified with RS256 for the issuer and the audience, of type \<open>Bearer\<close>, whose \<open>groups\<close> claim lists the
  top-level group \<open>admins\<close>.\<close>

theorem admin_token_required:
  assumes "prog_pair_step\<^sup>*\<^sup>* (serve_sso_change jwtVerify auth x dp deniedAt h method path req, w) (q, w')"
    and "requests (w_db w') \<noteq> requests (w_db w) \<or> w_answers w' \<noteq> w_answers w
      \<or> (\<exists>reply m. q = Ret (reply, m) \<and> (\<forall>st code msg. reply = Failure st code msg \<longrightarrow> st \<notin> {401, 403, 503}))"
  shows "\<exists>iss aud uri value token payload items.
      auth = Oidc iss aud uri \<and> h = Some value \<and> BEARER value = Some token
      \<and> jwtVerify \<lparr>jo_algorithms = [''RS256''], jo_issuer = iss, jo_audience = aud, jo_clockTolerance = 30,
          jo_requiredClaims = [''exp'', ''sub'']\<rparr> token = Inr payload
      \<and> json_field payload ''typ'' = Some (JStr ''Bearer'') \<and> json_field payload ''groups'' = Some (JArr items)
      \<and> (JStr ''admins'' \<in> set items \<or> JStr ''/admins'' \<in> set items)"
proof (cases "app_gate jwtVerify auth path h")
  case (Refuse u r)
  then have "serve_sso_change jwtVerify auth x dp deniedAt h method path req = Ret (r, deniedAt)"
    by (simp add: serve_sso_change_def)
  then have "q = Ret (r, deniedAt)" "w' = w" using ret_steps [of "(r, deniedAt)" w "(q, w')"] assms(1) by auto
  then show ?thesis using assms(2) app_gate_refusal [OF Refuse] by auto
next
  case (Pass p)
  then have steps: "prog_pair_step\<^sup>*\<^sup>* (registerSsoChangeRoutes x dp deniedAt p method path req, w) (q, w')"
    using assms(1) by (simp add: serve_sso_change_def)
  have "\<exists>pr. p = Some pr \<and> ''admins'' \<in> set (p_groups pr)"
  proof (rule ccontr)
    assume "\<not> ?thesis"
    then have "p = Some pr \<Longrightarrow> ''admins'' \<notin> set (p_groups pr)" for pr by blast
    from denied_steps [OF steps denied_start [OF this]] show False
      using assms(2) by (auto simp: denied_config_def denied_stage_def is_refusal_def)
  qed
  then obtain pr where pr: "p = Some pr" "''admins'' \<in> set (p_groups pr)" by blast
  then obtain payload where "verified_bearer jwtVerify auth h payload" "pr = toPrincipal payload"
    using app_gate_principal [of jwtVerify auth path h pr] Pass by auto
  moreover then have "''admins'' \<in> set (normalizeGroups (json_field payload ''groups''))" using pr(2) by (simp add: toPrincipal_def)
  ultimately show ?thesis
    unfolding verified_bearer_def oidc_options_def CLOCK_TOLERANCE_S_def
    using normalizeGroups_iff [of "''admins''" "json_field payload ''groups''"] by auto
qed

definition sample_claims :: json where
  "sample_claims = JObj [(''typ'', JStr ''Bearer''), (''sub'', JStr ''alice-sub''), (''preferred_username'', JStr ''alice''),
     (''groups'', JArr [JStr ''/admins''])]"

definition sample_served :: "(reply \<times> denied) prog" where
  "sample_served = serve_sso_change (\<lambda>opt token. Inr sample_claims) (Oidc ''iss'' ''aud'' ''keys'') sample_ext sample_deps []
     (Some ''Bearer abc'') ''POST'' ''/api/v1/sso/change-requests'' (Post None (Some sample_key) sample_body)"

lemma sample_served_submit: "sample_served = sample_submit"
proof -
  have "app_gate (\<lambda>opt token. Inr sample_claims) (Oidc ''iss'' ''aud'' ''keys'') ''/api/v1/sso/change-requests'' (Some ''Bearer abc'') =
      Pass (Some sample_admin)"
    by code_simp
  then show ?thesis by (simp add: sample_served_def serve_sso_change_def sample_submit_def)
qed

theorem admin_token_required_witness:
  "requests (w_db sample_world) \<noteq> requests (w_db empty_world)
    \<and> (\<exists>token items. BEARER ''Bearer abc'' = Some token \<and> json_field sample_claims ''groups'' = Some (JArr items)
        \<and> (JStr ''admins'' \<in> set items \<or> JStr ''/admins'' \<in> set items))"
proof -
  have "((advance sample_outside) ^^ 4) (sample_submit, empty_world) =
      (with_denied [] (submit_write sample_admin sample_change (toRecord sample_row) sample_pr), sample_world)"
    by (simp add: numeral_eq_Suc sample_gates sample_lookup sample_read sample_submitted)
  then have "prog_pair_step\<^sup>*\<^sup>* (sample_served, empty_world)
      (with_denied [] (submit_write sample_admin sample_change (toRecord sample_row) sample_pr), sample_world)"
    using advances_steps [of "(sample_submit, empty_world)" 4 sample_outside] by (simp add: sample_served_submit)
  moreover have "requests (w_db sample_world) \<noteq> requests (w_db empty_world)"
    by (simp add: sample_world_def empty_world_def empty_db_def)
  ultimately show ?thesis
    using admin_token_required [of "\<lambda>opt token. Inr sample_claims" "Oidc ''iss'' ''aud'' ''keys''" sample_ext sample_deps "[]"
      "Some ''Bearer abc''" "''POST''" "''/api/v1/sso/change-requests''" "Post None (Some sample_key) sample_body"]
    unfolding sample_served_def by fastforce
qed

section \<open>The service registry\<close>

text \<open>C17. Whatever its adapters do, the registry lists all of them, in the order of registration, within the timeout. Each
  entry is what its own three reads answered when all of them answered in time, and the unknown service otherwise; no other
  adapter has an influence on it. The look-up by id gives the same entry, and the ids are distinct.\<close>

theorem registry_isolated:
  assumes "new_registry adapters timeoutMs = Inr g" "0 \<le> timeoutMs"
  shows "fst (listServices reads g ty) \<le> timeoutMs \<and> distinct (map sv_id (snd (listServices reads g ty)))
    \<and> map (\<lambda>s. (sv_id s, sv_name s, sv_type s)) (snd (listServices reads g ty)) =
        filter (\<lambda>(i, n, t). ty = None \<or> ty = Some t) (map (\<lambda>a. (ad_id a, ad_name a, ad_type a)) adapters)
    \<and> (\<forall>s \<in> set (snd (listServices reads g ty)). getService reads g (sv_id s) = Some s \<and> entry_of_reads timeoutMs reads s)"
proof -
  note g = new_registry_Inr [OF assms(1)]
  have keep: "filter P (map (\<lambda>a. (ad_id a, ad_name a, ad_type a)) adapters) = filter P (rg_entries g)" for P unfolding g(1) ..
  have ids: "map (\<lambda>s. (sv_id s, sv_name s, sv_type s)) (snd (listServices reads g ty)) =
      filter (\<lambda>(i, n, t). ty = None \<or> ty = Some t) (rg_entries g)"
    unfolding listServices_identities ..
  have distinct: "distinct (map fst (rg_entries g))" using g by (simp add: comp_def)
  then have "distinct (map fst (filter (\<lambda>(i, n, t). ty = None \<or> ty = Some t) (rg_entries g)))" by (rule List.distinct_map_filter)
  then have "distinct (map sv_id (snd (listServices reads g ty)))" unfolding ids [symmetric] by (simp add: comp_def)
  moreover have "fst (listServices reads g ty) \<le> timeoutMs" using listServices_time [of g reads ty] assms(2) g(2) by simp
  ultimately show ?thesis using ids keep listServices_entry [OF _ distinct] g(2) by auto
qed

definition sample_adapters :: "adapter list" where
  "sample_adapters =
     [\<lparr>ad_id = ''svc-kafka'', ad_name = ''Kafka'', ad_type = KafkaService, ad_contractVersion = 1\<rparr>,
      \<lparr>ad_id = ''svc-trino'', ad_name = ''Trino'', ad_type = TrinoService, ad_contractVersion = 1\<rparr>]"

definition sample_registry :: registry where
  "sample_registry = \<lparr>rg_entries = [(''svc-kafka'', ''Kafka'', KafkaService), (''svc-trino'', ''Trino'', TrinoService)], rg_timeoutMs = 3000\<rparr>"

text \<open>Kafka hangs, Trino answers within the timeout.\<close>

definition sample_reads :: reads where
  "sample_reads i = (if i = ''svc-kafka'' then (Hangs, Answers 5 None, Fails 9)
     else (Answers 20 no_metadata, Answers 30 (Some ''470''),
       Answers 2999 \<lparr>ah_status = Healthy, ah_lastCheckedAt = ''2026-07-11T05:00:00.000Z'', ah_staleAfterMs = 60000\<rparr>))"

theorem registry_isolated_witness:
  "map (\<lambda>s. (sv_id s, sv_name s, sv_type s)) (snd (listServices sample_reads sample_registry (Some TrinoService))) =
     [(''svc-trino'', ''Trino'', TrinoService)] \<and> fst (listServices sample_reads sample_registry None) \<le> 3000"
proof -
  have g: "new_registry sample_adapters 3000 = Inr sample_registry" by code_simp
  have "filter (\<lambda>(i, n, t). Some TrinoService = None \<or> Some TrinoService = Some t) (map (\<lambda>a. (ad_id a, ad_name a, ad_type a)) sample_adapters) =
      [(''svc-trino'', ''Trino'', TrinoService)]"
    by (simp add: sample_adapters_def)
  then show ?thesis
    using registry_isolated [OF g, of sample_reads "Some TrinoService"] registry_isolated [OF g, of sample_reads None] by simp
qed

section \<open>The query context\<close>

text \<open>C15. The SQL that a client is told to run is one query of one table of at most 20 rows, whatever the names in the
  catalog contain: its tokens are those of \<open>SELECT * FROM "c"."s"."t" LIMIT 20\<close>, the three names being single quoted
  identifiers that stand for the catalog, the schema and the table of the answer. An answer is given only for an asset that
  the catalog lists as a table.\<close>

theorem query_context_contained:
  assumes "query_context_route is_url found trino i = Ok200 q"
  shows "sql_lex None (qc_sampleSql q) = map Plain ''SELECT * FROM ''
        @ [Identifier (quote (qc_catalog q)), Plain (CHR ''.''), Identifier (quote (qc_schema q)), Plain (CHR ''.''),
           Identifier (quote (qc_table q))]
        @ map Plain '' LIMIT '' @ [Number ''20'']
    \<and> qc_catalog q \<noteq> [] \<and> qc_schema q \<noteq> [] \<and> qc_table q \<noteq> [] \<and> qc_rowLimit q = 20
    \<and> (\<exists>a. found = Inr (Some a) \<and> da_kind a = TableAsset \<and> da_id a = qc_assetId q \<and> asset_parts a = [qc_schema q, qc_table q])
    \<and> is_url (qc_trinoUiUrl q)"
proof (cases found)
  case (Inr r)
  then obtain a where a: "found = Inr (Some a)" using assms by (cases r) (auto simp: query_context_route_def not_found_reply_def)
  obtain sch table where parts: "asset_parts a = [sch, table]"
    using assms unfolding a query_context_route_def by (auto split: list.splits)
  show ?thesis
    using assms unfolding a query_context_route_def
    by (auto simp: parts sample_sql_lex SAMPLE_ROW_LIMIT_def unavailable_reply_def Let_def split: if_splits option.splits)
qed (use assms in \<open>simp add: query_context_route_def unavailable_reply_def\<close>)

text \<open>A table whose name contains the end of a quoted identifier and another statement.\<close>

definition sample_name :: string where
  "sample_name = ''t'' @ [CHR 0x22] @ ''; drop table x --''"

definition sample_table :: asset_detail where
  "sample_table = \<lparr>da_id = ''asset-1'', da_name = ''sales.'' @ sample_name, da_kind = TableAsset, da_serviceId = ''svc-lake'',
     da_status = Healthy, da_catalog = Some ''lake'', da_namespace = Some [''sales''], da_parentId = None, da_path = None,
     dd_columns = None, dd_location = None, dd_format = None, dd_childCount = None, dd_metadataSummary = None\<rparr>"

definition sample_trino :: service where
  "sample_trino = resolved (''svc-trino'', ''Trino'', TrinoService)
     (Some (no_metadata\<lparr>am_endpoint := Some ''http://trino''\<rparr>, None, \<lparr>ah_status = Healthy, ah_lastCheckedAt = [], ah_staleAfterMs = 0\<rparr>))"

definition sample_query :: query_context where
  "sample_query = \<lparr>qc_assetId = ''asset-1'', qc_catalog = ''lake'', qc_schema = ''sales'', qc_table = sample_name,
     qc_trinoServiceId = ''svc-trino'', qc_trinoUiUrl = ''http://trino'', qc_sampleSql = sample_sql ''lake'' ''sales'' sample_name, qc_rowLimit = 20\<rparr>"

theorem query_context_contained_witness:
  "length (filter (\<lambda>t. t = Identifier (quote sample_name)) (sql_lex None (qc_sampleSql sample_query))) = 1"
proof -
  have "query_context_route (\<lambda>_. True) (Inr (Some sample_table)) (Some sample_trino) ''asset-1'' = Ok200 sample_query"
    by code_simp
  from query_context_contained [OF this] show ?thesis
    by (simp add: sample_query_def sample_name_def quote_def replaceAll_char)
qed

section \<open>The decision layer\<close>

text \<open>The rule provider fails closed: whatever the telemetry, it answers a valid result, which is normal exactly when there
  are signals, every required one is among them and none is older than allowed; otherwise it is an abstention with a code.\<close>

lemma rule_provider_fail_closed:
  assumes "dc_now ctx \<noteq> None" "0 \<le> latency"
  shows "\<exists>r. decide required_names input ctx latency = Inr r \<and> result_ok r
    \<and> (dr_decision r = NORMAL \<longleftrightarrow> telemetry_ok required_names input ctx) \<and> (dr_abstained r \<longleftrightarrow> dr_decision r = ABSTAIN)
    \<and> (dr_decision r = NORMAL \<or> dr_decision r = ABSTAIN) \<and> (dr_abstained r \<longleftrightarrow> dr_abstainCode r \<noteq> None)"
  by (rule decide_cases [OF assms])

definition sample_context :: decision_context where
  "sample_context = \<lparr>dc_now = Some 100000, dc_maxAgeMs = 60000, dc_correlationId = ''c-1''\<rparr>"

lemma rule_provider_fail_closed_witness:
  "\<exists>r. decide [''lag''] \<lparr>ts_snapshotId = ''s-1'', ts_signals = [(''lag'', \<lparr>sg_value = NumberSignal 7, sg_observedAt = 39999\<rparr>)]\<rparr> sample_context 1 = Inr r
     \<and> dr_decision r = ABSTAIN"
proof -
  let ?input = "\<lparr>ts_snapshotId = ''s-1'', ts_signals = [(''lag'', \<lparr>sg_value = NumberSignal 7, sg_observedAt = 39999\<rparr>)]\<rparr>"
  have "\<not> telemetry_ok [''lag''] ?input sample_context" by (simp add: telemetry_ok_def is_stale_def sample_context_def)
  then show ?thesis using rule_provider_fail_closed [of sample_context 1 "[''lag'']" ?input] by (auto simp: sample_context_def)
qed

text \<open>C16. The bulkhead holds whatever its provider does (returns anything, throws, answers late or never): at most
  \<open>maxConcurrent\<close> provider calls are under way; every admitted call has exactly one answer or is still waiting for a
  provider that has not ended; every answer is a valid result that the provider returned for this very call, or an
  abstention. The clock is assumed not to fall behind the start of a call.\<close>

theorem bulkhead_isolates:
  assumes "(bulkhead_step True pv budget maxConcurrent)\<^sup>*\<^sup>* idle_bulkhead b"
  shows "finite (b_running b) \<and> card (b_running b) = b_active b \<and> b_active b \<le> maxConcurrent
    \<and> distinct (map fst (b_answers b)) \<and> b_waiting b \<subseteq> b_running b
    \<and> (\<forall>i \<in> fst ` set (b_calls b). i \<in> b_waiting b \<longleftrightarrow> i \<notin> fst ` set (b_answers b))
    \<and> (\<forall>x \<in> set (b_answers b). isolated (b_outcomes b) x)"
  using bulkhead_inv_steps [OF assms] unfolding bulkhead_inv_def by blast

definition sample_provider :: provider where
  "sample_provider = \<lparr>pv_id = Some ''rule-provider'', pv_version = None\<rparr>"

definition sample_shed :: "(string, decision_result) res" where
  "sample_shed = isolationAbstain sample_provider 100000 6 7 ISOLATION_OVERLOADED (Overloaded (pv_id sample_provider) 1)"

definition sample_bulkhead :: bulkhead where
  "sample_bulkhead = \<lparr>b_active = 1, b_calls = [(0, sample_context, 5)], b_running = {0}, b_waiting = {0}, b_outcomes = [],
     b_answers = [(1, sample_shed)]\<rparr>"

theorem bulkhead_isolates_witness:
  "b_active sample_bulkhead \<le> 1 \<and> isolated (b_outcomes sample_bulkhead) (1, sample_shed)"
proof -
  let ?step = "bulkhead_step True sample_provider DEFAULT_BUDGET_MS 1"
  let ?one = "idle_bulkhead\<lparr>b_active := 1, b_calls := [(0, sample_context, 5)], b_running := {0}, b_waiting := {0}\<rparr>"
  have "?step idle_bulkhead ?one"
    using bulkhead_step.admitted [of 0 idle_bulkhead 1 True sample_provider DEFAULT_BUDGET_MS sample_context 5]
    by (simp add: idle_bulkhead_def)
  moreover have "?step ?one sample_bulkhead"
    using bulkhead_step.shed [of 1 ?one 1 True 6 7 sample_shed sample_provider sample_context DEFAULT_BUDGET_MS]
    by (simp add: idle_bulkhead_def sample_bulkhead_def sample_shed_def sample_context_def fallback_now_def)
  ultimately have "?step\<^sup>*\<^sup>* idle_bulkhead sample_bulkhead" by (meson converse_rtranclp_into_rtranclp r_into_rtranclp)
  from bulkhead_isolates [OF this] show ?thesis by (simp add: sample_bulkhead_def)
qed

section \<open>Workload health\<close>




section \<open>The start\<close>

text \<open>C20. An application that starts is safe to run. In production it authenticates by OIDC, and its SSO source was chosen
  explicitly, with a base domain of its own or of the issuer and without the bundled file. The issuer is https without
  credentials. The reconciler runs exactly when there are a store and a GitHub writer. An upstream adapter is there only when
  it was enabled, sends its bearer token over https (or over http where that is local or allowed), and the shared query
  history is acknowledged and masked unless that was switched off.\<close>

theorem wiring_fail_closed:
  assumes "createAppFromEnv pf hf env default_file services = Inr w"
  shows "(is_production env \<longrightarrow>
        (\<exists>iss aud uri. wa_auth w = Oidc iss aud uri)
        \<and> (setting env ''SSO_SOURCE'' = ''github'' \<and> (\<exists>d. wa_sso w = GithubWired d
              \<and> (d = setting env ''BASE_DOMAIN'' \<and> d \<noteq> [] \<or> baseDomainFromIssuer pf (setting env ''OIDC_ISSUER'') = Inr d))
          \<or> setting env ''SSO_SOURCE'' = ''file'' \<and> (\<exists>c. wa_sso w = FileWired c
              \<and> ac_filePath c = (if setting env ''SSO_CONFIG_FILE'' = [] then None else Some (setting env ''SSO_CONFIG_FILE'')))))
    \<and> (\<forall>iss aud uri. wa_auth w = Oidc iss aud uri \<longrightarrow> uri = iss @ ''/protocol/openid-connect/certs''
        \<and> (\<exists>u. new_URL pf iss = Some u \<and> protocol u = ''https:'' \<and> no_credentials u))
    \<and> (wa_reconciler w \<noteq> None \<longleftrightarrow> wa_store w \<noteq> None \<and> wa_gitWriter w \<noteq> None)
    \<and> (\<forall>t. uw_trino (wa_upstream w) = Some t \<longrightarrow> env ''BELUGA_TRINO_ENABLED'' = Some ''true'' \<and> bearer_allowed env (tw_client t)
        \<and> env ''BELUGA_TRINO_HISTORY_ACK'' = Some ''shared-service-credential''
        \<and> (tw_redactSql t \<or> env ''BELUGA_TRINO_HISTORY_SQL'' = Some ''none''))
    \<and> (\<forall>l. uw_lakekeeper (wa_upstream w) = Some l \<longrightarrow> env ''BELUGA_LAKEKEEPER_ENABLED'' = Some ''true''
        \<and> bearer_allowed env (kw_client l) \<and> kw_catalogs l \<noteq> [])"
proof (intro conjI)
  note parts = createAppFromEnv_parts [OF assms]
  show "is_production env \<longrightarrow> (\<exists>iss aud uri. wa_auth w = Oidc iss aud uri)
        \<and> (setting env ''SSO_SOURCE'' = ''github'' \<and> (\<exists>d. wa_sso w = GithubWired d
              \<and> (d = setting env ''BASE_DOMAIN'' \<and> d \<noteq> [] \<or> baseDomainFromIssuer pf (setting env ''OIDC_ISSUER'') = Inr d))
          \<or> setting env ''SSO_SOURCE'' = ''file'' \<and> (\<exists>c. wa_sso w = FileWired c
              \<and> ac_filePath c = (if setting env ''SSO_CONFIG_FILE'' = [] then None else Some (setting env ''SSO_CONFIG_FILE''))))"
    (is "?P \<longrightarrow> ?A \<and> ?S")
  proof (intro impI conjI)
    assume production: ?P
    show ?A using auth_disabled [of pf env] parts(1) production by (cases "wa_auth w") auto
    show ?S using createSsoAdapterFromEnv_production [OF parts(3) production] resolveBaseDomain_production [OF _ production] by blast
  qed
  show "\<forall>iss aud uri. wa_auth w = Oidc iss aud uri \<longrightarrow> uri = iss @ ''/protocol/openid-connect/certs''
        \<and> (\<exists>u. new_URL pf iss = Some u \<and> protocol u = ''https:'' \<and> no_credentials u)"
    using auth_oidc parts(1) by fastforce
  show "wa_reconciler w \<noteq> None \<longleftrightarrow> wa_store w \<noteq> None \<and> wa_gitWriter w \<noteq> None" by (rule parts(7))
qed (use loadUpstreamWiring_Inr [OF createAppFromEnv_parts(2) [OF assms]] in \<open>auto simp: TRINO_HISTORY_ACK_VALUE_def\<close>)

definition started_url :: full_url where
  "started_url = \<lparr>protocol = ''https:'', hostname = ''sso.example.org'', url_host = ''sso.example.org'', pathname = ''/realms/beluga'', u_username = [], u_password = [],
     u_port = [], u_search = [], u_hash = [], u_origin = ''https://sso.example.org''\<rparr>"

definition started_env :: env where
  "started_env = map_of
     [(''NODE_ENV'', ''production''), (''OIDC_ISSUER'', ''https://sso.example.org/realms/beluga''), (''SSO_SOURCE'', ''github''),
      (''BELUGA_TRINO_ENABLED'', ''true''), (''BELUGA_TRINO_BASE_URL'', ''https://trino.example.org''), (''BELUGA_TRINO_TOKEN'', ''secret''),
      (''BELUGA_TRINO_HISTORY_ACK'', ''shared-service-credential'')]"


definition started_platform :: platform where
  "started_platform = \<lparr>new_URL = (\<lambda>s. Some started_url), to_number = (\<lambda>s. NaN), isIP = (\<lambda>s. False)\<rparr>"

definition started_files :: host_files where
  "started_files = \<lparr>hf_stat = (\<lambda>f. None), hf_read = (\<lambda>f. None), hf_privateKey = (\<lambda>f. False), hf_readable = (\<lambda>f. False)\<rparr>"

definition started :: "(string, wired_app) res" where
  "started = createAppFromEnv started_platform started_files started_env None []"

text \<open>The loaders on this environment.\<close>

lemma started_env_at:
  "started_env ''BELUGA_TRINO_ENABLED'' = Some ''true''" "started_env ''BELUGA_LAKEKEEPER_ENABLED'' = None"
  "started_env ''BELUGA_TRINO_BASE_URL'' = Some ''https://trino.example.org''" "started_env ''BELUGA_TRINO_USER'' = None"
  "started_env ''BELUGA_TRINO_HISTORY_ACK'' = Some ''shared-service-credential''" "started_env ''BELUGA_TRINO_HISTORY_SQL'' = None"
  "started_env ''BELUGA_TRINO_HISTORY_CACHE_TTL_MS'' = None" "started_env ''BELUGA_UPSTREAM_TIMEOUT_MS'' = None"
  "started_env ''BELUGA_UPSTREAM_MAX_CONCURRENT'' = None" "started_env ''BELUGA_UPSTREAM_NEGATIVE_CACHE_TTL_MS'' = None"
  "started_env ''BELUGA_UPSTREAM_ALLOW_INSECURE_BEARER'' = None"
  by (simp_all add: started_env_def)

lemma started_token: "tokenProviderFrom started_files started_env ''BELUGA_TRINO'' = Inr (StaticToken (Some ''secret''), [])"
  by code_simp

lemma started_client: "\<exists>c. makeClient started_platform ''trino'' b p k h = Inr c"
  by (simp add: makeClient_def started_platform_def started_url_def)

lemma started_trino: "\<exists>t notes. load_trino started_platform started_files started_env k None = Inr (t, notes)"
  using started_client [of "''https://trino.example.org''" "StaticToken (Some ''secret'')" k "[]"]
  by (auto simp: load_trino_def required_env_def started_token started_env_at check_def int_env_def header_text_def TRINO_HISTORY_ACK_VALUE_def)

lemma started_upstream:
  "\<exists>u. loadUpstreamWiring started_platform started_files started_env = Inr u \<and> uw_trino u \<noteq> None"
  using started_trino [of "\<lparr>uo_allowInsecureBearer = False, uo_timeoutMs = None, uo_maxConcurrent = None\<rparr>"]
  by (auto simp: loadUpstreamWiring_def bool_env_def int_env_def started_env_at when_enabled_def)

lemma started_loaders:
  "loadAuditDbConfig started_platform started_env = Inr None" "loadSsoWriteEnabled started_env = Inr False"
  "loadReconcileIntervalMs started_platform started_env = Inr 30000" "loadKubeApiConfig started_platform started_env = Inr None"
  "loadFlinkAdapterConfig started_platform started_env = Inr None"
  by code_simp+

lemma started_auth: "\<not> isl (loadAuthConfig started_platform started_env)" by code_simp

lemma started_sso: "createSsoAdapterFromEnv started_platform started_env None = Inr (GithubWired ''example.org'')" by code_simp

lemma started_app: "\<exists>w. started = Inr w \<and> uw_trino (wa_upstream w) \<noteq> None"
proof -
  obtain u where u: "loadUpstreamWiring started_platform started_files started_env = Inr u" "uw_trino u \<noteq> None"
    using started_upstream by blast
  moreover obtain a where "loadAuthConfig started_platform started_env = Inr a"
    using started_auth by (cases "loadAuthConfig started_platform started_env") auto
  ultimately show ?thesis
    by (simp add: started_def createAppFromEnv_def createRuntime_def createArgocdReader_def Let_def started_loaders started_sso)
qed

theorem wiring_fail_closed_witness:
  "\<exists>w t iss aud uri. started = Inr w \<and> wa_auth w = Oidc iss aud uri \<and> uw_trino (wa_upstream w) = Some t
     \<and> bearer_allowed started_env (tw_client t) \<and> tw_redactSql t"
proof -
  obtain w t where w: "started = Inr w" "uw_trino (wa_upstream w) = Some t" using started_app by auto
  have "is_production started_env" by (simp add: is_production_def started_env_def)
  then show ?thesis
    using wiring_fail_closed [OF w(1) [unfolded started_def]] w started_env_at(6) by auto
qed

end
