(* ===== verification/LakekeeperFacts.thy ===== *)
theory LakekeeperFacts
  imports Lakekeeper
begin

text \<open>
  Which requests the catalog source can make, and how many: the segments of a path are fixed words, a checked prefix
  and the encodings of safe names, so the URL parser of the HTTP client has nothing to normalise.
\<close>

section \<open>Path segments\<close>

text \<open>The segments that the URL parser removes: \<open>.\<close> and \<open>..\<close>, also with \<open>%2e\<close>.\<close>

definition dot_segment :: "string \<Rightarrow> bool" where
  "dot_segment s \<longleftrightarrow> replaceAll ''%2e'' ''.'' (to_lower s) \<in> {''.'', ''..''}"

definition good_segment :: "string \<Rightarrow> bool" where
  "good_segment s \<longleftrightarrow> s \<noteq> [] \<and> CHR ''/'' \<notin> set s \<and> \<not> dot_segment s"

definition path_of :: "string list \<Rightarrow> string" where
  "path_of segs = concat (map (\<lambda>s. CHR ''/'' # s) segs)"

definition catalog_shape :: "string list \<Rightarrow> bool" where
  "catalog_shape segs \<longleftrightarrow>
     (\<exists>pre rest. segs = ''v1'' # pre @ ''namespaces'' # rest \<and> length pre \<le> 1
        \<and> (rest = [] \<or> length rest = 1 \<or> length rest = 2 \<and> rest ! 1 = ''tables'' \<or> length rest = 3 \<and> rest ! 1 = ''tables''))"

definition catalog_path :: "string \<Rightarrow> bool" where
  "catalog_path p \<longleftrightarrow> (\<exists>segs. p = path_of segs \<and> list_all good_segment segs \<and> catalog_shape segs)"

lemma lower_eq_dot: "lower_char c = CHR ''.'' \<longleftrightarrow> c = CHR ''.''"
proof
  assume d: "lower_char c = CHR ''.''"
  then have "\<not> is_upper c" using of_char_lower_char [of c] by (auto simp: is_upper_def)
  then show "c = CHR ''.''" using d by (simp add: lower_char_def)
qed (simp add: lower_char_def is_upper_def)

lemma lower_eq_percent: "lower_char c = CHR ''%'' \<longleftrightarrow> c = CHR ''%''"
proof
  assume d: "lower_char c = CHR ''%''"
  then have "\<not> is_upper c" using of_char_lower_char [of c] by (auto simp: is_upper_def)
  then show "c = CHR ''%''" using d by (simp add: lower_char_def)
qed (simp add: lower_char_def is_upper_def)

lemma replaceAll_absent: "CHR ''%'' \<notin> set s \<Longrightarrow> replaceAll ''%2e'' r s = s"
  by (induction s) (auto simp: is_prefix_simps)

lemma hex_upper: "n < 16 \<Longrightarrow> JsText.hex_digit n \<in> set ''0123456789ABCDEF''"
  unfolding JsText.hex_digit_def by (rule nth_mem) simp

lemma hex_not_special: "n < 16 \<Longrightarrow> JsText.hex_digit n \<noteq> CHR ''%'' \<and> JsText.hex_digit n \<noteq> CHR ''/'' \<and> JsText.hex_digit n \<noteq> CHR ''.''"
  using hex_upper [of n] by auto

lemma hex_codes:
  "list_all (\<lambda>n. (lower_char (JsText.hex_digit n) = CHR ''2'') = (n = 2) \<and> (lower_char (JsText.hex_digit n) = CHR ''e'') = (n = 14)) [0..<16]"
  by code_simp

lemma hex_code:
  "n < 16 \<Longrightarrow> (lower_char (JsText.hex_digit n) = CHR ''2'' \<longleftrightarrow> n = 2) \<and> (lower_char (JsText.hex_digit n) = CHR ''e'' \<longleftrightarrow> n = 14)"
  using hex_codes unfolding list_all_iff by simp

definition uri_chunk :: "char \<Rightarrow> string" where
  "uri_chunk c = (if unreserved c then [c]
     else [CHR ''%'', JsText.hex_digit (of_char c div 16), JsText.hex_digit (of_char c mod 16)])"

lemma encode_chunks: "encodeURIComponent s = concat (map uri_chunk s)"
  by (simp add: encodeURIComponent_def uri_chunk_def [abs_def])

lemma unreserved_not_special: "unreserved c \<Longrightarrow> c \<noteq> CHR ''%'' \<and> c \<noteq> CHR ''/''"
  by (auto simp: unreserved_def is_alpha_def is_upper_def is_lower_def is_digit_def)

lemma chunk_no_slash: "CHR ''/'' \<notin> set (uri_chunk c)"
proof -
  have "of_char c div 16 < (16 :: nat)" using of_char_lt_256 [of c] by linarith
  then show ?thesis
    using unreserved_not_special [of c] hex_not_special [of "of_char c div 16"] hex_not_special [of "of_char c mod 16"]
    by (auto simp: uri_chunk_def)
qed

text \<open>Encoding writes no \<open>%2e\<close>: the dot stays a dot.\<close>

lemma replace_chunk: "replaceAll ''%2e'' ''.'' (to_lower (uri_chunk c) @ s) = to_lower (uri_chunk c) @ replaceAll ''%2e'' ''.'' s"
proof (cases "unreserved c")
  case True
  then show ?thesis using unreserved_not_special [OF True] lower_eq_percent [of c]
    by (simp add: uri_chunk_def to_lower_def is_prefix_simps)
next
  case False
  let ?h = "of_char c div 16 :: nat" and ?l = "of_char c mod 16 :: nat"
  have h: "?h < 16" using of_char_lt_256 [of c] by linarith
  have "\<not> (?h = 2 \<and> ?l = 14)"
  proof
    assume "?h = 2 \<and> ?l = 14"
    then have "(of_char c :: nat) = 46" using div_mult_mod_eq [of "of_char c :: nat" 16] by linarith
    then have "c = CHR ''.''" by (intro of_char_eq_iff [where 'a = nat, THEN iffD1]) simp
    then show False using False by (simp add: unreserved_def)
  qed
  moreover have "lower_char (JsText.hex_digit ?h) \<noteq> CHR ''%''" "lower_char (JsText.hex_digit ?l) \<noteq> CHR ''%''"
    using hex_not_special [OF h] hex_not_special [of ?l] by (auto simp: lower_eq_percent)
  moreover have "\<not> (lower_char (JsText.hex_digit ?h) = CHR ''2'' \<and> lower_char (JsText.hex_digit ?l) = CHR ''e'')"
    using \<open>\<not> (?h = 2 \<and> ?l = 14)\<close> hex_code [OF h] hex_code [of ?l] by simp
  moreover have "to_lower (uri_chunk c) = [CHR ''%'', lower_char (JsText.hex_digit ?h), lower_char (JsText.hex_digit ?l)]"
    using False lower_eq_percent [of "CHR ''%''"] by (simp add: uri_chunk_def to_lower_def)
  ultimately show ?thesis by (auto simp: is_prefix_simps)
qed

lemma replace_encoded: "replaceAll ''%2e'' ''.'' (to_lower (encodeURIComponent s)) = to_lower (encodeURIComponent s)"
  unfolding encode_chunks
proof (induction s)
  case (Cons c s)
  then show ?case using replace_chunk [of c "to_lower (concat (map uri_chunk s))"] by (simp add: to_lower_def)
qed (simp add: to_lower_def)

lemma lower_dots: "to_lower u = replicate n (CHR ''.'') \<Longrightarrow> u = replicate n (CHR ''.'')"
proof (induction u arbitrary: n)
  case (Cons c u)
  then show ?case by (cases n) (auto simp: to_lower_def lower_eq_dot)
qed (simp add: to_lower_def)

lemma encoded_dots: "encodeURIComponent s = replicate n (CHR ''.'') \<Longrightarrow> s = replicate n (CHR ''.'')"
proof (induction s arbitrary: n)
  case (Cons c s)
  then obtain m where m: "n = Suc m" by (cases n) (auto simp: encode_chunks uri_chunk_def split: if_splits)
  then have "uri_chunk c = [CHR ''.''] \<and> encodeURIComponent s = replicate m (CHR ''.'')"
    using Cons.prems by (auto simp: encode_chunks uri_chunk_def split: if_splits)
  then show ?case using Cons.IH m by (auto simp: uri_chunk_def split: if_splits)
qed (simp add: encode_chunks)

lemma encoded_good:
  assumes "s \<noteq> []" "s \<noteq> ''.''" "s \<noteq> ''..''"
  shows "good_segment (encodeURIComponent s)"
proof -
  have two: "''.'' = replicate 1 (CHR ''.'')" "''..'' = replicate 2 (CHR ''.'')" by (simp_all add: numeral_eq_Suc)
  have "\<not> dot_segment (encodeURIComponent s)"
    unfolding dot_segment_def replace_encoded
    using assms two encoded_dots [OF lower_dots] by (metis insert_iff singletonD)
  moreover have "encodeURIComponent s \<noteq> []" using assms(1) by (cases s) (auto simp: encode_chunks uri_chunk_def)
  moreover have "CHR ''/'' \<notin> set (encodeURIComponent s)" using chunk_no_slash by (auto simp: encode_chunks)
  ultimately show ?thesis by (simp add: good_segment_def)
qed

lemma ns_good:
  assumes "ns \<noteq> []" "list_all isSafeUpstreamSegment ns"
  shows "good_segment (encodeURIComponent (join [NS_SEP] ns))"
proof (cases "length ns = 1")
  case True
  then obtain s where "ns = [s]" by (cases ns) auto
  then show ?thesis using assms(2) by (auto simp: isSafeUpstreamSegment_def intro!: encoded_good)
next
  case False
  with assms(1) obtain a b r where "ns = a # b # r" by (cases ns; cases "tl ns") auto
  then have "NS_SEP \<in> set (join [NS_SEP] ns)" by simp
  then show ?thesis by (intro encoded_good) (auto simp: NS_SEP_def)
qed

definition safe_prefix :: "string \<Rightarrow> bool" where
  "safe_prefix p \<longleftrightarrow> p = [] \<or> (\<exists>raw. p = CHR ''/'' # raw \<and> good_segment raw)"

lemma prefix_char_plain: "prefix_char d \<Longrightarrow> d \<noteq> CHR ''.'' \<and> d \<noteq> CHR ''%'' \<and> d \<noteq> CHR ''/''"
  by (auto simp: prefix_char_def is_alpha_def is_upper_def is_lower_def is_digit_def)

lemma prefix_of_safe: "prefix_of body = Inr p \<Longrightarrow> safe_prefix p"
proof -
  assume p: "prefix_of body = Inr p"
  have good: "good_segment raw" if raw: "SAFE_PREFIX raw" for raw
  proof -
    obtain c s where cs: "raw = c # s" using raw by (cases raw) (auto simp: SAFE_PREFIX_def)
    then have all: "prefix_char c" "\<And>d. d \<in> set s \<Longrightarrow> prefix_char d \<or> d = CHR ''.''"
      using raw by (simp_all add: SAFE_PREFIX_def list_all_iff)
    have "d \<noteq> CHR ''%'' \<and> d \<noteq> CHR ''/''" if "d \<in> set raw" for d
    proof -
      have "prefix_char d \<or> d = CHR ''.''" using that cs all by auto
      then show ?thesis using prefix_char_plain by fastforce
    qed
    then have c: "c \<noteq> CHR ''.''" "CHR ''%'' \<notin> set raw" "CHR ''/'' \<notin> set raw"
      using prefix_char_plain [OF all(1)] by blast+
    have "CHR ''%'' \<notin> lower_char ` set raw"
    proof
      assume "CHR ''%'' \<in> lower_char ` set raw"
      then obtain d where "d \<in> set raw" "lower_char d = CHR ''%''" by (elim imageE) simp
      then show False using c(2) by (simp only: lower_eq_percent)
    qed
    then have "CHR ''%'' \<notin> set (to_lower raw)" by (simp add: to_lower_def)
    then have "replaceAll ''%2e'' ''.'' (to_lower raw) = to_lower raw" by (rule replaceAll_absent)
    moreover have "to_lower raw = lower_char c # to_lower s" using cs by (simp add: to_lower_def)
    ultimately have "\<not> dot_segment raw" using c(1) lower_eq_dot [of c] by (simp add: dot_segment_def)
    then show ?thesis using c cs by (simp add: good_segment_def)
  qed
  obtain raw where "checked_prefix raw = Inr p" using p by (auto simp: prefix_of_def split: option.splits)
  then have "p = (if raw = [] then [] else CHR ''/'' # raw)" "raw = [] \<or> SAFE_PREFIX raw"
    by (simp_all add: checked_prefix_def split: if_splits)
  then show ?thesis using good by (cases "raw = []") (simp_all add: safe_prefix_def)
qed

section \<open>Requests\<close>

text \<open>Every request of a program has a path of this form, when the cached prefixes are safe.\<close>

primrec confined :: "'a catalog_prog \<Rightarrow> bool" where
  "confined (Give a) = True"
| "confined (GetJson p q d k) = (catalog_path p \<and> (\<forall>r. confined (k r)))"
| "confined (Prefix w d k) = (\<forall>r. (\<forall>p. r = Inr p \<longrightarrow> safe_prefix p) \<longrightarrow> confined (k r))"
| "confined (Clock k) = (\<forall>t. confined (k t))"

primrec awaits_at_most :: "'a catalog_prog \<Rightarrow> nat \<Rightarrow> bool" where
  "awaits_at_most (Give a) = (\<lambda>n. True)"
| "awaits_at_most (GetJson p q d k) = (\<lambda>n. \<exists>m. n = Suc m \<and> (\<forall>r. awaits_at_most (k r) m))"
| "awaits_at_most (Prefix w d k) = (\<lambda>n. \<exists>m. n = Suc m \<and> (\<forall>r. awaits_at_most (k r) m))"
| "awaits_at_most (Clock k) = (\<lambda>n. \<forall>t. awaits_at_most (k t) n)"

lemma confined_bind: "confined p \<Longrightarrow> (\<And>a. confined (f a)) \<Longrightarrow> confined (cat_bind p f)"
  by (induction p) auto

lemma confined_try: "confined p \<Longrightarrow> (\<And>a. confined (f a)) \<Longrightarrow> confined (cat_try p f)"
  unfolding cat_try_def by (rule confined_bind) (auto split: sum.splits)

lemma awaits_more: "awaits_at_most p n \<Longrightarrow> n \<le> m \<Longrightarrow> awaits_at_most p m"
proof (induction p arbitrary: n m)
  case (GetJson p q d k)
  then obtain i where "n = Suc i" "\<And>r. awaits_at_most (k r) i" by auto
  moreover then obtain j where "m = Suc j" "i \<le> j" using GetJson.prems(2) by (cases m) auto
  ultimately show ?case using GetJson.IH [OF rangeI] by auto
next
  case (Prefix w d k)
  then obtain i where "n = Suc i" "\<And>r. awaits_at_most (k r) i" by auto
  moreover then obtain j where "m = Suc j" "i \<le> j" using Prefix.prems(2) by (cases m) auto
  ultimately show ?case using Prefix.IH [OF rangeI] by auto
qed (auto intro: rangeI)

lemma awaits_bind: "awaits_at_most p n \<Longrightarrow> (\<And>a. awaits_at_most (f a) m) \<Longrightarrow> awaits_at_most (cat_bind p f) (n + m)"
proof (induction p arbitrary: n)
  case (Give a)
  then show ?case using awaits_more [of "f a" m "n + m"] by simp
next
  case (GetJson p q d k)
  then show ?case using GetJson.IH [OF rangeI] by fastforce
next
  case (Prefix w d k)
  then show ?case using Prefix.IH [OF rangeI] by fastforce
next
  case (Clock k)
  then show ?case using Clock.IH [OF rangeI] by auto
qed

lemma awaits_try: "awaits_at_most p n \<Longrightarrow> (\<And>a. awaits_at_most (f a) m) \<Longrightarrow> awaits_at_most (cat_try p f) (n + m)"
  unfolding cat_try_def by (rule awaits_bind) (auto split: sum.splits)

lemma confined_drain: "(\<And>t. confined (page t)) \<Longrightarrow> confined (drain n page token items)"
  by (induction n page token items rule: drain.induct) (auto simp: cat_ok_def intro!: confined_try split: option.splits)

lemma awaits_drain: "(\<And>t. awaits_at_most (page t) 1) \<Longrightarrow> awaits_at_most (drain n page token items) n"
proof (induction n page token items rule: drain.induct)
  case (2 n page token items)
  have "awaits_at_most (drain (Suc n) page token items) (1 + n)"
    unfolding drain.simps by (rule awaits_try) (use 2 in \<open>auto simp: cat_ok_def split: option.splits\<close>)
  then show ?case by simp
qed (simp add: cat_ok_def)

section \<open>list and get\<close>

lemma v1_segments: "good_segment ''v1'' \<and> good_segment ''config'' \<and> good_segment ''namespaces'' \<and> good_segment ''tables''"
  by code_simp

lemma catalog_pathI:
  assumes "safe_prefix pre" "list_all good_segment rest"
    and "rest = [] \<or> length rest = 1 \<or> length rest = 2 \<and> rest ! 1 = ''tables'' \<or> length rest = 3 \<and> rest ! 1 = ''tables''"
  shows "catalog_path (''/v1'' @ pre @ ''/namespaces'' @ path_of rest)"
proof -
  obtain ps where ps: "pre = path_of ps" "list_all good_segment ps" "length ps \<le> 1"
  proof (cases "pre = []")
    case True
    then show ?thesis using that [of "[]"] by (simp add: path_of_def)
  next
    case False
    then obtain raw where "pre = CHR ''/'' # raw" "good_segment raw" using assms(1) by (auto simp: safe_prefix_def)
    then show ?thesis using that [of "[raw]"] by (simp add: path_of_def)
  qed
  let ?segs = "''v1'' # ps @ ''namespaces'' # rest"
  have "''/v1'' @ pre @ ''/namespaces'' @ path_of rest = path_of ?segs" using ps(1) by (simp add: path_of_def)
  moreover have "list_all good_segment ?segs" using ps(2) assms(2) v1_segments by simp
  moreover have "catalog_shape ?segs" using ps(3) assms(3) unfolding catalog_shape_def by blast
  ultimately show ?thesis unfolding catalog_path_def by blast
qed

lemma nsPath_good: "nsPath ns = Inr p \<Longrightarrow> ns \<noteq> [] \<Longrightarrow> good_segment p"
  using ns_good by (auto simp: nsPath_def split: if_splits)

lemma tablePath_good: "tablePath n = Inr p \<Longrightarrow> good_segment p"
  by (auto simp: tablePath_def isSafeUpstreamSegment_def intro!: encoded_good split: if_splits)

lemma namespaces_path: "safe_prefix pre \<Longrightarrow> catalog_path (''/v1'' @ pre @ ''/namespaces'')"
  using catalog_pathI [of pre "[]"] by (simp add: path_of_def)

lemma schema_path: "safe_prefix pre \<Longrightarrow> good_segment p \<Longrightarrow> catalog_path (''/v1'' @ pre @ ''/namespaces/'' @ p)"
  using catalog_pathI [of pre "[p]"] by (simp add: path_of_def)

lemma tables_path: "safe_prefix pre \<Longrightarrow> good_segment p \<Longrightarrow> catalog_path (''/v1'' @ pre @ ''/namespaces/'' @ p @ ''/tables'')"
  using catalog_pathI [of pre "[p, ''tables'']"] v1_segments by (simp add: path_of_def)

lemma table_path:
  "safe_prefix pre \<Longrightarrow> good_segment p \<Longrightarrow> good_segment q \<Longrightarrow> catalog_path (''/v1'' @ pre @ ''/namespaces/'' @ p @ ''/tables/'' @ q)"
  using catalog_pathI [of pre "[p, ''tables'', q]"] v1_segments by (simp add: path_of_def)

lemma confined_namespaces: "safe_prefix pre \<Longrightarrow> confined (listNamespaces pre parent dl)"
  using namespaces_path [of pre] unfolding listNamespaces_def by (intro confined_drain) simp

lemma confined_tables: "safe_prefix pre \<Longrightarrow> ns \<noteq> [] \<Longrightarrow> confined (listTables pre ns dl)"
  unfolding listTables_def
  by (intro confined_drain) (auto simp: cat_throw_def intro!: tables_path [simplified] nsPath_good split: sum.splits)

lemma confined_children:
  assumes "safe_prefix pre" "kind = SchemaAsset \<longrightarrow> ns \<noteq> []"
  shows "confined (listChildren pre catalog kind ns dl)"
  unfolding listChildren_def
  by (rule confined_try [OF confined_namespaces [OF assms(1)]])
    (use assms in \<open>auto simp: cat_ok_def Let_def split: prod.splits intro!: confined_try confined_tables\<close>)

lemma confined_prefixes: "confined (check_prefixes cs dl)"
  by (induction cs dl rule: check_prefixes.induct) (auto simp: cat_ok_def cat_throw_def split: sum.splits)

lemma parse_tail:
  assumes "parseAssetId i = Some (kind, segments)" "kind = SchemaAsset"
  shows "tl segments \<noteq> []"
  using parse_safe(2) [OF assms(1)] assms(2) by (cases segments) (auto simp: segment_count_ok_def)

lemma parse_table_tail:
  assumes "parseAssetId i = Some (TableAsset, segments)"
  shows "butlast (tl segments) \<noteq> []"
  using parse_safe(2) [OF assms] by (cases segments; cases "tl segments") (auto simp: segment_count_ok_def)

lemma confined_list: "confined (listUncached cs parentId)"
  unfolding listUncached_def
  by (auto simp: Let_def cat_ok_def cat_throw_def split: option.splits prod.splits sum.splits
      intro!: confined_try confined_prefixes confined_children dest: parse_tail)

lemma confined_getSchema: "safe_prefix pre \<Longrightarrow> ns \<noteq> [] \<Longrightarrow> confined (getSchema pre catalog ns dl)"
  by (auto simp: getSchema_def intro!: schema_path [simplified] nsPath_good split: sum.splits)

lemma confined_getTable: "safe_prefix pre \<Longrightarrow> butlast segs \<noteq> [] \<Longrightarrow> confined (getTable isoDate pre catalog segs dl)"
  using nsPath_good [of "butlast segs"] tablePath_good [of "last segs"]
  by (auto simp: getTable_def intro!: table_path [simplified] split: sum.splits)

lemma confined_get: "confined (getUncached isoDate cs i)"
proof (cases "parseAssetId i")
  case (Some x)
  then obtain kind segments where x: "parseAssetId i = Some (kind, segments)" by (cases x) auto
  have "kind \<noteq> TopicAsset" by (rule parse_safe(1) [OF x])
  then show ?thesis
    using x parse_tail [OF x] parse_table_tail [of i segments]
    by (cases kind) (auto simp: getUncached_def Let_def cat_ok_def cat_throw_def split: option.splits sum.splits
        intro!: confined_getSchema confined_getTable)
qed (simp add: getUncached_def cat_ok_def)

lemma awaits_children: "awaits_at_most (listChildren pre catalog kind ns dl) 20"
proof -
  have ns: "awaits_at_most (listNamespaces pre parent dl) 10" for parent
    unfolding listNamespaces_def MAX_PAGES_def [symmetric] by (rule awaits_drain) auto
  have ts: "awaits_at_most (listTables pre parent dl) 10" for parent
    unfolding listTables_def MAX_PAGES_def [symmetric] by (rule awaits_drain) (auto simp: cat_throw_def split: sum.splits)
  have "awaits_at_most (cat_try (listTables pre ns dl) f) 10" if "\<And>a. awaits_at_most (f a) 0" for f :: "_ \<Rightarrow> (data_asset list \<times> list_warning list) cat"
    using awaits_try [OF ts that] by simp
  then have "awaits_at_most (listChildren pre catalog kind ns dl) (10 + 10)"
    unfolding listChildren_def
    by (intro awaits_try [OF ns]) (auto simp: cat_ok_def Let_def split: prod.splits)
  then show ?thesis by simp
qed

lemma awaits_prefixes: "awaits_at_most (check_prefixes cs dl) (length cs)"
proof (induction cs dl rule: check_prefixes.induct)
  case (2 c cs dl)
  then show ?case by (auto simp: cat_throw_def split: sum.splits)
qed (simp add: cat_ok_def)

lemma awaits_list: "awaits_at_most (listUncached cs parentId) (if parentId = None then length cs else 21)"
proof (cases parentId)
  case None
  have "awaits_at_most (cat_try (check_prefixes cs dl) f) (length cs)" if "\<And>a. awaits_at_most (f a) 0" for dl and f :: "_ \<Rightarrow> (data_asset list \<times> list_warning list) cat"
    using awaits_try [OF awaits_prefixes that] by simp
  then show ?thesis using None by (auto simp: listUncached_def cat_ok_def Let_def)
next
  case (Some i)
  have "awaits_at_most (Prefix w d (\<lambda>r. case r of Inl e \<Rightarrow> cat_throw e | Inr pre \<Rightarrow> listChildren pre c kind ns dl)) 21" for w d c kind ns dl
    using awaits_children by (auto simp: cat_throw_def numeral_eq_Suc split: sum.splits)
  then show ?thesis using Some by (auto simp: listUncached_def cat_ok_def Let_def split: option.splits prod.splits)
qed

end
