(* ===== verification/UpstreamProperties.thy ===== *)
theory UpstreamProperties
  imports Correlation LakekeeperFacts FlinkAdapter
begin

text \<open>The properties of the upstream adapters: ids and paths, the cache, the slots, the masking of SQL, the links between
  entities of different services.\<close>

section \<open>The catalog\<close>

text \<open>The id of an asset is parsed back to its kind and its segments.\<close>

lemma asset_id_roundtrip:
  assumes "k \<noteq> TopicAsset" "segment_count_ok k (length segments)" "list_all isSafeUpstreamSegment segments"
    and "no_line_terminator (join ''.'' (map encodeIdSegment segments))"
    and "js_length (deriveAssetId k segments) \<le> 256"
  shows "parseAssetId (deriveAssetId k segments) = Some (k, segments)"
  using parse_derived assms unfolding MAX_ASSET_ID_LENGTH_def by blast

lemma asset_id_roundtrip_witness:
  "parseAssetId (deriveAssetId TableAsset [''lake'', ''a.b'', ''50%'']) = Some (TableAsset, [''lake'', ''a.b'', ''50%''])"
  by (rule asset_id_roundtrip) code_simp+

text \<open>C22. Whatever id a caller names and whatever the catalog answers, a listing or a look-up requests only the namespace and
  table paths of the catalog: every segment is non-empty, without a slash, and not one that the URL parser would remove,
  so the path check of the HTTP client accepts it as it is. The prefix is one segment that the configuration answer may
  name only within a narrow alphabet. A listing waits for at most 21 answers, or one for each configured catalog.\<close>

theorem catalog_calls_confined:
  "confined (listUncached cs parentId) \<and> confined (getUncached isoDate cs i)
    \<and> awaits_at_most (listUncached cs parentId) (if parentId = None then length cs else 21)
    \<and> (\<forall>pre. prefix_of body = Inr pre \<longrightarrow> safe_prefix pre)"
  using confined_list confined_get awaits_list prefix_of_safe by blast

theorem catalog_calls_confined_witness:
  "safe_prefix ''/warehouse-1''"
proof -
  have "prefix_of (JObj [(''defaults'', JObj [(''prefix'', JStr ''warehouse-1'')])]) = Inr ''/warehouse-1''" by code_simp
  then show ?thesis using catalog_calls_confined [of "[]" None "\<lambda>_. None" "[]"] by blast
qed

section \<open>Masked SQL\<close>




text \<open>The header of the module says that an unterminated construct is masked to the end of the input. A double quote
  that is not closed is not: everything after it is shown, the literals included.\<close>

lemma unterminated_identifier_shown:
  assumes "CHR 0x22 \<notin> set s"
  shows "redactSqlLiterals (CHR 0x22 # s) = js_trim (CHR 0x22 # s)"
proof -
  have "quoted_rest (CHR 0x22) s = (s, [])"
    using assms by (induction "CHR 0x22" s rule: quoted_rest.induct) auto
  then show ?thesis by (simp add: redactSqlLiterals_def)
qed

lemma unterminated_identifier_shown_witness:
  "redactSqlLiterals (CHR 0x22 # '' where ssn = 123'') = CHR 0x22 # '' where ssn = 123''"
  using unterminated_identifier_shown [of "'' where ssn = 123''"] by code_simp

section \<open>Cache and slots\<close>

text \<open>C14. After any calls, settlements and invalidations the cache has accounted for exactly the entries it holds and keeps
  within both limits. An answer that is shared comes from a load of the same key: one that is still under way, or one whose
  outcome may still be served at this time, an error only if it is a failure of the upstream and within its own, shorter
  lifetime. A load is started only for a key without such an answer.\<close>

theorem memo_consistent:
  assumes "(memo_step opt)\<^sup>*\<^sup>* (createMemo, [], []) (m, ls, lg)"
  shows "m_totalWeight m = sum_list (map (int \<circ> en_weight \<circ> snd) (m_cache m)) \<and> m_totalWeight m \<le> int (mo_maxWeight opt)
    \<and> length (m_cache m) \<le> mo_maxEntries opt \<and> distinct (map fst (m_cache m))
    \<and> (\<forall>now k e m'. memo opt now k m = (Shared e, m') \<longrightarrow> (en_id e, k) \<in> set ls
        \<and> (case en_result e of
             None \<Rightarrow> en_id e \<notin> fst ` set lg
           | Some r \<Rightarrow> \<exists>t ttl. (en_id e, t, lifetime opt ttl r, r) \<in> set lg \<and> 0 < lifetime opt ttl r \<and> now < t + lifetime opt ttl r))
    \<and> (\<forall>now k i m'. memo opt now k m = (Started i, m') \<longrightarrow> i \<notin> fst ` set ls
        \<and> (\<forall>e. (k, e) \<in> set (m_cache m) \<longrightarrow> en_result e \<noteq> None \<and> en_expires e \<le> now))"
proof -
  have inv: "memo_inv opt (m, ls, lg)" by (rule memo_inv_steps [OF assms memo_inv_start])
  have "(en_id e, k) \<in> set ls \<and> (case en_result e of
       None \<Rightarrow> en_id e \<notin> fst ` set lg
     | Some r \<Rightarrow> \<exists>t ttl. (en_id e, t, lifetime opt ttl r, r) \<in> set lg \<and> 0 < lifetime opt ttl r \<and> now < t + lifetime opt ttl r)"
    if "memo opt now k m = (Shared e, m')" for now k e m'
  proof -
    have e: "(k, e) \<in> set (m_cache m)" "en_result e = None \<or> now < en_expires e" using memo_shared [OF that] by simp_all
    then have ok: "entry_ok ls lg (k, e)" using inv by (simp add: memo_inv_def)
    show ?thesis
    proof (cases "en_result e")
      case (Some r)
      then obtain t l where "(en_id e, t, l, r) \<in> set lg" "en_expires e = t + l" "0 < l" using ok by (auto simp: entry_ok_def)
      moreover then obtain ttl where "l = lifetime opt ttl r" using memo_log [OF assms, of "en_id e" t l r] by auto
      ultimately show ?thesis using Some ok e(2) by (auto simp: entry_ok_def)
    qed (use ok in \<open>simp add: entry_ok_def\<close>)
  qed
  moreover have "i \<notin> fst ` set ls \<and> (\<forall>e. (k, e) \<in> set (m_cache m) \<longrightarrow> en_result e \<noteq> None \<and> en_expires e \<le> now)"
    if "memo opt now k m = (Started i, m')" for now k i m'
    using memo_started [OF that] memo_started_absent [OF that] inv by (auto simp: memo_inv_def accounted_def)
  ultimately show ?thesis using inv by (simp add: memo_inv_def accounted_def weights_def)
qed

definition sample_options :: memo_options where
  "sample_options = \<lparr>mo_ttlMs = 5000, mo_negativeTtlMs = 2000, mo_maxEntries = 100, mo_maxWeight = 20000\<rparr>"

definition sample_loading :: "nat memo_state" where
  "sample_loading = \<lparr>m_cache = [(''get:x'', \<lparr>en_id = 0, en_result = None, en_expires = 0, en_weight = 1\<rparr>)], m_totalWeight = 1, m_next = 1\<rparr>"

definition sample_loaded :: "nat memo_state" where
  "sample_loaded = \<lparr>m_cache = [(''get:x'', \<lparr>en_id = 0, en_result = Some (Inr 7), en_expires = 5010, en_weight = 1\<rparr>)], m_totalWeight = 1, m_next = 1\<rparr>"

lemma sample_runs:
  "memo sample_options 0 ''get:x'' createMemo = (Started 0, sample_loading)"
  "memo_settle sample_options 10 ''get:x'' 0 (Inr 7) None None sample_loading = sample_loaded"
  "fst (memo sample_options 5009 ''get:x'' sample_loaded) = Shared \<lparr>en_id = 0, en_result = Some (Inr 7), en_expires = 5010, en_weight = 1\<rparr>"
  by (simp_all add: memo_def memo_settle_def start_load_def Memo.link_def reweigh_def put_entry_def isLive_def evict_fits createMemo_def
    sample_options_def sample_loading_def sample_loaded_def)

lemma sample_reached:
  "(memo_step sample_options)\<^sup>*\<^sup>* (createMemo, [], []) (sample_loaded, [(0, ''get:x'')], [(0, 10, lifetime sample_options None (Inr (7 :: nat)), Inr 7)])"
proof -
  have "memo_step sample_options (createMemo, [], []) (sample_loading, [(0, ''get:x'')], [])"
    using memo_step.load [OF sample_runs(1), of "[]" "[]"] by simp
  moreover have "memo_step sample_options (sample_loading, [(0, ''get:x'')], [])
      (sample_loaded, [(0, ''get:x'')], [(0, 10, lifetime sample_options None (Inr (7 :: nat)), Inr 7)])"
    using memo_step.settle [of 0 "''get:x''" "[(0, ''get:x'')]" "[]" sample_options sample_loading 10 "Inr 7" None None]
    by (simp add: sample_runs(2))
  ultimately show ?thesis by (meson converse_rtranclp_into_rtranclp r_into_rtranclp)
qed

theorem memo_consistent_witness:
  "\<exists>t ttl. (0, t, lifetime sample_options ttl (Inr (7 :: nat)), Inr (7 :: nat)) \<in> set [(0, 10, lifetime sample_options None (Inr (7 :: nat)), Inr 7)]
    \<and> 5009 < t + lifetime sample_options ttl (Inr (7 :: nat))"
proof -
  obtain m' where hit: "memo sample_options 5009 ''get:x'' sample_loaded =
      (Shared \<lparr>en_id = 0, en_result = Some (Inr 7), en_expires = 5010, en_weight = 1\<rparr>, m')"
    using sample_runs(3) by (cases "memo sample_options 5009 ''get:x'' sample_loaded") auto
  from memo_consistent [OF sample_reached, THEN conjunct2, THEN conjunct2, THEN conjunct2, THEN conjunct2, THEN conjunct1,
    THEN spec, THEN spec, THEN spec, THEN spec, THEN mp, OF hit]
  show ?thesis by auto
qed

text \<open>C40. At most \<open>maxConcurrent\<close> requests of a client are under way at any time, however its calls arrive, wait, give up and
  end; at most \<open>maxQueued\<close> wait, only while all slots are taken, and none of them is under way.\<close>

theorem upstream_concurrency:
  assumes "(pool_step waiters (acquire maxConcurrent maxQueued) wait_timeout release)\<^sup>*\<^sup>* (\<lparr>inFlight = 0, waiters = []\<rparr>, {}) (p, running)"
  shows "finite running \<and> card running \<le> maxConcurrent \<and> length (waiters p) \<le> maxQueued
    \<and> (card running < maxConcurrent \<longrightarrow> waiters p = []) \<and> set (waiters p) \<inter> running = {}"
  using http_pool.pool_bounds [OF assms] by simp

theorem upstream_concurrency_witness:
  "card {1, 2 :: nat} \<le> 2 \<and> length (waiters \<lparr>inFlight = 2, waiters = [3]\<rparr>) \<le> 1"
proof -
  let ?step = "pool_step waiters (acquire 2 1) wait_timeout release"
  have "?step (\<lparr>inFlight = 0, waiters = []\<rparr>, {}) (\<lparr>inFlight = 1, waiters = []\<rparr>, {1})"
    using pool_step.enter [of 1 "{}" waiters "\<lparr>inFlight = 0, waiters = []\<rparr>" "acquire 2 1" Granted] by (simp add: acquire_def)
  moreover have "?step (\<lparr>inFlight = 1, waiters = []\<rparr>, {1}) (\<lparr>inFlight = 2, waiters = []\<rparr>, {2, 1})"
    using pool_step.enter [of 2 "{1}" waiters "\<lparr>inFlight = 1, waiters = []\<rparr>" "acquire 2 1" Granted] by (simp add: acquire_def)
  moreover have "?step (\<lparr>inFlight = 2, waiters = []\<rparr>, {2, 1}) (\<lparr>inFlight = 2, waiters = [3]\<rparr>, {2, 1})"
    using pool_step.enter [of 3 "{2, 1}" waiters "\<lparr>inFlight = 2, waiters = []\<rparr>" "acquire 2 1" Queued] by (simp add: acquire_def)
  ultimately have "?step\<^sup>*\<^sup>* (\<lparr>inFlight = 0, waiters = []\<rparr>, {}) (\<lparr>inFlight = 2, waiters = [3]\<rparr>, {2, 1})"
    by (meson converse_rtranclp_into_rtranclp r_into_rtranclp)
  from upstream_concurrency [OF this] show ?thesis by (simp add: insert_commute)
qed

section \<open>Correlation\<close>

text \<open>C39. The links between entities with different ids are those of the specification, whatever the order in which the entities
  are listed: a declared label gives a link exactly when one entity of the other side has that name and takes its owner out of
  the inference by name; the others are linked when their significant tokens agree, marked ambiguous exactly when one of the
  two has another partner.\<close>

theorem correlate_exact:
  assumes "distinct (map ce_id es)" "mset es' = mset es"
  shows "set (correlate es) = {l. correlation_spec (set es) l} \<and> correlate es' = correlate es"
  using correlate_set [OF assms(1)] correlate_order [OF assms] by blast

definition sample_entities :: "entity list" where
  "sample_entities =
     [\<lparr>ce_kind = KafkaTopic, ce_id = ''topic-orders'', ce_name = ''orders.raw'', ce_labels = []\<rparr>,
      \<lparr>ce_kind = FlinkJob, ce_id = ''job-orders'', ce_name = ''orders-sync'', ce_labels = []\<rparr>]"

theorem correlate_exact_witness:
  "correlate (rev sample_entities) = correlate sample_entities \<and> length (correlate sample_entities) = 1"
proof -
  have "distinct (map ce_id sample_entities)" "length (correlate sample_entities) = 1" by code_simp+
  then show ?thesis using correlate_exact [of sample_entities "rev sample_entities"] by simp
qed

section \<open>Flink\<close>

text \<open>C18. The answer about one pipeline is honest: when the jobs could not be listed it is ``unavailable''; a pipeline is given
  only when both its job and the job's details were read, is the projection of exactly these, and is healthy only while the
  job runs without a failed task or has finished. A job among the first hundred is reported missing only when its projection
  does not pass the response schema.\<close>

theorem flink_lookup_honest:
  assumes "buildSnapshot cfg now_iso summaries outcomes aborted = (snap, ttl)" "PIPELINE_ID_PATTERN i"
  shows "(\<forall>e. summaries = Inl e \<longrightarrow> pk_unavailable (getPipeline snap i))
    \<and> (\<forall>p. pk_pipeline (getPipeline snap i) = Some p \<longrightarrow> (\<exists>jobs s d. summaries = Inr jobs
        \<and> (s, Inr d) \<in> set (zip (take MAX_JOBS jobs) outcomes) \<and> i = pipelineIdFor (fj_jid s)
        \<and> p = candidate (fc_jobNamePrefix cfg) now_iso (s, Some d)
        \<and> (pl_status p = Healthy \<longleftrightarrow> fj_state s = ''RUNNING'' \<and> \<not> 0 < (case map_of (fj_tasks s) ''failed'' of Some n \<Rightarrow> n | None \<Rightarrow> 0)
            \<or> fj_state s = ''FINISHED'')))
    \<and> (\<forall>jobs s r. pk_pipeline (getPipeline snap i) = None \<and> \<not> pk_unavailable (getPipeline snap i) \<and> summaries = Inr jobs
        \<and> (s, r) \<in> set (zip (take MAX_JOBS jobs) outcomes) \<and> pipelineIdFor (fj_jid s) = i
        \<longrightarrow> \<not> pipeline_ok (candidate (fc_jobNamePrefix cfg) now_iso (s, detail_of r)))"
proof (cases summaries)
  case (Inl e)
  then have "pn_warnings snap = [warningFor e]" "pn_pipelines snap = []" using assms(1) by (auto simp: buildSnapshot_def)
  then show ?thesis using assms(2) Inl by (simp add: getPipeline_def warningFor_def flink_warning_def)
next
  case (Inr jobs)
  note built = assms(1) [unfolded Inr]
  show ?thesis using getPipeline_read [OF built assms(2)] Inr by (fastforce simp: mapState_healthy)
qed

definition sample_flink :: flink_config where
  "sample_flink = \<lparr>fc_baseUrl = ''http://flink'', fc_timeoutMs = 2000, fc_jobNamePrefix = ''beluga-'', fc_cacheTtlMs = 5000,
     fc_snapshotBudgetMs = 5000, fc_maxConcurrency = 8, fc_maxQueue = 64\<rparr>"

text \<open>Flink answers the list of jobs with the status 502.\<close>

definition sample_snapshot :: pipeline_snapshot where
  "sample_snapshot = \<lparr>pn_pipelines = [], pn_warnings = [warningFor \<lparr>fe_kind = FHttpError, fe_status = Some 502\<rparr>], pn_incomplete = []\<rparr>"

lemma sample_snapshot_built:
  "buildSnapshot sample_flink ''2026-07-11T05:00:00.000Z'' (Inl \<lparr>fe_kind = FHttpError, fe_status = Some 502\<rparr>) [] False = (sample_snapshot, 1000)"
  by (simp add: buildSnapshot_def snapshot_ttl_def transient_def TRANSIENT_KINDS_def sample_flink_def NEGATIVE_TTL_CAP_MS_def sample_snapshot_def)

theorem flink_lookup_honest_witness:
  "pk_unavailable (getPipeline sample_snapshot (''pl-flink-'' @ replicate 32 (CHR ''a'')))"
proof -
  have "PIPELINE_ID_PATTERN (''pl-flink-'' @ replicate 32 (CHR ''a''))" by code_simp
  then show ?thesis using flink_lookup_honest [OF sample_snapshot_built] by blast
qed





end
