(* ===== verification/Spec2Isabelle.thy ===== *)
theory Spec2Isabelle
  imports PolicyProperties SsoProperties GithubProperties ServerProperties UpstreamProperties
begin

text \<open>
  Verification of the Beluga Manager (\<open>src/manager/packages\<close>).

  The Manager has four parts with logic of their own, and the development follows them.

  \<^bold>\<open>The policy compiler\<close> (\<open>policy-compiler/src\<close>) turns one declaration of roles, groups, logins and
  resources into a Rego module for Trino, PostgreSQL DDL and a Keycloak specification, and compares the artifacts
  with the live state.

  \<^item> \<open>Prelude\<close>: results that may fail, the JavaScript library functions the sources use, lemmas about them.
  \<^item> \<open>Regex\<close>: anchored regular expressions with a backtracking matcher and captures; \<open>rx_test\<close> is the same test by
    derivatives.
  \<^item> \<open>PolicySchema\<close>: \<open>schema.ts\<close>, \<open>accessType.ts\<close>, \<open>pgrole.ts\<close>. Records for the strict objects, datatypes for the
    enums.
  \<^item> \<open>RoleGraph\<close>, \<open>Grammar\<close>, \<open>Validate\<close>: \<open>validate.ts\<close>. Role expansion is the reflexive-transitive closure of
    \<open>includes\<close>, the cycle search is exact, the row filter cannot end the expression it is put in, and an empty error
    list means \<open>well_formed\<close>.
  \<^item> \<open>Rego\<close>: \<open>compiler/rego.ts\<close>, the text line by line. \<open>RegoPolicy\<close>: the same output as rules with an evaluator of
    the conditions it emits, and what it allows, masks and filters in terms of the declaration.
  \<^item> \<open>PgDdl\<close>, \<open>Compiler\<close>: \<open>compiler/pgddl.ts\<close>, \<open>keycloak.ts\<close>, \<open>index.ts\<close>; the privileges the DDL gives, the token
    Keycloak issues.
  \<^item> \<open>Drift\<close>: \<open>drift.ts\<close>; an empty report means agreement (of
    groups as long as no role name read holds a comma), and the order of what was read does not matter.
  \<^item> \<open>PolicyProperties\<close>: the properties, with a sample declaration for the witnesses.

  \<^bold>\<open>The SSO change flow\<close> (\<open>domain-api/src/routes/ssoChanges.ts\<close>, \<open>sso-change\<close>, \<open>store\<close>, \<open>adapters/sso\<close>): an admin
  submits a patch of the declared SSO file, the Manager commits a request and an audit event, writes a branch and a
  pull request, and a reconciler in every replica follows the request through merge and deployment, or closes and
  compensates it.

  \<^item> \<open>SsoStore\<close>: \<open>ssoChangeStore.ts\<close> over the tables of \<open>manager-db/migrations\<close>: a record of rows and events, one
    function per statement or transaction, the constraints of the tables where the database checks them; the
    compare-and-set of \<open>transition\<close> and the invariant \<open>store_inv\<close>.
  \<^item> \<open>SsoSchema\<close>: \<open>schema/sso.ts\<close>. \<open>EditEngine\<close>: \<open>editEngine.ts\<close>, with the YAML, diff and hash packages as the
    parameter \<open>ext\<close>. \<open>PrText\<close>: \<open>prText.ts\<close>. \<open>SsoSource\<close>: the file adapter of \<open>ssoAdapter.ts\<close> and its cache.
  \<^item> \<open>SsoProg\<close>: handlers as trees of awaited calls; \<open>prog_step\<close> runs one against a database that may lose any call
    before or after its effect, every other answer being arbitrary; \<open>disciplined\<close> checks a tree call by call.
  \<^item> \<open>SsoReconciler\<close>: \<open>reconciler.ts\<close>, \<open>compensation.ts\<close>. \<open>SsoRoutes\<close>: the five routes with their gates and schemas.
  \<^item> \<open>Interleaving\<close>: the locale \<open>interleaving\<close> for programs in flight over a shared world. \<open>SsoSystem\<close> interprets it:
    any number of handlers and ticks of any number of replicas, interleaved call by call, with crashes.
  \<^item> \<open>SsoRun\<close>: running a program alone; the design of a reconciliation (\<open>next_stage\<close>) and the bound on the calls of a
    request. \<open>SsoSample\<close>: a concrete run. \<open>SsoProperties\<close>: the properties.

  \<^bold>\<open>The GitHub clients\<close> behind the interfaces of that flow.

  \<^item> \<open>Http\<close>: asynchronous methods as trees of synchronous pieces, awaited requests and joins of a shared promise; what
    such a tree may send (\<open>io_calls\<close>), what it promises under interleaving (\<open>io_spec\<close>), running it alone (\<open>io_run\<close>,
    \<open>io_serve\<close>). The locale \<open>service\<close> is a sublocale of \<open>interleaving\<close>.
  \<^item> \<open>GithubSource\<close>, \<open>SourceFacts\<close>: \<open>githubSsoAdapter.ts\<close> and its invariant (what the snapshot holds, how old it is,
    when GitHub may be asked).
  \<^item> \<open>GithubApp\<close>, \<open>AppFacts\<close>, \<open>AppWrite\<close>: \<open>githubApp.ts\<close>, the requests it may send, its deadlines and counts, and its
    convergence against a repository that answers (\<open>git_server\<close>).
  \<^item> \<open>GithubProperties\<close>: the properties, on a repository with one commit.

  \<^bold>\<open>The API server and its upstream adapters\<close> (\<open>domain-api/src\<close>: \<open>config.ts\<close>, \<open>auth\<close>, \<open>adapters\<close>, \<open>correlation\<close>,
  \<open>decision\<close>, the read-only routes).

  \<^item> \<open>Config\<close>: \<open>config.ts\<close> and \<open>auth/authConfig.ts\<close>, loaders over an environment. \<open>Auth\<close>: \<open>auth/oidc.ts\<close>,
    \<open>auth/middleware.ts\<close>, around the JWT library as a parameter that is called with the options of the source.
  \<^item> \<open>JsText\<close>: the JavaScript text functions of this part. \<open>AssetId\<close>: \<open>lib/assetId.ts\<close>, which percent-encodes
    the segments of an id. \<open>Listing\<close>: envelopes, pages, data assets.
  \<^item> \<open>Memo\<close>: \<open>memo.ts\<close>, the single-flight LRU cache, with its invariant over all calls and settlements. \<open>SlotPool\<close>: the
    locale \<open>slot_pool\<close> of a bounded number of slots with a queue, and its consequences; \<open>Upstream\<close> (\<open>httpClient.ts\<close>,
    \<open>tokenProvider.ts\<close>) interprets it.
  \<^item> \<open>Lakekeeper\<close>, \<open>LakekeeperFacts\<close>: \<open>lakekeeperCatalog.ts\<close> as programs over the requests; what it requests and how
    often. \<open>SqlRedaction\<close>: \<open>sqlRedaction.ts\<close> as a scanner; what it hides is
    stated over SQL as it is written. \<open>Correlation\<close>:
    \<open>correlation/rules.ts\<close> against a declarative specification of the links.
  \<^item> \<open>Decision\<close>: \<open>decision\<close>, the rule provider and the bulkhead as a step relation. \<open>Registry\<close>: \<open>adapters/registry.ts\<close> with
    arbitrary adapters. \<open>Routes\<close>: the handlers of the read-only routes.
  \<^item> \<open>JsDate\<close>: \<open>toISOString\<close>. \<open>Flink\<close> (\<open>adapters/flink/client.ts\<close>, the second interpretation of \<open>slot_pool\<close>, and
    \<open>mapping.ts\<close>) and \<open>FlinkAdapter\<close> (\<open>adapter.ts\<close>): the REST client, jobs as pipelines, the single-flight cache, the
    bounded fan-out, the snapshot with its warnings and the look-ups.
  \<^item> \<open>Kube\<close>: \<open>adapters/kubeClient.ts\<close>, \<open>kubeWorkload.ts\<close>, \<open>kubeEvents.ts\<close> and \<open>sso-change/argocdReader.ts\<close>, over the
    outcomes of the requests to the Kubernetes API. \<open>Wiring\<close>: \<open>adapters/upstream/config.ts\<close>, \<open>createSsoAdapterFromEnv\<close>,
    \<open>adapters/runtime.ts\<close> and \<open>wiring.ts\<close>, from the environment to the parts of the application, and what a start that
    succeeds has checked.
  \<^item> \<open>ServerProperties\<close>, \<open>UpstreamProperties\<close>: the properties, with their samples.

  \<^bold>\<open>Conventions.\<close> Strings are UTF-8 bytes and \<open>localeCompare\<close>-free comparisons are byte comparisons; lower-casing is
  that of ASCII. JSON numbers are integers. Times are milliseconds, microseconds in the database (\<open>now()\<close>), rationals
  where JavaScript divides. An exception is an \<open>Inl\<close>. Packages, the file system, GitHub, ArgoCD and Keycloak are
  parameters or arbitrary answers; a hypothesis about one of them states its documented behaviour (\<open>truthful\<close>,
  \<open>git_server\<close>) and has an instance in a witness. The summaries zod writes into messages and log lines are left out.

  \<^bold>\<open>Bounds.\<close> No definition has fuel: programs are well-founded trees, and the loops of the sources are over lists or
  bounded (five list pages). A route makes at most nine awaited calls, \<open>createChangePr\<close> sends at most 28 requests,
  \<open>getSsoConfig\<close> at most two, and a listing of the catalog waits for at most 21 (ten pages of 100
  namespaces, ten of tables, the configuration).

  \<^bold>\<open>Not modelled.\<close> The YAML parser and the zod runtime (libraries): a schema is a check of the model where the code relies
  on it, and the response schemas are left out; \<open>createPgPool\<close>, process start and shutdown (I/O); OpenAPI metadata; stub data;
  React views and message tables; the CI scripts.
\<close>

end
